(* ===== verification/Viden_Prelude.thy ===== *)
theory Viden_Prelude
  imports Main "HOL-Library.Word" "HOL-Library.Char_ord" "HOL-Library.List_Lexorder"
    "HOL-Library.Sublist"
begin

text \<open>
  Shared vocabulary of the development: machine integers with Rust's saturating operations,
  the \<open>Result<T, String>\<close> of the code as a sum with the error message on the left, the part of
  \<open>str\<close> the code calls (a Rust string is its list of UTF-8 bytes, so \<open>len\<close> is
  \<open>length\<close> and \<open>chars\<close> groups bytes), and list lemmas several components use.
\<close>

named_theorems res_simps "unfolding of results and sequences of checks"

section \<open>Machine integers\<close>

type_synonym u8 = "8 word"
type_synonym u16 = "16 word"
type_synonym u32 = "32 word"
type_synonym u64 = "64 word"

definition sat_add :: "'a::len word \<Rightarrow> 'a word \<Rightarrow> 'a word" where
  "sat_add a b = (if unat a + unat b < 2 ^ LENGTH('a) then a + b else - 1)"

definition sat_mul :: "'a::len word \<Rightarrow> 'a word \<Rightarrow> 'a word" where
  "sat_mul a b = (if unat a * unat b < 2 ^ LENGTH('a) then a * b else - 1)"

definition sat_sub :: "'a::len word \<Rightarrow> 'a word \<Rightarrow> 'a word" where
  "sat_sub a b = (if a < b then 0 else a - b)"

lemma unat_max_word: "unat (- 1 :: 'a::len word) = 2 ^ LENGTH('a) - 1"
  by (simp add: unsigned_minus_1_eq_mask mask_eq_exp_minus_1)

lemma unat_sat_add:
  "unat (sat_add a b) = min (unat a + unat b) (2 ^ LENGTH('a) - 1)" for a b :: "'a::len word"
  by (auto simp: sat_add_def unat_max_word unat_word_ariths min_def)

lemma unat_sat_mul:
  "unat (sat_mul a b) = min (unat a * unat b) (2 ^ LENGTH('a) - 1)" for a b :: "'a::len word"
proof (cases "unat a * unat b < 2 ^ LENGTH('a)")
  case True
  then have "unat a * unat b \<le> 2 ^ LENGTH('a) - 1"
    by linarith
  with True show ?thesis
    by (simp add: sat_mul_def unat_word_ariths)
next
  case False
  then have "2 ^ LENGTH('a) - 1 \<le> unat a * unat b"
    by linarith
  with False show ?thesis
    by (simp add: sat_mul_def unat_max_word)
qed

lemma sat_add_ge: "a \<le> sat_add a b" for a b :: "'a::len word"
proof -
  have "unat a < 2 ^ LENGTH('a)"
    by (rule unsigned_less)
  then have "unat a \<le> 2 ^ LENGTH('a) - 1"
    by linarith
  then show ?thesis
    by (simp add: word_le_nat_alt unat_sat_add)
qed

section \<open>Results\<close>

text \<open>\<open>Result<T, String>\<close>: the message on the left, the value on the right.\<close>

type_synonym 'a res = "string + 'a"

abbreviation Err :: "string \<Rightarrow> 'a res" where "Err \<equiv> Inl"
abbreviation Ok :: "'a \<Rightarrow> 'a res" where "Ok \<equiv> Inr"

definition is_ok :: "'e + 'a \<Rightarrow> bool" where
  "is_ok r = (case r of Inl _ \<Rightarrow> False | Inr _ \<Rightarrow> True)"

lemma is_ok_simps [simp]: "is_ok (Inr x)" "\<not> is_ok (Inl e)"
  by (simp_all add: is_ok_def)

lemma is_ok_iff: "is_ok r \<longleftrightarrow> (\<exists>x. r = Inr x)"
  by (cases r) auto

text \<open>The \<open>?\<close> operator: go on with the value, or return the error.\<close>

definition try_then :: "'e + 'a \<Rightarrow> ('a \<Rightarrow> 'e + 'b) \<Rightarrow> 'e + 'b" where
  "try_then r f = (case r of Inl e \<Rightarrow> Inl e | Inr x \<Rightarrow> f x)"

lemma try_then_simps [simp]:
  "try_then (Inl e) f = Inl e" "try_then (Inr x) f = f x"
  by (simp_all add: try_then_def)

lemma try_then_Inr [res_simps]: "try_then r f = Inr y \<longleftrightarrow> (\<exists>x. r = Inr x \<and> f x = Inr y)"
  by (cases r) auto

lemma try_then_Inl [res_simps]:
  "try_then r f = Inl e \<longleftrightarrow> r = Inl e \<or> (\<exists>x. r = Inr x \<and> f x = Inl e)"
  by (cases r) auto

text \<open>An early return: \<open>if !condition { return Err(message) }\<close>.\<close>

definition ensure :: "bool \<Rightarrow> string \<Rightarrow> unit res" where
  "ensure b msg = (if b then Ok () else Err msg)"

lemma ensure_ok [simp]: "is_ok (ensure b msg) \<longleftrightarrow> b"
  by (simp add: ensure_def)

lemma ensure_Inr [res_simps]: "ensure b msg = Inr u \<longleftrightarrow> b"
  by (simp add: ensure_def)

text \<open>A sequence of checks, each with its own early return; the first failing one answers.\<close>

fun guarded :: "unit res list \<Rightarrow> 'a res \<Rightarrow> 'a res" where
  "guarded [] k = k"
| "guarded (c # cs) k = (case c of Inl e \<Rightarrow> Inl e | Inr _ \<Rightarrow> guarded cs k)"

lemma guarded_Inr [res_simps]:
  "guarded cs k = Inr y \<longleftrightarrow> (\<forall>c\<in>set cs. is_ok c) \<and> k = Inr y"
  by (induction cs) (auto split: sum.splits)

lemma guarded_ok [res_simps]: "is_ok (guarded cs k) \<longleftrightarrow> (\<forall>c\<in>set cs. is_ok c) \<and> is_ok k"
  by (induction cs) (auto split: sum.splits)

text \<open>Checks in one loop, and in two nested ones.\<close>

lemma checks_loop [res_simps]:
  "(\<forall>c\<in>set (map (\<lambda>x. ensure (P x) (m x)) xs). is_ok c) \<longleftrightarrow> (\<forall>x\<in>set xs. P x)"
  by simp

lemma checks_nested [res_simps]:
  "(\<forall>c\<in>set (concat (map (\<lambda>x. map (\<lambda>y. ensure (P x y) (m x y)) (f x)) xs)). is_ok c)
   \<longleftrightarrow> (\<forall>x\<in>set xs. \<forall>y\<in>set (f x). P x y)"
  by simp

text \<open>Proofs read a sequence of checks by the two lemmas; its equations serve evaluation only.\<close>

declare guarded.simps [simp del]
lemmas guarded_eval = guarded.simps ensure_def

text \<open>The message of a mapped error, as \<open>map_err\<close> gives it.\<close>

definition map_err :: "('e \<Rightarrow> 'f) \<Rightarrow> 'e + 'a \<Rightarrow> 'f + 'a" where
  "map_err f r = (case r of Inl e \<Rightarrow> Inl (f e) | Inr x \<Rightarrow> Inr x)"

lemma map_err_Inr [simp]: "map_err f r = Inr x \<longleftrightarrow> r = Inr x"
  by (cases r) (auto simp: map_err_def)

lemma is_ok_map_err [simp]: "is_ok (map_err f r) = is_ok r"
  by (cases r) (auto simp: map_err_def)

definition ok_or :: "'a option \<Rightarrow> string \<Rightarrow> 'a res" where
  "ok_or x msg = (case x of None \<Rightarrow> Err msg | Some y \<Rightarrow> Ok y)"

lemma ok_or_Inr [res_simps]: "ok_or x msg = Inr y \<longleftrightarrow> x = Some y"
  by (simp add: ok_or_def split: option.splits)

lemma is_ok_ok_or [simp]: "is_ok (ok_or x msg) \<longleftrightarrow> x \<noteq> None"
  by (simp add: ok_or_def split: option.splits)

lemma set_map_filter: "y \<in> set (List.map_filter f xs) \<longleftrightarrow> (\<exists>x\<in>set xs. f x = Some y)"
  by (induction xs) (auto simp: List.map_filter_simps split: option.splits)

section \<open>Strings as UTF-8 bytes\<close>

abbreviation byte :: "char \<Rightarrow> nat" where "byte c \<equiv> of_char c"

text \<open>A byte of the form \<open>10xxxxxx\<close> continues the character before it.\<close>

definition is_cont :: "char \<Rightarrow> bool" where
  "is_cont c \<longleftrightarrow> 128 \<le> byte c \<and> byte c < 192"

text \<open>\<open>str::chars\<close>: the characters, each as the bytes it is encoded by.\<close>

function utf8_chars :: "string \<Rightarrow> string list" where
  "utf8_chars [] = []"
| "utf8_chars (c # cs) = (c # takeWhile is_cont cs) # utf8_chars (dropWhile is_cont cs)"
  by pat_completeness auto
termination
  by (relation "measure length") (auto simp: le_imp_less_Suc length_dropWhile_le)

lemma concat_utf8_chars [simp]: "concat (utf8_chars s) = s"
  by (induction s rule: utf8_chars.induct) auto

text \<open>\<open>char::is_whitespace\<close> (the Unicode property White_Space) and \<open>char::is_control\<close> (Cc).\<close>

definition is_whitespace_char :: "string \<Rightarrow> bool" where
  "is_whitespace_char g \<longleftrightarrow> (let b = map byte g in
     (length b = 1 \<and> (9 \<le> hd b \<and> hd b \<le> 13 \<or> hd b = 32))
     \<or> b = [194, 133] \<or> b = [194, 160] \<or> b = [225, 154, 128]
     \<or> (length b = 3 \<and> take 2 b = [226, 128]
         \<and> (128 \<le> last b \<and> last b \<le> 138 \<or> last b \<in> {168, 169, 175}))
     \<or> b = [226, 129, 159] \<or> b = [227, 128, 128])"

definition is_control_char :: "string \<Rightarrow> bool" where
  "is_control_char g \<longleftrightarrow> (let b = map byte g in
     (length b = 1 \<and> (hd b < 32 \<or> hd b = 127))
     \<or> (length b = 2 \<and> hd b = 194 \<and> 128 \<le> last b \<and> last b < 160))"

definition trim_by :: "('a \<Rightarrow> bool) \<Rightarrow> 'a list \<Rightarrow> 'a list" where
  "trim_by P xs = rev (dropWhile P (rev (dropWhile P xs)))"

definition str_trim :: "string \<Rightarrow> string" where
  "str_trim s = concat (trim_by is_whitespace_char (utf8_chars s))"

lemma trim_by_hd: "trim_by P xs = y # ys \<Longrightarrow> \<not> P y"
proof -
  assume eq: "trim_by P xs = y # ys"
  then have "prefix (y # ys) (dropWhile P xs)"
    unfolding trim_by_def by (metis rev_rev_ident suffix_dropWhile suffix_to_prefix)
  then obtain zs where "dropWhile P xs = y # zs"
    by (auto simp: prefix_def)
  then show ?thesis
    by (simp add: dropWhile_eq_Cons_conv)
qed

lemma length_trim_by: "length (trim_by P xs) \<le> length xs"
  unfolding trim_by_def using length_dropWhile_le le_trans by (metis length_rev)

lemma set_trim_by: "set (trim_by P xs) \<subseteq> set xs"
  unfolding trim_by_def by (auto dest!: set_dropWhileD)

text \<open>\<open>truncate_for_preview\<close> and the ASCII classes of \<open>u8\<close>.\<close>

definition truncate_for_preview :: "string \<Rightarrow> nat \<Rightarrow> string" where
  "truncate_for_preview s n =
     (if n < length (utf8_chars s) then concat (take n (utf8_chars s)) @ ''...'' else s)"

definition is_ascii :: "char \<Rightarrow> bool" where "is_ascii c \<longleftrightarrow> byte c < 128"
definition is_ascii_lowercase :: "char \<Rightarrow> bool" where
  "is_ascii_lowercase c \<longleftrightarrow> 97 \<le> byte c \<and> byte c \<le> 122"
definition is_ascii_uppercase :: "char \<Rightarrow> bool" where
  "is_ascii_uppercase c \<longleftrightarrow> 65 \<le> byte c \<and> byte c \<le> 90"
definition is_ascii_digit :: "char \<Rightarrow> bool" where
  "is_ascii_digit c \<longleftrightarrow> 48 \<le> byte c \<and> byte c \<le> 57"
definition is_ascii_alphanumeric :: "char \<Rightarrow> bool" where
  "is_ascii_alphanumeric c \<longleftrightarrow> is_ascii_lowercase c \<or> is_ascii_uppercase c \<or> is_ascii_digit c"
definition to_ascii_lowercase :: "string \<Rightarrow> string" where
  "to_ascii_lowercase s = map (\<lambda>c. if is_ascii_uppercase c then char_of (byte c + 32) else c) s"

section \<open>Searching and splitting strings\<close>

text \<open>\<open>str::contains\<close>, \<open>str::split\<close> on one byte, \<open>str::split_once\<close> and \<open>join\<close>.\<close>

fun str_contains :: "string \<Rightarrow> string \<Rightarrow> bool" where
  "str_contains p [] = (p = [])"
| "str_contains p (c # s) = (prefix p (c # s) \<or> str_contains p s)"

lemma str_contains_sublist: "str_contains p s \<longleftrightarrow> sublist p s"
  by (induction s) (auto simp: sublist_Cons_right)

lemma str_contains_refl [simp]: "str_contains s s"
  by (simp add: str_contains_sublist)

lemma str_contains_empty [simp]: "str_contains [] s"
  by (simp add: str_contains_sublist)

fun split_on :: "char \<Rightarrow> string \<Rightarrow> string list" where
  "split_on d [] = [[]]"
| "split_on d (c # s) =
     (if c = d then [] # split_on d s
      else (case split_on d s of [] \<Rightarrow> [[c]] | seg # segs \<Rightarrow> (c # seg) # segs))"

lemma split_on_nonempty [simp]: "split_on d s \<noteq> []"
  by (induction s) (auto split: list.splits)

fun join :: "string \<Rightarrow> string list \<Rightarrow> string" where
  "join sep [] = []"
| "join sep [s] = s"
| "join sep (s # t # ss) = s @ sep @ join sep (t # ss)"

lemma split_on_append:
  "d \<notin> set s \<Longrightarrow> split_on d (s @ d # t) = s # split_on d t"
  by (induction s) auto

lemma split_on_no_sep: "d \<notin> set s \<Longrightarrow> split_on d s = [s]"
  by (induction s) auto

lemma split_on_join:
  "ss \<noteq> [] \<Longrightarrow> (\<And>s. s \<in> set ss \<Longrightarrow> d \<notin> set s) \<Longrightarrow> split_on d (join [d] ss) = ss"
  by (induction "[d]" ss rule: join.induct) (auto simp: split_on_append split_on_no_sep)

lemma split_on_segments: "s \<in> set (split_on d t) \<Longrightarrow> d \<notin> set s"
  by (induction t arbitrary: s) (auto split: if_splits list.splits)

lemma join_split_on: "join [d] (split_on d s) = s"
proof (induction s)
  case (Cons c s)
  obtain seg segs where sp: "split_on d s = seg # segs"
    by (cases "split_on d s") auto
  with Cons show ?case
    by (cases segs) auto
qed simp

fun split_once :: "char \<Rightarrow> string \<Rightarrow> (string \<times> string) option" where
  "split_once d [] = None"
| "split_once d (c # s) =
     (if c = d then Some ([], s)
      else map_option (\<lambda>(a, b). (c # a, b)) (split_once d s))"

lemma split_once_append: "d \<notin> set a \<Longrightarrow> split_once d (a @ d # b) = Some (a, b)"
  by (induction a) auto

lemma split_once_Some: "split_once d s = Some (a, b) \<Longrightarrow> s = a @ d # b \<and> d \<notin> set a"
  by (induction s arbitrary: a) (auto split: if_splits)

definition strip_prefix :: "string \<Rightarrow> string \<Rightarrow> string option" where
  "strip_prefix p s = (if prefix p s then Some (drop (length p) s) else None)"

lemma strip_prefix_append [simp]: "strip_prefix p (p @ s) = Some s"
  by (simp add: strip_prefix_def)

section \<open>Decimal numbers\<close>

text \<open>\<open>Display\<close> for unsigned integers, and \<open>str::parse\<close>, which takes an optional plus sign.\<close>

definition digit_char :: "nat \<Rightarrow> char" where "digit_char d = char_of (48 + d)"

fun show_nat :: "nat \<Rightarrow> string" where
  "show_nat n = (if n < 10 then [digit_char n] else show_nat (n div 10) @ [digit_char (n mod 10)])"

declare show_nat.simps [simp del]

definition digits_value :: "string \<Rightarrow> nat" where
  "digits_value = foldl (\<lambda>n c. 10 * n + (byte c - 48)) 0"

definition parse_uint :: "nat \<Rightarrow> string \<Rightarrow> nat option" where
  "parse_uint limit s =
     (let ds = (case s of c # t \<Rightarrow> if c = CHR ''+'' then t else s | [] \<Rightarrow> s)
      in if ds = [] \<or> \<not> list_all is_ascii_digit ds \<or> limit \<le> digits_value ds then None
         else Some (digits_value ds))"

lemma byte_digit_char: "d < 10 \<Longrightarrow> byte (digit_char d) = 48 + d"
  by (simp add: digit_char_def)

lemma is_ascii_digit_char: "d < 10 \<Longrightarrow> is_ascii_digit (digit_char d)"
  by (simp add: is_ascii_digit_def byte_digit_char)

lemma show_nat_digits: "list_all is_ascii_digit (show_nat n)"
proof (induction n rule: show_nat.induct)
  case (1 n)
  then show ?case
    by (subst show_nat.simps) (auto simp: is_ascii_digit_char)
qed

lemma show_nat_nonempty [simp]: "show_nat n \<noteq> []"
  by (subst show_nat.simps) simp

lemma digits_value_show: "digits_value (show_nat n) = n"
proof (induction n rule: show_nat.induct)
  case (1 n)
  show ?case
  proof (cases "n < 10")
    case True
    then show ?thesis
      by (subst show_nat.simps) (simp add: digits_value_def byte_digit_char)
  next
    case False
    with 1 have "digits_value (show_nat (n div 10)) = n div 10"
      by simp
    with False show ?thesis
      by (subst show_nat.simps) (simp add: digits_value_def byte_digit_char)
  qed
qed

lemma parse_show: "n < limit \<Longrightarrow> parse_uint limit (show_nat n) = Some n"
proof -
  assume lt: "n < limit"
  obtain c t where s: "show_nat n = c # t"
    by (cases "show_nat n") auto
  have "is_ascii_digit c"
    using show_nat_digits [of n] s by simp
  then have "c \<noteq> CHR ''+''"
    by (auto simp: is_ascii_digit_def)
  with s lt show ?thesis
    using digits_value_show [of n] show_nat_digits [of n] by (simp add: parse_uint_def)
qed

lemma show_nat_not_in: "\<not> is_ascii_digit d \<Longrightarrow> d \<notin> set (show_nat n)"
  using show_nat_digits [of n] by (auto simp: list_all_iff)

section \<open>Further string functions\<close>

definition replace_char :: "char \<Rightarrow> char \<Rightarrow> string \<Rightarrow> string" where
  "replace_char a b = List.map (\<lambda>c. if c = a then b else c)"

definition starts_with :: "string \<Rightarrow> string \<Rightarrow> bool" where
  "starts_with p s = prefix p s"

definition starts_with_any :: "string \<Rightarrow> string \<Rightarrow> bool" where
  "starts_with_any cs s \<longleftrightarrow> s \<noteq> [] \<and> hd s \<in> set cs"

definition ends_with_any :: "string \<Rightarrow> string \<Rightarrow> bool" where
  "ends_with_any cs s \<longleftrightarrow> s \<noteq> [] \<and> last s \<in> set cs"

definition has_control_char :: "string \<Rightarrow> bool" where
  "has_control_char s = list_ex is_control_char (utf8_chars s)"

text \<open>\<open>str::split_whitespace\<close>: the maximal runs of characters that are not white space.\<close>

fun split_whitespace_chars :: "string list \<Rightarrow> string \<Rightarrow> string list" where
  "split_whitespace_chars [] acc = (if acc = [] then [] else [acc])"
| "split_whitespace_chars (c # cs) acc =
     (if is_whitespace_char c
      then (if acc = [] then split_whitespace_chars cs [] else acc # split_whitespace_chars cs [])
      else split_whitespace_chars cs (acc @ c))"

definition split_whitespace :: "string \<Rightarrow> string list" where
  "split_whitespace s = split_whitespace_chars (utf8_chars s) []"

text \<open>The identifier charset shared by audit ids and trust ids.\<close>

definition safe_identifier :: "nat \<Rightarrow> string \<Rightarrow> bool" where
  "safe_identifier max_bytes s \<longleftrightarrow>
     s \<noteq> [] \<and> length s \<le> max_bytes \<and> list_all is_ascii s
     \<and> list_all (\<lambda>c. is_ascii_alphanumeric c \<or> c \<in> set ''-_.:'') s
     \<and> \<not> str_contains ''..'' s \<and> \<not> starts_with_any ''.:-_'' s \<and> \<not> ends_with_any ''.:-_'' s"

end
