(* ===== verification/Keyed_Store.thy ===== *)
theory Keyed_Store
  imports Viden_Prelude
begin

text \<open>
  The interface every keyed collection of the program offers: \<open>BTreeMap::insert\<close>/\<open>get\<close>,
  and the ``replace the record with this id, or push'' helpers over vectors
  (\<open>upsert_dependency\<close>, \<open>upsert_conflict\<close>, \<open>upsert_agent_task\<close>, ...). A client of the
  interface only needs what a lookup returns after a write.
\<close>

locale keyed_store =
  fixes key_of :: "'v \<Rightarrow> 'k"
    and find_key :: "'k \<Rightarrow> 's \<Rightarrow> 'v option"
    and put :: "'v \<Rightarrow> 's \<Rightarrow> 's"
    and inv :: "'s \<Rightarrow> bool"
  assumes find_put: "inv s \<Longrightarrow> find_key k (put v s) = (if key_of v = k then Some v else find_key k s)"
    and inv_put: "inv s \<Longrightarrow> inv (put v s)"
begin

lemma inv_fold_put: "inv s \<Longrightarrow> inv (fold put vs s)"
  by (induction vs arbitrary: s) (auto simp: inv_put)

text \<open>After a sequence of writes the last one for a key is the one found.\<close>

lemma find_fold_put:
  "inv s \<Longrightarrow> find_key k (fold put vs s) =
     (case find (\<lambda>v. key_of v = k) (rev vs) of Some v \<Rightarrow> Some v | None \<Rightarrow> find_key k s)"
proof (induction vs rule: rev_induct)
  case (snoc v vs)
  then show ?case
    by (auto simp: find_put inv_fold_put)
qed simp

lemma put_idem: "inv s \<Longrightarrow> find_key k (put v (put v s)) = find_key k (put v s)"
  by (simp add: find_put inv_put)

lemma put_commute:
  "inv s \<Longrightarrow> key_of v \<noteq> key_of w \<Longrightarrow> find_key k (put v (put w s)) = find_key k (put w (put v s))"
  by (auto simp: find_put inv_put)

end

section \<open>Vectors of records with an identity\<close>

text \<open>
  The shape all the \<open>upsert_*\<close> helpers share: overwrite the first record with the same key, or
  push the new one at the end.
\<close>

fun upsert_by :: "('v \<Rightarrow> 'k) \<Rightarrow> 'v \<Rightarrow> 'v list \<Rightarrow> 'v list" where
  "upsert_by key v [] = [v]"
| "upsert_by key v (r # rs) = (if key r = key v then v # rs else r # upsert_by key v rs)"

definition find_by :: "('v \<Rightarrow> 'k) \<Rightarrow> 'k \<Rightarrow> 'v list \<Rightarrow> 'v option" where
  "find_by key k rs = find (\<lambda>r. key r = k) rs"

lemma find_by_simps [simp]:
  "find_by key k [] = None"
  "find_by key k (r # rs) = (if key r = k then Some r else find_by key k rs)"
  by (simp_all add: find_by_def)

lemma find_by_Some: "find_by key k rs = Some r \<Longrightarrow> r \<in> set rs \<and> key r = k"
  by (auto simp: find_by_def find_Some_iff)

lemma find_by_None: "find_by key k rs = None \<longleftrightarrow> k \<notin> key ` set rs"
  by (auto simp: find_by_def find_None_iff)

lemma find_by_upsert_by:
  "find_by key k (upsert_by key v rs) = (if key v = k then Some v else find_by key k rs)"
  by (induction rs) auto

lemma keys_upsert_by: "key ` set (upsert_by key v rs) = insert (key v) (key ` set rs)"
  by (induction rs) auto

lemma distinct_upsert_by:
  "distinct (map key rs) \<Longrightarrow> distinct (map key (upsert_by key v rs))"
proof (induction rs)
  case (Cons r rs)
  then show ?case
    using keys_upsert_by [of key v rs] by (auto simp flip: image_set)
qed simp

lemma set_upsert_by: "set (upsert_by key v rs) \<subseteq> insert v (set rs)"
  by (induction rs) auto

lemma upsert_by_new: "key v \<notin> key ` set rs \<Longrightarrow> upsert_by key v rs = rs @ [v]"
  by (induction rs) auto

lemma in_upsert_by: "v \<in> set (upsert_by key v rs)"
  by (induction rs) auto

text \<open>Records under other keys stay; with unique keys, exactly the old record goes.\<close>

lemma upsert_by_other: "r \<in> set rs \<Longrightarrow> key r \<noteq> key v \<Longrightarrow> r \<in> set (upsert_by key v rs)"
  by (induction rs) auto

lemma set_upsert_by_distinct:
  "distinct (map key rs) \<Longrightarrow>
   set (upsert_by key v rs) = insert v {r \<in> set rs. key r \<noteq> key v}"
proof (induction rs)
  case (Cons r rs)
  then show ?case
    by (auto simp: image_iff)
qed simp

end
