(* ===== verification/Tool_Input.thy ===== *)
theory Tool_Input
  imports Keyed_Store
begin

text \<open>
  \<open>ToolInput\<close> (\<open>crates/types/src/lib.rs\<close>), a \<open>BTreeMap<String, String>\<close>, as the list of its
  entries in key order, and its text encodings. The encoded form is what permission rules,
  standing approvals and execution clearances are keyed on.
\<close>

type_synonym tool_input = "(string \<times> string) list"

definition wf_input :: "tool_input \<Rightarrow> bool" where
  "wf_input m \<longleftrightarrow> sorted_wrt (<) (map fst m)"

fun input_insert :: "string \<times> string \<Rightarrow> tool_input \<Rightarrow> tool_input" where
  "input_insert (k, v) [] = [(k, v)]"
| "input_insert (k, v) ((a, b) # m) =
     (if k < a then (k, v) # (a, b) # m
      else if k = a then (k, v) # m
      else (a, b) # input_insert (k, v) m)"

definition input_get :: "string \<Rightarrow> tool_input \<Rightarrow> string option" where
  "input_get k m = map_of m k"

definition input_entry :: "string \<Rightarrow> tool_input \<Rightarrow> (string \<times> string) option" where
  "input_entry k m = map_option (Pair k) (input_get k m)"

lemma wf_input_simps [simp]:
  "wf_input []"
  "wf_input ((k, v) # m) \<longleftrightarrow> (\<forall>(a, b)\<in>set m. k < a) \<and> wf_input m"
  by (auto simp: wf_input_def)

lemma set_input_insert: "fst ` set (input_insert kv m) = insert (fst kv) (fst ` set m)"
  by (induction kv m rule: input_insert.induct) auto

lemma input_get_insert:
  "wf_input m \<Longrightarrow> input_get a (input_insert (k, v) m) = (if k = a then Some v else input_get a m)"
proof (induction "(k, v)" m rule: input_insert.induct)
  case (2 a' b m)
  then show ?case
    by (auto simp: input_get_def)
qed (simp add: input_get_def)

lemma wf_input_insert: "wf_input m \<Longrightarrow> wf_input (input_insert kv m)"
proof (induction kv m rule: input_insert.induct)
  case (2 k v a b m)
  have "x \<in> fst ` set (input_insert (k, v) m) \<Longrightarrow> x = k \<or> x \<in> fst ` set m" for x
    using set_input_insert [of "(k, v)" m] by auto
  with 2 show ?case
    by (force simp: image_iff)
qed auto

interpretation inp: keyed_store fst input_entry input_insert wf_input
proof unfold_locales
  fix m k and v :: "string \<times> string"
  assume "wf_input m"
  then show "input_entry k (input_insert v m) = (if fst v = k then Some v else input_entry k m)"
    by (cases v) (auto simp: input_entry_def input_get_insert)
qed (rule wf_input_insert)

lemma input_insert_last:
  "(\<And>a b. (a, b) \<in> set m \<Longrightarrow> a < k) \<Longrightarrow> input_insert (k, v) m = m @ [(k, v)]"
proof (induction m)
  case (Cons ab m)
  obtain a b where ab: "ab = (a, b)"
    by fastforce
  with Cons.prems [of a b] have "a < k"
    by simp
  moreover have "input_insert (k, v) m = m @ [(k, v)]"
    by (rule Cons.IH) (use Cons.prems in auto)
  ultimately show ?case
    using ab by auto
qed simp

section \<open>The tab-separated encoding\<close>

abbreviation TAB :: char where "TAB \<equiv> CHR 0x09"
abbreviation BSLASH :: char where "BSLASH \<equiv> CHR 0x5C"

definition escape_tabs :: "string \<Rightarrow> string" where
  "escape_tabs v = concat (map (\<lambda>c. if c = TAB then [BSLASH, CHR ''t''] else [c]) v)"

text \<open>\<open>value.replace("\\t", "\t")\<close>: left to right, without overlap.\<close>

fun unescape_tabs :: "string \<Rightarrow> string" where
  "unescape_tabs (c # d # s) =
     (if c = BSLASH \<and> d = CHR ''t'' then TAB # unescape_tabs s
      else c # unescape_tabs (d # s))"
| "unescape_tabs s = s"

definition encode_tool_input :: "tool_input \<Rightarrow> string" where
  "encode_tool_input m = join [TAB] (map (\<lambda>(k, v). k @ ''='' @ escape_tabs v) m)"

definition decode_part :: "string \<Rightarrow> tool_input \<Rightarrow> tool_input" where
  "decode_part part m =
     (case split_once (CHR ''='') part of
        None \<Rightarrow> m
      | Some (k, v) \<Rightarrow> input_insert (k, unescape_tabs v) m)"

definition decode_tool_input :: "string \<Rightarrow> tool_input" where
  "decode_tool_input s = fold decode_part (filter (\<lambda>p. p \<noteq> []) (split_on TAB s)) []"

text \<open>
  A value that already holds a backslash followed by the letter t, or a key that holds a tab or
  an equals sign, is not represented faithfully by the encoding.
\<close>

definition plain_value :: "string \<Rightarrow> bool" where
  "plain_value v \<longleftrightarrow> \<not> str_contains [BSLASH, CHR ''t''] v"

definition plain_input :: "tool_input \<Rightarrow> bool" where
  "plain_input m \<longleftrightarrow>
     (\<forall>(k, v)\<in>set m. TAB \<notin> set k \<and> CHR ''='' \<notin> set k \<and> plain_value v)"

lemma escape_tabs_simps [simp]:
  "escape_tabs [] = []"
  "escape_tabs (c # v) = (if c = TAB then BSLASH # CHR ''t'' # escape_tabs v else c # escape_tabs v)"
  by (simp_all add: escape_tabs_def)

lemma TAB_notin_escape [simp]: "TAB \<notin> set (escape_tabs v)"
  by (induction v) auto

lemma unescape_keep: "c \<noteq> BSLASH \<or> (s = [] \<or> hd s \<noteq> CHR ''t'') \<Longrightarrow> unescape_tabs (c # s) = c # unescape_tabs s"
  by (cases s) auto

lemma plain_value_Cons:
  "plain_value (c # v) \<Longrightarrow> plain_value v \<and> (c = BSLASH \<longrightarrow> v = [] \<or> hd v \<noteq> CHR ''t'')"
  by (cases v) (auto simp: plain_value_def)

lemma unescape_escape: "plain_value v \<Longrightarrow> unescape_tabs (escape_tabs v) = v"
proof (induction v)
  case (Cons c v)
  then have IH: "unescape_tabs (escape_tabs v) = v"
    using plain_value_Cons by blast
  show ?case
  proof (cases "c = TAB")
    case True
    with IH show ?thesis by simp
  next
    case False
    have "c \<noteq> BSLASH \<or> (escape_tabs v = [] \<or> hd (escape_tabs v) \<noteq> CHR ''t'')"
      using plain_value_Cons [OF Cons.prems] by (cases v) auto
    with False IH show ?thesis
      by (simp add: unescape_keep)
  qed
qed simp

lemma decode_encoded_part:
  assumes "CHR ''='' \<notin> set k" "plain_value v"
  shows "decode_part (k @ ''='' @ escape_tabs v) m = input_insert (k, v) m"
  using assms by (simp add: decode_part_def split_once_append unescape_escape)

lemma fold_decode_parts:
  assumes "plain_input m" "wf_input (acc @ m)"
  shows "fold decode_part (map (\<lambda>(k, v). k @ ''='' @ escape_tabs v) m) acc = acc @ m"
  using assms
proof (induction m arbitrary: acc)
  case (Cons kv m)
  obtain k v where kv: "kv = (k, v)"
    by fastforce
  have "input_insert (k, v) acc = acc @ [(k, v)]"
    by (rule input_insert_last) (use Cons.prems kv in \<open>auto simp: wf_input_def sorted_wrt_append\<close>)
  moreover have "decode_part (k @ ''='' @ escape_tabs v) acc = input_insert (k, v) acc"
    by (rule decode_encoded_part) (use Cons.prems kv in \<open>auto simp: plain_input_def\<close>)
  moreover have "plain_input m"
    using Cons.prems by (simp add: plain_input_def)
  ultimately show ?case
    using Cons.IH [of "acc @ [(k, v)]"] Cons.prems kv by simp
qed simp

lemma decode_encode:
  assumes "wf_input m" "plain_input m"
  shows "decode_tool_input (encode_tool_input m) = m"
proof (cases "m = []")
  case False
  let ?parts = "map (\<lambda>(k, v). k @ ''='' @ escape_tabs v) m"
  have notab: "TAB \<notin> set p" if "p \<in> set ?parts" for p
    using that assms(2) by (auto simp: plain_input_def)
  then have "split_on TAB (encode_tool_input m) = ?parts"
    unfolding encode_tool_input_def using False by (intro split_on_join) auto
  moreover have "filter (\<lambda>p. p \<noteq> []) ?parts = ?parts"
    by (auto simp: filter_id_conv)
  ultimately show ?thesis
    unfolding decode_tool_input_def using fold_decode_parts [of m "[]"] assms by simp
qed (simp add: decode_tool_input_def encode_tool_input_def)

end
