(* ===== verification/Path_Scope.thy ===== *)
theory Path_Scope
  imports Viden_Prelude
begin

text \<open>
  The lexical path handling of \<open>crates/permissions/src/lib.rs\<close>: \<open>std::path\<close> components as they
  are on Unix, \<open>normalize_path\<close>, and the scope test on normalised paths. A \<open>PathBuf\<close> is the
  list of its components, on which Rust's \<open>==\<close> and \<open>starts_with\<close> are defined.
\<close>

datatype path_component = RootDir | CurDir | ParentDir | Normal string

type_synonym path = "path_component list"

definition component_of :: "string \<Rightarrow> path_component" where
  "component_of seg = (if seg = ''..'' then ParentDir else Normal seg)"

definition is_absolute :: "string \<Rightarrow> bool" where
  "is_absolute s \<longleftrightarrow> (case s of c # _ \<Rightarrow> c = CHR ''/'' | [] \<Rightarrow> False)"

text \<open>
  \<open>Path::components\<close>: repeated separators and inner \<open>.\<close> segments disappear, a leading \<open>.\<close> of a
  relative path stays.
\<close>

definition inner_components :: "string list \<Rightarrow> path" where
  "inner_components segs = map component_of (filter (\<lambda>g. g \<noteq> [] \<and> g \<noteq> ''.'') segs)"

definition components :: "string \<Rightarrow> path" where
  "components s =
     (if is_absolute s then RootDir # inner_components (split_on (CHR ''/'') s)
      else (case split_on (CHR ''/'') s of
              [] \<Rightarrow> []
            | g # segs \<Rightarrow> (if g = ''.'' then [CurDir] else []) @ inner_components (g # segs)))"

text \<open>\<open>PathBuf::join\<close> of a relative path, \<open>PathBuf::pop\<close> and \<open>PathBuf::push\<close> of one component.\<close>

definition path_join :: "string \<Rightarrow> string \<Rightarrow> string" where
  "path_join base s =
     (if is_absolute s then s
      else if base = [] \<or> last base = CHR ''/'' then base @ s
      else base @ ''/'' @ s)"

definition path_pop :: "path \<Rightarrow> path" where
  "path_pop p = (case rev p of [] \<Rightarrow> p | RootDir # _ \<Rightarrow> p | _ # q \<Rightarrow> rev q)"

fun push_component :: "path_component \<Rightarrow> path \<Rightarrow> path" where
  "push_component CurDir p = p"
| "push_component ParentDir p = path_pop p"
| "push_component RootDir p = [RootDir]"
| "push_component (Normal g) p = p @ [Normal g]"

definition normalize_path :: "string \<Rightarrow> string \<Rightarrow> path" where
  "normalize_path cwd raw = fold push_component (components (path_join cwd raw)) []"

definition path_starts_with :: "path \<Rightarrow> path \<Rightarrow> bool" where
  "path_starts_with p base = prefix base p"

text \<open>\<open>Path::display\<close> of a path built by pushes.\<close>

fun segment_text :: "path_component \<Rightarrow> string" where
  "segment_text (Normal g) = g"
| "segment_text ParentDir = ''..''"
| "segment_text CurDir = ''.''"
| "segment_text RootDir = []"

definition path_display :: "path \<Rightarrow> string" where
  "path_display p = (case p of
      RootDir # q \<Rightarrow> ''/'' @ join ''/'' (map segment_text q)
    | _ \<Rightarrow> join ''/'' (map segment_text p))"

section \<open>Normalised paths\<close>

definition plain_segment :: "string \<Rightarrow> bool" where
  "plain_segment g \<longleftrightarrow> g \<noteq> [] \<and> g \<noteq> ''.'' \<and> g \<noteq> ''..'' \<and> CHR ''/'' \<notin> set g"

definition is_normal :: "path_component \<Rightarrow> bool" where
  "is_normal c \<longleftrightarrow> (\<exists>g. c = Normal g \<and> plain_segment g)"

text \<open>At most one root, in front; every other component is a name.\<close>

definition normal_path :: "path \<Rightarrow> bool" where
  "normal_path p \<longleftrightarrow> (case p of
      RootDir # q \<Rightarrow> list_all is_normal q
    | _ \<Rightarrow> list_all is_normal p)"

definition rooted :: "path \<Rightarrow> bool" where
  "rooted p \<longleftrightarrow> p \<noteq> [] \<and> hd p = RootDir"

lemma is_normal_simps [simp]:
  "is_normal (Normal g) = plain_segment g" "\<not> is_normal RootDir"
  "\<not> is_normal CurDir" "\<not> is_normal ParentDir"
  by (auto simp: is_normal_def)

lemma normal_path_simps [simp]:
  "normal_path []" "normal_path [RootDir]"
  "normal_path (RootDir # q) = list_all is_normal q"
  "normal_path (Normal g # q) = (plain_segment g \<and> list_all is_normal q)"
  by (auto simp: normal_path_def)

lemma normal_path_alt:
  "normal_path p \<longleftrightarrow> list_all is_normal p \<or> (\<exists>q. p = RootDir # q \<and> list_all is_normal q)"
  by (auto simp: normal_path_def split: list.splits path_component.splits)

lemma list_all_butlast: "list_all P xs \<Longrightarrow> list_all P (butlast xs)"
  by (auto simp: list_all_iff dest: in_set_butlastD)

lemma path_pop_cases:
  "path_pop p = (if p = [] \<or> last p = RootDir then p else butlast p)"
  by (cases p rule: rev_cases) (auto simp: path_pop_def split: path_component.splits)

lemma normal_path_pop: "normal_path p \<Longrightarrow> normal_path (path_pop p)"
proof -
  assume "normal_path p"
  then consider (rel) "list_all is_normal p" | (abs) q where "p = RootDir # q" "list_all is_normal q"
    by (auto simp: normal_path_alt)
  then show ?thesis
  proof cases
    case rel
    then show ?thesis
      using list_all_butlast by (auto simp: path_pop_cases normal_path_alt)
  next
    case abs
    then show ?thesis
      by (cases q rule: rev_cases) (auto simp: path_pop_cases normal_path_alt butlast_append)
  qed
qed

lemma rooted_pop: "rooted p \<Longrightarrow> normal_path p \<Longrightarrow> rooted (path_pop p)"
  by (cases p; cases "tl p" rule: rev_cases) (auto simp: path_pop_cases rooted_def butlast_append)

definition pushable :: "path_component \<Rightarrow> bool" where
  "pushable c \<longleftrightarrow> c = RootDir \<or> c = CurDir \<or> c = ParentDir \<or> is_normal c"

lemma pushable_simps [simp]: "pushable RootDir" "pushable CurDir" "pushable ParentDir"
  "pushable (Normal g) = plain_segment g"
  by (auto simp: pushable_def)

lemma normal_path_push: "normal_path p \<Longrightarrow> pushable c \<Longrightarrow> normal_path (push_component c p)"
  by (cases c) (simp_all add: normal_path_pop, auto simp: normal_path_alt)

lemma rooted_push: "rooted p \<Longrightarrow> normal_path p \<Longrightarrow> rooted (push_component c p)"
  by (cases c) (simp_all add: rooted_pop, auto simp: rooted_def)

lemma normal_path_fold:
  "list_all pushable cs \<Longrightarrow> normal_path p \<Longrightarrow> normal_path (fold push_component cs p)"
  by (induction cs arbitrary: p) (auto simp: normal_path_push)

lemma rooted_fold:
  "list_all pushable cs \<Longrightarrow> normal_path p \<Longrightarrow> rooted p \<Longrightarrow> rooted (fold push_component cs p)"
  by (induction cs arbitrary: p) (auto simp: normal_path_push rooted_push)

lemma inner_pushable:
  "(\<And>g. g \<in> set segs \<Longrightarrow> CHR ''/'' \<notin> set g) \<Longrightarrow> list_all pushable (inner_components segs)"
  by (auto simp: inner_components_def list_all_iff component_of_def plain_segment_def)

lemma components_pushable: "list_all pushable (components s)"
proof -
  have inner: "list_all pushable (inner_components (split_on (CHR ''/'') s))"
    by (rule inner_pushable) (rule split_on_segments)
  show ?thesis
  proof (cases "is_absolute s")
    case True
    with inner show ?thesis by (simp add: components_def)
  next
    case False
    obtain g segs where "split_on (CHR ''/'') s = g # segs"
      by (cases "split_on (CHR ''/'') s") auto
    with False inner show ?thesis by (simp add: components_def)
  qed
qed

lemma is_absolute_join: "is_absolute cwd \<Longrightarrow> is_absolute (path_join cwd raw)"
  by (auto simp: path_join_def is_absolute_def split: list.splits)

lemma normal_normalize: "normal_path (normalize_path cwd raw)"
  unfolding normalize_path_def by (rule normal_path_fold [OF components_pushable]) simp

lemma rooted_normalize:
  assumes "is_absolute cwd"
  shows "rooted (normalize_path cwd raw)"
proof -
  obtain cs where cs: "components (path_join cwd raw) = RootDir # cs"
    using is_absolute_join [OF assms] by (auto simp: components_def)
  then have "list_all pushable cs"
    using components_pushable [of "path_join cwd raw"] by simp
  then have "rooted (fold push_component cs [RootDir])"
    by (rule rooted_fold) (simp_all add: rooted_def)
  then show ?thesis
    by (simp add: normalize_path_def cs)
qed

section \<open>Display and parsing agree on normalised paths\<close>

lemma filter_plain: "list_all is_normal q \<Longrightarrow>
  inner_components (map segment_text q) = q"
  by (induction q) (auto simp: inner_components_def is_normal_def plain_segment_def component_of_def)

lemma segments_no_slash: "list_all is_normal q \<Longrightarrow> s \<in> set (map segment_text q) \<Longrightarrow> CHR ''/'' \<notin> set s"
  by (induction q) (auto simp: is_normal_def plain_segment_def)

lemma components_display_rooted:
  assumes "normal_path p" "rooted p"
  shows "components (path_display p) = p"
proof -
  obtain q where p: "p = RootDir # q" and q: "list_all is_normal q"
    using assms by (cases p) (auto simp: rooted_def)
  have "split_on (CHR ''/'') (''/'' @ join ''/'' (map segment_text q))
      = [] # split_on (CHR ''/'') (join ''/'' (map segment_text q))"
    by simp
  moreover have "inner_components (split_on (CHR ''/'') (join ''/'' (map segment_text q))) = q"
  proof (cases "q = []")
    case False
    then have "split_on (CHR ''/'') (join ''/'' (map segment_text q)) = map segment_text q"
      using segments_no_slash [OF q] by (intro split_on_join) auto
    with q show ?thesis by (simp add: filter_plain)
  qed (simp add: inner_components_def)
  ultimately show ?thesis
    by (simp add: p path_display_def components_def is_absolute_def inner_components_def)
qed

lemma display_rooted_slash: "rooted p \<Longrightarrow> prefix ''/'' (path_display p)"
  by (cases p) (auto simp: rooted_def path_display_def)

end
