(* ===== verification/Permission_Engine.thy ===== *)
theory Permission_Engine
  imports Tool_Input Path_Scope
begin

text \<open>
  \<open>PermissionEngine\<close> of \<open>crates/permissions/src/lib.rs\<close> with the permission types of
  \<open>crates/types/src/lib.rs\<close> and the approval types of \<open>crates/types/src/approval.rs\<close>: the pure
  decision, the application of an operator's answer, and the rules an answer installs.
\<close>

section \<open>Data\<close>

datatype permission_mode = ModeDefault | AcceptEdits | BypassPermissions | DontAsk | ModePlan

datatype permission_behavior = BehaviorAllow | BehaviorDeny | BehaviorAsk

datatype rule_source =
  UserSettings | ProjectSettings | LocalSettings | FlagSettings | PolicySettings
  | CliArg | CommandSource | SessionSource

record permission_rule =
  pr_source :: rule_source
  pr_behavior :: permission_behavior
  pr_tool_name :: string
  pr_content :: "string option"

record working_directory =
  wd_path :: string
  wd_source :: rule_source

datatype decision_reason =
  RuleAllow | RuleDeny | RuleAsk | SafeRead | RequiresApproval | OutOfScopePath
  | BypassMode | DontAskMode | PlanModeReason | AcceptEditsMode

record allow_decision =
  ad_updated_input :: "tool_input option"
  ad_user_modified :: bool
  ad_reason :: "decision_reason option"
  ad_feedback :: "string option"

record ask_decision =
  ask_message :: string
  ask_updated_input :: "tool_input option"
  ask_reason :: "decision_reason option"

record deny_decision =
  dd_message :: string
  dd_reason :: decision_reason

datatype permission_decision = Allow allow_decision | Ask ask_decision | Deny deny_decision

record tool_spec =
  ts_name :: string
  ts_description :: string
  ts_is_mutating :: bool
  ts_input_schema_hint :: string

datatype approval_scope =
  Once | Session string | RepoAllowlist "string list" | Always

datatype approval_decision = ApproveAllow approval_scope | ApproveDeny | ApproveEdit tool_input

record approval_response =
  resp_decision :: approval_decision
  resp_feedback :: "string option"

record permission_context =
  pc_mode :: permission_mode
  pc_directories :: "working_directory list"
  pc_allow_rules :: "permission_rule list"
  pc_deny_rules :: "permission_rule list"
  pc_ask_rules :: "permission_rule list"

record permission_engine =
  pe_cwd :: string
  pe_context :: permission_context

definition default_context :: permission_context where
  "default_context = \<lparr>pc_mode = ModeDefault, pc_directories = [], pc_allow_rules = [],
     pc_deny_rules = [], pc_ask_rules = []\<rparr>"

definition new_engine :: "string \<Rightarrow> permission_engine" where
  "new_engine cwd = \<lparr>pe_cwd = cwd, pe_context = default_context\<rparr>"

abbreviation engine_mode :: "permission_engine \<Rightarrow> permission_mode" where
  "engine_mode e \<equiv> pc_mode (pe_context e)"

abbreviation update_context ::
  "(permission_context \<Rightarrow> permission_context) \<Rightarrow> permission_engine \<Rightarrow> permission_engine" where
  "update_context f e \<equiv> e\<lparr>pe_context := f (pe_context e)\<rparr>"

definition set_mode :: "permission_mode \<Rightarrow> permission_engine \<Rightarrow> permission_engine" where
  "set_mode m = update_context (\<lambda>c. c\<lparr>pc_mode := m\<rparr>)"

definition restore_context :: "permission_context \<Rightarrow> permission_engine \<Rightarrow> permission_engine" where
  "restore_context c e = e\<lparr>pe_context := c\<rparr>"

definition add_directory :: "string \<Rightarrow> rule_source \<Rightarrow> permission_engine \<Rightarrow> permission_engine" where
  "add_directory p src = update_context (\<lambda>c.
     c\<lparr>pc_directories := pc_directories c @ [\<lparr>wd_path = p, wd_source = src\<rparr>]\<rparr>)"

definition push_allow_rule :: "permission_rule \<Rightarrow> permission_engine \<Rightarrow> permission_engine" where
  "push_allow_rule r = update_context (\<lambda>c. c\<lparr>pc_allow_rules := pc_allow_rules c @ [r]\<rparr>)"

definition add_rule :: "permission_rule \<Rightarrow> permission_engine \<Rightarrow> permission_engine" where
  "add_rule r = (case pr_behavior r of
       BehaviorAllow \<Rightarrow> push_allow_rule r
     | BehaviorDeny \<Rightarrow> update_context (\<lambda>c. c\<lparr>pc_deny_rules := pc_deny_rules c @ [r]\<rparr>)
     | BehaviorAsk \<Rightarrow> update_context (\<lambda>c. c\<lparr>pc_ask_rules := pc_ask_rules c @ [r]\<rparr>))"

section \<open>Scope and rule matching\<close>

definition extract_paths :: "tool_input \<Rightarrow> string list" where
  "extract_paths i = List.map_filter (\<lambda>k. input_get k i) [''path'', ''from'', ''to'']"

definition scope_roots :: "permission_engine \<Rightarrow> path list" where
  "scope_roots e = components (pe_cwd e)
     # map (\<lambda>d. normalize_path (pe_cwd e) (wd_path d)) (pc_directories (pe_context e))"

definition is_normalized_path_in_scope :: "permission_engine \<Rightarrow> path \<Rightarrow> bool" where
  "is_normalized_path_in_scope e p \<longleftrightarrow> list_ex (path_starts_with p) (scope_roots e)"

definition is_path_in_scope :: "permission_engine \<Rightarrow> string \<Rightarrow> bool" where
  "is_path_in_scope e raw = is_normalized_path_in_scope e (normalize_path (pe_cwd e) raw)"

abbreviation exact_path_prefix :: string where "exact_path_prefix \<equiv> ''path_exact:''"

definition exact_path_rule_content :: "path \<Rightarrow> string" where
  "exact_path_rule_content p = exact_path_prefix @ path_display p"

text \<open>\<open>str::trim_start_matches\<close> removes every leading occurrence of the prefix.\<close>

function trim_exact_prefix :: "string \<Rightarrow> string" where
  "trim_exact_prefix s =
     (if prefix exact_path_prefix s then trim_exact_prefix (drop 11 s) else s)"
  by pat_completeness auto
termination
  by (relation "measure length") (auto simp: prefix_def)

declare trim_exact_prefix.simps [simp del]

lemma trim_exact_rooted:
  "prefix ''/'' s \<Longrightarrow> trim_exact_prefix (exact_path_prefix @ s) = s"
proof -
  assume "prefix ''/'' s"
  then have "\<not> prefix exact_path_prefix s"
    by (auto simp: prefix_def)
  then have "trim_exact_prefix s = s"
    by (subst trim_exact_prefix.simps) simp
  then show ?thesis
    by (subst trim_exact_prefix.simps) simp
qed

definition is_exact_rule :: "permission_rule \<Rightarrow> bool" where
  "is_exact_rule r \<longleftrightarrow> (case pr_content r of
      Some c \<Rightarrow> prefix exact_path_prefix c | None \<Rightarrow> False)"

definition matches_rendered :: "string \<Rightarrow> permission_rule \<Rightarrow> bool" where
  "matches_rendered rendered r \<longleftrightarrow> (case pr_content r of
      None \<Rightarrow> True
    | Some c \<Rightarrow> \<not> prefix exact_path_prefix c \<and> str_contains c rendered)"

definition exact_paths :: "permission_rule list \<Rightarrow> path list" where
  "exact_paths rules =
     map (\<lambda>r. components (trim_exact_prefix (the (pr_content r)))) (filter is_exact_rule rules)"

definition current_paths :: "permission_engine \<Rightarrow> tool_input \<Rightarrow> path list" where
  "current_paths e i = map (normalize_path (pe_cwd e)) (extract_paths i)"

definition matches_rule ::
  "permission_engine \<Rightarrow> permission_rule list \<Rightarrow> tool_spec \<Rightarrow> tool_input \<Rightarrow> bool" where
  "matches_rule e rules tool i \<longleftrightarrow>
     (let relevant = filter (\<lambda>r. pr_tool_name r = ts_name tool) rules;
          paths = current_paths e i
      in list_ex (matches_rendered (encode_tool_input i)) relevant
         \<or> (paths \<noteq> [] \<and> list_all (\<lambda>p. p \<in> set (exact_paths relevant)) paths))"

section \<open>The pure decision\<close>

definition allow_because :: "decision_reason \<Rightarrow> permission_decision" where
  "allow_because r = Allow \<lparr>ad_updated_input = None, ad_user_modified = False,
     ad_reason = Some r, ad_feedback = None\<rparr>"

definition ask_because :: "string \<Rightarrow> decision_reason \<Rightarrow> permission_decision" where
  "ask_because msg r = Ask \<lparr>ask_message = msg, ask_updated_input = None, ask_reason = Some r\<rparr>"

definition deny_because :: "string \<Rightarrow> decision_reason \<Rightarrow> permission_decision" where
  "deny_because msg r = Deny \<lparr>dd_message = msg, dd_reason = r\<rparr>"

definition plan_mode_denial :: "tool_spec \<Rightarrow> permission_decision" where
  "plan_mode_denial tool =
     deny_because (ts_name tool @ '' is blocked while plan mode is active'') PlanModeReason"

definition is_worktree_tool :: "tool_spec \<Rightarrow> bool" where
  "is_worktree_tool tool \<longleftrightarrow> ts_name tool = ''git_worktree_add'' \<or> ts_name tool = ''git_worktree_remove''"

definition decide_by_mode :: "permission_mode \<Rightarrow> tool_spec \<Rightarrow> permission_decision" where
  "decide_by_mode mode tool =
     (if mode = BypassPermissions then allow_because BypassMode
      else if mode = DontAsk then allow_because DontAskMode
      else if mode = ModePlan \<and> ts_is_mutating tool then plan_mode_denial tool
      else if mode = AcceptEdits \<and> (ts_name tool = ''write_file'' \<or> ts_name tool = ''edit_file'')
        then allow_because AcceptEditsMode
      else if \<not> ts_is_mutating tool \<and> ts_name tool \<noteq> ''shell'' then allow_because SafeRead
      else ask_because (''Approve '' @ ts_name tool @ ''?'') RequiresApproval)"

definition decide :: "permission_engine \<Rightarrow> tool_spec \<Rightarrow> tool_input \<Rightarrow> permission_decision" where
  "decide e tool i =
     (if \<not> list_all (is_path_in_scope e) (extract_paths i) then
        (if is_worktree_tool tool
         then ask_because (''Approve '' @ ts_name tool @ '' outside the current working directory?'')
                RequiresApproval
         else deny_because ''Path is outside the allowed working directory scope'' OutOfScopePath)
      else if matches_rule e (pc_deny_rules (pe_context e)) tool i then
        deny_because (''Denied by permission rule for '' @ ts_name tool) RuleDeny
      else if matches_rule e (pc_ask_rules (pe_context e)) tool i then
        ask_because (''Approval required by permission rule for '' @ ts_name tool) RuleAsk
      else if matches_rule e (pc_allow_rules (pe_context e)) tool i then allow_because RuleAllow
      else decide_by_mode (engine_mode e) tool)"

section \<open>Applying an operator's answer\<close>

definition deny_approval :: "ask_decision \<Rightarrow> permission_decision" where
  "deny_approval ask = deny_because ''User denied the permission request''
     (case ask_reason ask of None \<Rightarrow> RequiresApproval | Some r \<Rightarrow> r)"

definition install_allow_rule ::
  "tool_spec \<Rightarrow> tool_input \<Rightarrow> string option \<Rightarrow> permission_engine \<Rightarrow> permission_engine" where
  "install_allow_rule tool i override = push_allow_rule
     \<lparr>pr_source = SessionSource, pr_behavior = BehaviorAllow, pr_tool_name = ts_name tool,
      pr_content = Some (case override of None \<Rightarrow> encode_tool_input i | Some c \<Rightarrow> c)\<rparr>"

definition standing_rule :: "string \<Rightarrow> string \<Rightarrow> permission_rule" where
  "standing_rule name content = \<lparr>pr_source = UserSettings, pr_behavior = BehaviorAllow,
     pr_tool_name = name, pr_content = Some content\<rparr>"

definition install_standing_allow_rule ::
  "string \<Rightarrow> string \<Rightarrow> permission_engine \<Rightarrow> permission_engine" where
  "install_standing_allow_rule name content e =
     (if standing_rule name content \<in> set (pc_allow_rules (pe_context e)) then e
      else push_allow_rule (standing_rule name content) e)"

definition remove_standing_allow_rule ::
  "string \<Rightarrow> string \<Rightarrow> permission_engine \<Rightarrow> bool \<times> permission_engine" where
  "remove_standing_allow_rule name content e =
     (let before = pc_allow_rules (pe_context e);
          kept = filter (\<lambda>r. \<not> (pr_source r = UserSettings \<and> pr_behavior r = BehaviorAllow
                   \<and> pr_tool_name r = name \<and> pr_content r = Some content)) before
      in (length kept \<noteq> length before, update_context (\<lambda>c. c\<lparr>pc_allow_rules := kept\<rparr>) e))"

fun normalize_allowlist :: "permission_engine \<Rightarrow> string list \<Rightarrow> path list \<Rightarrow> path list option" where
  "normalize_allowlist e [] acc = Some acc"
| "normalize_allowlist e (p # ps) acc =
     (let r = normalize_path (pe_cwd e) p
      in if \<not> is_normalized_path_in_scope e r then None
         else normalize_allowlist e ps (if r \<in> set acc then acc else acc @ [r]))"

definition normalize_repo_allowlist_paths :: "permission_engine \<Rightarrow> string list \<Rightarrow> path list option" where
  "normalize_repo_allowlist_paths e ps = normalize_allowlist e ps []"

definition install_exact_rules ::
  "tool_spec \<Rightarrow> tool_input \<Rightarrow> path list \<Rightarrow> permission_engine \<Rightarrow> permission_engine" where
  "install_exact_rules tool i ps =
     fold (\<lambda>p. install_allow_rule tool i (Some (exact_path_rule_content p))) ps"

text \<open>What one allow scope installs; \<open>None\<close> when the answer itself is refused.\<close>

fun apply_scope ::
  "approval_scope \<Rightarrow> tool_spec \<Rightarrow> tool_input \<Rightarrow> permission_engine \<Rightarrow> permission_engine option" where
  "apply_scope Once tool i e = Some e"
| "apply_scope (Session _) tool i e = Some (install_allow_rule tool i None e)"
| "apply_scope Always tool i e =
     Some (install_standing_allow_rule (ts_name tool) (encode_tool_input i) e)"
| "apply_scope (RepoAllowlist ps) tool i e =
     (if ps = [] then None
      else case normalize_repo_allowlist_paths e ps of
        None \<Rightarrow> None
      | Some allowed \<Rightarrow>
          (let current = current_paths e i
           in if current = [] \<or> \<not> list_all (\<lambda>p. p \<in> set allowed) current then None
              else Some (install_exact_rules tool i allowed e)))"

definition apply_edit ::
  "tool_input \<Rightarrow> string option \<Rightarrow> tool_spec \<Rightarrow> permission_engine \<Rightarrow> permission_decision" where
  "apply_edit revised feedback tool e =
     (case decide e tool revised of
        Allow a \<Rightarrow> Allow \<lparr>ad_updated_input = Some revised, ad_user_modified = True,
                          ad_reason = ad_reason a, ad_feedback = feedback\<rparr>
      | Ask a \<Rightarrow> Ask \<lparr>ask_message = ask_message a, ask_updated_input = Some revised,
                      ask_reason = ask_reason a\<rparr>
      | Deny d \<Rightarrow> Deny d)"

definition apply_approval ::
  "approval_response \<Rightarrow> ask_decision \<Rightarrow> tool_spec \<Rightarrow> tool_input \<Rightarrow> permission_engine
   \<Rightarrow> permission_decision \<times> permission_engine" where
  "apply_approval resp ask tool i e =
     (if engine_mode e = ModePlan \<and> ts_is_mutating tool then (plan_mode_denial tool, e)
      else case resp_decision resp of
        ApproveEdit revised \<Rightarrow> (apply_edit revised (resp_feedback resp) tool e, e)
      | ApproveAllow scope \<Rightarrow>
          (case apply_scope scope tool i e of
             None \<Rightarrow> (deny_approval ask, e)
           | Some e' \<Rightarrow>
               (Allow \<lparr>ad_updated_input = ask_updated_input ask, ad_user_modified = False,
                       ad_reason = ask_reason ask, ad_feedback = resp_feedback resp\<rparr>, e'))
      | ApproveDeny \<Rightarrow> (deny_approval ask, e))"

section \<open>Prompts\<close>

record 'ctx permission_prompt =
  pp_tool_name :: string
  pp_message :: string
  pp_input_preview :: string
  pp_candidate_paths :: "string list"
  pp_decision_context :: "'ctx option"
  pp_input :: tool_input
  pp_is_revision :: bool

definition render_prompt_input :: "tool_input \<Rightarrow> string" where
  "render_prompt_input i =
     (if i = [] then ''  <no input>''
      else join [CHR 0x0A] (map (\<lambda>(k, v). ''  '' @ k @ '': '' @ v) i))"

definition prompt_for :: "string \<Rightarrow> ask_decision \<Rightarrow> tool_input \<Rightarrow> 'ctx permission_prompt" where
  "prompt_for name ask i = \<lparr>pp_tool_name = name, pp_message = ask_message ask,
     pp_input_preview = render_prompt_input i, pp_candidate_paths = extract_paths i,
     pp_decision_context = None, pp_input = i, pp_is_revision = (ask_updated_input ask \<noteq> None)\<rparr>"

definition editable_approval_tools :: "string list" where
  "editable_approval_tools =
     [''git_add'', ''git_restore'', ''glob'', ''grep'', ''read_file'', ''shell'']"

definition tool_input_is_editable :: "string \<Rightarrow> bool" where
  "tool_input_is_editable name \<longleftrightarrow> name \<in> set editable_approval_tools"

section \<open>Lemmas\<close>

lemmas decision_defs = allow_because_def ask_because_def deny_because_def plan_mode_denial_def

lemma because_eq [simp]:
  "allow_because r \<noteq> Ask a" "allow_because r \<noteq> Deny d" "ask_because m r \<noteq> Allow b"
  "ask_because m r \<noteq> Deny d" "deny_because m r \<noteq> Allow b" "deny_because m r \<noteq> Ask a"
  "plan_mode_denial tool \<noteq> Allow b" "plan_mode_denial tool \<noteq> Ask a"
  "deny_approval ask \<noteq> Allow b" "deny_approval ask \<noteq> Ask a"
  by (simp_all add: decision_defs deny_approval_def)

lemma decide_by_mode_plan:
  "ts_is_mutating tool \<Longrightarrow> decide_by_mode ModePlan tool = plan_mode_denial tool"
  by (simp add: decide_by_mode_def)

lemma decide_Allow_in_scope:
  "decide e tool i = Allow a \<Longrightarrow> list_all (is_path_in_scope e) (extract_paths i)"
  by (auto simp: decide_def split: if_splits)

lemma decide_Allow_no_deny_rule:
  "decide e tool i = Allow a \<Longrightarrow> \<not> matches_rule e (pc_deny_rules (pe_context e)) tool i"
  by (auto simp: decide_def split: if_splits)

lemma decide_rule_allow:
  assumes "list_all (is_path_in_scope e) (extract_paths i)"
    and "\<not> matches_rule e (pc_deny_rules (pe_context e)) tool i"
    and "\<not> matches_rule e (pc_ask_rules (pe_context e)) tool i"
    and "matches_rule e (pc_allow_rules (pe_context e)) tool i"
  shows "decide e tool i = allow_because RuleAllow"
  using assms by (simp add: decide_def)

text \<open>Rule matching looks at the working directory only, and grows with the rules.\<close>

lemma matches_rule_cong:
  "pe_cwd e = pe_cwd e' \<Longrightarrow> matches_rule e rules tool i = matches_rule e' rules tool i"
  by (simp add: matches_rule_def current_paths_def)

lemma matches_rule_mono:
  assumes "matches_rule e rules tool i" "set rules \<subseteq> set rules'"
  shows "matches_rule e rules' tool i"
  using assms
  by (force simp: matches_rule_def Let_def list_ex_iff list_all_iff exact_paths_def)

lemma matches_rule_content:
  assumes "r \<in> set rules" "pr_tool_name r = ts_name tool" "pr_content r = Some c"
    and "\<not> prefix exact_path_prefix c" "str_contains c (encode_tool_input i)"
  shows "matches_rule e rules tool i"
  using assms by (auto simp: matches_rule_def Let_def list_ex_iff matches_rendered_def)

lemma matches_rule_exact:
  assumes "current_paths e i \<noteq> []"
    and "\<And>p. p \<in> set (current_paths e i) \<Longrightarrow> \<exists>r\<in>set rules. pr_tool_name r = ts_name tool
           \<and> is_exact_rule r \<and> components (trim_exact_prefix (the (pr_content r))) = p"
  shows "matches_rule e rules tool i"
proof -
  have "p \<in> set (exact_paths (filter (\<lambda>r. pr_tool_name r = ts_name tool) rules))"
    if "p \<in> set (current_paths e i)" for p
    using assms(2) [OF that] by (force simp: exact_paths_def)
  with assms(1) show ?thesis
    by (simp add: matches_rule_def Let_def list_all_iff)
qed

text \<open>What an answer may change: the allow rules grow, everything else stays.\<close>

definition same_but_allow :: "permission_engine \<Rightarrow> permission_engine \<Rightarrow> bool" where
  "same_but_allow e e' \<longleftrightarrow> pe_cwd e' = pe_cwd e
     \<and> pc_mode (pe_context e') = pc_mode (pe_context e)
     \<and> pc_directories (pe_context e') = pc_directories (pe_context e)
     \<and> pc_deny_rules (pe_context e') = pc_deny_rules (pe_context e)
     \<and> pc_ask_rules (pe_context e') = pc_ask_rules (pe_context e)
     \<and> prefix (pc_allow_rules (pe_context e)) (pc_allow_rules (pe_context e'))"

lemma same_but_allow_refl [simp]: "same_but_allow e e"
  by (simp add: same_but_allow_def)

lemma same_but_allow_trans:
  "same_but_allow e f \<Longrightarrow> same_but_allow f g \<Longrightarrow> same_but_allow e g"
  by (auto simp: same_but_allow_def)

lemma same_but_allow_push: "same_but_allow e (push_allow_rule r e)"
  by (simp add: same_but_allow_def push_allow_rule_def)

lemma same_but_allow_install: "same_but_allow e (install_allow_rule tool i c e)"
  by (simp add: install_allow_rule_def same_but_allow_push)

lemma same_but_allow_standing: "same_but_allow e (install_standing_allow_rule n c e)"
  by (simp add: install_standing_allow_rule_def same_but_allow_push)

lemma same_but_allow_exact: "same_but_allow e (install_exact_rules tool i ps e)"
proof (induction ps arbitrary: e)
  case (Cons p ps)
  show ?case
    unfolding install_exact_rules_def fold_Cons o_apply
    by (rule same_but_allow_trans [OF same_but_allow_install Cons.IH [unfolded install_exact_rules_def]])
qed (simp add: install_exact_rules_def)

lemma same_but_allow_scope: "apply_scope s tool i e = Some e' \<Longrightarrow> same_but_allow e e'"
  by (cases s) (auto simp: same_but_allow_install same_but_allow_standing same_but_allow_exact
      Let_def split: if_splits option.splits)

lemma apply_approval_frame: "same_but_allow e (snd (apply_approval resp ask tool i e))"
  by (auto simp: apply_approval_def same_but_allow_scope split: approval_decision.splits option.splits)

lemma scope_same_but_allow:
  "same_but_allow e e' \<Longrightarrow> is_path_in_scope e' = is_path_in_scope e"
  by (rule ext) (simp add: is_path_in_scope_def is_normalized_path_in_scope_def scope_roots_def
      same_but_allow_def)

lemma matches_same_but_allow:
  "same_but_allow e e' \<Longrightarrow> matches_rule e' rules tool i = matches_rule e rules tool i"
  by (rule matches_rule_cong) (simp add: same_but_allow_def)

text \<open>The rules a repository allowlist installs are read back as the normalised paths.\<close>

lemma set_install_exact:
  "set (pc_allow_rules (pe_context (install_exact_rules tool i ps e))) =
     set (pc_allow_rules (pe_context e))
     \<union> (\<lambda>p. \<lparr>pr_source = SessionSource, pr_behavior = BehaviorAllow, pr_tool_name = ts_name tool,
              pr_content = Some (exact_path_rule_content p)\<rparr>) ` set ps"
proof (induction ps arbitrary: e)
  case (Cons p ps)
  then show ?case
    by (simp add: install_exact_rules_def install_allow_rule_def push_allow_rule_def)
qed (simp add: install_exact_rules_def)

lemma exact_rule_roundtrip:
  assumes "is_absolute (pe_cwd e)"
  shows "components (trim_exact_prefix (exact_path_rule_content (normalize_path (pe_cwd e) raw)))
       = normalize_path (pe_cwd e) raw"
proof -
  let ?p = "normalize_path (pe_cwd e) raw"
  have "rooted ?p" "normal_path ?p"
    using assms by (auto simp: rooted_normalize normal_normalize)
  then show ?thesis
    by (simp only: exact_path_rule_content_def trim_exact_rooted [OF display_rooted_slash]
        components_display_rooted)
qed

lemma matches_exact_installed:
  assumes "is_absolute (pe_cwd e)" "current_paths e i \<noteq> []" "set (current_paths e i) \<subseteq> set ps"
  shows "matches_rule e (pc_allow_rules (pe_context (install_exact_rules tool j ps e))) tool i"
proof (rule matches_rule_exact [OF assms(2)])
  fix p assume p: "p \<in> set (current_paths e i)"
  let ?r = "\<lparr>pr_source = SessionSource, pr_behavior = BehaviorAllow, pr_tool_name = ts_name tool,
              pr_content = Some (exact_path_rule_content p)\<rparr>"
  obtain raw where raw: "p = normalize_path (pe_cwd e) raw"
    using p by (auto simp: current_paths_def)
  have "components (trim_exact_prefix (exact_path_rule_content p)) = p"
    unfolding raw by (rule exact_rule_roundtrip [OF assms(1)])
  moreover have "?r \<in> set (pc_allow_rules (pe_context (install_exact_rules tool j ps e)))"
    using p assms(3) by (auto simp: set_install_exact)
  moreover have "is_exact_rule ?r"
    by (simp add: is_exact_rule_def exact_path_rule_content_def)
  ultimately show "\<exists>r\<in>set (pc_allow_rules (pe_context (install_exact_rules tool j ps e))).
      pr_tool_name r = ts_name tool \<and> is_exact_rule r
      \<and> components (trim_exact_prefix (the (pr_content r))) = p"
    by (intro bexI [of _ ?r]) auto
qed

lemma install_standing_content:
  "standing_rule n c \<in> set (pc_allow_rules (pe_context (install_standing_allow_rule n c e)))"
  by (simp add: install_standing_allow_rule_def push_allow_rule_def)

lemma install_session_content:
  "\<lparr>pr_source = SessionSource, pr_behavior = BehaviorAllow, pr_tool_name = ts_name tool,
     pr_content = Some (encode_tool_input i)\<rparr>
   \<in> set (pc_allow_rules (pe_context (install_allow_rule tool i None e)))"
  by (simp add: install_allow_rule_def push_allow_rule_def)

lemma decide_after_approval:
  assumes "same_but_allow e e'"
    and "\<forall>raw\<in>set (extract_paths i). is_path_in_scope e raw"
    and "\<not> matches_rule e (pc_deny_rules (pe_context e)) tool i"
    and "\<not> matches_rule e (pc_ask_rules (pe_context e)) tool i"
    and "matches_rule e (pc_allow_rules (pe_context e')) tool i"
  shows "decide e' tool i = allow_because RuleAllow"
proof (rule decide_rule_allow)
  show "list_all (is_path_in_scope e') (extract_paths i)"
    using assms(2) by (simp add: scope_same_but_allow [OF assms(1)] list_all_iff)
qed (use assms in \<open>simp_all add: matches_same_but_allow, simp_all add: same_but_allow_def\<close>)

end
