(* ===== verification/Permission_Safety.thy ===== *)
theory Permission_Safety
  imports Permission_Engine
begin

text \<open>
  What the permission engine guarantees: confinement to the granted roots, precedence of deny
  rules, the double check of plan mode, what each approval scope installs, and revocation. The
  last section holds the exceptions the code makes to its own documentation.
\<close>

definition demo_engine :: permission_engine where
  "demo_engine = new_engine ''/tmp/project''"

definition demo_tool :: "string \<Rightarrow> bool \<Rightarrow> tool_spec" where
  "demo_tool name mutating = \<lparr>ts_name = name, ts_description = name, ts_is_mutating = mutating,
     ts_input_schema_hint = []\<rparr>"

definition demo_ask :: ask_decision where
  "demo_ask = \<lparr>ask_message = ''Approve?'', ask_updated_input = None, ask_reason = Some RequiresApproval\<rparr>"

lemmas demo_defs = demo_engine_def demo_tool_def demo_ask_def new_engine_def default_context_def

text \<open>The definitions a concrete decision evaluates by.\<close>

lemmas decide_eval = decide_def extract_paths_def input_get_def List.map_filter_def
  is_path_in_scope_def is_normalized_path_in_scope_def scope_roots_def normalize_path_def
  path_join_def is_absolute_def components_def inner_components_def component_of_def
  path_starts_with_def path_pop_def matches_rule_def Let_def current_paths_def exact_paths_def
  decide_by_mode_def decision_defs encode_tool_input_def escape_tabs_def matches_rendered_def
  is_exact_rule_def is_worktree_tool_def

section \<open>Scope\<close>

lemma normal_no_parent: "normal_path p \<Longrightarrow> ParentDir \<notin> set p"
  by (auto simp: normal_path_alt list_all_iff is_normal_def)

text \<open>C1: An allowed call only names paths that, once normalised against the working directory, lie
  below a granted root (the working directory or an added directory) and hold no parent step: no
  spelling of a path with dot-dot segments leaves the scope, in any mode and under any rules.\<close>

theorem allow_stays_in_scope:
  assumes "decide e tool i = Allow a" and "raw \<in> set (extract_paths i)"
  shows "ParentDir \<notin> set (normalize_path (pe_cwd e) raw)
    \<and> (\<exists>root\<in>set (scope_roots e). prefix root (normalize_path (pe_cwd e) raw))"
proof -
  have "is_path_in_scope e raw"
    using decide_Allow_in_scope [OF assms(1)] assms(2) by (simp add: list_all_iff)
  then show ?thesis
    by (auto simp: is_path_in_scope_def is_normalized_path_in_scope_def path_starts_with_def
        list_ex_iff normal_no_parent [OF normal_normalize])
qed

lemma demo_read_allowed:
  "decide demo_engine (demo_tool ''read_file'' False) [(''path'', ''src/../lib/./a.rs'')]
     = allow_because SafeRead"
  by (simp add: demo_defs decide_eval)

theorem allow_stays_in_scope_witness:
  "ParentDir \<notin> set (normalize_path ''/tmp/project'' ''src/../lib/./a.rs'')"
  using allow_stays_in_scope [OF demo_read_allowed [unfolded allow_because_def], of "''src/../lib/./a.rs''"]
  by (simp add: demo_defs extract_paths_def input_get_def List.map_filter_def)

text \<open>The engine answers that a path is out of scope exactly when some named path is out of
  scope and the tool is not one of the two worktree tools; no mode and no rule changes this.\<close>

lemma out_of_scope_denied_iff:
  "decide e tool i = deny_because ''Path is outside the allowed working directory scope'' OutOfScopePath
   \<longleftrightarrow> \<not> is_worktree_tool tool \<and> (\<exists>raw\<in>set (extract_paths i). \<not> is_path_in_scope e raw)"
  by (auto simp: decide_def list_all_iff decide_by_mode_def decision_defs)

section \<open>Rules and modes\<close>

text \<open>C2: For a call whose paths are in scope a matching deny rule refuses it, whatever ask and
  allow rules exist and in every mode, the bypassing modes included.\<close>

theorem deny_rule_wins:
  assumes "\<forall>raw\<in>set (extract_paths i). is_path_in_scope e raw"
    and "matches_rule e (pc_deny_rules (pe_context e)) tool i"
  shows "decide e tool i = deny_because (''Denied by permission rule for '' @ ts_name tool) RuleDeny"
  using assms by (simp add: decide_def list_all_iff)

definition deny_shell_engine :: permission_engine where
  "deny_shell_engine = add_rule \<lparr>pr_source = UserSettings, pr_behavior = BehaviorDeny,
     pr_tool_name = ''shell'', pr_content = Some ''rm -rf''\<rparr> (set_mode BypassPermissions demo_engine)"

lemma deny_shell_matches:
  "matches_rule deny_shell_engine (pc_deny_rules (pe_context deny_shell_engine))
     (demo_tool ''shell'' True) [(''command'', ''rm -rf /'')]"
  by (simp add: deny_shell_engine_def add_rule_def set_mode_def demo_defs decide_eval)

theorem deny_rule_wins_witness:
  "decide deny_shell_engine (demo_tool ''shell'' True) [(''command'', ''rm -rf /'')]
     = deny_because ''Denied by permission rule for shell'' RuleDeny"
  using deny_rule_wins [OF _ deny_shell_matches]
  by (simp add: extract_paths_def input_get_def List.map_filter_def demo_tool_def)

text \<open>The code consults the allow rules before the mode: in plan mode the pure decision allows a mutating
  tool exactly when its paths are in scope and an allow rule matches it with no deny and no ask rule in
  the way. That is not what \<open>crates/permissions/README.md\<close> says of plan mode, whose sentence holds only for
  calls that no allow rule matches.\<close>

lemma plan_mode_allow_iff:
  assumes "engine_mode e = ModePlan" and "ts_is_mutating tool"
  shows "(\<exists>a. decide e tool i = Allow a) \<longleftrightarrow>
     (\<forall>raw\<in>set (extract_paths i). is_path_in_scope e raw)
     \<and> \<not> matches_rule e (pc_deny_rules (pe_context e)) tool i
     \<and> \<not> matches_rule e (pc_ask_rules (pe_context e)) tool i
     \<and> matches_rule e (pc_allow_rules (pe_context e)) tool i"
  using assms by (auto simp: decide_def list_all_iff decide_by_mode_plan allow_because_def)

definition plan_standing_engine :: permission_engine where
  "plan_standing_engine = set_mode ModePlan
     (install_standing_allow_rule ''write_file'' ''path=notes.md'' demo_engine)"

theorem plan_mode_allow_iff_witness:
  "\<exists>a. decide plan_standing_engine (demo_tool ''write_file'' True) [(''path'', ''notes.md'')] = Allow a"
proof -
  have "engine_mode plan_standing_engine = ModePlan"
    by (simp add: plan_standing_engine_def set_mode_def)
  moreover have "ts_is_mutating (demo_tool ''write_file'' True)"
    by (simp add: demo_tool_def)
  ultimately show ?thesis
    by (subst plan_mode_allow_iff)
      (simp_all add: plan_standing_engine_def set_mode_def install_standing_allow_rule_def
        standing_rule_def push_allow_rule_def demo_defs decide_eval)
qed

text \<open>C17: An operator's answer can never allow a mutating tool in plan mode, and it leaves the engine
  as it was: no rule is installed by an approval that plan mode refuses.\<close>

theorem approval_refused_in_plan_mode:
  assumes "engine_mode e = ModePlan" and "ts_is_mutating tool"
  shows "apply_approval resp ask tool i e = (plan_mode_denial tool, e)"
  using assms by (simp add: apply_approval_def)

theorem approval_refused_in_plan_mode_witness:
  "fst (apply_approval \<lparr>resp_decision = ApproveAllow Always, resp_feedback = None\<rparr> demo_ask
     (demo_tool ''write_file'' True) [(''path'', ''notes.md'')] (set_mode ModePlan demo_engine))
   = plan_mode_denial (demo_tool ''write_file'' True)"
  by (subst approval_refused_in_plan_mode) (simp_all add: set_mode_def demo_tool_def)

section \<open>What an answer installs\<close>

text \<open>No answer changes the working directory, the mode, the added directories, the deny rules or
  the ask rules; the allow rules keep their order and only grow, and a refused or edited answer
  installs nothing at all.\<close>

lemma approval_frame:
  "same_but_allow e (snd (apply_approval resp ask tool i e))
   \<and> ((\<nexists>scope. resp_decision resp = ApproveAllow scope) \<or> (\<exists>d. fst (apply_approval resp ask tool i e) = Deny d)
      \<longrightarrow> snd (apply_approval resp ask tool i e) = e)"
  using apply_approval_frame
  by (auto simp: apply_approval_def split: approval_decision.splits option.splits)

theorem approval_frame_witness:
  "snd (apply_approval \<lparr>resp_decision = ApproveDeny, resp_feedback = None\<rparr> demo_ask
     (demo_tool ''shell'' True) [(''command'', ''ls'')] demo_engine) = demo_engine"
  using approval_frame [of demo_engine "\<lparr>resp_decision = ApproveDeny, resp_feedback = None\<rparr>" demo_ask
      "demo_tool ''shell'' True" "[(''command'', ''ls'')]"] by simp

text \<open>After a session or an always answer that was allowed, the very same call is decided by the
  installed rule without asking again, unless a deny rule or an ask rule matches it.\<close>

theorem scoped_approval_sticks:
  assumes "resp_decision resp = ApproveAllow scope" and "scope = Session s \<or> scope = Always"
    and "fst (apply_approval resp ask tool i e) = Allow a"
    and "\<not> prefix exact_path_prefix (encode_tool_input i)"
    and "\<forall>raw\<in>set (extract_paths i). is_path_in_scope e raw"
    and "\<not> matches_rule e (pc_deny_rules (pe_context e)) tool i"
    and "\<not> matches_rule e (pc_ask_rules (pe_context e)) tool i"
  shows "decide (snd (apply_approval resp ask tool i e)) tool i = allow_because RuleAllow"
proof -
  let ?e = "snd (apply_approval resp ask tool i e)"
  have fr: "same_but_allow e ?e"
    by (rule apply_approval_frame)
  have "\<exists>r\<in>set (pc_allow_rules (pe_context ?e)). pr_tool_name r = ts_name tool
      \<and> pr_content r = Some (encode_tool_input i)"
    using assms(1-3) install_session_content [of tool i e]
      install_standing_content [of "ts_name tool" "encode_tool_input i" e]
    by (force simp: apply_approval_def standing_rule_def split: if_splits)
  then have "matches_rule e (pc_allow_rules (pe_context ?e)) tool i"
    using matches_rule_content assms(4) by (metis str_contains_refl)
  with fr assms(5-7) show ?thesis
    by (rule decide_after_approval)
qed

theorem scoped_approval_sticks_witness:
  "decide (snd (apply_approval \<lparr>resp_decision = ApproveAllow (Session ''s''), resp_feedback = None\<rparr>
     demo_ask (demo_tool ''shell'' True) [(''command'', ''ls'')] demo_engine))
     (demo_tool ''shell'' True) [(''command'', ''ls'')] = allow_because RuleAllow"
  by (rule scoped_approval_sticks [where scope = "Session ''s''" and s = "''s''"])
    (simp_all add: apply_approval_def demo_defs decide_eval)

text \<open>After an allowed repository allowlist, every later call of the tool whose paths all
  normalise to listed paths is allowed, whatever spelling they have: the paths written into the
  installed rules are read back as the same normalised paths.\<close>

lemma repo_allowlist_covers:
  assumes "is_absolute (pe_cwd e)"
    and "resp_decision resp = ApproveAllow (RepoAllowlist ps)"
    and "fst (apply_approval resp ask tool i e) = Allow a"
    and "extract_paths j \<noteq> []"
    and "\<forall>raw\<in>set (extract_paths j). \<exists>p\<in>set ps. normalize_path (pe_cwd e) raw = normalize_path (pe_cwd e) p"
    and "\<not> matches_rule e (pc_deny_rules (pe_context e)) tool j"
    and "\<not> matches_rule e (pc_ask_rules (pe_context e)) tool j"
  shows "decide (snd (apply_approval resp ask tool i e)) tool j = allow_because RuleAllow"
proof -
  let ?e = "snd (apply_approval resp ask tool i e)"
  have norm: "normalize_allowlist e qs acc = Some xs \<Longrightarrow>
      set xs = set acc \<union> normalize_path (pe_cwd e) ` set qs
      \<and> (\<forall>q\<in>set qs. is_path_in_scope e q)" for qs acc xs
    by (induction e qs acc rule: normalize_allowlist.induct)
      (auto simp: Let_def is_path_in_scope_def split: if_splits)
  obtain xs where xs: "normalize_allowlist e ps [] = Some xs" and e': "?e = install_exact_rules tool i xs e"
    using assms(2,3)
    by (auto simp: apply_approval_def Let_def normalize_repo_allowlist_paths_def
        split: if_splits option.splits)
  have fr: "same_but_allow e ?e"
    by (rule apply_approval_frame)
  have "is_path_in_scope e raw" if "raw \<in> set (extract_paths j)" for raw
    using assms(5) that norm [OF xs] by (auto simp: is_path_in_scope_def)
  moreover have "matches_rule e (pc_allow_rules (pe_context ?e)) tool j"
    unfolding e'
    by (rule matches_exact_installed [OF assms(1)])
      (use assms(4,5) norm [OF xs] in \<open>auto simp: current_paths_def\<close>)
  ultimately show ?thesis
    using fr assms(6,7) by (intro decide_after_approval) auto
qed

theorem repo_allowlist_covers_witness:
  "decide (snd (apply_approval \<lparr>resp_decision = ApproveAllow (RepoAllowlist [''./src/a.rs'']),
       resp_feedback = None\<rparr> demo_ask (demo_tool ''edit_file'' True) [(''path'', ''src/a.rs'')] demo_engine))
     (demo_tool ''edit_file'' True) [(''path'', ''src/b/../a.rs'')] = allow_because RuleAllow"
  by (rule repo_allowlist_covers [where ps = "[''./src/a.rs'']"])
    (simp_all add: apply_approval_def normalize_repo_allowlist_paths_def demo_defs decide_eval)

text \<open>An edited input is never run on the operator's word: an edit is allowed only when the engine
  itself allows the revised input, and the allowance then carries exactly the revised input and
  says that the user modified it.\<close>

lemma edit_is_redecided:
  assumes "resp_decision resp = ApproveEdit revised"
    and "fst (apply_approval resp ask tool i e) = Allow a"
  shows "(\<exists>b. decide e tool revised = Allow b \<and> ad_reason a = ad_reason b)
    \<and> ad_updated_input a = Some revised \<and> ad_user_modified a"
  using assms
  by (auto simp: apply_approval_def apply_edit_def split: if_splits permission_decision.splits)

theorem edit_is_redecided_witness:
  "\<exists>b. decide demo_engine (demo_tool ''glob'' False) [(''pattern'', ''a'')] = Allow b"
  using edit_is_redecided [of "\<lparr>resp_decision = ApproveEdit [(''pattern'', ''a'')], resp_feedback = None\<rparr>"
      "[(''pattern'', ''a'')]" demo_ask "demo_tool ''glob'' False" "[]" demo_engine]
  by (auto simp: apply_approval_def apply_edit_def demo_defs decide_eval)

text \<open>Revoking a standing rule removes exactly that rule, all its copies and no rule of another
  source, tool or content; it reports whether the rule was in force, and granting a rule twice
  leaves one copy.\<close>

lemma revoke_standing_exact:
  "remove_standing_allow_rule n c e =
     (standing_rule n c \<in> set (pc_allow_rules (pe_context e)),
      update_context (\<lambda>k. k\<lparr>pc_allow_rules := filter (\<lambda>r. r \<noteq> standing_rule n c)
        (pc_allow_rules (pe_context e))\<rparr>) e)
   \<and> install_standing_allow_rule n c (install_standing_allow_rule n c e) = install_standing_allow_rule n c e"
proof -
  have eq: "(pr_source r = UserSettings \<and> pr_behavior r = BehaviorAllow \<and> pr_tool_name r = n
      \<and> pr_content r = Some c) = (r = standing_rule n c)" for r :: permission_rule
    by (cases r) (auto simp: standing_rule_def)
  have len: "length (filter (\<lambda>r. r \<noteq> x) xs) \<noteq> length xs \<longleftrightarrow> x \<in> set xs" for x :: permission_rule and xs
    by (metis (mono_tags, lifting) filter_True length_filter_less less_irrefl)
  show ?thesis
    unfolding remove_standing_allow_rule_def Let_def eq
    using install_standing_content [of n c e] len
    by (auto simp: install_standing_allow_rule_def)
qed

end
