(* ===== verification/Permission_Gate.thy ===== *)
theory Permission_Gate
  imports Permission_Engine
begin

text \<open>
  The decide, ask, apply sequence every interactive call site shares
  (\<open>resolve_permission\<close> in \<open>crates/permissions/src/lib.rs\<close>), the session's shared engine with its
  one-shot execution clearances, and the registry backstop
  (\<open>crates/runtime/src/permission_gate.rs\<close>). The trait \<open>PermissionDecider\<close> is the locale
  \<open>permission_decider\<close>; its two implementations are its two interpretations.
\<close>

section \<open>The sequence\<close>

text \<open>
  The operator side (\<open>ask_flow\<close>, a closure with state of its own) is a function of the number of
  questions asked so far, the ask decision and the prompt. A run returns the decision, the
  decider's state and the exchanges it had with the operator.
\<close>

type_synonym 'ctx ask_flow = "nat \<Rightarrow> ask_decision \<Rightarrow> 'ctx permission_prompt \<Rightarrow> approval_response"
type_synonym 'ctx exchange = "ask_decision \<times> 'ctx permission_prompt \<times> approval_response"

type_synonym 'd decide_fn = "'d \<Rightarrow> tool_spec \<Rightarrow> tool_input \<Rightarrow> permission_decision"
type_synonym 'd approve_fn =
  "approval_response \<Rightarrow> ask_decision \<Rightarrow> tool_spec \<Rightarrow> tool_input \<Rightarrow> 'd \<Rightarrow> permission_decision \<times> 'd"

definition max_approval_revisions :: nat where "max_approval_revisions = 8"

definition revision_limit_denial :: "tool_spec \<Rightarrow> permission_decision" where
  "revision_limit_denial tool =
     deny_because (ts_name tool @ '' exceeded the approval revision limit'') RequiresApproval"

definition next_input :: "approval_response \<Rightarrow> tool_input \<Rightarrow> tool_input" where
  "next_input resp current =
     (case resp_decision resp of ApproveEdit revised \<Rightarrow> revised | _ \<Rightarrow> current)"

fun resolve_loop ::
  "'d approve_fn \<Rightarrow> tool_spec \<Rightarrow> string \<Rightarrow> 'ctx ask_flow \<Rightarrow> nat \<Rightarrow> nat
   \<Rightarrow> permission_decision \<Rightarrow> tool_input \<Rightarrow> 'd \<Rightarrow> permission_decision \<times> 'd \<times> 'ctx exchange list" where
  "resolve_loop app tool name flow k 0 decision current d = (revision_limit_denial tool, d, [])"
| "resolve_loop app tool name flow k (Suc n) decision current d =
     (case decision of
        Ask ask \<Rightarrow>
          (let prompt = prompt_for name ask current;
               resp = flow k ask prompt;
               (decision', d') = app resp ask tool current d;
               (final, d'', xs) = resolve_loop app tool name flow (Suc k) n decision'
                                    (next_input resp current) d'
           in (final, d'', (ask, prompt, resp) # xs))
      | _ \<Rightarrow> (decision, d, []))"

definition resolve_permission ::
  "'d decide_fn \<Rightarrow> 'd approve_fn \<Rightarrow> tool_spec \<Rightarrow> string \<Rightarrow> tool_input \<Rightarrow> 'ctx ask_flow \<Rightarrow> 'd
   \<Rightarrow> permission_decision \<times> 'd \<times> 'ctx exchange list" where
  "resolve_permission dec app tool name i flow d =
     resolve_loop app tool name flow 0 max_approval_revisions (dec d tool i) i d"

text \<open>The input an allowed call runs with.\<close>

definition executed_input :: "allow_decision \<Rightarrow> tool_input \<Rightarrow> tool_input" where
  "executed_input a i = (case ad_updated_input a of None \<Rightarrow> i | Some r \<Rightarrow> r)"

definition asked_input :: "ask_decision \<Rightarrow> tool_input \<Rightarrow> tool_input" where
  "asked_input ask i = (case ask_updated_input ask of None \<Rightarrow> i | Some r \<Rightarrow> r)"

section \<open>What the gate relies on\<close>

locale permission_decider =
  fixes dec :: "'d decide_fn"
    and app :: "'d approve_fn"
    and in_plan :: "'d \<Rightarrow> bool"
    and frame :: "'d \<Rightarrow> 'd \<Rightarrow> bool"
  assumes frame_refl: "frame d d"
    and frame_trans: "frame d d' \<Longrightarrow> frame d' d'' \<Longrightarrow> frame d d''"
    and frame_app: "frame d (snd (app resp ask tool i d))"
    and frame_plan: "frame d d' \<Longrightarrow> in_plan d' = in_plan d"
    and frame_deny: "frame d d' \<Longrightarrow> dec d' tool i = Deny x \<Longrightarrow> \<exists>y. dec d tool i = Deny y"
    and dec_ask_fresh: "dec d tool i = Ask ask \<Longrightarrow> ask_updated_input ask = None"
    and plan_refuses: "in_plan d \<Longrightarrow> ts_is_mutating tool \<Longrightarrow> \<exists>x. fst (app resp ask tool i d) = Deny x"
    and app_deny: "resp_decision resp = ApproveDeny \<Longrightarrow> \<exists>x. fst (app resp ask tool i d) = Deny x"
    and app_allow_input: "fst (app resp ask tool i d) = Allow a \<Longrightarrow>
        resp_decision resp = ApproveAllow scope \<Longrightarrow> ad_updated_input a = ask_updated_input ask"
    and app_edit_allow: "fst (app resp ask tool i d) = Allow a \<Longrightarrow>
        resp_decision resp = ApproveEdit r \<Longrightarrow> ad_updated_input a = Some r \<and> (\<exists>b. dec d tool r = Allow b)"
    and app_ask: "fst (app resp ask tool i d) = Ask ask' \<Longrightarrow>
        \<exists>r. resp_decision resp = ApproveEdit r \<and> ask_updated_input ask' = Some r \<and> (\<exists>b. dec d tool r = Ask b)"
begin

abbreviation loop where "loop \<equiv> resolve_loop app"

lemma loop_step:
  assumes "loop tool name flow k (Suc n) (Ask ask) current d = (final, d'', xs)"
  obtains resp decision' d' ys where
    "resp = flow k ask (prompt_for name ask current)"
    "app resp ask tool current d = (decision', d')"
    "loop tool name flow (Suc k) n decision' (next_input resp current) d' = (final, d'', ys)"
    "xs = (ask, prompt_for name ask current, resp) # ys"
  using assms by (auto simp: Let_def split: prod.splits)

lemma loop_settled:
  "\<nexists>ask. decision = Ask ask \<Longrightarrow> loop tool name flow k (Suc n) decision current d = (decision, d, [])"
  by (cases decision) auto

lemma loop_not_ask: "fst (loop tool name flow k n decision current d) \<noteq> Ask ask"
proof (induction n arbitrary: k decision current d)
  case (Suc n)
  show ?case
    using Suc.IH by (cases decision) (auto simp: Let_def split: prod.splits, metis fst_conv)
qed (simp add: revision_limit_denial_def)

lemma loop_length: "length (snd (snd (loop tool name flow k n decision current d))) \<le> n"
proof (induction n arbitrary: k decision current d)
  case (Suc n)
  show ?case
    using Suc.IH by (cases decision) (auto simp: Let_def split: prod.splits, metis snd_conv)
qed simp

lemma loop_frame: "frame d (fst (snd (loop tool name flow k n decision current d)))"
proof (induction n arbitrary: k decision current d)
  case (Suc n)
  show ?case
  proof (cases decision)
    case (Ask ask)
    obtain final d'' xs where run: "loop tool name flow k (Suc n) (Ask ask) current d = (final, d'', xs)"
      using prod_cases3 by blast
    then obtain resp decision' d' ys where step: "app resp ask tool current d = (decision', d')"
        "loop tool name flow (Suc k) n decision' (next_input resp current) d' = (final, d'', ys)"
      by (rule loop_step)
    have "frame d d'"
      using frame_app [of d resp ask tool current] step by simp
    moreover have "frame d' d''"
      using Suc.IH [of d' "Suc k" decision' "next_input resp current"] step by simp
    ultimately show ?thesis
      using frame_trans run Ask by fastforce
  qed (simp_all add: frame_refl)
qed (simp add: frame_refl)

lemma loop_plan:
  assumes "in_plan d" "ts_is_mutating tool" "\<nexists>a. decision = Allow a"
  shows "\<exists>x. fst (loop tool name flow k n decision current d) = Deny x"
proof (cases n)
  case (Suc m)
  show ?thesis
  proof (cases decision)
    case (Ask ask)
    obtain final d'' xs where run: "loop tool name flow k (Suc m) (Ask ask) current d = (final, d'', xs)"
      using prod_cases3 by blast
    then obtain resp decision' d' ys where step: "app resp ask tool current d = (decision', d')"
        "loop tool name flow (Suc k) m decision' (next_input resp current) d' = (final, d'', ys)"
      by (rule loop_step)
    obtain x where "decision' = Deny x"
      using plan_refuses [OF assms(1,2), of resp ask current] step by auto
    with step(2) have "\<exists>y. final = Deny y"
      by (cases m) (auto simp: revision_limit_denial_def deny_because_def)
    with run Suc Ask show ?thesis by auto
  qed (use assms(3) Suc in simp_all)
qed (simp add: revision_limit_denial_def deny_because_def)

text \<open>A run that asked as often as it may asks in vain: the last answer is thrown away.\<close>

lemma loop_exhausted:
  "length (snd (snd (loop tool name flow k n decision current d))) = n \<Longrightarrow>
   fst (loop tool name flow k n decision current d) = revision_limit_denial tool"
proof (induction n arbitrary: k decision current d)
  case (Suc n)
  show ?case
  proof (cases decision)
    case (Ask ask)
    obtain final d'' xs where run: "loop tool name flow k (Suc n) (Ask ask) current d = (final, d'', xs)"
      using prod_cases3 by blast
    then obtain resp decision' d' ys where step:
        "loop tool name flow (Suc k) n decision' (next_input resp current) d' = (final, d'', ys)"
        "xs = (ask, prompt_for name ask current, resp) # ys"
      by (rule loop_step)
    have "length ys = n"
      using Suc.prems run step(2) Ask by simp
    then show ?thesis
      using Suc.IH [of "Suc k" decision' "next_input resp current" d'] step(1) run Ask by simp
  qed (use Suc.prems in auto)
qed simp

text \<open>
  An allowed run ends with an answer that was not a denial, and runs either the input that answer's
  prompt displayed, or the revision the answer gave and the decider allowed.
\<close>

lemma loop_allow:
  assumes "loop tool name flow k n (Ask ask) current d = (Allow a, d'', xs)"
    and "asked_input ask i = current"
  shows "xs \<noteq> [] \<and> (\<exists>ask' prompt resp. last xs = (ask', prompt, resp) \<and>
     ((\<exists>scope. resp_decision resp = ApproveAllow scope \<and> pp_input prompt = executed_input a i)
      \<or> (\<exists>r e b. resp_decision resp = ApproveEdit r \<and> executed_input a i = r
           \<and> frame d e \<and> dec e tool r = Allow b)))"
  using assms
proof (induction n arbitrary: k ask current d xs)
  case (Suc n)
  from Suc.prems(1) obtain resp decision' d' ys where step:
      "resp = flow k ask (prompt_for name ask current)"
      "app resp ask tool current d = (decision', d')"
      "loop tool name flow (Suc k) n decision' (next_input resp current) d' = (Allow a, d'', ys)"
      "xs = (ask, prompt_for name ask current, resp) # ys"
    by (rule loop_step)
  have fr: "frame d d'"
    using frame_app [of d resp ask tool current] step by simp
  show ?case
  proof (cases decision')
    case (Allow b)
    have settled: "a = b" "ys = []"
      using step(3) Allow by (cases n; auto simp: revision_limit_denial_def deny_because_def)+
    show ?thesis
    proof (cases "resp_decision resp")
      case (ApproveAllow scope)
      then have "ad_updated_input a = ask_updated_input ask"
        using app_allow_input [of resp ask tool current d a scope] step Allow settled by simp
      then have "executed_input a i = current"
        using Suc.prems(2) by (simp add: executed_input_def asked_input_def)
      with settled step ApproveAllow show ?thesis
        by (simp add: prompt_for_def)
    next
      case ApproveDeny
      then show ?thesis
        using app_deny [of resp ask tool current d] step Allow by auto
    next
      case (ApproveEdit r)
      then have "ad_updated_input a = Some r \<and> (\<exists>b. dec d tool r = Allow b)"
        using app_edit_allow [of resp ask tool current d a r] step Allow settled by simp
      with settled step ApproveEdit frame_refl [of d] show ?thesis
        by (auto simp: executed_input_def)
    qed
  next
    case (Ask ask')
    then obtain r where r: "resp_decision resp = ApproveEdit r" "ask_updated_input ask' = Some r"
      using app_ask [of resp ask tool current d ask'] step by auto
    then have "asked_input ask' i = next_input resp current"
      by (simp add: asked_input_def next_input_def)
    from Suc.IH [OF step(3)[unfolded Ask] this] obtain ask2 prompt resp2 where IH: "ys \<noteq> []"
      "last ys = (ask2, prompt, resp2)"
      "(\<exists>scope. resp_decision resp2 = ApproveAllow scope \<and> pp_input prompt = executed_input a i)
      \<or> (\<exists>r e b. resp_decision resp2 = ApproveEdit r \<and> executed_input a i = r
           \<and> frame d' e \<and> dec e tool r = Allow b)"
      by blast
    have "last xs = (ask2, prompt, resp2)" "xs \<noteq> []"
      using step(4) IH(1,2) by simp_all
    with IH(3) frame_trans [OF fr] show ?thesis by blast
  next
    case (Deny x)
    then show ?thesis
      using step(3) by (cases n) (auto simp: revision_limit_denial_def deny_because_def)
  qed
qed (simp add: revision_limit_denial_def deny_because_def)

lemma resolve_allow:
  assumes "resolve_permission dec app tool name i flow d = (Allow a, d', xs)"
  shows "(xs = [] \<and> dec d tool i = Allow a)
    \<or> (xs \<noteq> [] \<and> (\<exists>ask' prompt resp. last xs = (ask', prompt, resp) \<and>
     ((\<exists>scope. resp_decision resp = ApproveAllow scope \<and> pp_input prompt = executed_input a i)
      \<or> (\<exists>r e b. resp_decision resp = ApproveEdit r \<and> executed_input a i = r
           \<and> frame d e \<and> dec e tool r = Allow b))))"
proof (cases "dec d tool i")
  case (Ask ask)
  have "asked_input ask i = i"
    using dec_ask_fresh [OF Ask] by (simp add: asked_input_def)
  then show ?thesis
    using loop_allow [of tool name flow 0 max_approval_revisions ask i d a d' xs i] assms Ask
    by (auto simp: resolve_permission_def)
qed (use assms in \<open>auto simp: resolve_permission_def max_approval_revisions_def numeral_eq_Suc\<close>)

text \<open>The input a run allows after asking is never one the decider denies afterwards.\<close>

lemma loop_allow_not_denied:
  assumes "loop tool name flow k n (Ask ask) current d = (Allow a, d'', xs)"
    and "asked_input ask i = current" and "\<nexists>x. dec d tool current = Deny x"
  shows "\<nexists>x. dec d'' tool (executed_input a i) = Deny x"
  using assms
proof (induction n arbitrary: k ask current d xs)
  case (Suc n)
  from Suc.prems(1) obtain resp decision' d' ys where step:
      "resp = flow k ask (prompt_for name ask current)"
      "app resp ask tool current d = (decision', d')"
      "loop tool name flow (Suc k) n decision' (next_input resp current) d' = (Allow a, d'', ys)"
      "xs = (ask, prompt_for name ask current, resp) # ys"
    by (rule loop_step)
  have fr: "frame d d'"
    using frame_app [of d resp ask tool current] step by simp
  show ?case
  proof (cases decision')
    case (Allow b)
    have settled: "a = b" "d'' = d'"
      using step(3) Allow by (cases n; auto simp: revision_limit_denial_def deny_because_def)+
    have "\<nexists>x. dec d tool (executed_input a i) = Deny x"
    proof (cases "resp_decision resp")
      case (ApproveAllow scope)
      then have "executed_input a i = current"
        using app_allow_input [of resp ask tool current d a scope] step Allow settled Suc.prems(2)
        by (simp add: executed_input_def asked_input_def)
      with Suc.prems(3) show ?thesis by simp
    next
      case ApproveDeny
      then show ?thesis
        using app_deny [of resp ask tool current d] step Allow by auto
    next
      case (ApproveEdit r)
      then show ?thesis
        using app_edit_allow [of resp ask tool current d a r] step Allow settled
        by (auto simp: executed_input_def)
    qed
    with settled fr frame_deny show ?thesis by blast
  next
    case (Ask ask')
    then obtain r b where r: "resp_decision resp = ApproveEdit r" "ask_updated_input ask' = Some r"
        "dec d tool r = Ask b"
      using app_ask [of resp ask tool current d ask'] step by auto
    have "asked_input ask' i = next_input resp current"
      using r by (simp add: asked_input_def next_input_def)
    moreover have "\<nexists>x. dec d' tool (next_input resp current) = Deny x"
      using r frame_deny [OF fr, of tool r] by (auto simp: next_input_def)
    ultimately show ?thesis
      using Suc.IH [OF step(3)[unfolded Ask]] by blast
  next
    case (Deny x)
    then show ?thesis
      using step(3) by (cases n) (auto simp: revision_limit_denial_def deny_because_def)
  qed
qed (simp add: revision_limit_denial_def deny_because_def)

end

section \<open>The plain engine as a decider\<close>

lemma decide_ask_fresh: "decide e tool i = Ask ask \<Longrightarrow> ask_updated_input ask = None"
  by (auto simp: decide_def decide_by_mode_def decision_defs split: if_splits)

lemma decide_deny_frame:
  assumes "same_but_allow e e'" and "decide e' tool i = Deny x"
  shows "\<exists>y. decide e tool i = Deny y"
proof -
  have "matches_rule e (pc_allow_rules (pe_context e)) tool i \<Longrightarrow>
        matches_rule e (pc_allow_rules (pe_context e')) tool i"
    by (rule matches_rule_mono)
      (use assms(1) set_mono_prefix in \<open>auto simp: same_but_allow_def\<close>)
  moreover have "pc_mode (pe_context e') = pc_mode (pe_context e)"
      "pc_deny_rules (pe_context e') = pc_deny_rules (pe_context e)"
      "pc_ask_rules (pe_context e') = pc_ask_rules (pe_context e)"
    using assms(1) by (simp_all add: same_but_allow_def)
  ultimately show ?thesis
    using assms(2)
    by (auto simp: decide_def scope_same_but_allow [OF assms(1)] matches_same_but_allow [OF assms(1)]
        deny_because_def split: if_splits)
qed

lemma apply_approval_plan:
  "engine_mode e = ModePlan \<Longrightarrow> ts_is_mutating tool \<Longrightarrow>
   apply_approval resp ask tool i e = (plan_mode_denial tool, e)"
  by (simp add: apply_approval_def)

lemma apply_approval_deny:
  "resp_decision resp = ApproveDeny \<Longrightarrow> \<exists>x. fst (apply_approval resp ask tool i e) = Deny x"
  by (simp add: apply_approval_def plan_mode_denial_def deny_approval_def deny_because_def)

lemma apply_approval_allow_input:
  "fst (apply_approval resp ask tool i e) = Allow a \<Longrightarrow> resp_decision resp = ApproveAllow scope
   \<Longrightarrow> ad_updated_input a = ask_updated_input ask"
  by (auto simp: apply_approval_def split: if_splits option.splits)

lemma apply_approval_edit_allow:
  "fst (apply_approval resp ask tool i e) = Allow a \<Longrightarrow> resp_decision resp = ApproveEdit r
   \<Longrightarrow> ad_updated_input a = Some r \<and> (\<exists>b. decide e tool r = Allow b)"
  by (auto simp: apply_approval_def apply_edit_def split: if_splits permission_decision.splits)

lemma apply_approval_ask:
  "fst (apply_approval resp ask tool i e) = Ask ask' \<Longrightarrow>
   \<exists>r. resp_decision resp = ApproveEdit r \<and> ask_updated_input ask' = Some r \<and> (\<exists>b. decide e tool r = Ask b)"
  by (auto simp: apply_approval_def apply_edit_def
      split: if_splits permission_decision.splits approval_decision.splits option.splits)

lemma apply_approval_plan_denies:
  "engine_mode e = ModePlan \<Longrightarrow> ts_is_mutating tool \<Longrightarrow>
   \<exists>x. fst (apply_approval resp ask tool i e) = Deny x"
  by (simp add: apply_approval_plan plan_mode_denial_def deny_because_def)

lemma same_but_allow_mode:
  "same_but_allow e e' \<Longrightarrow> (engine_mode e' = ModePlan) = (engine_mode e = ModePlan)"
  by (simp add: same_but_allow_def)

interpretation plain: permission_decider decide apply_approval "\<lambda>e. engine_mode e = ModePlan" same_but_allow
  by unfold_locales
    (fact same_but_allow_refl, erule (1) same_but_allow_trans, fact apply_approval_frame,
     erule same_but_allow_mode, erule (1) decide_deny_frame, erule decide_ask_fresh,
     erule (1) apply_approval_plan_denies, erule apply_approval_deny,
     erule (1) apply_approval_allow_input, erule (1) apply_approval_edit_allow, erule apply_approval_ask)

end
