(* ===== verification/Execution_Backstop.thy ===== *)
theory Execution_Backstop
  imports Permission_Gate
begin

text \<open>
  The session's shared permission engine and the registry backstop
  (\<open>SharedPermissionEngine\<close> and \<open>PermissionBackstopInterceptor\<close> in
  \<open>crates/runtime/src/permission_gate.rs\<close>). The handle's locks are taken for the length of one
  operation, so the shared engine is a state and each method one atomic step on it.
\<close>

section \<open>The shared engine\<close>

record shared_engine =
  se_engine :: permission_engine
  se_cleared :: "string list"

definition max_execution_clearances :: nat where "max_execution_clearances = 32"

definition new_shared :: "permission_engine \<Rightarrow> shared_engine" where
  "new_shared e = \<lparr>se_engine = e, se_cleared = []\<rparr>"

definition clearance_key :: "tool_spec \<Rightarrow> tool_input \<Rightarrow> string" where
  "clearance_key tool i = ts_name tool @ [CHR 0x1F] @ encode_tool_input i"

definition shared_decide :: "shared_engine \<Rightarrow> tool_spec \<Rightarrow> tool_input \<Rightarrow> permission_decision" where
  "shared_decide s = decide (se_engine s)"

fun pop_front_to :: "nat \<Rightarrow> 'a list \<Rightarrow> 'a list" where
  "pop_front_to n [] = []"
| "pop_front_to n (x # xs) = (if length (x # xs) > n then pop_front_to n xs else x # xs)"

definition push_clearance :: "string \<Rightarrow> string list \<Rightarrow> string list" where
  "push_clearance k cleared = pop_front_to max_execution_clearances (cleared @ [k])"

definition shared_apply_approval ::
  "approval_response \<Rightarrow> ask_decision \<Rightarrow> tool_spec \<Rightarrow> tool_input \<Rightarrow> shared_engine
   \<Rightarrow> permission_decision \<times> shared_engine" where
  "shared_apply_approval resp ask tool i s =
     (let (decision, e') = apply_approval resp ask tool i (se_engine s)
      in (decision,
          s\<lparr>se_engine := e',
            se_cleared := (case decision of
                Allow a \<Rightarrow> push_clearance (clearance_key tool (executed_input a i)) (se_cleared s)
              | _ \<Rightarrow> se_cleared s)\<rparr>))"

definition take_execution_clearance ::
  "tool_spec \<Rightarrow> tool_input \<Rightarrow> shared_engine \<Rightarrow> bool \<times> shared_engine" where
  "take_execution_clearance tool i s =
     (let key = clearance_key tool i
      in if key \<in> set (se_cleared s) then (True, s\<lparr>se_cleared := remove1 key (se_cleared s)\<rparr>)
         else (False, s))"

definition shared_set_mode :: "permission_mode \<Rightarrow> shared_engine \<Rightarrow> shared_engine" where
  "shared_set_mode m s = s\<lparr>se_engine := set_mode m (se_engine s)\<rparr>"

definition shared_add_rule :: "permission_rule \<Rightarrow> shared_engine \<Rightarrow> shared_engine" where
  "shared_add_rule r s = s\<lparr>se_engine := add_rule r (se_engine s)\<rparr>"

definition shared_restore_context :: "permission_context \<Rightarrow> shared_engine \<Rightarrow> shared_engine" where
  "shared_restore_context c s = s\<lparr>se_engine := restore_context c (se_engine s)\<rparr>"

definition replace_engine :: "permission_engine \<Rightarrow> shared_engine \<Rightarrow> shared_engine" where
  "replace_engine e s = s\<lparr>se_engine := e\<rparr>"

definition shared_install_standing :: "string \<Rightarrow> string \<Rightarrow> shared_engine \<Rightarrow> shared_engine" where
  "shared_install_standing n c s = s\<lparr>se_engine := install_standing_allow_rule n c (se_engine s)\<rparr>"

definition shared_remove_standing :: "string \<Rightarrow> string \<Rightarrow> shared_engine \<Rightarrow> bool \<times> shared_engine" where
  "shared_remove_standing n c s =
     (let (removed, e') = remove_standing_allow_rule n c (se_engine s)
      in (removed, s\<lparr>se_engine := e'\<rparr>))"

section \<open>The registry backstop\<close>

datatype intercept_verdict = Proceed | Reject string

definition before_execute ::
  "tool_spec \<Rightarrow> tool_input \<Rightarrow> shared_engine \<Rightarrow> intercept_verdict \<times> shared_engine" where
  "before_execute spec i s =
     (if \<not> ts_is_mutating spec then (Proceed, s)
      else case shared_decide s spec i of
        Allow _ \<Rightarrow> (Proceed, snd (take_execution_clearance spec i s))
      | Ask _ \<Rightarrow>
          (let (cleared, s') = take_execution_clearance spec i s
           in if cleared then (Proceed, s')
              else (Reject (''permission backstop blocked `'' @ ts_name spec
                      @ ''`: approval was not resolved before execution''), s'))
      | Deny d \<Rightarrow> (Reject (''permission backstop blocked `'' @ ts_name spec @ ''`: '' @ dd_message d), s))"

section \<open>The shared engine as a decider\<close>

definition shared_frame :: "shared_engine \<Rightarrow> shared_engine \<Rightarrow> bool" where
  "shared_frame s s' = same_but_allow (se_engine s) (se_engine s')"

lemma pop_front_to_drop: "pop_front_to n xs = drop (length xs - n) xs"
  by (induction n xs rule: pop_front_to.induct) (auto simp: Suc_diff_le)

lemma push_clearance_in [simp]: "k \<in> set (push_clearance k cleared)"
  by (simp add: push_clearance_def pop_front_to_drop max_execution_clearances_def)

lemma push_clearance_bound: "length (push_clearance k cleared) \<le> max_execution_clearances"
  by (simp add: push_clearance_def pop_front_to_drop)

lemma push_clearance_count: "count_list (push_clearance k cleared) x
    \<le> count_list cleared x + (if x = k then 1 else 0)"
proof -
  have "count_list (drop n xs) x \<le> count_list xs x" for n and xs :: "string list"
    using count_list_append [of "take n xs" "drop n xs" x] by simp
  from this [of "length (cleared @ [k]) - max_execution_clearances" "cleared @ [k]"]
  show ?thesis
    by (simp add: push_clearance_def pop_front_to_drop split: if_splits)
qed

lemma shared_apply_fst: "fst (shared_apply_approval resp ask tool i s) =
    fst (apply_approval resp ask tool i (se_engine s))"
  by (simp add: shared_apply_approval_def split: prod.splits)

lemma shared_apply_engine: "se_engine (snd (shared_apply_approval resp ask tool i s)) =
    snd (apply_approval resp ask tool i (se_engine s))"
  by (simp add: shared_apply_approval_def split: prod.splits)

lemma shared_apply_cleared: "se_cleared (snd (shared_apply_approval resp ask tool i s)) =
    (case fst (shared_apply_approval resp ask tool i s) of
        Allow a \<Rightarrow> push_clearance (clearance_key tool (executed_input a i)) (se_cleared s)
      | _ \<Rightarrow> se_cleared s)"
  by (simp add: shared_apply_approval_def split: prod.splits permission_decision.splits)

interpretation shared: permission_decider shared_decide shared_apply_approval
  "\<lambda>s. engine_mode (se_engine s) = ModePlan" shared_frame
  unfolding shared_frame_def
  by unfold_locales
    (fact same_but_allow_refl, erule (1) same_but_allow_trans,
     simp add: shared_apply_engine apply_approval_frame,
     erule same_but_allow_mode, unfold shared_decide_def shared_apply_fst,
     erule (1) decide_deny_frame, erule decide_ask_fresh,
     erule (1) apply_approval_plan_denies, erule apply_approval_deny,
     erule (1) apply_approval_allow_input, erule (1) apply_approval_edit_allow, erule apply_approval_ask)

section \<open>Deciders that leave a clearance behind\<close>

locale clearing_decider = permission_decider dec app in_plan frame
  for dec :: "'d decide_fn" and app :: "'d approve_fn" and in_plan :: "'d \<Rightarrow> bool"
    and frame :: "'d \<Rightarrow> 'd \<Rightarrow> bool" +
  fixes cleared :: "'d \<Rightarrow> tool_spec \<Rightarrow> tool_input \<Rightarrow> bool"
  assumes app_clears: "fst (app resp ask tool i d) = Allow a \<Longrightarrow>
      cleared (snd (app resp ask tool i d)) tool (executed_input a i)"
begin

lemma loop_clears:
  assumes "loop tool name flow k n (Ask ask) current d = (Allow a, d'', xs)"
    and "asked_input ask i = current"
  shows "cleared d'' tool (executed_input a i)"
  using assms
proof (induction n arbitrary: k ask current d xs)
  case (Suc n)
  from Suc.prems(1) obtain resp decision' d' ys where step:
      "app resp ask tool current d = (decision', d')"
      "loop tool name flow (Suc k) n decision' (next_input resp current) d' = (Allow a, d'', ys)"
    by (rule loop_step)
  show ?case
  proof (cases decision')
    case (Allow b)
    have settled: "a = b" "d'' = d'"
      using step(2) Allow by (cases n; auto simp: revision_limit_denial_def deny_because_def)+
    have "cleared d'' tool (executed_input a current)"
      using app_clears [of resp ask tool current d a] step(1) Allow settled by simp
    moreover have "executed_input a current = executed_input a i"
    proof (cases "resp_decision resp")
      case (ApproveAllow scope)
      then show ?thesis
        using app_allow_input [of resp ask tool current d a scope] step(1) Allow settled Suc.prems(2)
        by (simp add: executed_input_def asked_input_def split: option.splits)
    next
      case ApproveDeny
      then show ?thesis
        using app_deny [of resp ask tool current d] step(1) Allow by auto
    next
      case (ApproveEdit r)
      then show ?thesis
        using app_edit_allow [of resp ask tool current d a r] step(1) Allow settled
        by (simp add: executed_input_def)
    qed
    ultimately show ?thesis by simp
  next
    case (Ask ask')
    then obtain r where r: "resp_decision resp = ApproveEdit r" "ask_updated_input ask' = Some r"
      using app_ask [of resp ask tool current d ask'] step(1) by auto
    then have "asked_input ask' i = next_input resp current"
      by (simp add: asked_input_def next_input_def)
    then show ?thesis
      using Suc.IH step(2) Ask by blast
  next
    case (Deny x)
    then show ?thesis
      using step(2) by (cases n) (auto simp: revision_limit_denial_def deny_because_def)
  qed
qed (simp add: revision_limit_denial_def deny_because_def)

lemma resolve_clears:
  assumes "resolve_permission dec app tool name i flow d = (Allow a, d', xs)" and "xs \<noteq> []"
  shows "cleared d' tool (executed_input a i) \<and> (\<nexists>x. dec d' tool (executed_input a i) = Deny x)"
proof (cases "dec d tool i")
  case (Ask ask)
  have "asked_input ask i = i"
    using dec_ask_fresh [OF Ask] by (simp add: asked_input_def)
  then show ?thesis
    using loop_clears [of tool name flow 0 max_approval_revisions ask i d a d' xs i]
      loop_allow_not_denied [of tool name flow 0 max_approval_revisions ask i d a d' xs i] assms Ask
    by (simp add: resolve_permission_def)
qed (use assms in \<open>auto simp: resolve_permission_def max_approval_revisions_def numeral_eq_Suc\<close>)

end

definition holds_clearance :: "shared_engine \<Rightarrow> tool_spec \<Rightarrow> tool_input \<Rightarrow> bool" where
  "holds_clearance s tool i \<longleftrightarrow> clearance_key tool i \<in> set (se_cleared s)"

interpretation clearing: clearing_decider shared_decide shared_apply_approval
  "\<lambda>s. engine_mode (se_engine s) = ModePlan" shared_frame holds_clearance
  by unfold_locales (simp add: holds_clearance_def shared_apply_cleared)

section \<open>Runs of the shared engine\<close>

text \<open>
  One step of the session against its shared engine: an answered question, a registry execution,
  a mode or rule change, a wholesale swap. The label records the clearance a step grants (an
  approval that allowed) and the clearance it spends (an execution that proceeded although the
  pure decision still asks).
\<close>

datatype gate_label = Granted string | Spent string | Quiet

inductive gate_step :: "shared_engine \<Rightarrow> gate_label \<Rightarrow> shared_engine \<Rightarrow> bool" where
  approve: "shared_apply_approval resp ask tool i s = (Allow a, s')
      \<Longrightarrow> gate_step s (Granted (clearance_key tool (executed_input a i))) s'"
| refuse: "shared_apply_approval resp ask tool i s = (decision, s') \<Longrightarrow> \<nexists>a. decision = Allow a
      \<Longrightarrow> gate_step s Quiet s'"
| execute: "before_execute spec i s = (verdict, s')
      \<Longrightarrow> label = (if verdict = Proceed \<and> ts_is_mutating spec \<and> (\<exists>q. shared_decide s spec i = Ask q)
                   then Spent (clearance_key spec i) else Quiet)
      \<Longrightarrow> gate_step s label s'"
| swap: "se_cleared s' = se_cleared s \<Longrightarrow> gate_step s Quiet s'"

inductive gate_run :: "shared_engine \<Rightarrow> gate_label list \<Rightarrow> shared_engine \<Rightarrow> bool" where
  start: "gate_run (new_shared e) [] (new_shared e)"
| more: "gate_run s0 ls s \<Longrightarrow> gate_step s l s' \<Longrightarrow> gate_run s0 (ls @ [l]) s'"

lemma engine_ops_swap:
  "gate_step s Quiet (shared_set_mode m s)" "gate_step s Quiet (shared_add_rule r s)"
  "gate_step s Quiet (shared_restore_context c s)" "gate_step s Quiet (replace_engine e s)"
  "gate_step s Quiet (shared_install_standing n k s)" "gate_step s Quiet (snd (shared_remove_standing n k s))"
  by (auto intro!: gate_step.swap simp: shared_set_mode_def shared_add_rule_def
      shared_restore_context_def replace_engine_def shared_install_standing_def
      shared_remove_standing_def split: prod.splits)

lemma remove1_count:
  "x \<in> set xs \<Longrightarrow> count_list xs k = count_list (remove1 x xs) k + (if k = x then 1 else 0)"
  by (induction xs) auto

lemma take_clearance_count:
  "take_execution_clearance tool i s = (True, s') \<Longrightarrow>
   count_list (se_cleared s) k = count_list (se_cleared s') k + (if k = clearance_key tool i then 1 else 0)"
proof -
  assume "take_execution_clearance tool i s = (True, s')"
  then have "clearance_key tool i \<in> set (se_cleared s)"
      and after: "se_cleared s' = remove1 (clearance_key tool i) (se_cleared s)"
    by (auto simp: take_execution_clearance_def Let_def split: if_splits)
  from remove1_count [OF this(1), of k] show ?thesis
    unfolding after .
qed

lemma take_clearance_le:
  "count_list (se_cleared (snd (take_execution_clearance tool i s))) k \<le> count_list (se_cleared s) k"
proof -
  have "count_list (remove1 x xs) k \<le> count_list xs k" for x :: string and xs
    by (induction xs) auto
  then show ?thesis
    by (simp add: take_execution_clearance_def Let_def)
qed

lemma take_clearance_length:
  "length (se_cleared (snd (take_execution_clearance tool i s))) \<le> length (se_cleared s)"
  by (simp add: take_execution_clearance_def Let_def length_remove1)

lemma gate_step_ledger:
  "gate_step s l s' \<Longrightarrow>
   count_list (se_cleared s') k + count_list [l] (Spent k) \<le> count_list (se_cleared s) k + count_list [l] (Granted k)"
proof (induction rule: gate_step.induct)
  case (approve resp ask tool i s a s')
  then have "se_cleared s' = push_clearance (clearance_key tool (executed_input a i)) (se_cleared s)"
    using shared_apply_cleared [of resp ask tool i s] by simp
  then show ?case
    using push_clearance_count [of "clearance_key tool (executed_input a i)" "se_cleared s" k]
    by (auto split: if_splits)
next
  case (refuse resp ask tool i s decision s')
  then show ?case
    using shared_apply_cleared [of resp ask tool i s] by (cases decision) auto
next
  case (execute spec i s verdict s' label)
  then show ?case
    using take_clearance_le [of spec i s k] take_clearance_count [of spec i s s' k]
    by (auto simp: before_execute_def Let_def take_execution_clearance_def
        split: if_splits permission_decision.splits prod.splits)
qed simp

lemma gate_step_bound:
  "gate_step s l s' \<Longrightarrow> length (se_cleared s) \<le> max_execution_clearances \<Longrightarrow>
   length (se_cleared s') \<le> max_execution_clearances"
proof (induction rule: gate_step.induct)
  case (approve resp ask tool i s a s')
  then show ?case
    using shared_apply_cleared [of resp ask tool i s] push_clearance_bound by simp
next
  case (refuse resp ask tool i s decision s')
  then show ?case
    using shared_apply_cleared [of resp ask tool i s] by (cases decision) auto
next
  case (execute spec i s verdict s' label)
  then show ?case
    using take_clearance_length [of spec i s]
    by (auto simp: before_execute_def Let_def split: if_splits permission_decision.splits prod.splits)
qed simp

lemma gate_run_ledger:
  "gate_run s0 ls s \<Longrightarrow> count_list (se_cleared s) k + count_list ls (Spent k) \<le> count_list ls (Granted k)"
proof (induction rule: gate_run.induct)
  case (more s0 ls s l s')
  then show ?case
    using gate_step_ledger [OF more.hyps(2), of k] by simp
qed (simp add: new_shared_def)

lemma gate_run_bound: "gate_run s0 ls s \<Longrightarrow> length (se_cleared s) \<le> max_execution_clearances"
  by (induction rule: gate_run.induct) (simp_all add: new_shared_def gate_step_bound)

lemma before_execute_proceeds:
  "ts_is_mutating spec \<Longrightarrow> fst (before_execute spec i s) = Proceed \<longleftrightarrow>
   (\<exists>a. shared_decide s spec i = Allow a)
   \<or> (\<exists>q. shared_decide s spec i = Ask q) \<and> holds_clearance s spec i"
  by (auto simp: before_execute_def holds_clearance_def take_execution_clearance_def Let_def
      split: permission_decision.splits)

end
