(* ===== verification/Gate_Safety.thy ===== *)
theory Gate_Safety
  imports Permission_Safety Execution_Backstop
begin

text \<open>
  What the shared gate guarantees: it settles within its question bound, refuses mutations in plan
  mode whatever the operator answers, runs only inputs that were displayed or revised, and hands
  the registry backstop a clearance that is spent at most once.
\<close>

section \<open>A concrete session\<close>

definition demo_shared :: shared_engine where
  "demo_shared = new_shared demo_engine"

definition demo_shell :: tool_spec where
  "demo_shell = demo_tool ''shell'' True"

definition demo_command :: tool_input where
  "demo_command = [(''command'', ''ls'')]"

definition shell_ask :: "tool_input option \<Rightarrow> ask_decision" where
  "shell_ask revised = \<lparr>ask_message = ''Approve shell?'', ask_updated_input = revised,
     ask_reason = Some RequiresApproval\<rparr>"

definition answer :: "approval_decision \<Rightarrow> unit ask_flow" where
  "answer d = (\<lambda>k ask prompt. \<lparr>resp_decision = d, resp_feedback = None\<rparr>)"

text \<open>An operator who revises seven times and then grants the call for good.\<close>

definition revise_then_grant :: "unit ask_flow" where
  "revise_then_grant = (\<lambda>k ask prompt. \<lparr>resp_decision =
     (if k < 7 then ApproveEdit demo_command else ApproveAllow Always), resp_feedback = None\<rparr>)"

lemma demo_shell_decide: "decide demo_engine demo_shell demo_command = Ask (shell_ask None)"
  by (simp add: demo_defs decide_eval demo_shell_def demo_command_def shell_ask_def)

lemma demo_shell_edit:
  "apply_approval \<lparr>resp_decision = ApproveEdit demo_command, resp_feedback = None\<rparr> ask demo_shell j demo_engine
     = (Ask (shell_ask (Some demo_command)), demo_engine)"
  using demo_shell_decide
  by (simp add: apply_approval_def apply_edit_def demo_shell_def demo_tool_def demo_engine_def
      new_engine_def default_context_def shell_ask_def)

lemma demo_shell_once:
  "apply_approval \<lparr>resp_decision = ApproveAllow Once, resp_feedback = None\<rparr> (shell_ask u) demo_shell j demo_engine
     = (Allow \<lparr>ad_updated_input = u, ad_user_modified = False, ad_reason = Some RequiresApproval,
          ad_feedback = None\<rparr>, demo_engine)"
  by (simp add: apply_approval_def demo_defs demo_shell_def shell_ask_def)

lemma demo_shell_always:
  "apply_approval \<lparr>resp_decision = ApproveAllow Always, resp_feedback = None\<rparr> (shell_ask u) demo_shell j demo_engine
     = (Allow \<lparr>ad_updated_input = u, ad_user_modified = False, ad_reason = Some RequiresApproval,
          ad_feedback = None\<rparr>,
        install_standing_allow_rule ''shell'' (encode_tool_input j) demo_engine)"
  by (simp add: apply_approval_def demo_defs demo_shell_def shell_ask_def)

lemma demo_once_run:
  "resolve_permission shared_decide shared_apply_approval demo_shell ''shell'' demo_command
     (answer (ApproveAllow Once)) demo_shared
   = (Allow \<lparr>ad_updated_input = None, ad_user_modified = False, ad_reason = Some RequiresApproval,
        ad_feedback = None\<rparr>,
      \<lparr>se_engine = demo_engine, se_cleared = [clearance_key demo_shell demo_command]\<rparr>,
      [(shell_ask None, prompt_for ''shell'' (shell_ask None) demo_command,
        \<lparr>resp_decision = ApproveAllow Once, resp_feedback = None\<rparr>)])"
  by (simp add: resolve_permission_def max_approval_revisions_def numeral_eq_Suc Let_def
      shared_decide_def shared_apply_approval_def demo_shared_def new_shared_def demo_shell_decide
      demo_shell_once answer_def push_clearance_def max_execution_clearances_def executed_input_def)

lemma demo_revised_run:
  "\<exists>xs. length xs = 8 \<and> resolve_permission shared_decide shared_apply_approval demo_shell ''shell''
     demo_command revise_then_grant demo_shared
   = (revision_limit_denial demo_shell,
      \<lparr>se_engine = install_standing_allow_rule ''shell'' ''command=ls'' demo_engine,
       se_cleared = [clearance_key demo_shell demo_command]\<rparr>, xs)"
  by (simp add: resolve_permission_def max_approval_revisions_def numeral_eq_Suc Let_def
      shared_decide_def shared_apply_approval_def demo_shared_def new_shared_def demo_shell_decide
      demo_shell_edit demo_shell_always revise_then_grant_def next_input_def)
    (simp add: push_clearance_def max_execution_clearances_def executed_input_def demo_command_def
      encode_tool_input_def escape_tabs_def)

section \<open>The sequence\<close>

text \<open>C18: The gate always settles: for every operator it ends with Allow or Deny (never with an open
  question) after at most eight questions, and between entry and exit the session's engine keeps
  its mode, directories, deny rules and ask rules, its allow rules only growing.\<close>

theorem resolve_settles:
  "(\<nexists>ask. fst (resolve_permission shared_decide shared_apply_approval tool name i flow s) = Ask ask)
   \<and> length (snd (snd (resolve_permission shared_decide shared_apply_approval tool name i flow s))) \<le> 8
   \<and> same_but_allow (se_engine s)
       (se_engine (fst (snd (resolve_permission shared_decide shared_apply_approval tool name i flow s))))"
  using shared.loop_not_ask [of tool name flow 0 8 "shared_decide s tool i" i s]
    shared.loop_frame [of s tool name flow 0 8 "shared_decide s tool i" i]
    shared.loop_length [of tool name flow 0 8 "shared_decide s tool i" i s]
  by (simp add: resolve_permission_def max_approval_revisions_def shared_frame_def)

text \<open>C16: While the session is in plan mode the gate denies every mutating call that no allow rule matches,
  whatever the operator answers and however the call names its paths: at most one question is asked, and
  the session is afterwards what it was, with no rule installed and no clearance issued. An allow rule
  comes before the mode (lemma plan_mode_allow_iff of Permission_Safety).\<close>

theorem plan_mode_denies_mutation:
  assumes "engine_mode (se_engine s) = ModePlan" "ts_is_mutating tool"
    and "\<not> matches_rule (se_engine s) (pc_allow_rules (pe_context (se_engine s))) tool i"
  shows "\<exists>x xs. resolve_permission shared_decide shared_apply_approval tool name i flow s = (Deny x, s, xs)
    \<and> length xs \<le> 1"
proof -
  obtain m where m: "max_approval_revisions = Suc (Suc m)"
    by (simp add: max_approval_revisions_def)
  have refuses: "shared_apply_approval resp ask tool j s = (plan_mode_denial tool, s)" for resp ask j
    using assms(1,2) by (simp add: shared_apply_approval_def apply_approval_def plan_mode_denial_def deny_because_def)
  have denial: "\<exists>x. plan_mode_denial tool = Deny x"
    by (simp add: plan_mode_denial_def deny_because_def)
  show ?thesis
  proof (cases "shared_decide s tool i")
    case (Allow a)
    with assms show ?thesis
      by (auto simp: shared_decide_def decide_def decision_defs decide_by_mode_def split: if_splits)
  next
    case (Ask ask)
    with refuses denial show ?thesis
      by (auto simp: resolve_permission_def m Let_def)
  next
    case (Deny x)
    then show ?thesis
      by (simp add: resolve_permission_def m)
  qed
qed

definition demo_plan :: shared_engine where
  "demo_plan = shared_set_mode ModePlan demo_shared"

theorem plan_mode_denies_mutation_witness:
  "\<exists>x xs. resolve_permission shared_decide shared_apply_approval demo_shell ''shell'' demo_command
      (answer (ApproveAllow Always)) demo_plan = (Deny x, demo_plan, xs)"
proof -
  have "engine_mode (se_engine demo_plan) = ModePlan" "ts_is_mutating demo_shell"
      "\<not> matches_rule (se_engine demo_plan) (pc_allow_rules (pe_context (se_engine demo_plan))) demo_shell demo_command"
    by (simp_all add: demo_plan_def shared_set_mode_def demo_shared_def new_shared_def set_mode_def
      demo_shell_def demo_defs decide_eval)
  from plan_mode_denies_mutation [OF this, of "''shell''" "answer (ApproveAllow Always)"] show ?thesis
    by blast
qed

text \<open>C19: A call the gate allows was either allowed by the pure decision without a question, or its
  last question was answered with an allow and the call runs exactly the input that question
  displayed, or its last answer was a revision, which is what runs, and the pure decision allowed
  that revision in an engine the session went through.\<close>

theorem allowed_run_was_seen:
  assumes "resolve_permission shared_decide shared_apply_approval tool name i flow s = (Allow a, s', xs)"
  shows "(xs = [] \<and> shared_decide s tool i = Allow a)
    \<or> (xs \<noteq> [] \<and> (\<exists>ask prompt resp. last xs = (ask, prompt, resp) \<and>
        ((\<exists>scope. resp_decision resp = ApproveAllow scope \<and> pp_input prompt = executed_input a i)
         \<or> (\<exists>r e b. resp_decision resp = ApproveEdit r \<and> executed_input a i = r
              \<and> same_but_allow (se_engine s) (se_engine e) \<and> shared_decide e tool r = Allow b))))"
  using shared.resolve_allow [OF assms] by (simp add: shared_frame_def)

theorem allowed_run_was_seen_witness:
  "pp_input (prompt_for ''shell'' (shell_ask None) demo_command :: unit permission_prompt) = demo_command"
  using allowed_run_was_seen [OF demo_once_run] by (simp add: executed_input_def)

text \<open>A run that asked eight questions is denied, whatever the eighth answer was: the loop checks
  its bound before it looks at the decision that answer produced, so the eighth answer is applied
  to the engine (a standing rule it grants stays installed, and so does its clearance) while the
  call it answers is refused.\<close>

theorem eighth_answer_discarded:
  assumes "resolve_permission shared_decide shared_apply_approval tool name i flow s = (decision, s', xs)"
    and "length xs = 8"
  shows "decision = revision_limit_denial tool"
  using shared.loop_exhausted [of tool name flow 0 8 "shared_decide s tool i" i s] assms
  by (simp add: resolve_permission_def max_approval_revisions_def)

theorem eighth_answer_discarded_witness:
  "\<exists>s' xs. resolve_permission shared_decide shared_apply_approval demo_shell ''shell'' demo_command
      revise_then_grant demo_shared = (revision_limit_denial demo_shell, s', xs)
    \<and> standing_rule ''shell'' ''command=ls'' \<in> set (pc_allow_rules (pe_context (se_engine s')))
    \<and> holds_clearance s' demo_shell demo_command"
proof -
  obtain xs where "length xs = 8" and run:
    "resolve_permission shared_decide shared_apply_approval demo_shell ''shell'' demo_command
       revise_then_grant demo_shared
     = (revision_limit_denial demo_shell,
        \<lparr>se_engine = install_standing_allow_rule ''shell'' ''command=ls'' demo_engine,
         se_cleared = [clearance_key demo_shell demo_command]\<rparr>, xs)"
    using demo_revised_run by blast
  with eighth_answer_discarded [OF run] show ?thesis
    by (simp add: install_standing_content holds_clearance_def)
qed

section \<open>The backstop\<close>

text \<open>A call approved through the gate is not blocked by the backstop: if the gate asked and
  allowed, the registry lets the input it allowed proceed right afterwards.\<close>

theorem approved_call_passes_backstop:
  assumes "resolve_permission shared_decide shared_apply_approval tool name i flow s = (Allow a, s', xs)"
    and "xs \<noteq> []"
  shows "fst (before_execute tool (executed_input a i) s') = Proceed"
proof (cases "ts_is_mutating tool")
  case True
  then show ?thesis
    using clearing.resolve_clears [OF assms]
    by (cases "shared_decide s' tool (executed_input a i)") (auto simp: before_execute_proceeds)
qed (simp add: before_execute_def)

theorem approved_call_passes_backstop_witness:
  "fst (before_execute demo_shell demo_command
      \<lparr>se_engine = demo_engine, se_cleared = [clearance_key demo_shell demo_command]\<rparr>) = Proceed"
  using approved_call_passes_backstop [OF demo_once_run] by (simp add: executed_input_def)

text \<open>The backstop alone is sound: a mutating execution proceeds exactly when the pure decision,
  taken at that moment, allows it, or still asks and a clearance for this very tool and input is
  held; it never proceeds against a denial, so a call site that skips the gate cannot mutate
  against a deny rule, out of scope, or on an open question.\<close>

lemma backstop_proceeds_iff:
  assumes "ts_is_mutating spec"
  shows "fst (before_execute spec i s) = Proceed \<longleftrightarrow>
     (\<exists>a. shared_decide s spec i = Allow a)
     \<or> (\<exists>q. shared_decide s spec i = Ask q) \<and> clearance_key spec i \<in> set (se_cleared s)"
  using before_execute_proceeds [OF assms, of i s] by (simp add: holds_clearance_def)

theorem backstop_proceeds_iff_witness:
  "fst (before_execute demo_shell demo_command demo_shared) \<noteq> Proceed"
  by (subst backstop_proceeds_iff)
    (simp_all add: demo_shell_def demo_tool_def [of _ True] shared_decide_def demo_shared_def
      new_shared_def demo_shell_decide [unfolded demo_shell_def demo_tool_def])

text \<open>C20: Clearances are one shot and bounded: along every run of a session's shared engine (answers,
  executions, mode and rule changes, wholesale swaps, in any order) the executions that proceeded
  on a clearance for a key number at most the approvals granted for that key, and at most 32
  clearances are outstanding.\<close>

theorem clearances_are_one_shot:
  assumes "gate_run s0 ls s"
  shows "count_list ls (Spent k) + count_list (se_cleared s) k \<le> count_list ls (Granted k)
    \<and> length (se_cleared s) \<le> 32"
  using gate_run_ledger [OF assms, of k] gate_run_bound [OF assms]
  by (simp add: max_execution_clearances_def)

theorem clearances_are_one_shot_witness:
  "count_list [Granted (clearance_key demo_shell demo_command)] (Spent (clearance_key demo_shell demo_command)) + 1
   \<le> count_list [Granted (clearance_key demo_shell demo_command)] (Granted (clearance_key demo_shell demo_command))"
proof -
  let ?s = "\<lparr>se_engine = demo_engine, se_cleared = [clearance_key demo_shell demo_command]\<rparr>"
  have "gate_step demo_shared (Granted (clearance_key demo_shell (executed_input
      \<lparr>ad_updated_input = None, ad_user_modified = False, ad_reason = Some RequiresApproval,
       ad_feedback = None\<rparr> demo_command))) ?s"
    by (rule gate_step.approve [of "\<lparr>resp_decision = ApproveAllow Once, resp_feedback = None\<rparr>" "shell_ask None"])
      (simp add: shared_apply_approval_def demo_shared_def new_shared_def demo_shell_once
        push_clearance_def max_execution_clearances_def executed_input_def)
  then have "gate_run demo_shared ([] @ [Granted (clearance_key demo_shell demo_command)]) ?s"
    using gate_run.start [of demo_engine, folded demo_shared_def]
    by (intro gate_run.more) (simp_all add: executed_input_def)
  from clearances_are_one_shot [OF this, of "clearance_key demo_shell demo_command"] show ?thesis by simp
qed

end
