(* ===== verification/Core_Types.thy ===== *)
theory Core_Types
  imports Viden_Prelude "HOL-Library.List_Lexorder" "HOL-Library.Char_ord" "HOL-Library.Product_Lexorder"
begin

text \<open>
  The data the supervised-work part of the runtime exchanges: owners, agent tasks and DAGs,
  evidence, merge gates and the trust facts (\<open>crates/types/src\<close>: \<open>lib.rs\<close>, \<open>agent.rs\<close>, \<open>protocol.rs\<close>,
  \<open>runtime.rs\<close>, \<open>context.rs\<close>, \<open>conflict.rs\<close>, \<open>trust.rs\<close>). Structs are records, enums datatypes;
  the two enums the code sorts by carry a linear order.
\<close>

section \<open>Owners and tasks\<close>

record runtime_owner =
  ow_workspace_id :: string
  ow_project_id :: string
  ow_lane_id :: "string option"
  ow_session_id :: "string option"
  ow_task_id :: "string option"
  ow_turn_id :: "string option"

definition default_owner :: runtime_owner where
  "default_owner = \<lparr>ow_workspace_id = [], ow_project_id = [], ow_lane_id = None,
     ow_session_id = None, ow_task_id = None, ow_turn_id = None\<rparr>"

datatype agent_role = Planner | Coder | Reviewer | Tester | DocWriter | Researcher | ReleaseOperator

fun role_as_str :: "agent_role \<Rightarrow> string" where
  "role_as_str Planner = ''planner''"
| "role_as_str Coder = ''coder''"
| "role_as_str Reviewer = ''reviewer''"
| "role_as_str Tester = ''tester''"
| "role_as_str DocWriter = ''doc_writer''"
| "role_as_str Researcher = ''researcher''"
| "role_as_str ReleaseOperator = ''release_operator''"

definition role_parse :: "string \<Rightarrow> agent_role option" where
  "role_parse input =
     (let s = replace_char (CHR ''-'') (CHR ''_'') (str_trim input)
      in if s = ''planner'' then Some Planner
         else if s = ''coder'' then Some Coder
         else if s = ''reviewer'' then Some Reviewer
         else if s = ''tester'' then Some Tester
         else if s = ''doc_writer'' \<or> s = ''documenter'' then Some DocWriter
         else if s = ''researcher'' then Some Researcher
         else if s = ''release_operator'' \<or> s = ''release'' then Some ReleaseOperator
         else None)"

datatype agent_route = RouteBuiltIn | RouteAcp | RouteTerminal | RouteTmux
datatype agent_task_kind = KindProvider | KindTool | KindShell | KindTest | KindJob | KindAgent

datatype agent_task_status =
    TaskQueued | TaskThinking | TaskStreaming | TaskEditing | TaskRunningTool | TaskTesting
  | TaskWaitingApproval | TaskNeedsInput | TaskBlocked | TaskReviewing | TaskRunning | TaskAttached
  | TaskDone | TaskApplied | TaskDiscarded | TaskFailed | TaskCancelled | TaskArchived

fun status_as_str :: "agent_task_status \<Rightarrow> string" where
  "status_as_str TaskQueued = ''queued''"
| "status_as_str TaskThinking = ''thinking''"
| "status_as_str TaskStreaming = ''streaming''"
| "status_as_str TaskEditing = ''editing''"
| "status_as_str TaskRunningTool = ''running_tool''"
| "status_as_str TaskTesting = ''testing''"
| "status_as_str TaskWaitingApproval = ''waiting_approval''"
| "status_as_str TaskNeedsInput = ''needs_input''"
| "status_as_str TaskBlocked = ''blocked''"
| "status_as_str TaskReviewing = ''reviewing''"
| "status_as_str TaskRunning = ''running''"
| "status_as_str TaskAttached = ''attached''"
| "status_as_str TaskDone = ''done''"
| "status_as_str TaskApplied = ''applied''"
| "status_as_str TaskDiscarded = ''discarded''"
| "status_as_str TaskFailed = ''failed''"
| "status_as_str TaskCancelled = ''cancelled''"
| "status_as_str TaskArchived = ''archived''"

definition status_parse :: "string \<Rightarrow> agent_task_status option" where
  "status_parse input =
     (let s = str_trim input
      in if s = ''queued'' then Some TaskQueued
         else if s \<in> {''thinking'', ''starting''} then Some TaskThinking
         else if s = ''streaming'' then Some TaskStreaming
         else if s = ''editing'' then Some TaskEditing
         else if s \<in> {''running_tool'', ''tool''} then Some TaskRunningTool
         else if s = ''testing'' then Some TaskTesting
         else if s \<in> {''waiting_approval'', ''approval''} then Some TaskWaitingApproval
         else if s \<in> {''needs_input'', ''input''} then Some TaskNeedsInput
         else if s \<in> {''blocked'', ''apply_conflict''} then Some TaskBlocked
         else if s = ''reviewing'' then Some TaskReviewing
         else if s = ''running'' then Some TaskRunning
         else if s = ''attached'' then Some TaskAttached
         else if s \<in> {''done'', ''completed'', ''accepted''} then Some TaskDone
         else if s = ''applied'' then Some TaskApplied
         else if s \<in> {''discarded'', ''detached'', ''stopped''} then Some TaskDiscarded
         else if s = ''failed'' then Some TaskFailed
         else if s \<in> {''cancelled'', ''canceled''} then Some TaskCancelled
         else if s = ''archived'' then Some TaskArchived
         else None)"

definition status_is_active :: "agent_task_status \<Rightarrow> bool" where
  "status_is_active s \<longleftrightarrow> s \<in> {TaskQueued, TaskThinking, TaskStreaming, TaskEditing, TaskRunningTool,
     TaskTesting, TaskWaitingApproval, TaskNeedsInput, TaskBlocked, TaskReviewing, TaskRunning, TaskAttached}"

fun status_priority :: "agent_task_status \<Rightarrow> u8" where
  "status_priority TaskWaitingApproval = 100"
| "status_priority TaskBlocked = 95"
| "status_priority TaskNeedsInput = 90"
| "status_priority TaskReviewing = 85"
| "status_priority TaskTesting = 80"
| "status_priority TaskEditing = 70"
| "status_priority TaskRunningTool = 60"
| "status_priority TaskRunning = 60"
| "status_priority TaskAttached = 60"
| "status_priority TaskThinking = 50"
| "status_priority TaskStreaming = 50"
| "status_priority TaskQueued = 40"
| "status_priority TaskFailed = 30"
| "status_priority TaskDone = 20"
| "status_priority TaskApplied = 20"
| "status_priority TaskDiscarded = 20"
| "status_priority TaskCancelled = 10"
| "status_priority TaskArchived = 0"

record agent_next_action =
  na_label :: string
  na_command :: "string option"
  na_reason :: "string option"

record agent_task =
  at_id :: string
  at_parent_id :: "string option"
  at_role :: agent_role
  at_kind :: agent_task_kind
  at_route :: agent_route
  at_title :: string
  at_status :: agent_task_status
  at_activity :: string
  at_summary :: string
  at_progress :: u8
  at_started_at :: "u64 option"
  at_updated_at :: "u64 option"
  at_workspace :: "string option"
  at_evidence :: "string list"
  at_permissions :: "string list"
  at_decision :: "string option"
  at_result :: "string option"
  at_resume_handle :: "string option"
  at_pid :: "u32 option"
  at_next_action :: "agent_next_action option"
  at_owner :: "runtime_owner option"

definition task_is_active :: "agent_task \<Rightarrow> bool" where
  "task_is_active t = status_is_active (at_status t)"

datatype agent_dag_status = DagDraft | DagActive | DagPaused | DagBlocked | DagCompleted | DagCancelled

record agent_dag_task_spec =
  sp_task_id :: string
  sp_role :: agent_role
  sp_title :: string
  sp_objective :: string
  sp_dependencies :: "string list"
  sp_workspace :: "string option"
  sp_file_scope :: "string list"
  sp_context_bundle_id :: "string option"
  sp_required_evidence :: "string list"
  sp_permission_policy :: string

record agent_dag =
  dag_id :: string
  dag_goal :: string
  dag_status :: agent_dag_status
  dag_tasks :: "agent_dag_task_spec list"
  dag_created_at :: "u64 option"
  dag_updated_at :: "u64 option"

section \<open>Context scopes and items\<close>

datatype context_scope = ScopeTask string | ScopeDag string | ScopeWorkflow string

datatype content_kind = ContentJson | ContentCode | ContentDiff | ContentLog | ContentDiagnostic
  | ContentTranscript | ContentText

record context_handle =
  ch_handle_id :: string
  ch_item_id :: string
  ch_preferred_view_id :: "string option"
  ch_content_sha256 :: string
  ch_scope :: context_scope
  ch_expires_at :: "u64 option"

record context_item =
  ci_item_id :: string
  ci_scope :: context_scope
  ci_kind :: content_kind
  ci_content_sha256 :: string
  ci_title :: string
  ci_summary :: string
  ci_token_count :: u64
  ci_evidence_id :: "string option"
  ci_created_at :: "u64 option"

record context_bundle_summary =
  cb_bundle_id :: string
  cb_scope :: context_scope
  cb_handle_ids :: "string list"
  cb_estimated_tokens :: u64

section \<open>Evidence\<close>

datatype json_value = JNull | JBool bool | JNumber string | JString string
  | JArray "json_value list" | JObject "(string \<times> json_value) list"

record evidence_producer =
  ep_identity :: string
  ep_role :: string
  ep_task_id :: string

datatype verification_state = Unverified | Verified | VerificationFailedState
datatype quality_status = QualityPass | QualityWarn | QualityFail
datatype canonical_status = CanonMissing | CanonVerified | CanonBlocked | CanonNeedsChanges

datatype reason_code = MissingCanonical | MissingRequiredKind | MissingSource | HashMismatch
  | ScopeMismatch | MissingPermissionSnapshot | InvalidPermissionSnapshot | MissingProducer
  | QualityFailed | VerificationFailed

fun reason_rank :: "reason_code \<Rightarrow> nat" where
  "reason_rank MissingCanonical = 0"
| "reason_rank MissingRequiredKind = 1"
| "reason_rank MissingSource = 2"
| "reason_rank HashMismatch = 3"
| "reason_rank ScopeMismatch = 4"
| "reason_rank MissingPermissionSnapshot = 5"
| "reason_rank InvalidPermissionSnapshot = 6"
| "reason_rank MissingProducer = 7"
| "reason_rank QualityFailed = 8"
| "reason_rank VerificationFailed = 9"

lemma reason_rank_inj: "reason_rank a = reason_rank b \<Longrightarrow> a = b"
  by (cases a; cases b) auto

instantiation reason_code :: linorder
begin

definition less_eq_reason_code :: "reason_code \<Rightarrow> reason_code \<Rightarrow> bool" where
  "less_eq_reason_code a b \<longleftrightarrow> reason_rank a \<le> reason_rank b"

definition less_reason_code :: "reason_code \<Rightarrow> reason_code \<Rightarrow> bool" where
  "less_reason_code a b \<longleftrightarrow> reason_rank a < reason_rank b"

instance
  by standard (auto simp: less_eq_reason_code_def less_reason_code_def intro: reason_rank_inj)

end

record quality_facts =
  qf_status :: quality_status
  qf_reason_codes :: "reason_code list"

record canonical_reference =
  cr_item_id :: string
  cr_bundle_id :: string
  cr_source_hash :: string
  cr_producer :: evidence_producer
  cr_permission_snapshot_id :: "string option"
  cr_permission_scope :: context_scope
  cr_evidence_scope :: context_scope
  cr_verification :: verification_state
  cr_quality :: quality_facts

record evidence_view =
  ev_id :: string
  ev_kind :: string
  ev_summary :: string
  ev_path :: "string option"
  ev_source :: "string option"
  ev_canonical :: "canonical_reference option"
  ev_metadata :: "json_value option"
  ev_timestamp :: "u64 option"
  ev_owner :: "runtime_owner option"

record canonical_report =
  rp_status :: canonical_status
  rp_reason_codes :: "reason_code list"

definition canonical_evidence_status :: "evidence_view \<Rightarrow> canonical_status" where
  "canonical_evidence_status e =
     (case ev_canonical e of
        None \<Rightarrow> CanonMissing
      | Some c \<Rightarrow> if qf_status (cr_quality c) = QualityFail then CanonNeedsChanges
                  else if cr_verification c = Verified then CanonVerified
                  else CanonBlocked)"

section \<open>Trust facts\<close>

datatype handoff_acceptance = HandoffAccepted | HandoffRejected
datatype review_status = ReviewPending | ReviewAccepted | ReviewRejected
datatype review_verdict = VerdictAccepted | VerdictRejected

fun verdict_token :: "review_verdict \<Rightarrow> string" where
  "verdict_token VerdictAccepted = ''accepted''"
| "verdict_token VerdictRejected = ''rejected''"

fun status_of_verdict :: "review_verdict \<Rightarrow> review_status" where
  "status_of_verdict VerdictAccepted = ReviewAccepted"
| "status_of_verdict VerdictRejected = ReviewRejected"

record handoff_record =
  ho_handoff_id :: string
  ho_task_id :: string
  ho_from_lane_id :: string
  ho_to_lane_id :: string
  ho_owner :: runtime_owner
  ho_summary :: string
  ho_acceptance :: handoff_acceptance
  ho_audit_id :: string
  ho_updated_at :: u64

text \<open>\<open>ReviewedEvidenceBinding\<close> derives its order: by evidence id, then by hash.\<close>

datatype evidence_binding = Binding (eb_evidence_id: string) (eb_source_hash: string)

instantiation evidence_binding :: linorder
begin

definition less_eq_evidence_binding :: "evidence_binding \<Rightarrow> evidence_binding \<Rightarrow> bool" where
  "less_eq_evidence_binding a b \<longleftrightarrow>
     (eb_evidence_id a, eb_source_hash a) \<le> (eb_evidence_id b, eb_source_hash b)"

definition less_evidence_binding :: "evidence_binding \<Rightarrow> evidence_binding \<Rightarrow> bool" where
  "less_evidence_binding a b \<longleftrightarrow>
     (eb_evidence_id a, eb_source_hash a) < (eb_evidence_id b, eb_source_hash b)"

instance
  by standard (auto simp: less_eq_evidence_binding_def less_evidence_binding_def evidence_binding.expand)

end

record review_request =
  rr_review_id :: string
  rr_gate_id :: string
  rr_task_id :: string
  rr_requester_lane_id :: string
  rr_reviewer_lane_id :: string
  rr_owner :: runtime_owner
  rr_evidence_ids :: "string list"
  rr_evidence_bindings :: "evidence_binding list"
  rr_status :: review_status
  rr_feedback :: "string option"
  rr_audit_id :: string
  rr_updated_at :: u64

datatype contract_decision = ContractConfirmed | ContractRejected

record contract_record =
  co_contract_id :: string
  co_task_id :: string
  co_owner :: runtime_owner
  co_summary :: string
  co_decision :: contract_decision
  co_audit_id :: string
  co_updated_at :: u64

datatype dependency_state = DepBlocked | DepUnblocked

record dependency_record =
  de_dependency_id :: string
  de_task_id :: string
  de_depends_on_task_id :: string
  de_owner :: runtime_owner
  de_state :: dependency_state
  de_reason :: string
  de_audit_id :: string
  de_updated_at :: u64

datatype gate_type = GatePatch | GateReview | GateContract | GateHandoff | GateArtifact

record gate_policy =
  gp_required_evidence :: "string list"
  gp_permission_snapshot_id :: "string option"
  gp_requires_independent_validator :: bool
  gp_captured_at :: "u64 option"

record gate_validator =
  gv_owner :: runtime_owner
  gv_review_request_id :: string
  gv_independent :: bool
  gv_validated_at :: "u64 option"

datatype gate_outcome = OutcomeAwaitingEvidence | OutcomeAccepted | OutcomeRejected | OutcomeConflict
  | OutcomeMerged | OutcomeReverted | OutcomeLegacy

record gate_decision =
  gd_outcome :: gate_outcome
  gd_reason :: string
  gd_owner :: runtime_owner
  gd_evidence_ids :: "string list"
  gd_reviewed_evidence :: "evidence_binding list"
  gd_review_request_id :: "string option"
  gd_audit_id :: string
  gd_decided_at :: u64

text \<open>\<open>MergeGateDecision::decided_now\<close>; the clock reading is an argument.\<close>

definition decided_now ::
  "u64 \<Rightarrow> gate_outcome \<Rightarrow> string \<Rightarrow> runtime_owner \<Rightarrow> string list \<Rightarrow> string \<Rightarrow> gate_decision" where
  "decided_now clock outcome reason owner ids audit_id =
     \<lparr>gd_outcome = outcome, gd_reason = reason, gd_owner = owner, gd_evidence_ids = ids,
      gd_reviewed_evidence = [], gd_review_request_id = None, gd_audit_id = audit_id,
      gd_decided_at = clock\<rparr>"

datatype conflict_status = ConflictPending | ConflictRevalidated | ConflictResolved
datatype hunk_reason = ContextMismatch | AlreadyApplied | FileMissing | FileDeleted | BinaryHunk

record conflict_hunk =
  hk_ours_start :: u32
  hk_ours :: "string list"
  hk_theirs_start :: u32
  hk_theirs :: "string list"
  hk_base :: "string list option"
  hk_reason :: hunk_reason

record conflict_file =
  cf_path :: string
  cf_hunks :: "conflict_hunk list"
  cf_omitted :: bool

datatype conflict_baseline = BaseRevision string | BaseEvidence "evidence_binding list" | BaseUnknown

record conflict_content =
  cc_baseline :: conflict_baseline
  cc_files :: "conflict_file list"
  cc_truncated :: bool

record conflict_bounce =
  bo_bounce_id :: string
  bo_gate_id :: string
  bo_task_id :: string
  bo_original_lane_id :: string
  bo_owner :: runtime_owner
  bo_reason :: string
  bo_status :: conflict_status
  bo_evidence_ids :: "string list"
  bo_baseline_evidence :: "evidence_binding list"
  bo_revalidation_evidence :: "evidence_binding list"
  bo_content :: "conflict_content option"
  bo_audit_id :: string
  bo_created_at :: u64
  bo_revalidated_at :: "u64 option"

record recovery_reference =
  rs_snapshot_id :: string
  rs_manifest_sha256 :: string

record revert_record =
  re_revert_id :: string
  re_gate_id :: string
  re_applied_change_id :: string
  re_owner :: runtime_owner
  re_reason :: string
  re_restored_paths :: "string list"
  re_audit_id :: string
  re_reverted_at :: u64

datatype gate_status = GateProposed | GateCollectingEvidence | GateBlocked | GateNeedsChanges
  | GateAccepted | GateMerged | GateReverted

record merge_gate =
  mg_gate_id :: string
  mg_task_id :: string
  mg_status :: gate_status
  mg_required_evidence :: "string list"
  mg_evidence_ids :: "string list"
  mg_gate_type :: gate_type
  mg_owner :: runtime_owner
  mg_validator :: "gate_validator option"
  mg_policy :: gate_policy
  mg_decision :: "gate_decision option"
  mg_conflict :: "conflict_bounce option"
  mg_applied_change_id :: "string option"
  mg_recovery :: "recovery_reference option"
  mg_audit_ids :: "string list"
  mg_updated_at :: "u64 option"

section \<open>Event cursors\<close>

record event_cursor =
  ec_stream_id :: string
  ec_sequence :: u64

datatype cursor_order = DuplicateOrOld | NextEvent | GapEvent | StreamMismatch

definition classify_incoming :: "event_cursor \<Rightarrow> event_cursor \<Rightarrow> cursor_order" where
  "classify_incoming have incoming =
     (if ec_stream_id have \<noteq> ec_stream_id incoming then StreamMismatch
      else if ec_sequence incoming \<le> ec_sequence have then DuplicateOrOld
      else if ec_sequence incoming = sat_add (ec_sequence have) 1 then NextEvent
      else GapEvent)"

end
