(* ===== verification/Text_Redaction.thy ===== *)
theory Text_Redaction
  imports Core_Types Path_Scope
begin

text \<open>
  What the runtime does to operator and model text before it publishes it: word redaction, preview
  truncation, evidence paths and the identifiers of external evidence
  (\<open>crates/runtime/src/runtime_contract.rs\<close>, \<open>crates/runtime/src/runtime_tasks.rs\<close>).
\<close>

section \<open>Redaction\<close>

abbreviation redacted_text :: string where "redacted_text \<equiv> ''[REDACTED]''"

definition secret_markers :: "string list" where
  "secret_markers = [''secret'', ''token='', ''api_key'', ''apikey'']"

definition word_is_sensitive :: "string \<Rightarrow> bool" where
  "word_is_sensitive w \<longleftrightarrow>
     (let lower = to_ascii_lowercase w
      in starts_with ''sk-'' lower
         \<or> list_ex (\<lambda>m. str_contains m lower) secret_markers
         \<or> starts_with ''/'' w
         \<or> str_contains ''..'' w
         \<or> str_contains ''/Users/'' w
         \<or> str_contains ''/tmp/'' w
         \<or> str_contains ''/var/'' w
         \<or> str_contains ''diff --git'' w
         \<or> has_control_char w)"

definition redact_word :: "string \<Rightarrow> string" where
  "redact_word w = (if word_is_sensitive w then redacted_text else w)"

definition redact_command_text :: "string \<Rightarrow> string" where
  "redact_command_text input =
     (if str_contains ''diff --git'' (to_ascii_lowercase input) then redacted_text
      else join '' '' (map redact_word (split_whitespace input)))"

definition sanitize_runtime_domain_text :: "string \<Rightarrow> nat \<Rightarrow> string" where
  "sanitize_runtime_domain_text value max_chars =
     truncate_for_preview (redact_command_text value) max_chars"

definition sanitize_evidence_summary :: "string \<Rightarrow> string" where
  "sanitize_evidence_summary s = truncate_for_preview (redact_command_text s) 500"

definition sanitize_evidence_source :: "string \<Rightarrow> string" where
  "sanitize_evidence_source s = truncate_for_preview (redact_command_text s) 120"

text \<open>\<open>redact_task_text\<close> repeats the loop; its word test lacks only the test for a diff header,
  which no word without white space can meet.\<close>

definition task_word_is_sensitive :: "string \<Rightarrow> bool" where
  "task_word_is_sensitive w \<longleftrightarrow>
     (let lower = to_ascii_lowercase w
      in starts_with ''sk-'' lower
         \<or> list_ex (\<lambda>m. str_contains m lower) secret_markers
         \<or> starts_with ''/'' w
         \<or> str_contains ''..'' w
         \<or> str_contains ''/Users/'' w
         \<or> str_contains ''/tmp/'' w
         \<or> str_contains ''/var/'' w
         \<or> has_control_char w)"

definition redact_task_text :: "string \<Rightarrow> nat \<Rightarrow> string" where
  "redact_task_text input max_chars =
     (if str_contains ''diff --git'' (to_ascii_lowercase input) then redacted_text
      else truncate_for_preview
             (join '' '' (map (\<lambda>w. if task_word_is_sensitive w then redacted_text else w)
                            (split_whitespace input))) max_chars)"

section \<open>Paths\<close>

definition path_is_unsafe :: "string \<Rightarrow> bool" where
  "path_is_unsafe trimmed \<longleftrightarrow> trimmed = [] \<or> has_control_char trimmed \<or> is_absolute trimmed
     \<or> list_ex (\<lambda>c. c = ParentDir \<or> c = RootDir) (components trimmed)"

definition rejoin_segments :: "string \<Rightarrow> string" where
  "rejoin_segments trimmed =
     join ''/'' (filter (\<lambda>part. part \<noteq> [] \<and> part \<noteq> ''.'') (split_on (CHR ''/'') trimmed))"

definition validate_evidence_path :: "string \<Rightarrow> string res" where
  "validate_evidence_path p =
     (if path_is_unsafe (str_trim p) then Err ''invalid evidence path''
      else Ok (rejoin_segments (str_trim p)))"

definition safe_runtime_domain_path :: "string \<Rightarrow> string option" where
  "safe_runtime_domain_path p = (case validate_evidence_path p of Inl _ \<Rightarrow> None | Inr q \<Rightarrow> Some q)"

definition safe_task_path :: "string \<Rightarrow> string option" where
  "safe_task_path p =
     (if path_is_unsafe (str_trim p) then None else Some (rejoin_segments (str_trim p)))"

section \<open>Task records and specifications\<close>

definition non_empty :: "string option \<Rightarrow> string option" where
  "non_empty s = (case s of Some t \<Rightarrow> if t = [] then None else Some t | None \<Rightarrow> None)"

definition sanitize_next_action :: "agent_next_action \<Rightarrow> agent_next_action" where
  "sanitize_next_action a = \<lparr>na_label = redact_task_text (na_label a) 80,
     na_command = non_empty (map_option (\<lambda>c. redact_task_text c 120) (na_command a)),
     na_reason = non_empty (map_option (\<lambda>r. redact_task_text r 160) (na_reason a))\<rparr>"

definition sanitize_agent_task :: "agent_task \<Rightarrow> agent_task" where
  "sanitize_agent_task t = t\<lparr>
     at_title := redact_task_text (at_title t) 160,
     at_activity := redact_task_text (at_activity t) 240,
     at_summary := redact_task_text (at_summary t) 500,
     at_workspace := Option.bind (at_workspace t) safe_task_path,
     at_decision := non_empty (map_option (\<lambda>d. redact_task_text d 240) (at_decision t)),
     at_result := non_empty (map_option (\<lambda>r. redact_task_text r 500) (at_result t)),
     at_next_action := map_option sanitize_next_action (at_next_action t)\<rparr>"

definition sanitize_task_spec :: "agent_dag_task_spec \<Rightarrow> agent_dag_task_spec" where
  "sanitize_task_spec s = s\<lparr>
     sp_title := sanitize_runtime_domain_text (sp_title s) 160,
     sp_objective := sanitize_runtime_domain_text (sp_objective s) 240,
     sp_workspace := Option.bind (sp_workspace s) safe_runtime_domain_path,
     sp_file_scope := List.map_filter safe_runtime_domain_path (sp_file_scope s)\<rparr>"

section \<open>Identifiers of external evidence\<close>

definition is_ascii_hexdigit :: "char \<Rightarrow> bool" where
  "is_ascii_hexdigit c \<longleftrightarrow> is_ascii_digit c \<or> (97 \<le> byte c \<and> byte c \<le> 102) \<or> (65 \<le> byte c \<and> byte c \<le> 70)"

definition is_safe_canonical_identifier :: "string \<Rightarrow> nat \<Rightarrow> bool" where
  "is_safe_canonical_identifier value max_len \<longleftrightarrow>
     \<not> (value = [] \<or> length value > max_len \<or> str_trim value \<noteq> value
        \<or> str_contains ''/'' value \<or> str_contains [CHR 0x5C] value \<or> str_contains ''..'' value
        \<or> str_contains ''://'' value \<or> has_control_char value)
     \<and> (let lower = to_ascii_lowercase value
        in \<not> (starts_with ''sk-'' lower \<or> list_ex (\<lambda>m. str_contains m lower) secret_markers))
     \<and> list_all (\<lambda>c. is_ascii_alphanumeric c \<or> c \<in> set ''_-.:'') value"

definition invalid_reference :: "string \<Rightarrow> string" where
  "invalid_reference field = ''invalid_canonical_evidence_reference:'' @ field"

definition validate_canonical_identifier :: "string \<Rightarrow> string \<Rightarrow> nat \<Rightarrow> unit res" where
  "validate_canonical_identifier field value max_len =
     ensure (is_safe_canonical_identifier value max_len) (invalid_reference field)"

definition validate_optional_canonical_identifier :: "string \<Rightarrow> string \<Rightarrow> nat \<Rightarrow> unit res" where
  "validate_optional_canonical_identifier field value max_len =
     (if value = [] then Ok () else validate_canonical_identifier field value max_len)"

definition validate_canonical_hash :: "string \<Rightarrow> string \<Rightarrow> unit res" where
  "validate_canonical_hash field value =
     ensure (length value = 64 \<and> list_all is_ascii_hexdigit value) (invalid_reference field)"

fun validate_canonical_scope :: "string \<Rightarrow> context_scope \<Rightarrow> unit res" where
  "validate_canonical_scope field (ScopeTask i) = validate_canonical_identifier (field @ ''.task_id'') i 128"
| "validate_canonical_scope field (ScopeDag i) = validate_canonical_identifier (field @ ''.dag_id'') i 128"
| "validate_canonical_scope field (ScopeWorkflow i) = validate_canonical_identifier (field @ ''.workflow_id'') i 128"

definition validate_external_reference :: "canonical_reference \<Rightarrow> canonical_reference res" where
  "validate_external_reference c =
     guarded
      [validate_canonical_identifier ''item_id'' (cr_item_id c) 128,
       validate_canonical_identifier ''bundle_id'' (cr_bundle_id c) 128,
       validate_canonical_hash ''source_hash'' (cr_source_hash c),
       validate_optional_canonical_identifier ''producer.identity'' (ep_identity (cr_producer c)) 64,
       ensure (ep_role (cr_producer c) = [] \<or> role_parse (ep_role (cr_producer c)) \<noteq> None)
         (invalid_reference ''producer.role''),
       validate_optional_canonical_identifier ''producer.role'' (ep_role (cr_producer c)) 32,
       validate_canonical_identifier ''producer.task_id'' (ep_task_id (cr_producer c)) 128,
       (case cr_permission_snapshot_id c of None \<Rightarrow> Ok ()
        | Some s \<Rightarrow> validate_canonical_identifier ''permission_snapshot_id'' s 128),
       validate_canonical_scope ''permission_scope'' (cr_permission_scope c),
       validate_canonical_scope ''evidence_scope'' (cr_evidence_scope c)]
      (Ok c)"

section \<open>No marker survives\<close>

lemma lowercase_append [simp]:
  "to_ascii_lowercase (a @ b) = to_ascii_lowercase a @ to_ascii_lowercase b"
  by (simp add: to_ascii_lowercase_def)

lemma lowercase_join: "to_ascii_lowercase (join '' '' ws) = join '' '' (map to_ascii_lowercase ws)"
proof (induction ws rule: induct_list012)
  case (3 x y zs)
  then show ?case
    by (simp add: to_ascii_lowercase_def is_ascii_uppercase_def)
qed (simp_all add: to_ascii_lowercase_def)

lemma sublist_avoiding:
  assumes "sublist m (a @ d # b)" and "d \<notin> set m"
  shows "sublist m a \<or> sublist m b"
proof -
  consider "sublist m a" | "sublist m (d # b)"
    | m1 m2 where "m = m1 @ m2" "suffix m1 a" "prefix m2 (d # b)"
    using assms(1) by (auto simp: sublist_append)
  then show ?thesis
  proof cases
    case 2
    then show ?thesis
      using assms(2) by (auto simp: sublist_Cons_right prefix_Cons)
  next
    case 3
    then have "m2 = []"
      using assms(2) by (auto simp: prefix_Cons)
    with 3 show ?thesis
      by (simp add: suffix_imp_sublist)
  qed simp
qed

lemma sublist_join:
  "sublist m (join [d] ws) \<Longrightarrow> d \<notin> set m \<Longrightarrow> m \<noteq> [] \<Longrightarrow> \<exists>w\<in>set ws. sublist m w"
proof (induction ws rule: induct_list012)
  case (3 x y zs)
  then show ?case
    using sublist_avoiding [of m x d "join [d] (y # zs)"] by auto
qed auto

lemma redact_word_clean:
  assumes "m \<in> set secret_markers"
  shows "\<not> str_contains m (to_ascii_lowercase (redact_word w))"
proof (cases "word_is_sensitive w")
  case True
  have "to_ascii_lowercase redacted_text = ''[redacted]''"
    by code_simp
  with True assms show ?thesis
    by (auto simp: redact_word_def secret_markers_def)
next
  case False
  with assms show ?thesis
    by (auto simp: redact_word_def word_is_sensitive_def list_ex_iff Let_def)
qed

lemma marker_no_space: "m \<in> set secret_markers \<Longrightarrow> CHR '' '' \<notin> set m \<and> CHR ''.'' \<notin> set m \<and> m \<noteq> []"
  by (auto simp: secret_markers_def)

lemma redact_clean:
  assumes "m \<in> set secret_markers"
  shows "\<not> str_contains m (to_ascii_lowercase (redact_command_text s))"
proof (cases "str_contains ''diff --git'' (to_ascii_lowercase s)")
  case True
  have "word_is_sensitive ''/''"
    by (simp add: word_is_sensitive_def starts_with_def Let_def)
  with redact_word_clean [OF assms, of "''/''"] True show ?thesis
    by (simp add: redact_command_text_def redact_word_def)
next
  case False
  then show ?thesis
    using sublist_join [of m "CHR '' ''" "map to_ascii_lowercase (map redact_word (split_whitespace s))"]
      marker_no_space [OF assms] redact_word_clean [OF assms]
    by (auto simp: redact_command_text_def lowercase_join str_contains_sublist)
qed

lemma truncate_cases:
  "truncate_for_preview s n = s \<or> (\<exists>p. prefix p s \<and> truncate_for_preview s n = p @ ''...'')"
proof (cases "n < length (utf8_chars s)")
  case True
  have "s = concat (take n (utf8_chars s)) @ concat (drop n (utf8_chars s))"
    by (simp flip: concat_append)
  then have "prefix (concat (take n (utf8_chars s))) s"
    by (metis prefixI)
  with True show ?thesis
    by (auto simp: truncate_for_preview_def)
qed (simp add: truncate_for_preview_def)

lemma truncate_clean:
  assumes "\<not> str_contains m (to_ascii_lowercase s)" and "CHR ''.'' \<notin> set m" and "m \<noteq> []"
  shows "\<not> str_contains m (to_ascii_lowercase (truncate_for_preview s n))"
proof (cases "truncate_for_preview s n = s")
  case False
  then obtain p where p: "prefix p s" "truncate_for_preview s n = p @ ''...''"
    using truncate_cases [of s n] by auto
  then obtain q where s: "s = p @ q"
    by (auto simp: prefix_def)
  have dots: "to_ascii_lowercase ''...'' = CHR ''.'' # ''..''"
    by (simp add: to_ascii_lowercase_def is_ascii_uppercase_def)
  have "\<not> sublist m (to_ascii_lowercase p)"
    using assms(1) s by (auto simp: str_contains_sublist sublist_append)
  moreover have "\<not> sublist m ''..''"
    using assms(2,3) by (auto simp: sublist_Cons_right prefix_Cons)
  ultimately have "\<not> sublist m (to_ascii_lowercase p @ CHR ''.'' # ''..'')"
    using sublist_avoiding [of m "to_ascii_lowercase p" "CHR ''.''" "''..''"] assms(2) by auto
  then show ?thesis
    by (simp add: p(2) str_contains_sublist dots)
qed (use assms in simp)

lemma sanitized_task_keeps [simp]:
  "at_id (sanitize_agent_task t) = at_id t" "at_status (sanitize_agent_task t) = at_status t"
  "at_updated_at (sanitize_agent_task t) = at_updated_at t"
  "at_evidence (sanitize_agent_task t) = at_evidence t"
  by (simp_all add: sanitize_agent_task_def)

lemma sanitized_spec_keeps [simp]:
  "sp_task_id (sanitize_task_spec s) = sp_task_id s"
  "sp_dependencies (sanitize_task_spec s) = sp_dependencies s"
  "sp_required_evidence (sanitize_task_spec s) = sp_required_evidence s"
  by (simp_all add: sanitize_task_spec_def)

end
