(* ===== verification/Keyset_Paging.thy ===== *)
theory Keyset_Paging
  imports Viden_Prelude
begin

text \<open>
  Keyset paging, the contract behind the three paged reads of the runtime: rows in a fixed walking
  order, a page that starts strictly beyond a cursor, a cursor that names the last row delivered.
  A client that passes each cursor back reads every row exactly once.
\<close>

text \<open>A client's walk: read pages from a cursor on until one says that it is the last.\<close>

fun collect_pages ::
  "('c option \<Rightarrow> 'r list \<times> 'c option) \<Rightarrow> nat \<Rightarrow> 'c option \<Rightarrow> 'r list list option" where
  "collect_pages read 0 cur = None"
| "collect_pages read (Suc fuel) cur =
     (let (rows, next) = read cur
      in case next of
           None \<Rightarrow> Some [rows]
         | Some c \<Rightarrow> map_option (Cons rows) (collect_pages read fuel (Some c)))"

lemma sorted_wrt_drop_filter:
  assumes "sorted_wrt R xs" and "i < length xs"
    and irrefl: "\<And>x. \<not> R x x" and "\<And>x y z. R x y \<Longrightarrow> R y z \<Longrightarrow> R x z"
  shows "filter (R (xs ! i)) xs = drop (Suc i) xs"
proof -
  have split: "xs = take i xs @ xs ! i # drop (Suc i) xs"
    using assms(2) by (simp add: id_take_nth_drop)
  have "sorted_wrt R (take i xs @ xs ! i # drop (Suc i) xs)"
    using assms(1) split by simp
  then have before: "\<forall>x\<in>set (take i xs). R x (xs ! i)" and after: "\<forall>x\<in>set (drop (Suc i) xs). R (xs ! i) x"
    by (auto simp: sorted_wrt_append)
  have "filter (R (xs ! i)) (take i xs) = []"
    using before assms(4) irrefl by (metis (no_types) filter_empty_conv)
  moreover have "filter (R (xs ! i)) (drop (Suc i) xs) = drop (Suc i) xs"
    using after by (simp add: filter_id_conv)
  ultimately have "filter (R (xs ! i)) (take i xs @ xs ! i # drop (Suc i) xs) = drop (Suc i) xs"
    using irrefl by simp
  with split show ?thesis by simp
qed

locale keyset_paging =
  fixes walk :: "'s \<Rightarrow> 'r list"
    and after :: "'r \<Rightarrow> 'r \<Rightarrow> bool"
    and cursor_of :: "'r \<Rightarrow> 'c"
    and remaining :: "'s \<Rightarrow> 'c option \<Rightarrow> 'r list"
    and limit :: "'s \<Rightarrow> nat"
    and page :: "'s \<Rightarrow> 'c option \<Rightarrow> 'r list \<times> 'c option"
    and well_keyed :: "'s \<Rightarrow> bool"
  assumes after_irrefl: "\<not> after r r"
    and after_trans: "after r s \<Longrightarrow> after s t \<Longrightarrow> after r t"
    and walk_sorted: "well_keyed st \<Longrightarrow> sorted_wrt after (walk st)"
    and remaining_start: "remaining st None = walk st"
    and remaining_cursor: "well_keyed st \<Longrightarrow> r \<in> set (walk st) \<Longrightarrow>
        remaining st (Some (cursor_of r)) = filter (after r) (walk st)"
    and limit_pos: "0 < limit st"
    and page_cut: "page st cur =
        (take (limit st) (remaining st cur),
         if length (remaining st cur) \<le> limit st then None
         else Some (cursor_of (last (take (limit st) (remaining st cur)))))"
begin

lemma remaining_after_page:
  assumes "well_keyed st" "i < length (walk st)"
  shows "remaining st (Some (cursor_of (walk st ! i))) = drop (Suc i) (walk st)"
  using remaining_cursor [OF assms(1), of "walk st ! i"] assms
    sorted_wrt_drop_filter [OF walk_sorted [OF assms(1)] assms(2)] after_irrefl after_trans
  by simp

text \<open>From any position of the walk the client reads exactly the rows that are left.\<close>

lemma collect_from:
  assumes "well_keyed st" "remaining st cur = drop k (walk st)"
    and "length (walk st) - k < fuel"
  shows "\<exists>pages. collect_pages (page st) fuel cur = Some pages \<and> concat pages = drop k (walk st)"
  using assms(2,3)
proof (induction fuel arbitrary: cur k)
  case (Suc fuel)
  let ?n = "limit st"
  show ?case
  proof (cases "length (walk st) - k \<le> ?n")
    case True
    then show ?thesis
      using Suc.prems page_cut [of st cur] by simp
  next
    case False
    let ?i = "k + ?n - 1"
    have i: "?i < length (walk st)" "Suc ?i = k + ?n"
      using False limit_pos [of st] by auto
    have "last (take ?n (drop k (walk st))) = walk st ! ?i"
      using False limit_pos [of st] by (subst last_conv_nth) auto
    then have pg: "page st cur = (take ?n (drop k (walk st)), Some (cursor_of (walk st ! ?i)))"
      using page_cut [of st cur] Suc.prems False by simp
    have "length (walk st) - (k + ?n) < fuel"
      using Suc.prems(2) False limit_pos [of st] by linarith
    then obtain pages where "collect_pages (page st) fuel (Some (cursor_of (walk st ! ?i))) = Some pages"
        "concat pages = drop (k + ?n) (walk st)"
      using Suc.IH [of "Some (cursor_of (walk st ! ?i))" "k + ?n"] remaining_after_page [OF assms(1) i(1)]
        i(2) by auto
    moreover have "take ?n (drop k (walk st)) @ drop (k + ?n) (walk st) = drop k (walk st)"
      by (metis add.commute append_take_drop_id drop_drop)
    ultimately show ?thesis
      using pg by simp
  qed
qed simp

lemma pages_tile:
  assumes "well_keyed st"
  shows "\<exists>pages. collect_pages (page st) (Suc (length (walk st))) None = Some pages
    \<and> concat pages = walk st"
  using collect_from [OF assms, of None 0 "Suc (length (walk st))"] remaining_start by simp

lemma page_bound: "length (fst (page st cur)) \<le> limit st"
  by (simp add: page_cut)

end

text \<open>Sorting newest first, stable like \<open>sort_by\<close>.\<close>

definition sort_desc :: "('r \<Rightarrow> 'k::linorder) \<Rightarrow> 'r list \<Rightarrow> 'r list" where
  "sort_desc key rs = rev (sort_key key (rev rs))"

lemma set_sort_desc [simp]: "set (sort_desc key rs) = set rs"
  by (simp add: sort_desc_def)

lemma length_sort_desc [simp]: "length (sort_desc key rs) = length rs"
  by (simp add: sort_desc_def)

lemma sorted_strict_key:
  "distinct (map key rs) \<Longrightarrow> sorted_wrt (\<lambda>a b. key a < key b) (sort_key key rs)"
proof -
  assume "distinct (map key rs)"
  then have "distinct (map key (sort_key key rs))"
    by (simp add: distinct_map)
  then have "sorted_wrt (<) (map key (sort_key key rs))"
    by (simp add: strict_sorted_iff)
  then show ?thesis
    by (simp add: sorted_wrt_map)
qed

lemma sorted_strict_desc:
  assumes "distinct (map key rs)"
  shows "sorted_wrt (\<lambda>a b. key b < key a) (sort_desc key rs)"
proof -
  have "distinct (map key (rev rs))"
    using assms by (simp add: rev_map [symmetric])
  then show ?thesis
    using sorted_strict_key [of key "rev rs"] by (simp add: sort_desc_def sorted_wrt_rev)
qed

lemma filter_sort_desc: "filter P (sort_desc key rs) = sort_desc key (filter P rs)"
  by (simp add: sort_desc_def rev_filter [symmetric] filter_sort)

end
