(* ===== verification/Paged_Reads.thy ===== *)
theory Paged_Reads
  imports Permission_Engine Text_Redaction Keyset_Paging "HOL-Library.Option_ord"
begin

text \<open>
  The two owner-scoped paged reads: the evidence archive (\<open>crates/types/src/evidence_reads.rs\<close>, the
  producer in \<open>crates/runtime/src/evidence_reads.rs\<close>) walks oldest to newest, the transcript rows
  (\<open>crates/types/src/transcript_rows.rs\<close>) newest to oldest. Both hand out opaque cursor strings.
\<close>

section \<open>Owner scopes\<close>

definition scope_field :: "string option \<Rightarrow> string option \<Rightarrow> bool" where
  "scope_field wanted actual \<longleftrightarrow> (case wanted of None \<Rightarrow> True | Some w \<Rightarrow> w = [] \<or> actual = Some w)"

definition owner_scope_matches :: "runtime_owner \<Rightarrow> runtime_owner \<Rightarrow> bool" where
  "owner_scope_matches scope ow \<longleftrightarrow>
     (ow_workspace_id scope = [] \<or> ow_workspace_id scope = ow_workspace_id ow)
     \<and> (ow_project_id scope = [] \<or> ow_project_id scope = ow_project_id ow)
     \<and> scope_field (ow_lane_id scope) (ow_lane_id ow)
     \<and> scope_field (ow_session_id scope) (ow_session_id ow)
     \<and> scope_field (ow_task_id scope) (ow_task_id ow)
     \<and> scope_field (ow_turn_id scope) (ow_turn_id ow)"

section \<open>Text bounds\<close>

text \<open>\<open>str::is_char_boundary\<close> and the loop that walks a cut back onto one.\<close>

definition is_char_boundary :: "string \<Rightarrow> nat \<Rightarrow> bool" where
  "is_char_boundary s i \<longleftrightarrow> i = 0 \<or> i = length s \<or> (i < length s \<and> \<not> is_cont (s ! i))"

fun boundary_at_most :: "string \<Rightarrow> nat \<Rightarrow> nat" where
  "boundary_at_most s 0 = 0"
| "boundary_at_most s (Suc n) = (if is_char_boundary s (Suc n) then Suc n else boundary_at_most s n)"

definition bound_text :: "nat \<Rightarrow> string \<Rightarrow> string \<times> bool" where
  "bound_text limit s =
     (if length s \<le> limit then (s, False) else (take (boundary_at_most s limit) s, True))"

definition max_transcript_row_text_bytes :: nat where "max_transcript_row_text_bytes = 8 * 1024"
definition max_evidence_content_bytes :: nat where "max_evidence_content_bytes = 256 * 1024"

definition bound_transcript_row_text :: "string \<Rightarrow> string \<times> bool" where
  "bound_transcript_row_text = bound_text max_transcript_row_text_bytes"

definition bound_evidence_text :: "string \<Rightarrow> string \<times> bool" where
  "bound_evidence_text = bound_text max_evidence_content_bytes"

lemma boundary_at_most_le: "boundary_at_most s n \<le> n"
  by (induction s n rule: boundary_at_most.induct) auto

lemma boundary_at_most_ok: "is_char_boundary s (boundary_at_most s n)"
  by (induction s n rule: boundary_at_most.induct) (auto simp: is_char_boundary_def)

lemma boundary_at_most_max: "j \<le> n \<Longrightarrow> is_char_boundary s j \<Longrightarrow> j \<le> boundary_at_most s n"
  by (induction s n rule: boundary_at_most.induct) (auto simp: le_Suc_eq)

section \<open>Cursors\<close>

abbreviation u64_limit :: nat where "u64_limit \<equiv> 2 ^ 64"

definition parse_u64 :: "string \<Rightarrow> u64 option" where
  "parse_u64 s = map_option of_nat (parse_uint u64_limit s)"

definition show_u64 :: "u64 \<Rightarrow> string" where
  "show_u64 w = show_nat (unat w)"

lemma parse_show_u64: "parse_u64 (show_u64 w) = Some w"
proof -
  have "unat w < u64_limit"
    using unsigned_less [of w, where ?'a = nat] by simp
  then show ?thesis
    by (simp add: parse_u64_def show_u64_def parse_show)
qed

type_synonym evidence_cursor = "u64 option \<times> string"
type_synonym rows_cursor = "u64 \<times> string"

definition evidence_cursor :: "evidence_view \<Rightarrow> evidence_cursor" where
  "evidence_cursor e = (ev_timestamp e, ev_id e)"

definition encode_evidence_cursor :: "evidence_cursor \<Rightarrow> string" where
  "encode_evidence_cursor c = (case fst c of
     Some t \<Rightarrow> ''t:'' @ show_u64 t @ '':'' @ snd c
   | None \<Rightarrow> ''u:'' @ snd c)"

definition decode_positional :: "string \<Rightarrow> rows_cursor option" where
  "decode_positional rest = (case split_once (CHR '':'') rest of
     None \<Rightarrow> None
   | Some (n, i) \<Rightarrow> if i = [] then None else map_option (\<lambda>w. (w, i)) (parse_u64 n))"

definition decode_evidence_cursor :: "string \<Rightarrow> evidence_cursor res" where
  "decode_evidence_cursor raw =
     ok_or (case strip_prefix ''u:'' raw of
         Some i \<Rightarrow> if i = [] then None else Some (None, i)
       | None \<Rightarrow> (case strip_prefix ''t:'' raw of
             None \<Rightarrow> None
           | Some rest \<Rightarrow> map_option (\<lambda>(w, i). (Some w, i)) (decode_positional rest)))
       (''evidence cursor `'' @ raw @ ''` is not a cursor this build issued'')"

definition encode_rows_cursor :: "rows_cursor \<Rightarrow> string" where
  "encode_rows_cursor c = ''s:'' @ show_u64 (fst c) @ '':'' @ snd c"

definition decode_rows_cursor :: "string \<Rightarrow> rows_cursor res" where
  "decode_rows_cursor raw =
     ok_or (Option.bind (strip_prefix ''s:'' raw) decode_positional)
       (''transcript row cursor `'' @ raw @ ''` is not a cursor this build issued'')"

lemma show_u64_no_colon [simp]: "CHR '':'' \<notin> set (show_u64 w)"
  unfolding show_u64_def by (rule show_nat_not_in) (simp add: is_ascii_digit_def)

lemma decode_positional_show: "i \<noteq> [] \<Longrightarrow> decode_positional (show_u64 w @ '':'' @ i) = Some (w, i)"
  using split_once_append [of "CHR '':''" "show_u64 w" i]
  by (simp add: decode_positional_def parse_show_u64)

lemma rows_cursor_roundtrip: "snd c \<noteq> [] \<Longrightarrow> decode_rows_cursor (encode_rows_cursor c) = Ok c"
  using decode_positional_show [of "snd c" "fst c"] strip_prefix_append [of "''s:''" "show_u64 (fst c) @ '':'' @ snd c"]
  by (simp add: decode_rows_cursor_def encode_rows_cursor_def ok_or_def)

lemma evidence_cursor_roundtrip:
  assumes "snd c \<noteq> []"
  shows "decode_evidence_cursor (encode_evidence_cursor c) = Ok c"
proof (cases "fst c")
  case None
  then show ?thesis
    using assms strip_prefix_append [of "''u:''" "snd c"]
    by (simp add: decode_evidence_cursor_def encode_evidence_cursor_def ok_or_def prod_eq_iff)
next
  case (Some t)
  then have "strip_prefix ''u:'' (encode_evidence_cursor c) = None"
    by (simp add: encode_evidence_cursor_def strip_prefix_def)
  with Some show ?thesis
    using assms decode_positional_show [of "snd c" t]
      strip_prefix_append [of "''t:''" "show_u64 t @ '':'' @ snd c"]
    by (simp add: decode_evidence_cursor_def encode_evidence_cursor_def ok_or_def prod_eq_iff)
qed

section \<open>The evidence archive\<close>

record evidence_query =
  eq_owner :: "runtime_owner option"
  eq_kinds :: "string list"
  eq_limit :: u16
  eq_after :: "string option"

definition max_evidence_page_size :: nat where "max_evidence_page_size = 200"
definition max_evidence_query_kinds :: nat where "max_evidence_query_kinds = 32"

definition evidence_clamped_limit :: "evidence_query \<Rightarrow> nat" where
  "evidence_clamped_limit q = max 1 (min max_evidence_page_size (unat (eq_limit q)))"

definition validate_evidence_query :: "evidence_query \<Rightarrow> unit res" where
  "validate_evidence_query q = guarded
     ([(case eq_after q of None \<Rightarrow> Ok () | Some c \<Rightarrow> try_then (decode_evidence_cursor c) (\<lambda>_. Ok ())),
       ensure (length (eq_kinds q) \<le> max_evidence_query_kinds) ''evidence query kinds exceed the 32 entry bound'']
      @ map (\<lambda>k. ensure (str_trim k \<noteq> []) ''evidence query kinds cannot contain an empty kind'') (eq_kinds q))
     (Ok ())"

definition evidence_matches :: "evidence_query \<Rightarrow> evidence_view \<Rightarrow> bool" where
  "evidence_matches q e \<longleftrightarrow>
     (case eq_owner q of None \<Rightarrow> True
      | Some scope \<Rightarrow> (case ev_owner e of None \<Rightarrow> False | Some ow \<Rightarrow> owner_scope_matches scope ow))
     \<and> (eq_kinds q = [] \<or> ev_kind e \<in> set (eq_kinds q))"

record evidence_page =
  pg_entries :: "evidence_view list"
  pg_complete :: bool
  pg_next_after :: "string option"

definition decoded :: "('c res) option \<Rightarrow> 'c option" where
  "decoded r = (case r of Some (Inr c) \<Rightarrow> Some c | _ \<Rightarrow> None)"

definition evidence_candidates :: "evidence_view list \<Rightarrow> evidence_query \<Rightarrow> evidence_view list" where
  "evidence_candidates es q =
     (let matching = sort_key evidence_cursor (filter (evidence_matches q) es)
      in case decoded (map_option decode_evidence_cursor (eq_after q)) of
           None \<Rightarrow> matching
         | Some c \<Rightarrow> filter (\<lambda>e. c < evidence_cursor e) matching)"

definition evidence_page :: "evidence_view list \<Rightarrow> evidence_query \<Rightarrow> evidence_page" where
  "evidence_page es q =
     (let matching = evidence_candidates es q;
          limit = evidence_clamped_limit q;
          kept = take limit matching;
          complete = (length matching \<le> limit)
      in \<lparr>pg_entries = kept, pg_complete = complete,
          pg_next_after = (if complete \<or> kept = [] then None
             else Some (encode_evidence_cursor (evidence_cursor (last kept))))\<rparr>)"

text \<open>A client's view of the archive.\<close>

definition evidence_walk :: "evidence_view list \<times> evidence_query \<Rightarrow> evidence_view list" where
  "evidence_walk st = sort_key evidence_cursor (filter (evidence_matches (snd st)) (fst st))"

definition evidence_remaining ::
  "evidence_view list \<times> evidence_query \<Rightarrow> string option \<Rightarrow> evidence_view list" where
  "evidence_remaining st cur = evidence_candidates (fst st) ((snd st)\<lparr>eq_after := cur\<rparr>)"

definition evidence_read ::
  "evidence_view list \<times> evidence_query \<Rightarrow> string option \<Rightarrow> evidence_view list \<times> string option" where
  "evidence_read st cur = (let p = evidence_page (fst st) ((snd st)\<lparr>eq_after := cur\<rparr>)
     in (pg_entries p, pg_next_after p))"

definition evidence_ids_ok :: "evidence_view list \<times> evidence_query \<Rightarrow> bool" where
  "evidence_ids_ok st \<longleftrightarrow> distinct (map ev_id (fst st)) \<and> [] \<notin> ev_id ` set (fst st)"

lemma evidence_frame [simp]:
  "evidence_matches (q\<lparr>eq_after := cur\<rparr>) = evidence_matches q"
  "evidence_clamped_limit (q\<lparr>eq_after := cur\<rparr>) = evidence_clamped_limit q"
  by (simp_all add: fun_eq_iff evidence_matches_def evidence_clamped_limit_def)

lemma evidence_limit_pos: "0 < evidence_clamped_limit q"
  by (simp add: evidence_clamped_limit_def)

lemma evidence_read_eq:
  "evidence_read st cur =
     (take (evidence_clamped_limit (snd st)) (evidence_remaining st cur),
      if length (evidence_remaining st cur) \<le> evidence_clamped_limit (snd st) then None
      else Some (encode_evidence_cursor (evidence_cursor
             (last (take (evidence_clamped_limit (snd st)) (evidence_remaining st cur))))))"
  using evidence_limit_pos [of "snd st"]
  by (auto simp: evidence_read_def evidence_page_def Let_def evidence_remaining_def)

lemma evidence_walk_in: "e \<in> set (evidence_walk st) \<Longrightarrow> e \<in> set (fst st)"
  by (simp add: evidence_walk_def)

lemma evidence_remaining_cursor:
  assumes "evidence_ids_ok st" "e \<in> set (evidence_walk st)"
  shows "evidence_remaining st (Some (encode_evidence_cursor (evidence_cursor e)))
     = filter (\<lambda>f. evidence_cursor e < evidence_cursor f) (evidence_walk st)"
proof -
  have "ev_id e \<noteq> []"
    using assms(1) evidence_walk_in [OF assms(2)] by (auto simp: evidence_ids_ok_def image_iff)
  then show ?thesis
    using evidence_cursor_roundtrip [of "evidence_cursor e"]
    by (simp add: evidence_remaining_def evidence_candidates_def decoded_def evidence_walk_def
        evidence_cursor_def)
qed

lemma distinct_cursor: "distinct (map f xs) \<Longrightarrow> distinct (map (\<lambda>x. (g x, f x)) (filter P xs))"
  by (auto simp: distinct_map inj_on_def)

interpretation evidence: keyset_paging evidence_walk "\<lambda>e f. evidence_cursor e < evidence_cursor f"
  "\<lambda>e. encode_evidence_cursor (evidence_cursor e)" evidence_remaining
  "\<lambda>st. evidence_clamped_limit (snd st)" evidence_read evidence_ids_ok
proof unfold_locales
  show "evidence_ids_ok st \<Longrightarrow> sorted_wrt (\<lambda>e f. evidence_cursor e < evidence_cursor f) (evidence_walk st)" for st
    unfolding evidence_walk_def evidence_ids_ok_def evidence_cursor_def [abs_def]
    by (rule sorted_strict_key) (blast intro: distinct_cursor)
  show "evidence_remaining st None = evidence_walk st" for st
    by (simp add: evidence_remaining_def evidence_candidates_def decoded_def evidence_walk_def)
qed (auto simp: evidence_limit_pos evidence_read_eq evidence_remaining_cursor)

lemma set_evidence_walk: "set (evidence_walk st) = {e \<in> set (fst st). evidence_matches (snd st) e}"
  by (auto simp: evidence_walk_def)

section \<open>Transcript rows\<close>

datatype check_run_status = CheckQueued | CheckRunning | CheckPassed | CheckFailed | CheckCancelled

record check_run_view =
  cv_id :: string
  cv_owner :: runtime_owner
  cv_label :: string
  cv_command :: string
  cv_status :: check_run_status
  cv_summary :: string
  cv_failing_location :: "string option"

record tool_call_view =
  tv_tool_call_id :: string
  tv_name :: string
  tv_input_preview :: string
  tv_owner :: "runtime_owner option"

datatype row_content =
    RowUser string bool
  | RowAssistant string bool "string option"
  | RowToolCall tool_call_view
  | RowToolResult string bool string "string option"
  | RowCheckRun check_run_view
  | RowPermission string "approval_decision option" string

record transcript_row =
  tr_id :: string
  tr_owner :: runtime_owner
  tr_sequence :: u64
  tr_timestamp :: "u64 option"
  tr_content :: row_content

record rows_query =
  rq_owner :: runtime_owner
  rq_before :: "string option"
  rq_limit :: "u16 option"

record rows_page =
  rp_rows :: "transcript_row list"
  rp_older :: "string option"
  rp_complete :: bool

definition max_transcript_rows_page :: nat where "max_transcript_rows_page = 200"
definition default_transcript_rows_page :: u16 where "default_transcript_rows_page = 50"

definition rows_cursor :: "transcript_row \<Rightarrow> rows_cursor" where
  "rows_cursor r = (tr_sequence r, tr_id r)"

definition rows_clamped_limit :: "rows_query \<Rightarrow> nat" where
  "rows_clamped_limit q = max 1 (min max_transcript_rows_page
     (unat (case rq_limit q of None \<Rightarrow> default_transcript_rows_page | Some n \<Rightarrow> n)))"

definition validate_rows_query :: "rows_query \<Rightarrow> unit res" where
  "validate_rows_query q = (case rq_before q of None \<Rightarrow> Ok ()
     | Some c \<Rightarrow> try_then (decode_rows_cursor c) (\<lambda>_. Ok ()))"

definition rows_candidates :: "transcript_row list \<Rightarrow> rows_query \<Rightarrow> transcript_row list" where
  "rows_candidates rows q =
     (let matching = sort_key rows_cursor (filter (\<lambda>r. owner_scope_matches (rq_owner q) (tr_owner r)) rows)
      in case decoded (map_option decode_rows_cursor (rq_before q)) of
           None \<Rightarrow> matching
         | Some c \<Rightarrow> filter (\<lambda>r. rows_cursor r < c) matching)"

definition transcript_rows_page :: "transcript_row list \<Rightarrow> rows_query \<Rightarrow> rows_page" where
  "transcript_rows_page rows q =
     (let matching = rows_candidates rows q;
          limit = rows_clamped_limit q;
          complete = (length matching \<le> limit);
          kept = (if complete then matching else drop (length matching - limit) matching)
      in \<lparr>rp_rows = kept,
          rp_older = (if complete then None
             else (case kept of [] \<Rightarrow> None | r # _ \<Rightarrow> Some (encode_rows_cursor (rows_cursor r)))),
          rp_complete = complete\<rparr>)"

text \<open>A client's view: it walks backwards, each page reading forwards.\<close>

definition rows_scoped :: "transcript_row list \<times> rows_query \<Rightarrow> transcript_row list" where
  "rows_scoped st = sort_key rows_cursor
     (filter (\<lambda>r. owner_scope_matches (rq_owner (snd st)) (tr_owner r)) (fst st))"

definition rows_remaining :: "transcript_row list \<times> rows_query \<Rightarrow> string option \<Rightarrow> transcript_row list" where
  "rows_remaining st cur = rev (rows_candidates (fst st) ((snd st)\<lparr>rq_before := cur\<rparr>))"

definition rows_read ::
  "transcript_row list \<times> rows_query \<Rightarrow> string option \<Rightarrow> transcript_row list \<times> string option" where
  "rows_read st cur = (let p = transcript_rows_page (fst st) ((snd st)\<lparr>rq_before := cur\<rparr>)
     in (rev (rp_rows p), rp_older p))"

definition row_ids_ok :: "transcript_row list \<times> rows_query \<Rightarrow> bool" where
  "row_ids_ok st \<longleftrightarrow> distinct (map tr_id (fst st)) \<and> [] \<notin> tr_id ` set (fst st)"

lemma rows_limit_pos: "0 < rows_clamped_limit q"
  by (simp add: rows_clamped_limit_def)

lemma rows_limit_frame [simp]: "rows_clamped_limit (q\<lparr>rq_before := cur\<rparr>) = rows_clamped_limit q"
  by (simp add: rows_clamped_limit_def)

lemma hd_drop_last_take:
  "n < length xs \<Longrightarrow> 0 < n \<Longrightarrow> drop (length xs - n) xs \<noteq> [] \<and> hd (drop (length xs - n) xs) = last (take n (rev xs))"
proof -
  assume "n < length xs" "0 < n"
  moreover have "take n (rev xs) = rev (drop (length xs - n) xs)"
    by (simp add: take_rev)
  ultimately show ?thesis
    by (simp add: last_rev)
qed

lemma rows_read_eq:
  "rows_read st cur =
     (take (rows_clamped_limit (snd st)) (rows_remaining st cur),
      if length (rows_remaining st cur) \<le> rows_clamped_limit (snd st) then None
      else Some (encode_rows_cursor (rows_cursor
             (last (take (rows_clamped_limit (snd st)) (rows_remaining st cur))))))"
proof -
  let ?m = "rows_candidates (fst st) ((snd st)\<lparr>rq_before := cur\<rparr>)" and ?n = "rows_clamped_limit (snd st)"
  show ?thesis
  proof (cases "length ?m \<le> ?n")
    case False
    then have "drop (length ?m - ?n) ?m \<noteq> []" "hd (drop (length ?m - ?n) ?m) = last (take ?n (rev ?m))"
      using hd_drop_last_take [of ?n ?m] rows_limit_pos [of "snd st"] by auto
    with False show ?thesis
      by (cases "drop (length ?m - ?n) ?m")
        (auto simp: rows_read_def transcript_rows_page_def Let_def rows_remaining_def take_rev)
  qed (simp add: rows_read_def transcript_rows_page_def Let_def rows_remaining_def)
qed

lemma rows_remaining_cursor:
  assumes "row_ids_ok st" "r \<in> set (rev (rows_scoped st))"
  shows "rows_remaining st (Some (encode_rows_cursor (rows_cursor r)))
     = filter (\<lambda>s. rows_cursor s < rows_cursor r) (rev (rows_scoped st))"
proof -
  have "tr_id r \<noteq> []"
    using assms by (auto simp: row_ids_ok_def rows_scoped_def image_iff)
  then show ?thesis
    using rows_cursor_roundtrip [of "rows_cursor r"]
    by (simp add: rows_remaining_def rows_candidates_def decoded_def rows_scoped_def rows_cursor_def
        rev_filter)
qed

interpretation rows: keyset_paging "\<lambda>st. rev (rows_scoped st)" "\<lambda>r s. rows_cursor s < rows_cursor r"
  "\<lambda>r. encode_rows_cursor (rows_cursor r)" rows_remaining
  "\<lambda>st. rows_clamped_limit (snd st)" rows_read row_ids_ok
proof unfold_locales
  show "row_ids_ok st \<Longrightarrow> sorted_wrt (\<lambda>r s. rows_cursor s < rows_cursor r) (rev (rows_scoped st))" for st
    unfolding rows_scoped_def row_ids_ok_def sorted_wrt_rev rows_cursor_def [abs_def]
    by (rule sorted_strict_key) (blast intro: distinct_cursor)
  show "rows_remaining st None = rev (rows_scoped st)" for st
    by (simp add: rows_remaining_def rows_candidates_def decoded_def rows_scoped_def)
qed (auto simp: rows_limit_pos rows_read_eq rows_remaining_cursor)

end
