(* ===== verification/Audit_Timeline.thy ===== *)
theory Audit_Timeline
  imports Tool_Input Text_Redaction Keyset_Paging
begin

text \<open>
  The append-only audit timeline: the bounds on a record (\<open>crates/types/src/audit.rs\<close>) and the
  append, filter and paging of the store (\<open>crates/workflows/src/audit.rs\<close>, \<open>stores.rs\<close>). The
  arguments of a record, a \<open>BTreeMap\<close>, are its entries in key order.
\<close>

section \<open>Records\<close>

datatype audit_actor = ActorOperator | ActorSystem | ActorAgent string
datatype audit_outcome = AuditSuccess | AuditDenied | AuditFailed

record audit_object =
  ao_kind :: string
  ao_id :: string

abbreviation audit_object :: "string \<Rightarrow> string \<Rightarrow> audit_object" where
  "audit_object kind i \<equiv> \<lparr>ao_kind = kind, ao_id = i\<rparr>"

record audit_record =
  au_audit_id :: string
  au_timestamp :: u64
  au_owner :: runtime_owner
  au_actor :: audit_actor
  au_action :: string
  au_objects :: "audit_object list"
  au_outcome :: audit_outcome
  au_args :: tool_input

definition max_audit_args :: nat where "max_audit_args = 32"
definition max_audit_arg_key_bytes :: nat where "max_audit_arg_key_bytes = 64"
definition max_audit_arg_value_bytes :: nat where "max_audit_arg_value_bytes = 512"
definition max_audit_objects :: nat where "max_audit_objects = 32"
definition max_audit_object_kind_bytes :: nat where "max_audit_object_kind_bytes = 64"
definition max_audit_id_bytes :: nat where "max_audit_id_bytes = 128"
definition max_audit_action_bytes :: nat where "max_audit_action_bytes = 64"
definition max_audit_page_size :: nat where "max_audit_page_size = 500"

definition validate_audit_identity :: "string \<Rightarrow> string \<Rightarrow> unit res" where
  "validate_audit_identity name value =
     ensure (safe_identifier max_audit_id_bytes value) (''invalid '' @ name @ '' `'' @ value @ ''`'')"

definition valid_object_kind :: "string \<Rightarrow> bool" where
  "valid_object_kind kind \<longleftrightarrow> kind \<noteq> [] \<and> length kind \<le> max_audit_object_kind_bytes
     \<and> list_all (\<lambda>c. is_ascii_lowercase c \<or> is_ascii_digit c \<or> c = CHR ''_'') kind
     \<and> \<not> starts_with_any ''_'' kind \<and> \<not> ends_with_any ''_'' kind"

definition validate_audit_object_kind :: "string \<Rightarrow> unit res" where
  "validate_audit_object_kind kind =
     ensure (valid_object_kind kind) (''invalid audit object kind `'' @ kind @ ''`'')"

definition valid_action :: "string \<Rightarrow> bool" where
  "valid_action action \<longleftrightarrow> action \<noteq> [] \<and> length action \<le> max_audit_action_bytes
     \<and> list_all (\<lambda>c. is_ascii_lowercase c \<or> is_ascii_digit c \<or> c \<in> set ''_.'') action
     \<and> \<not> starts_with_any ''._'' action \<and> \<not> ends_with_any ''._'' action
     \<and> \<not> str_contains ''..'' action \<and> CHR ''.'' \<in> set action"

definition validate_audit_action :: "string \<Rightarrow> unit res" where
  "validate_audit_action action =
     ensure (valid_action action) (''invalid audit action key `'' @ action @ ''`'')"

definition valid_arg_key :: "string \<Rightarrow> bool" where
  "valid_arg_key key \<longleftrightarrow> key \<noteq> [] \<and> length key \<le> max_audit_arg_key_bytes
     \<and> list_all (\<lambda>c. is_ascii_lowercase c \<or> is_ascii_digit c \<or> c \<in> set ''_.'') key
     \<and> \<not> starts_with_any ''._'' key \<and> \<not> ends_with_any ''._'' key"

definition validate_audit_arg_key :: "string \<Rightarrow> unit res" where
  "validate_audit_arg_key key =
     ensure (valid_arg_key key) (''invalid audit argument key `'' @ key @ ''`'')"

definition secret_prefixes :: "string list" where
  "secret_prefixes = [''sk-'', ''sk_'', ''ghp_'', ''gho_'', ''github_pat_'', ''xoxb-'', ''AKIA'', ''-----BEGIN'']"

definition credential_markers :: "string list" where
  "credential_markers = [''api_key='', ''api-key='', ''apikey='', ''access_token='', ''token='',
     ''password='', ''secret='']"

definition looks_like_secret :: "string \<Rightarrow> bool" where
  "looks_like_secret value \<longleftrightarrow>
     list_ex (\<lambda>p. starts_with p value) secret_prefixes
     \<or> starts_with ''bearer '' (to_ascii_lowercase value)
     \<or> list_ex (\<lambda>m. str_contains m (to_ascii_lowercase value)) credential_markers"

definition validate_audit_arg_value :: "string \<Rightarrow> string \<Rightarrow> unit res" where
  "validate_audit_arg_value key value = guarded
     [ensure (length value \<le> max_audit_arg_value_bytes) (''audit argument `'' @ key @ ''` exceeds 512 bytes''),
      ensure (\<not> has_control_char value) (''audit argument `'' @ key @ ''` contains control characters''),
      ensure (\<not> str_contains ''..'' value) (''audit argument `'' @ key @ ''` contains a path traversal sequence''),
      ensure (\<not> looks_like_secret value) (''audit argument `'' @ key @ ''` looks like a secret'')]
     (Ok ())"

definition validate_present :: "string \<Rightarrow> string option \<Rightarrow> unit res" where
  "validate_present name v = (case v of None \<Rightarrow> Ok ()
     | Some s \<Rightarrow> if s = [] then Ok () else validate_audit_identity name s)"

definition validate_audit_owner :: "runtime_owner \<Rightarrow> unit res" where
  "validate_audit_owner ow = guarded
     [validate_present ''audit owner workspace id'' (Some (ow_workspace_id ow)),
      validate_present ''audit owner project id'' (Some (ow_project_id ow)),
      validate_present ''audit owner lane id'' (ow_lane_id ow),
      validate_present ''audit owner session id'' (ow_session_id ow),
      validate_present ''audit owner task id'' (ow_task_id ow),
      validate_present ''audit owner turn id'' (ow_turn_id ow)]
     (Ok ())"

text \<open>\<open>AuditRecord::sanitized\<close>: the record itself, or the first bound it breaks.\<close>

definition sanitized_audit_record ::
  "string \<Rightarrow> u64 \<Rightarrow> runtime_owner \<Rightarrow> audit_actor \<Rightarrow> string \<Rightarrow> audit_object list \<Rightarrow> audit_outcome
   \<Rightarrow> tool_input \<Rightarrow> audit_record res" where
  "sanitized_audit_record aid ts ow actor action objects outcome args = guarded
     ([validate_audit_identity ''audit id'' aid,
       validate_audit_action action,
       validate_audit_owner ow,
       ensure (length objects \<le> max_audit_objects) ''audit objects exceed the 32 entry bound'']
      @ concat (map (\<lambda>ob. [validate_audit_object_kind (ao_kind ob),
                           validate_audit_identity ''audit object id'' (ao_id ob)]) objects)
      @ [ensure (length args \<le> max_audit_args) ''audit arguments exceed the 32 entry bound'']
      @ concat (map (\<lambda>(k, v). [validate_audit_arg_key k, validate_audit_arg_value k v]) args)
      @ [(case actor of ActorAgent i \<Rightarrow> validate_audit_identity ''audit agent id'' i | _ \<Rightarrow> Ok ())])
     (Ok \<lparr>au_audit_id = aid, au_timestamp = ts, au_owner = ow, au_actor = actor, au_action = action,
          au_objects = objects, au_outcome = outcome, au_args = args\<rparr>)"

definition revalidate_audit_record :: "audit_record \<Rightarrow> unit res" where
  "revalidate_audit_record r = try_then
     (sanitized_audit_record (au_audit_id r) (au_timestamp r) (au_owner r) (au_actor r) (au_action r)
        (au_objects r) (au_outcome r) (au_args r))
     (\<lambda>s. ensure (s = r) ''audit record does not match its sanitized form'')"

text \<open>\<open>append_audit_record\<close> on the log; a failing file append is the environment's choice.\<close>

definition append_audit_record ::
  "string option \<Rightarrow> audit_record \<Rightarrow> audit_record list \<Rightarrow> audit_record list res" where
  "append_audit_record io r log = try_then (revalidate_audit_record r)
     (\<lambda>_. case io of None \<Rightarrow> Ok (log @ [r]) | Some e \<Rightarrow> Err e)"

section \<open>Queries\<close>

type_synonym audit_cursor = "u64 \<times> string"

definition audit_cursor :: "audit_record \<Rightarrow> audit_cursor" where
  "audit_cursor r = (au_timestamp r, au_audit_id r)"

datatype audit_actor_filter = FilterOperator | FilterSystem | FilterAnyAgent | FilterAgent string

fun actor_filter_matches :: "audit_actor_filter \<Rightarrow> audit_actor \<Rightarrow> bool" where
  "actor_filter_matches FilterOperator ActorOperator = True"
| "actor_filter_matches FilterSystem ActorSystem = True"
| "actor_filter_matches FilterAnyAgent (ActorAgent _) = True"
| "actor_filter_matches (FilterAgent a) (ActorAgent b) = (a = b)"
| "actor_filter_matches _ _ = False"

record audit_query =
  aq_project_id :: "string option"
  aq_lane_id :: "string option"
  aq_object :: "audit_object option"
  aq_actor :: "audit_actor_filter option"
  aq_from :: "u64 option"
  aq_until :: "u64 option"
  aq_before :: "audit_cursor option"
  aq_limit :: u32

definition clamp :: "nat \<Rightarrow> nat \<Rightarrow> nat \<Rightarrow> nat" where
  "clamp lo hi n = max lo (min hi n)"

definition audit_clamped_limit :: "audit_query \<Rightarrow> nat" where
  "audit_clamped_limit q = clamp 1 max_audit_page_size (unat (aq_limit q))"

definition validate_audit_query :: "audit_query \<Rightarrow> unit res" where
  "validate_audit_query q = (case (aq_from q, aq_until q) of
     (Some a, Some b) \<Rightarrow> ensure (a \<le> b)
        (''audit query time range is inverted: from '' @ show_nat (unat a) @ '' is after until '' @ show_nat (unat b))
   | _ \<Rightarrow> Ok ())"

definition audit_matches_query :: "audit_query \<Rightarrow> audit_record \<Rightarrow> bool" where
  "audit_matches_query q r \<longleftrightarrow>
     (case aq_project_id q of None \<Rightarrow> True | Some p \<Rightarrow> ow_project_id (au_owner r) = p)
     \<and> (case aq_lane_id q of None \<Rightarrow> True
        | Some l \<Rightarrow> ow_lane_id (au_owner r) = Some l \<or> audit_object ''lane'' l \<in> set (au_objects r))
     \<and> (case aq_object q of None \<Rightarrow> True | Some ob \<Rightarrow> ob \<in> set (au_objects r))
     \<and> (case aq_actor q of None \<Rightarrow> True | Some f \<Rightarrow> actor_filter_matches f (au_actor r))
     \<and> (case aq_from q of None \<Rightarrow> True | Some t \<Rightarrow> t \<le> au_timestamp r)
     \<and> (case aq_until q of None \<Rightarrow> True | Some t \<Rightarrow> au_timestamp r < t)"

record audit_page =
  ap_records :: "audit_record list"
  ap_next_before :: "audit_cursor option"
  ap_complete :: bool

definition audit_candidates :: "audit_record list \<Rightarrow> audit_query \<Rightarrow> audit_record list" where
  "audit_candidates log q =
     (let matching = sort_desc audit_cursor (filter (audit_matches_query q) log)
      in case aq_before q of None \<Rightarrow> matching
         | Some b \<Rightarrow> filter (\<lambda>r. audit_cursor r < b) matching)"

definition audit_page :: "audit_record list \<Rightarrow> audit_query \<Rightarrow> audit_page" where
  "audit_page log q =
     (let matching = audit_candidates log q;
          limit = audit_clamped_limit q;
          kept = take limit matching;
          complete = (length matching \<le> limit)
      in \<lparr>ap_records = kept,
          ap_next_before = (if complete \<or> kept = [] then None else Some (audit_cursor (last kept))),
          ap_complete = complete\<rparr>)"

definition query_audit :: "audit_record list \<Rightarrow> audit_query \<Rightarrow> audit_page res" where
  "query_audit log q = try_then (validate_audit_query q) (\<lambda>_. Ok (audit_page log q))"

section \<open>Paging\<close>

lemma clamp_pos: "1 \<le> hi \<Longrightarrow> 0 < clamp 1 hi n"
  by (simp add: clamp_def)

lemma audit_limit_pos: "0 < audit_clamped_limit q"
  unfolding audit_clamped_limit_def by (rule clamp_pos) (simp add: max_audit_page_size_def)

text \<open>A client's view of the store: a log and a query whose cursor it replaces page by page.\<close>

definition audit_walk :: "audit_record list \<times> audit_query \<Rightarrow> audit_record list" where
  "audit_walk st = sort_desc audit_cursor (filter (audit_matches_query (snd st)) (fst st))"

definition audit_remaining ::
  "audit_record list \<times> audit_query \<Rightarrow> audit_cursor option \<Rightarrow> audit_record list" where
  "audit_remaining st cur = audit_candidates (fst st) ((snd st)\<lparr>aq_before := cur\<rparr>)"

definition audit_read ::
  "audit_record list \<times> audit_query \<Rightarrow> audit_cursor option \<Rightarrow> audit_record list \<times> audit_cursor option" where
  "audit_read st cur = (let p = audit_page (fst st) ((snd st)\<lparr>aq_before := cur\<rparr>)
     in (ap_records p, ap_next_before p))"

definition distinct_cursors :: "audit_record list \<times> audit_query \<Rightarrow> bool" where
  "distinct_cursors st \<longleftrightarrow> distinct (map audit_cursor (fst st))"

lemma matches_query_frame [simp]:
  "audit_matches_query (q\<lparr>aq_before := cur\<rparr>) = audit_matches_query q"
  "audit_clamped_limit (q\<lparr>aq_before := cur\<rparr>) = audit_clamped_limit q"
  by (simp_all add: fun_eq_iff audit_matches_query_def audit_clamped_limit_def)

lemma audit_remaining_simps:
  "audit_remaining st None = audit_walk st"
  "audit_remaining st (Some c) = filter (\<lambda>r. audit_cursor r < c) (audit_walk st)"
  by (simp_all add: audit_remaining_def audit_candidates_def audit_walk_def)

lemma audit_read_eq:
  "audit_read st cur =
     (take (audit_clamped_limit (snd st)) (audit_remaining st cur),
      if length (audit_remaining st cur) \<le> audit_clamped_limit (snd st) then None
      else Some (audit_cursor (last (take (audit_clamped_limit (snd st)) (audit_remaining st cur)))))"
  using audit_limit_pos [of "snd st"]
  by (auto simp: audit_read_def audit_page_def Let_def audit_remaining_def)

lemma distinct_map_filter_key: "distinct (map key rs) \<Longrightarrow> distinct (map key (filter P rs))"
  by (auto simp: distinct_map inj_on_def)

interpretation audit: keyset_paging audit_walk "\<lambda>r s. audit_cursor s < audit_cursor r" audit_cursor
  audit_remaining "\<lambda>st. audit_clamped_limit (snd st)" audit_read distinct_cursors
proof unfold_locales
  show "distinct_cursors st \<Longrightarrow> sorted_wrt (\<lambda>r s. audit_cursor s < audit_cursor r) (audit_walk st)" for st
    unfolding audit_walk_def distinct_cursors_def
    by (rule sorted_strict_desc) (rule distinct_map_filter_key)
qed (auto simp: audit_remaining_simps audit_limit_pos audit_read_eq)

lemma set_audit_walk: "set (audit_walk st) = {r \<in> set (fst st). audit_matches_query (snd st) r}"
  by (auto simp: audit_walk_def)

section \<open>Bounds\<close>

lemma append_audit_Ok:
  "append_audit_record io r log = Ok log' \<Longrightarrow> log' = log @ [r] \<and> revalidate_audit_record r = Ok ()"
  by (auto simp: append_audit_record_def res_simps split: option.splits)

lemma sanitized_Ok:
  "sanitized_audit_record aid ts ow actor action objects outcome args = Ok r \<Longrightarrow>
   r = \<lparr>au_audit_id = aid, au_timestamp = ts, au_owner = ow, au_actor = actor, au_action = action,
        au_objects = objects, au_outcome = outcome, au_args = args\<rparr>"
  by (simp add: sanitized_audit_record_def guarded_Inr)

text \<open>What the bounds come to, field by field.\<close>

definition present_ok :: "string option \<Rightarrow> bool" where
  "present_ok v \<longleftrightarrow> (case v of None \<Rightarrow> True | Some s \<Rightarrow> s = [] \<or> safe_identifier 128 s)"

definition owner_bounds :: "runtime_owner \<Rightarrow> bool" where
  "owner_bounds ow \<longleftrightarrow> present_ok (Some (ow_workspace_id ow)) \<and> present_ok (Some (ow_project_id ow))
     \<and> present_ok (ow_lane_id ow) \<and> present_ok (ow_session_id ow)
     \<and> present_ok (ow_task_id ow) \<and> present_ok (ow_turn_id ow)"

definition arg_bounds :: "string \<times> string \<Rightarrow> bool" where
  "arg_bounds kv \<longleftrightarrow> valid_arg_key (fst kv) \<and> length (snd kv) \<le> 512 \<and> \<not> has_control_char (snd kv)
     \<and> \<not> str_contains ''..'' (snd kv) \<and> \<not> looks_like_secret (snd kv)"

definition record_bounds :: "audit_record \<Rightarrow> bool" where
  "record_bounds r \<longleftrightarrow> safe_identifier 128 (au_audit_id r) \<and> valid_action (au_action r)
     \<and> owner_bounds (au_owner r)
     \<and> length (au_objects r) \<le> 32
     \<and> (\<forall>ob\<in>set (au_objects r). valid_object_kind (ao_kind ob) \<and> safe_identifier 128 (ao_id ob))
     \<and> length (au_args r) \<le> 32 \<and> (\<forall>kv\<in>set (au_args r). arg_bounds kv)
     \<and> (\<forall>i. au_actor r = ActorAgent i \<longrightarrow> safe_identifier 128 i)"

lemma validate_present_ok: "is_ok (validate_present name v) \<longleftrightarrow> present_ok v"
  by (simp add: validate_present_def present_ok_def validate_audit_identity_def max_audit_id_bytes_def
      split: option.splits)

lemma validate_owner_ok: "is_ok (validate_audit_owner ow) \<longleftrightarrow> owner_bounds ow"
  by (simp add: validate_audit_owner_def owner_bounds_def guarded_ok validate_present_ok)

lemma validate_arg_ok:
  "is_ok (validate_audit_arg_key k) \<and> is_ok (validate_audit_arg_value k v) \<longleftrightarrow> arg_bounds (k, v)"
  by (simp add: validate_audit_arg_key_def validate_audit_arg_value_def arg_bounds_def guarded_ok
      max_audit_arg_value_bytes_def)

lemma sanitized_is_ok:
  "is_ok (sanitized_audit_record aid ts ow actor action objects outcome args) \<longleftrightarrow>
   record_bounds \<lparr>au_audit_id = aid, au_timestamp = ts, au_owner = ow, au_actor = actor, au_action = action,
        au_objects = objects, au_outcome = outcome, au_args = args\<rparr>"
proof -
  have obs: "(\<forall>c\<in>set (concat (map (\<lambda>ob. [validate_audit_object_kind (ao_kind ob),
                validate_audit_identity ''audit object id'' (ao_id ob)]) objects)). is_ok c)
      \<longleftrightarrow> (\<forall>ob\<in>set objects. valid_object_kind (ao_kind ob) \<and> safe_identifier 128 (ao_id ob))"
    by (auto simp: validate_audit_object_kind_def validate_audit_identity_def max_audit_id_bytes_def)
  have args: "(\<forall>c\<in>set (concat (map (\<lambda>(k, v). [validate_audit_arg_key k, validate_audit_arg_value k v]) args)).
      is_ok c) \<longleftrightarrow> (\<forall>kv\<in>set args. arg_bounds kv)"
    using validate_arg_ok by fastforce
  have actor: "is_ok (case actor of ActorAgent i \<Rightarrow> validate_audit_identity ''audit agent id'' i | _ \<Rightarrow> Ok ())
      \<longleftrightarrow> (\<forall>i. actor = ActorAgent i \<longrightarrow> safe_identifier 128 i)"
    by (simp add: validate_audit_identity_def max_audit_id_bytes_def split: audit_actor.splits)
  show ?thesis
    unfolding sanitized_audit_record_def guarded_ok set_append ball_Un obs args
    by (simp add: actor record_bounds_def validate_owner_ok validate_audit_identity_def
        validate_audit_action_def max_audit_id_bytes_def max_audit_objects_def max_audit_args_def)
qed

lemma revalidate_iff: "revalidate_audit_record r = Ok () \<longleftrightarrow> record_bounds r"
proof -
  let ?s = "sanitized_audit_record (au_audit_id r) (au_timestamp r) (au_owner r) (au_actor r) (au_action r)
        (au_objects r) (au_outcome r) (au_args r)"
  have "revalidate_audit_record r = Ok () \<longleftrightarrow> is_ok ?s"
    using sanitized_Ok [of "au_audit_id r" "au_timestamp r" "au_owner r" "au_actor r" "au_action r"
        "au_objects r" "au_outcome r" "au_args r"]
    by (auto simp: revalidate_audit_record_def is_ok_iff res_simps)
  then show ?thesis
    by (simp add: sanitized_is_ok record_bounds_def)
qed

lemma append_audit_iff:
  "append_audit_record io r log = Ok log' \<longleftrightarrow> record_bounds r \<and> io = None \<and> log' = log @ [r]"
  by (auto simp: append_audit_record_def res_simps revalidate_iff split: option.splits)

end
