(* ===== verification/Context_Store.thy ===== *)
theory Context_Store
  imports Core_Types
begin

text \<open>
  The content-addressed context store (\<open>crates/context/src/store.rs\<close>): blobs under their SHA-256,
  an append-only metadata log replayed at open, and the integrity check every canonical read goes
  through. The disk is a value: the bytes of the metadata log and the blobs by hash. SHA-256 and
  the JSON codec are third-party code and arguments; locks and other I/O errors are not modelled.
\<close>

section \<open>UTF-8 and lines\<close>

text \<open>The length of the character a byte string starts with, if it is well formed.\<close>

definition cont_at :: "string \<Rightarrow> nat \<Rightarrow> bool" where
  "cont_at s i \<longleftrightarrow> i < length s \<and> is_cont (s ! i)"

definition second_in :: "string \<Rightarrow> nat \<Rightarrow> nat \<Rightarrow> bool" where
  "second_in s lo hi \<longleftrightarrow> 1 < length s \<and> lo \<le> byte (s ! 1) \<and> byte (s ! 1) \<le> hi"

definition utf8_head :: "string \<Rightarrow> nat option" where
  "utf8_head s = (case s of [] \<Rightarrow> None | c # _ \<Rightarrow> (let b = byte c in
     if b < 128 then Some 1
     else if 194 \<le> b \<and> b \<le> 223 \<and> cont_at s 1 then Some 2
     else if ((b = 224 \<and> second_in s 160 191) \<or> (b = 237 \<and> second_in s 128 159)
              \<or> (225 \<le> b \<and> b \<le> 239 \<and> b \<noteq> 237 \<and> cont_at s 1)) \<and> cont_at s 2 then Some 3
     else if ((b = 240 \<and> second_in s 144 191) \<or> (b = 244 \<and> second_in s 128 143)
              \<or> (241 \<le> b \<and> b \<le> 243 \<and> cont_at s 1)) \<and> cont_at s 2 \<and> cont_at s 3 then Some 4
     else None))"

lemma utf8_head_pos: "utf8_head s = Some n \<Longrightarrow> 0 < n \<and> s \<noteq> []"
  by (auto simp: utf8_head_def Let_def split: list.splits if_splits)

text \<open>\<open>Utf8Error::valid_up_to\<close>: where the first ill-formed character begins.\<close>

function valid_up_to :: "string \<Rightarrow> nat" where
  "valid_up_to s = (case utf8_head s of None \<Rightarrow> 0 | Some n \<Rightarrow> n + valid_up_to (drop n s))"
  by pat_completeness auto
termination
  by (relation "measure length") (auto dest: utf8_head_pos)

declare valid_up_to.simps [simp del]

definition valid_utf8 :: "string \<Rightarrow> bool" where
  "valid_utf8 s \<longleftrightarrow> valid_up_to s = length s"

abbreviation newline :: char where "newline \<equiv> CHR 0x0A"

definition byte_offset_to_line :: "string \<Rightarrow> nat \<Rightarrow> nat" where
  "byte_offset_to_line s offset = count_list (take (min offset (length s)) s) newline + 1"

text \<open>\<open>str::lines\<close>: the segments between line feeds, without a final empty one and without a
  trailing carriage return.\<close>

definition strip_cr :: "string \<Rightarrow> string" where
  "strip_cr l = (if l \<noteq> [] \<and> last l = CHR 0x0D then butlast l else l)"

definition text_lines :: "string \<Rightarrow> string list" where
  "text_lines s = (let segs = split_on newline s
     in map strip_cr (if last segs = [] then butlast segs else segs))"

section \<open>Records and errors\<close>

record metadata_record =
  md_item :: context_item
  md_handle :: context_handle

datatype sha_category = ShaEmpty | ShaWrongLength | ShaNonAsciiHex
datatype metadata_invariant = HandleItemIdMatchesItem | HandleScopeMatchesItem | HandleHashMatchesItem

datatype context_error =
    InvalidContentSha256 nat sha_category
  | MetadataInvariantViolation metadata_invariant
  | InvalidMetadataUtf8 nat
  | MalformedMetadata nat string
  | DivergentDuplicateHandle string nat
  | MissingHandle string
  | MissingBlob string
  | BlobHashMismatch string string
  | ScopeDenied string

type_synonym 'a ctx_res = "context_error + 'a"

definition hex_digit :: "char \<Rightarrow> bool" where
  "hex_digit c \<longleftrightarrow> is_ascii_digit c \<or> (97 \<le> byte c \<and> byte c \<le> 102) \<or> (65 \<le> byte c \<and> byte c \<le> 70)"

definition sha_category_of :: "string \<Rightarrow> sha_category option" where
  "sha_category_of v =
     (if v = [] then Some ShaEmpty
      else if length v \<noteq> 64 then Some ShaWrongLength
      else if \<not> list_all hex_digit v then Some ShaNonAsciiHex
      else None)"

definition is_valid_content_sha256 :: "string \<Rightarrow> bool" where
  "is_valid_content_sha256 v \<longleftrightarrow> sha_category_of v = None"

definition validate_content_sha256 :: "string \<Rightarrow> unit ctx_res" where
  "validate_content_sha256 v = (case sha_category_of v of None \<Rightarrow> Inr ()
     | Some c \<Rightarrow> Inl (InvalidContentSha256 (length v) c))"

definition validate_metadata_record :: "metadata_record \<Rightarrow> unit ctx_res" where
  "validate_metadata_record r =
     try_then (validate_content_sha256 (ci_content_sha256 (md_item r))) (\<lambda>_.
     try_then (validate_content_sha256 (ch_content_sha256 (md_handle r))) (\<lambda>_.
       if ci_item_id (md_item r) \<noteq> ch_item_id (md_handle r)
         then Inl (MetadataInvariantViolation HandleItemIdMatchesItem)
       else if ci_scope (md_item r) \<noteq> ch_scope (md_handle r)
         then Inl (MetadataInvariantViolation HandleScopeMatchesItem)
       else if ci_content_sha256 (md_item r) \<noteq> ch_content_sha256 (md_handle r)
         then Inl (MetadataInvariantViolation HandleHashMatchesItem)
       else Inr ()))"

section \<open>The disk and the store\<close>

text \<open>The handles of a store, a hash map, are the records in the order they were first seen.\<close>

record context_disk =
  cd_metadata :: string
  cd_blobs :: "(string \<times> string) list"

type_synonym context_store = "metadata_record list"

type_synonym encoder = "metadata_record \<Rightarrow> string"
type_synonym decoder = "string \<Rightarrow> string + metadata_record"

definition record_handle_id :: "metadata_record \<Rightarrow> string" where
  "record_handle_id r = ch_handle_id (md_handle r)"

definition find_handle :: "string \<Rightarrow> context_store \<Rightarrow> metadata_record option" where
  "find_handle h st = find (\<lambda>r. record_handle_id r = h) st"

definition find_item :: "string \<Rightarrow> context_store \<Rightarrow> metadata_record option" where
  "find_item i st = find (\<lambda>r. ci_item_id (md_item r) = i) st"

definition complete_part :: "string \<Rightarrow> string" where
  "complete_part bytes = rev (dropWhile (\<lambda>c. c \<noteq> newline) (rev bytes))"

fun replay_lines ::
  "decoder \<Rightarrow> nat \<Rightarrow> string list \<Rightarrow> context_store \<Rightarrow> context_store ctx_res" where
  "replay_lines dec n [] st = Inr st"
| "replay_lines dec n (l # ls) st =
     (if str_trim l = [] then replay_lines dec (n + 1) ls st
      else case dec l of
        Inl e \<Rightarrow> Inl (MalformedMetadata n e)
      | Inr r \<Rightarrow> try_then (validate_metadata_record r) (\<lambda>_.
          case find_handle (record_handle_id r) st of
            Some old \<Rightarrow> if old \<noteq> r then Inl (DivergentDuplicateHandle (record_handle_id r) n)
                        else replay_lines dec (n + 1) ls st
          | None \<Rightarrow> replay_lines dec (n + 1) ls (st @ [r])))"

definition load_metadata :: "decoder \<Rightarrow> string \<Rightarrow> context_store ctx_res" where
  "load_metadata dec bytes =
     (let complete = complete_part bytes
      in if complete = [] then Inr []
         else if \<not> valid_utf8 complete
           then Inl (InvalidMetadataUtf8 (byte_offset_to_line complete (valid_up_to complete)))
         else replay_lines dec 1 (text_lines complete) [])"

definition append_metadata :: "encoder \<Rightarrow> metadata_record \<Rightarrow> string \<Rightarrow> string" where
  "append_metadata enc r bytes = bytes @ enc r @ [newline]"

definition verify_blob_hash :: "(string \<Rightarrow> string) \<Rightarrow> string \<Rightarrow> string \<Rightarrow> unit ctx_res" where
  "verify_blob_hash sha bytes expected =
     (if sha bytes = expected then Inr () else Inl (BlobHashMismatch expected (sha bytes)))"

definition write_blob_if_absent ::
  "(string \<Rightarrow> string) \<Rightarrow> string \<Rightarrow> string \<Rightarrow> (string \<times> string) list \<Rightarrow> (string \<times> string) list ctx_res" where
  "write_blob_if_absent sha h content blobs =
     try_then (validate_content_sha256 h) (\<lambda>_.
       case map_of blobs h of
         Some existing \<Rightarrow> try_then (verify_blob_hash sha existing h) (\<lambda>_. Inr blobs)
       | None \<Rightarrow> Inr ((h, content) # blobs))"

record put_request =
  pq_scope :: context_scope
  pq_kind :: content_kind
  pq_content :: string
  pq_evidence_id :: "string option"

fun kind_title :: "content_kind \<Rightarrow> string" where
  "kind_title ContentJson = ''json''"
| "kind_title ContentCode = ''code''"
| "kind_title ContentDiff = ''diff''"
| "kind_title ContentLog = ''log''"
| "kind_title ContentDiagnostic = ''diagnostic''"
| "kind_title ContentTranscript = ''transcript''"
| "kind_title ContentText = ''text''"

text \<open>The record \<open>put\<close> builds; the clock and the two fresh ids are arguments.\<close>

definition put_record :: "(string \<Rightarrow> string) \<Rightarrow> u64 \<Rightarrow> string \<Rightarrow> string \<Rightarrow> put_request \<Rightarrow> metadata_record" where
  "put_record sha clock item_id handle_id q =
     (let h = sha (pq_content q)
      in \<lparr>md_item = \<lparr>ci_item_id = item_id, ci_scope = pq_scope q, ci_kind = pq_kind q,
            ci_content_sha256 = h, ci_title = kind_title (pq_kind q), ci_summary = [],
            ci_token_count = of_nat (length (pq_content q)), ci_evidence_id = pq_evidence_id q,
            ci_created_at = Some clock\<rparr>,
          md_handle = \<lparr>ch_handle_id = handle_id, ch_item_id = item_id, ch_preferred_view_id = None,
            ch_content_sha256 = h, ch_scope = pq_scope q, ch_expires_at = None\<rparr>\<rparr>)"

definition store_put ::
  "(string \<Rightarrow> string) \<Rightarrow> encoder \<Rightarrow> u64 \<Rightarrow> string \<Rightarrow> string \<Rightarrow> put_request \<Rightarrow> context_disk \<times> context_store
   \<Rightarrow> (metadata_record \<times> context_disk \<times> context_store) ctx_res" where
  "store_put sha enc clock item_id handle_id q = (\<lambda>(disk, st).
     try_then (write_blob_if_absent sha (sha (pq_content q)) (pq_content q) (cd_blobs disk)) (\<lambda>blobs.
       let r = put_record sha clock item_id handle_id q
       in Inr (r, \<lparr>cd_metadata = append_metadata enc r (cd_metadata disk), cd_blobs = blobs\<rparr>,
               filter (\<lambda>m. record_handle_id m \<noteq> handle_id) st @ [r])))"

definition lookup_record ::
  "decoder \<Rightarrow> context_disk \<Rightarrow> context_store \<Rightarrow> string \<Rightarrow> metadata_record ctx_res" where
  "lookup_record dec disk st h = (case find_handle h st of
     Some r \<Rightarrow> Inr r
   | None \<Rightarrow> try_then (load_metadata dec (cd_metadata disk)) (\<lambda>fresh.
       case find_handle h fresh of Some r \<Rightarrow> Inr r | None \<Rightarrow> Inl (MissingHandle h)))"

definition lookup_item ::
  "decoder \<Rightarrow> context_disk \<Rightarrow> context_store \<Rightarrow> string \<Rightarrow> metadata_record ctx_res" where
  "lookup_item dec disk st i = (case find_item i st of
     Some r \<Rightarrow> Inr r
   | None \<Rightarrow> try_then (load_metadata dec (cd_metadata disk)) (\<lambda>fresh.
       case find_item i fresh of Some r \<Rightarrow> Inr r | None \<Rightarrow> Inl (MissingHandle i)))"

definition read_blob :: "(string \<Rightarrow> string) \<Rightarrow> context_disk \<Rightarrow> string \<Rightarrow> string ctx_res" where
  "read_blob sha disk h = (case map_of (cd_blobs disk) h of
     None \<Rightarrow> Inl (MissingBlob h)
   | Some bytes \<Rightarrow> if sha bytes \<noteq> h then Inl (BlobHashMismatch h (sha bytes)) else Inr bytes)"

definition store_retrieve ::
  "(string \<Rightarrow> string) \<Rightarrow> decoder \<Rightarrow> context_disk \<Rightarrow> context_store \<Rightarrow> context_handle \<Rightarrow> context_scope
   \<Rightarrow> string ctx_res" where
  "store_retrieve sha dec disk st handle scope =
     try_then (validate_content_sha256 (ch_content_sha256 handle)) (\<lambda>_.
     if ch_scope handle \<noteq> scope then Inl (ScopeDenied (ch_handle_id handle))
     else try_then (lookup_record dec disk st (ch_handle_id handle)) (\<lambda>r.
       if ch_scope (md_handle r) \<noteq> scope then Inl (ScopeDenied (ch_handle_id handle))
       else if ch_item_id (md_handle r) \<noteq> ch_item_id handle
             \<or> ch_content_sha256 (md_handle r) \<noteq> ch_content_sha256 handle
             \<or> ci_content_sha256 (md_item r) \<noteq> ch_content_sha256 handle
         then Inl (BlobHashMismatch (ch_content_sha256 (md_handle r)) (ch_content_sha256 handle))
       else read_blob sha disk (ch_content_sha256 handle)))"

record verified_item =
  vi_item :: context_item
  vi_content :: string
  vi_byte_count :: nat

definition verify_item ::
  "(string \<Rightarrow> string) \<Rightarrow> decoder \<Rightarrow> context_disk \<Rightarrow> context_store \<Rightarrow> string \<Rightarrow> string \<Rightarrow> context_scope
   \<Rightarrow> verified_item ctx_res" where
  "verify_item sha dec disk st item_id expected scope =
     try_then (validate_content_sha256 expected) (\<lambda>_.
     try_then (lookup_item dec disk st item_id) (\<lambda>r.
       if ci_scope (md_item r) \<noteq> scope \<or> ch_scope (md_handle r) \<noteq> scope
         then Inl (ScopeDenied (ch_handle_id (md_handle r)))
       else if ci_content_sha256 (md_item r) \<noteq> expected \<or> ch_content_sha256 (md_handle r) \<noteq> expected
             \<or> ch_item_id (md_handle r) \<noteq> ci_item_id (md_item r)
         then Inl (BlobHashMismatch expected (ci_content_sha256 (md_item r)))
       else try_then (read_blob sha disk expected) (\<lambda>bytes.
         Inr \<lparr>vi_item = md_item r, vi_content = bytes, vi_byte_count = length bytes\<rparr>)))"

end
