(* ===== verification/Context_Integrity.thy ===== *)
theory Context_Integrity
  imports Context_Store
begin

text \<open>
  What the context store guarantees: a verified item carries bytes that hash to what was asked for,
  a put is readable back, and the metadata log replays to the records written. The last theorem
  shows what a torn append does to the log.
\<close>

section \<open>Integrity of reads\<close>

lemma find_append: "find P (xs @ ys) = (case find P xs of None \<Rightarrow> find P ys | Some x \<Rightarrow> Some x)"
  by (induction xs) auto

lemma find_item_Some: "find_item i st = Some r \<Longrightarrow> ci_item_id (md_item r) = i"
  by (auto simp: find_item_def find_Some_iff)

lemma lookup_item_id: "lookup_item dec disk st i = Inr r \<Longrightarrow> ci_item_id (md_item r) = i"
  by (auto simp: lookup_item_def res_simps find_item_Some split: option.splits)

lemma read_blob_Inr: "read_blob sha disk h = Inr bytes \<longleftrightarrow> map_of (cd_blobs disk) h = Some bytes \<and> sha bytes = h"
  by (auto simp: read_blob_def split: option.splits if_splits)

text \<open>C21: Whatever the disk holds, a verified item is the item asked for, in exactly the scope asked
  for, and its content hashes to the hash the caller expected: tampered, missing or foreign bytes
  are never returned as canonical.\<close>

theorem verify_item_sound:
  assumes "verify_item sha dec disk st item_id expected scope = Inr v"
  shows "sha (vi_content v) = expected \<and> ci_content_sha256 (vi_item v) = expected
    \<and> ci_item_id (vi_item v) = item_id \<and> ci_scope (vi_item v) = scope
    \<and> vi_byte_count v = length (vi_content v) \<and> is_valid_content_sha256 expected"
proof -
  from assms obtain r bytes where r: "lookup_item dec disk st item_id = Inr r"
      "validate_content_sha256 expected = Inr ()"
      "ci_scope (md_item r) = scope" "ci_content_sha256 (md_item r) = expected"
      "read_blob sha disk expected = Inr bytes"
      "v = \<lparr>vi_item = md_item r, vi_content = bytes, vi_byte_count = length bytes\<rparr>"
    by (auto simp: verify_item_def res_simps split: if_splits)
  with lookup_item_id [OF r(1)] show ?thesis
    by (auto simp: read_blob_Inr is_valid_content_sha256_def validate_content_sha256_def split: option.splits)
qed

definition demo_sha :: "string \<Rightarrow> string" where
  "demo_sha s = (if s = ''hello'' then replicate 64 (CHR ''a'') else replicate 64 (CHR ''b''))"

definition demo_put :: put_request where
  "demo_put = \<lparr>pq_scope = ScopeTask ''t1'', pq_kind = ContentText, pq_content = ''hello'', pq_evidence_id = None\<rparr>"

definition demo_record :: metadata_record where
  "demo_record = put_record demo_sha 7 ''ctxi_1'' ''ctxh_1'' demo_put"

definition demo_disk :: context_disk where
  "demo_disk = \<lparr>cd_metadata = [], cd_blobs = [(demo_sha ''hello'', ''hello'')]\<rparr>"

lemma demo_sha_valid: "is_valid_content_sha256 (demo_sha s)"
  by (simp add: demo_sha_def is_valid_content_sha256_def sha_category_of_def hex_digit_def is_ascii_digit_def
      list_all_iff numeral_eq_Suc)

lemma demo_verify:
  "verify_item demo_sha (\<lambda>_. Inl []) demo_disk [demo_record] ''ctxi_1'' (demo_sha ''hello'') (ScopeTask ''t1'')
   = Inr \<lparr>vi_item = md_item demo_record, vi_content = ''hello'', vi_byte_count = 5\<rparr>"
  using demo_sha_valid [of "''hello''"]
  by (simp add: verify_item_def lookup_item_def find_item_def read_blob_def demo_disk_def demo_record_def
      put_record_def demo_put_def validate_content_sha256_def is_valid_content_sha256_def Let_def)

theorem verify_item_sound_witness: "demo_sha ''hello'' = replicate 64 (CHR ''a'')"
  using verify_item_sound [OF demo_verify] by (simp add: demo_sha_def)

section \<open>Writing and reading back\<close>

text \<open>C22: Content that was put is read back byte for byte under the item id and scope of the put, also
  when its blob existed before; the hash function is only assumed to yield 64 hex digits and to
  have no second preimage of this content.\<close>

theorem put_then_verify:
  assumes "\<forall>x. is_valid_content_sha256 (sha x)" and "\<forall>x. sha x = sha (pq_content q) \<longrightarrow> x = pq_content q"
    and "find_item item_id st = None" and "\<forall>r\<in>set st. record_handle_id r \<noteq> handle_id"
    and "store_put sha enc clock item_id handle_id q (disk, st) = Inr (r, disk', st')"
  shows "verify_item sha dec disk' st' item_id (sha (pq_content q)) (pq_scope q)
     = Inr \<lparr>vi_item = md_item r, vi_content = pq_content q, vi_byte_count = length (pq_content q)\<rparr>"
proof -
  have valid: "validate_content_sha256 (sha x) = Inr ()" for x
    using assms(1) by (simp add: validate_content_sha256_def is_valid_content_sha256_def)
  have st': "st' = st @ [r]" and r: "r = put_record sha clock item_id handle_id q"
    using assms(4,5) by (auto simp: store_put_def res_simps Let_def filter_id_conv)
  have "find_item item_id st' = Some r"
    using assms(3) by (auto simp: st' r find_item_def put_record_def Let_def find_append)
  moreover have "map_of (cd_blobs disk') (sha (pq_content q)) = Some (pq_content q)"
    using assms(2,5)
    by (auto simp: store_put_def res_simps Let_def write_blob_if_absent_def verify_blob_hash_def
        split: option.splits if_splits)
  ultimately show ?thesis
    by (simp add: verify_item_def valid lookup_item_def read_blob_def r put_record_def Let_def)
qed

theorem put_then_verify_witness:
  "verify_item demo_sha (\<lambda>_. Inl []) \<lparr>cd_metadata = [newline], cd_blobs = [(demo_sha ''hello'', ''hello'')]\<rparr>
     [demo_record] ''ctxi_1'' (demo_sha ''hello'') (ScopeTask ''t1'')
   = Inr \<lparr>vi_item = md_item demo_record, vi_content = ''hello'', vi_byte_count = 5\<rparr>"
proof -
  have "store_put demo_sha (\<lambda>_. []) 7 ''ctxi_1'' ''ctxh_1'' demo_put (\<lparr>cd_metadata = [], cd_blobs = []\<rparr>, [])
      = Inr (demo_record, \<lparr>cd_metadata = [newline], cd_blobs = [(demo_sha ''hello'', ''hello'')]\<rparr>, [demo_record])"
    using demo_sha_valid [of "''hello''"]
    by (simp add: store_put_def write_blob_if_absent_def validate_content_sha256_def
        is_valid_content_sha256_def append_metadata_def demo_record_def Let_def demo_put_def)
  moreover have "demo_sha x = demo_sha ''hello'' \<Longrightarrow> x = ''hello''" for x
    by (cases "x = ''hello''") (simp_all add: demo_sha_def numeral_eq_Suc)
  ultimately show ?thesis
    using put_then_verify [of demo_sha demo_put "''ctxi_1''" "[]" "''ctxh_1''"] demo_sha_valid
    by (simp add: find_item_def demo_put_def)
qed

section \<open>The metadata log\<close>

lemma utf8_head_append: "utf8_head s = Some n \<Longrightarrow> utf8_head (s @ t) = Some n"
  by (cases s) (auto simp: utf8_head_def Let_def cont_at_def second_in_def nth_append split: if_splits)

lemma utf8_head_length: "utf8_head s = Some n \<Longrightarrow> n \<le> length s"
  by (cases s) (auto simp: utf8_head_def Let_def cont_at_def second_in_def Suc_le_eq split: if_splits)

lemma valid_utf8_append: "valid_utf8 s \<Longrightarrow> valid_utf8 t \<Longrightarrow> valid_utf8 (s @ t)"
proof (induction s rule: valid_up_to.induct)
  case (1 s)
  show ?case
  proof (cases "utf8_head s")
    case None
    with 1 show ?thesis
      by (simp add: valid_utf8_def valid_up_to.simps [of s])
  next
    case (Some n)
    have le: "n \<le> length s" "0 < n"
      using utf8_head_length [OF Some] utf8_head_pos [OF Some] by auto
    have "valid_utf8 (drop n s)"
      using 1(2) Some le by (auto simp: valid_utf8_def valid_up_to.simps [of s])
    then have "valid_utf8 (drop n s @ t)"
      using 1(1) [OF Some] 1(3) by simp
    then show ?thesis
      using utf8_head_append [OF Some] le
      by (simp add: valid_utf8_def valid_up_to.simps [of "s @ t"])
  qed
qed

text \<open>What a codec has to do for one record: one line, read back as it was.\<close>

definition codec_ok :: "encoder \<Rightarrow> decoder \<Rightarrow> metadata_record \<Rightarrow> bool" where
  "codec_ok enc dec r \<longleftrightarrow> dec (enc r) = Inr r \<and> newline \<notin> set (enc r) \<and> strip_cr (enc r) = enc r
     \<and> str_trim (enc r) \<noteq> [] \<and> valid_utf8 (enc r @ [newline])"

definition log_ok :: "encoder \<Rightarrow> decoder \<Rightarrow> metadata_record list \<Rightarrow> bool" where
  "log_ok enc dec rs \<longleftrightarrow> distinct (map record_handle_id rs)
     \<and> (\<forall>r\<in>set rs. codec_ok enc dec r \<and> validate_metadata_record r = Inr ())"

definition log_bytes :: "encoder \<Rightarrow> metadata_record list \<Rightarrow> string" where
  "log_bytes enc rs = concat (map (\<lambda>r. enc r @ [newline]) rs)"

lemma complete_part_append:
  assumes "newline \<notin> set t"
  shows "complete_part (s @ newline # t) = s @ [newline]"
proof -
  have "dropWhile (\<lambda>c. c \<noteq> newline) (rev t @ newline # rev s) = newline # rev s"
    using assms by (subst dropWhile_append2) auto
  then show ?thesis
    by (simp add: complete_part_def)
qed

lemma complete_log:
  assumes "newline \<notin> set t"
  shows "complete_part (log_bytes enc rs @ t) = log_bytes enc rs"
proof (cases rs rule: rev_cases)
  case Nil
  then show ?thesis
    using assms by (auto simp: log_bytes_def complete_part_def dropWhile_eq_Nil_conv)
next
  case (snoc qs r)
  then show ?thesis
    using complete_part_append [OF assms, of "log_bytes enc qs @ enc r"] by (simp add: log_bytes_def)
qed

lemma split_log:
  "(\<forall>r\<in>set rs. newline \<notin> set (enc r)) \<Longrightarrow> split_on newline (log_bytes enc rs @ s) = map enc rs @ split_on newline s"
proof (induction rs)
  case (Cons r rs)
  have "split_on newline (enc r @ newline # (log_bytes enc rs @ s)) = enc r # split_on newline (log_bytes enc rs @ s)"
    using Cons.prems by (intro split_on_append) simp
  with Cons show ?case
    by (simp add: log_bytes_def)
qed (simp add: log_bytes_def)

lemma lines_log:
  assumes "\<forall>r\<in>set rs. codec_ok enc dec r" and "newline \<notin> set l"
  shows "text_lines (log_bytes enc rs) = map enc rs"
    and "text_lines (log_bytes enc rs @ l @ [newline]) = map enc rs @ [strip_cr l]"
proof -
  have nl: "\<forall>r\<in>set rs. newline \<notin> set (enc r)" and cr: "map (strip_cr \<circ> enc) rs = map enc rs"
    using assms(1) by (auto simp: codec_ok_def)
  show "text_lines (log_bytes enc rs) = map enc rs"
    using split_log [OF nl, of "[]"] cr by (simp add: text_lines_def Let_def)
  have "split_on newline (l @ newline # []) = l # split_on newline []"
    using assms(2) by (rule split_on_append)
  then show "text_lines (log_bytes enc rs @ l @ [newline]) = map enc rs @ [strip_cr l]"
    using split_log [OF nl, of "l @ [newline]"] cr by (simp add: text_lines_def Let_def butlast_append)
qed

lemma replay_log:
  "\<forall>r\<in>set rs. codec_ok enc dec r \<and> validate_metadata_record r = Inr ()
   \<Longrightarrow> distinct (map record_handle_id (st @ rs))
   \<Longrightarrow> replay_lines dec n (map enc rs @ ls) st = replay_lines dec (n + length rs) ls (st @ rs)"
proof (induction rs arbitrary: n st)
  case (Cons r rs)
  have "find_handle (record_handle_id r) st = None"
    using Cons.prems(2) by (simp add: find_handle_def find_None_iff) (metis image_eqI)
  then show ?case
    using Cons.prems Cons.IH [of "st @ [r]" "n + 1"] by (simp add: codec_ok_def)
qed simp

lemma valid_log: "\<forall>r\<in>set rs. codec_ok enc dec r \<Longrightarrow> valid_utf8 t \<Longrightarrow> valid_utf8 (log_bytes enc rs @ t)"
  by (induction rs) (auto simp: log_bytes_def codec_ok_def intro: valid_utf8_append [of "_ @ [newline]", simplified])

lemma log_bytes_empty: "log_bytes enc rs = [] \<longleftrightarrow> rs = []"
  by (cases rs) (auto simp: log_bytes_def)

lemma load_log:
  assumes "log_ok enc dec rs" and "newline \<notin> set torn"
  shows "load_metadata dec (log_bytes enc rs @ torn) = Inr rs"
proof -
  have ok: "\<forall>r\<in>set rs. codec_ok enc dec r" "\<forall>r\<in>set rs. codec_ok enc dec r \<and> validate_metadata_record r = Inr ()"
    using assms(1) by (auto simp: log_ok_def)
  have "valid_utf8 []"
    by (simp add: valid_utf8_def valid_up_to.simps utf8_head_def)
  then have "valid_utf8 (log_bytes enc rs)"
    using valid_log [OF ok(1), of "[]"] by simp
  moreover have "replay_lines dec 1 (map enc rs) [] = Inr rs"
    using replay_log [OF ok(2), of "[]" 1 "[]"] assms(1) by (simp add: log_ok_def)
  ultimately show ?thesis
    using complete_log [OF assms(2), of enc rs] lines_log(1) [OF ok(1), of "[]"]
    by (simp add: load_metadata_def Let_def log_bytes_empty)
qed

text \<open>Opening a store replays its metadata log to exactly the records that were appended, in
  order, and an append that was torn off before its line feed (a crash in the middle of a write)
  does not disturb the records before it.\<close>

theorem load_replays_log:
  assumes "log_ok enc dec rs" and "newline \<notin> set torn"
  shows "load_metadata dec (log_bytes enc rs @ torn) = Inr rs"
  using assms by (rule load_log)

lemma demo_log_ok: "log_ok (\<lambda>_. ''x'') (\<lambda>_. Inr demo_record) [demo_record]"
  using demo_sha_valid [of "''hello''"]
  by (simp add: log_ok_def codec_ok_def strip_cr_def str_trim_def trim_by_def is_whitespace_char_def
      validate_metadata_record_def validate_content_sha256_def is_valid_content_sha256_def
      demo_record_def put_record_def Let_def demo_put_def valid_utf8_def valid_up_to.simps utf8_head_def)

theorem load_replays_log_witness:
  "load_metadata (\<lambda>_. Inr demo_record) (''x'' @ [newline] @ ''torn'') = Inr [demo_record]"
  using load_replays_log [OF demo_log_ok, of "''torn''"] by (simp add: log_bytes_def)

text \<open>A torn append poisons the log for the next one: the next put is appended to the torn bytes,
  its line does not parse, and from then on no process can open the store, although the store
  opened fine before the put and the put reported success.\<close>

theorem torn_append_poisons_log:
  assumes "log_ok enc dec rs" and "newline \<notin> set torn" and "newline \<notin> set (enc r)"
    and "valid_utf8 (torn @ enc r @ [newline])" and "str_trim (strip_cr (torn @ enc r)) \<noteq> []"
    and "dec (strip_cr (torn @ enc r)) = Inl e"
  shows "load_metadata dec (log_bytes enc rs @ torn) = Inr rs
    \<and> load_metadata dec (append_metadata enc r (log_bytes enc rs @ torn))
        = Inl (MalformedMetadata (length rs + 1) e)"
proof
  show "load_metadata dec (log_bytes enc rs @ torn) = Inr rs"
    using assms(1,2) by (rule load_log)
  have ok: "\<forall>r\<in>set rs. codec_ok enc dec r" "\<forall>r\<in>set rs. codec_ok enc dec r \<and> validate_metadata_record r = Inr ()"
    using assms(1) by (auto simp: log_ok_def)
  have "complete_part ((log_bytes enc rs @ torn @ enc r) @ newline # []) = log_bytes enc rs @ torn @ enc r @ [newline]"
    using complete_part_append [of "[]" "log_bytes enc rs @ torn @ enc r"] by simp
  moreover have "valid_utf8 (log_bytes enc rs @ torn @ enc r @ [newline])"
    using valid_log [OF ok(1) assms(4)] by simp
  moreover have "text_lines (log_bytes enc rs @ torn @ enc r @ [newline]) = map enc rs @ [strip_cr (torn @ enc r)]"
    using lines_log(2) [OF ok(1), of "torn @ enc r"] assms(2,3) by simp
  moreover have "replay_lines dec 1 (map enc rs @ [strip_cr (torn @ enc r)]) []
      = Inl (MalformedMetadata (length rs + 1) e)"
    using replay_log [OF ok(2), of "[]" 1 "[strip_cr (torn @ enc r)]"] assms(1,5,6) by (simp add: log_ok_def)
  ultimately show "load_metadata dec (append_metadata enc r (log_bytes enc rs @ torn))
        = Inl (MalformedMetadata (length rs + 1) e)"
    by (simp add: load_metadata_def append_metadata_def Let_def)
qed

theorem torn_append_poisons_log_witness:
  "load_metadata (\<lambda>l. if l = ''x'' then Inr demo_record else Inl ''trailing characters'')
     (append_metadata (\<lambda>_. ''x'') demo_record (''x'' @ [newline] @ ''{''))
   = Inl (MalformedMetadata 2 ''trailing characters'')"
proof -
  let ?dec = "\<lambda>l. if l = ''x'' then Inr demo_record else Inl ''trailing characters''"
  have "log_ok (\<lambda>_. ''x'') ?dec [demo_record]"
    using demo_log_ok by (simp add: log_ok_def codec_ok_def)
  from torn_append_poisons_log [OF this, where torn = "''{''" and r = demo_record
      and e = "''trailing characters''"] show ?thesis
    by (simp add: log_bytes_def strip_cr_def str_trim_def trim_by_def is_whitespace_char_def
        valid_utf8_def valid_up_to.simps utf8_head_def Let_def)
qed

end
