(* ===== verification/Evidence_Gate.thy ===== *)
theory Evidence_Gate
  imports Text_Redaction Context_Integrity
begin

text \<open>
  What makes evidence count for a merge gate: the validation of one evidence row against the stored
  bytes, and the reduction of a gate's evidence to one status
  (\<open>crates/runtime/src/runtime_contract.rs\<close>). A \<open>BTreeSet\<close> is the sorted list of its elements.
\<close>

section \<open>Statuses\<close>

fun merge_status :: "canonical_status \<Rightarrow> canonical_status \<Rightarrow> canonical_status" where
  "merge_status CanonNeedsChanges b = CanonNeedsChanges"
| "merge_status a CanonNeedsChanges = CanonNeedsChanges"
| "merge_status CanonBlocked b = CanonBlocked"
| "merge_status a CanonBlocked = CanonBlocked"
| "merge_status CanonMissing b = CanonMissing"
| "merge_status a CanonMissing = CanonMissing"
| "merge_status CanonVerified CanonVerified = CanonVerified"

fun gate_status_from_canonical :: "canonical_status \<Rightarrow> gate_status" where
  "gate_status_from_canonical CanonVerified = GateAccepted"
| "gate_status_from_canonical CanonMissing = GateCollectingEvidence"
| "gate_status_from_canonical CanonBlocked = GateBlocked"
| "gate_status_from_canonical CanonNeedsChanges = GateNeedsChanges"

fun canonical_reason_code :: "reason_code \<Rightarrow> string" where
  "canonical_reason_code MissingCanonical = ''missing_canonical''"
| "canonical_reason_code MissingRequiredKind = ''missing_required_kind''"
| "canonical_reason_code MissingSource = ''missing_source''"
| "canonical_reason_code HashMismatch = ''hash_mismatch''"
| "canonical_reason_code ScopeMismatch = ''scope_mismatch''"
| "canonical_reason_code MissingPermissionSnapshot = ''missing_permission_snapshot''"
| "canonical_reason_code InvalidPermissionSnapshot = ''invalid_permission_snapshot''"
| "canonical_reason_code MissingProducer = ''missing_producer''"
| "canonical_reason_code QualityFailed = ''quality_failed''"
| "canonical_reason_code VerificationFailed = ''verification_failed''"

definition canonical_reason_summary :: "canonical_report \<Rightarrow> string option" where
  "canonical_reason_summary r = (if rp_reason_codes r = [] then None
     else Some (join '','' (map canonical_reason_code (rp_reason_codes r))))"

definition reason_text :: "canonical_report \<Rightarrow> string" where
  "reason_text r = (case canonical_reason_summary r of None \<Rightarrow> ''canonical_evidence_invalid'' | Some s \<Rightarrow> s)"

definition btree :: "'a::linorder list \<Rightarrow> 'a list" where
  "btree xs = sort (remdups xs)"

lemma btree_set [simp]: "set (btree xs) = set xs"
  by (simp add: btree_def)

lemma btree_Nil [simp]: "btree xs = [] \<longleftrightarrow> xs = []"
  using btree_set [of xs] by (metis set_empty)

section \<open>Kinds\<close>

definition normalize_evidence_kind :: "string \<Rightarrow> string" where
  "normalize_evidence_kind kind = to_ascii_lowercase (replace_char (CHR ''-'') (CHR ''_'') (str_trim kind))"

definition canonical_required_kind :: "string \<Rightarrow> string" where
  "canonical_required_kind kind =
     (let k = normalize_evidence_kind kind
      in if k \<in> {''test'', ''tests'', ''test_result''} then ''test''
         else if k \<in> {''doc'', ''docs'', ''doc_update''} then ''doc''
         else if k \<in> {''release'', ''release_artifact''} then ''release''
         else k)"

section \<open>One row of evidence\<close>

record gate_facts =
  gf_sha :: "string \<Rightarrow> string"
  gf_decoder :: decoder
  gf_disk :: context_disk
  gf_bundles :: "context_bundle_summary list"

fun reason_of_context_error :: "context_error \<Rightarrow> reason_code" where
  "reason_of_context_error (BlobHashMismatch _ _) = HashMismatch"
| "reason_of_context_error (ScopeDenied _) = ScopeMismatch"
| "reason_of_context_error (MissingBlob _) = MissingSource"
| "reason_of_context_error (MissingHandle _) = MissingSource"
| "reason_of_context_error _ = MissingSource"

text \<open>\<open>ContextEngine::open\<close> replays the log, then the item is verified in the fresh store.\<close>

definition open_and_verify :: "gate_facts \<Rightarrow> canonical_reference \<Rightarrow> verified_item ctx_res" where
  "open_and_verify f c = try_then (load_metadata (gf_decoder f) (cd_metadata (gf_disk f)))
     (\<lambda>st. verify_item (gf_sha f) (gf_decoder f) (gf_disk f) st (cr_item_id c) (cr_source_hash c)
             (cr_evidence_scope c))"

definition verify_canonical_item :: "gate_facts \<Rightarrow> canonical_reference \<Rightarrow> reason_code + context_item" where
  "verify_canonical_item f c =
     (case load_metadata (gf_decoder f) (cd_metadata (gf_disk f)) of
        Inl _ \<Rightarrow> Inl MissingSource
      | Inr st \<Rightarrow> (case verify_item (gf_sha f) (gf_decoder f) (gf_disk f) st (cr_item_id c)
                          (cr_source_hash c) (cr_evidence_scope c) of
          Inl e \<Rightarrow> Inl (reason_of_context_error e)
        | Inr v \<Rightarrow> Inr (vi_item v)))"

definition scope_matches_gate :: "context_scope \<Rightarrow> merge_gate \<Rightarrow> bool" where
  "scope_matches_gate s g \<longleftrightarrow> s = ScopeTask (mg_task_id g)"

text \<open>The findings of one validation, in the order the code makes them.\<close>

definition evidence_findings ::
  "merge_gate \<Rightarrow> gate_facts \<Rightarrow> canonical_reference \<Rightarrow> (canonical_status \<times> reason_code) list" where
  "evidence_findings g f c =
     (let item = verify_canonical_item f c
      in (case item of Inl r \<Rightarrow> [(CanonBlocked, r)] | Inr _ \<Rightarrow> [])
       @ (if find (\<lambda>b. cb_bundle_id b = cr_bundle_id c) (gf_bundles f) = None
          then [(CanonBlocked, MissingSource)] else [])
       @ (if \<not> scope_matches_gate (cr_evidence_scope c) g
             \<or> (case item of Inl _ \<Rightarrow> False | Inr i \<Rightarrow> ci_scope i \<noteq> cr_evidence_scope c)
          then [(CanonBlocked, ScopeMismatch)] else [])
       @ (if (case cr_permission_snapshot_id c of None \<Rightarrow> [] | Some s \<Rightarrow> s) = []
          then [(CanonBlocked, MissingPermissionSnapshot)]
          else if cr_permission_scope c \<noteq> cr_evidence_scope c \<or> \<not> scope_matches_gate (cr_permission_scope c) g
          then [(CanonBlocked, InvalidPermissionSnapshot)] else [])
       @ (if str_trim (ep_identity (cr_producer c)) = [] \<or> str_trim (ep_role (cr_producer c)) = []
             \<or> ep_task_id (cr_producer c) \<noteq> mg_task_id g
          then [(CanonBlocked, MissingProducer)] else [])
       @ (if qf_status (cr_quality c) = QualityFail then [(CanonNeedsChanges, QualityFailed)] else [])
       @ (if cr_verification c = VerificationFailedState
          then [(CanonNeedsChanges, VerificationFailed)] else []))"

definition validate_evidence_for_gate :: "merge_gate \<Rightarrow> evidence_view \<Rightarrow> gate_facts \<Rightarrow> canonical_report" where
  "validate_evidence_for_gate g e f =
     (case ev_canonical e of
        None \<Rightarrow> \<lparr>rp_status = canonical_evidence_status e, rp_reason_codes = [MissingCanonical]\<rparr>
      | Some c \<Rightarrow> (let found = evidence_findings g f c
          in \<lparr>rp_status = foldl merge_status (canonical_evidence_status e) (map fst found),
              rp_reason_codes = btree (map snd found @ qf_reason_codes (cr_quality c))\<rparr>))"

section \<open>A gate's evidence\<close>

text \<open>\<open>evidence_by_id\<close> keeps the first row of each id.\<close>

definition evidence_by_id :: "evidence_view list \<Rightarrow> string \<Rightarrow> evidence_view option" where
  "evidence_by_id es i = find (\<lambda>e. ev_id e = i) es"

definition required_kinds :: "merge_gate \<Rightarrow> string list" where
  "required_kinds g = btree (map canonical_required_kind (mg_required_evidence g))"

definition counted_evidence :: "merge_gate \<Rightarrow> evidence_view list \<Rightarrow> evidence_view list" where
  "counted_evidence g es =
     filter (\<lambda>e. canonical_required_kind (ev_kind e) \<in> set (required_kinds g))
       (List.map_filter (evidence_by_id es) (mg_evidence_ids g))"

definition reduce_gate_status :: "merge_gate \<Rightarrow> evidence_view list \<Rightarrow> gate_facts \<Rightarrow> canonical_report" where
  "reduce_gate_status g es f =
     (if required_kinds g = []
      then \<lparr>rp_status = CanonMissing, rp_reason_codes = [MissingRequiredKind]\<rparr>
      else
       (let counted = counted_evidence g es;
            reports = map (\<lambda>e. validate_evidence_for_gate g e f) counted;
            seen = map (\<lambda>e. canonical_required_kind (ev_kind e))
                     (filter (\<lambda>e. rp_status (validate_evidence_for_gate g e f) = CanonVerified) counted);
            missing = filter (\<lambda>k. k \<notin> set seen) (required_kinds g)
        in \<lparr>rp_status = foldl merge_status CanonVerified
              (map rp_status reports @ map (\<lambda>_. CanonMissing) missing),
            rp_reason_codes = btree (concat (map rp_reason_codes reports)
              @ map (\<lambda>_. MissingRequiredKind) missing)\<rparr>))"

section \<open>When evidence counts\<close>

lemma merge_status_verified [simp]:
  "merge_status a b = CanonVerified \<longleftrightarrow> a = CanonVerified \<and> b = CanonVerified"
  by (cases a; cases b) auto

lemma merge_status_comm: "merge_status a b = merge_status b a"
  by (cases a; cases b) auto

lemma merge_status_assoc: "merge_status (merge_status a b) c = merge_status a (merge_status b c)"
  by (cases a; cases b; cases c) auto

lemma fold_merge_verified:
  "foldl merge_status s ss = CanonVerified \<longleftrightarrow> s = CanonVerified \<and> (\<forall>t\<in>set ss. t = CanonVerified)"
  by (induction ss arbitrary: s) auto

lemma findings_status: "p \<in> set (evidence_findings g f c) \<Longrightarrow> fst p \<noteq> CanonVerified"
  by (auto simp: evidence_findings_def Let_def split: if_splits sum.splits)

text \<open>The content a reference stands for, if the store still holds it intact.\<close>

definition reference_intact :: "gate_facts \<Rightarrow> canonical_reference \<Rightarrow> bool" where
  "reference_intact f c \<longleftrightarrow> is_ok (open_and_verify f c)"

definition reference_counts :: "merge_gate \<Rightarrow> gate_facts \<Rightarrow> canonical_reference \<Rightarrow> bool" where
  "reference_counts g f c \<longleftrightarrow>
     reference_intact f c
     \<and> (\<exists>b\<in>set (gf_bundles f). cb_bundle_id b = cr_bundle_id c)
     \<and> cr_evidence_scope c = ScopeTask (mg_task_id g)
     \<and> cr_permission_scope c = ScopeTask (mg_task_id g)
     \<and> (\<exists>s. cr_permission_snapshot_id c = Some s \<and> s \<noteq> [])
     \<and> str_trim (ep_identity (cr_producer c)) \<noteq> [] \<and> str_trim (ep_role (cr_producer c)) \<noteq> []
     \<and> ep_task_id (cr_producer c) = mg_task_id g
     \<and> qf_status (cr_quality c) \<noteq> QualityFail \<and> cr_verification c = Verified"

lemma verify_item_scope:
  "verify_item sha dec disk st i h s = Inr v \<Longrightarrow> ci_scope (vi_item v) = s"
  by (auto simp: verify_item_def res_simps split: if_splits)

lemma verify_canonical_Inr:
  "verify_canonical_item f c = Inr i \<Longrightarrow> reference_intact f c \<and> ci_scope i = cr_evidence_scope c"
  by (auto simp: verify_canonical_item_def reference_intact_def open_and_verify_def try_then_def
      dest: verify_item_scope split: sum.splits)

lemma verify_canonical_Inl: "verify_canonical_item f c = Inl r \<Longrightarrow> \<not> reference_intact f c"
  by (auto simp: verify_canonical_item_def reference_intact_def open_and_verify_def try_then_def
      split: sum.splits)

lemma findings_none:
  "evidence_findings g f c = [] \<and> cr_verification c = Verified \<longleftrightarrow> reference_counts g f c"
proof (cases "verify_canonical_item f c")
  case (Inl r)
  then show ?thesis
    using verify_canonical_Inl [OF Inl] by (simp add: evidence_findings_def Let_def reference_counts_def)
next
  case (Inr i)
  have "find (\<lambda>b. cb_bundle_id b = cr_bundle_id c) (gf_bundles f) = None
      \<longleftrightarrow> \<not> (\<exists>b\<in>set (gf_bundles f). cb_bundle_id b = cr_bundle_id c)"
    by (auto simp: find_None_iff)
  then show ?thesis
    using verify_canonical_Inr [OF Inr] Inr
    by (auto simp: evidence_findings_def Let_def reference_counts_def scope_matches_gate_def split: option.splits)
qed

lemma validate_verified_iff:
  "rp_status (validate_evidence_for_gate g e f) = CanonVerified
     \<longleftrightarrow> (\<exists>c. ev_canonical e = Some c \<and> reference_counts g f c)"
proof (cases "ev_canonical e")
  case None
  then show ?thesis
    by (simp add: validate_evidence_for_gate_def canonical_evidence_status_def)
next
  case (Some c)
  have "(\<forall>t\<in>set (map fst (evidence_findings g f c)). t = CanonVerified) \<longleftrightarrow> evidence_findings g f c = []"
    using findings_status [of "hd (evidence_findings g f c)" g f c]
    by (cases "evidence_findings g f c") auto
  moreover have "canonical_evidence_status e = CanonVerified
      \<longleftrightarrow> qf_status (cr_quality c) \<noteq> QualityFail \<and> cr_verification c = Verified"
    using Some by (simp add: canonical_evidence_status_def)
  ultimately show ?thesis
    using Some findings_none [of g f c]
    by (auto simp: validate_evidence_for_gate_def Let_def fold_merge_verified reference_counts_def)
qed

lemma set_counted:
  "e \<in> set (counted_evidence g es) \<longleftrightarrow> (\<exists>i\<in>set (mg_evidence_ids g). evidence_by_id es i = Some e)
     \<and> canonical_required_kind (ev_kind e) \<in> canonical_required_kind ` set (mg_required_evidence g)"
  by (auto simp: counted_evidence_def set_map_filter required_kinds_def)

lemma reduce_verified_iff:
  "rp_status (reduce_gate_status g es f) = CanonVerified \<longleftrightarrow>
     mg_required_evidence g \<noteq> []
     \<and> (\<forall>e\<in>set (counted_evidence g es). \<exists>c. ev_canonical e = Some c \<and> reference_counts g f c)
     \<and> (\<forall>k\<in>set (mg_required_evidence g). \<exists>e\<in>set (counted_evidence g es).
          canonical_required_kind (ev_kind e) = canonical_required_kind k)"
  (is "_ \<longleftrightarrow> ?nonempty \<and> ?valid \<and> ?covered")
proof (cases "required_kinds g = []")
  case True
  then show ?thesis
    by (simp add: reduce_gate_status_def required_kinds_def)
next
  case False
  let ?ok = "\<lambda>e. rp_status (validate_evidence_for_gate g e f) = CanonVerified"
  have "rp_status (reduce_gate_status g es f) = CanonVerified \<longleftrightarrow>
      (\<forall>e\<in>set (counted_evidence g es). ?ok e)
      \<and> (\<forall>k\<in>set (required_kinds g). \<exists>e\<in>set (counted_evidence g es). ?ok e \<and> canonical_required_kind (ev_kind e) = k)"
    using False
    by (auto simp: reduce_gate_status_def Let_def fold_merge_verified filter_empty_conv)
  also have "\<dots> \<longleftrightarrow> (\<forall>e\<in>set (counted_evidence g es). ?ok e)
      \<and> (\<forall>k\<in>set (mg_required_evidence g). \<exists>e\<in>set (counted_evidence g es).
          canonical_required_kind (ev_kind e) = canonical_required_kind k)"
    by (auto simp: required_kinds_def)
  finally show ?thesis
    using False by (auto simp: validate_verified_iff required_kinds_def)
qed

end
