(* ===== verification/Task_Graph.thy ===== *)
theory Task_Graph
  imports Core_Types
begin

text \<open>
  The task dependency graph: the depth-first search both cycle checks use
  (\<open>dependency_path_exists\<close> in \<open>crates/runtime/src/trust_loop.rs\<close>, its twin in
  \<open>runtime_contract.rs\<close>) and the validation of a DAG's tasks. An edge map is its entries; the
  search's stack is a list with the top first.
\<close>

section \<open>Edges and search\<close>

type_synonym edges = "(string \<times> string list) list"

definition succs :: "edges \<Rightarrow> string \<Rightarrow> string list" where
  "succs es n = (case map_of es n of None \<Rightarrow> [] | Some ds \<Rightarrow> ds)"

text \<open>\<open>edges.entry(k).or_default().extend(ds)\<close>.\<close>

fun extend_edges :: "string \<Rightarrow> string list \<Rightarrow> edges \<Rightarrow> edges" where
  "extend_edges k ds [] = [(k, ds)]"
| "extend_edges k ds ((a, b) # es) = (if a = k then (a, b @ ds) # es else (a, b) # extend_edges k ds es)"

function dfs :: "edges \<Rightarrow> string \<Rightarrow> string list \<Rightarrow> string list \<Rightarrow> bool" where
  "dfs es target [] visited = False"
| "dfs es target (n # pending) visited =
     (if n = target then True
      else if n \<in> set visited then dfs es target pending visited
      else dfs es target (rev (succs es n) @ pending) (n # visited))"
  by pat_completeness auto

lemma succs_key: "n \<notin> fst ` set es \<Longrightarrow> succs es n = []"
  using map_of_eq_None_iff [of es n] by (simp add: succs_def)

text \<open>A step either visits one more key of the map or shortens the stack.\<close>

termination dfs
proof (relation "measures [\<lambda>(es, t, p, v). card (fst ` set es - set v), \<lambda>(es, t, p, v). length p]")
  fix es target n pending and visited :: "string list"
  assume new: "n \<notin> set visited"
  let ?unseen = "fst ` set (es :: edges) - set visited"
  show "((es, target, rev (succs es n) @ pending, n # visited), es, target, n # pending, visited)
    \<in> measures [\<lambda>(es, t, p, v). card (fst ` set es - set v), \<lambda>(es, t, p, v). length p]"
  proof (cases "n \<in> fst ` set es")
    case True
    then have "?unseen - {n} \<subset> ?unseen"
      using new by auto
    then have "card (?unseen - {n}) < card ?unseen"
      by (intro psubset_card_mono) auto
    moreover have "fst ` set es - set (n # visited) = ?unseen - {n}"
      by auto
    ultimately show ?thesis by simp
  next
    case False
    then have "fst ` set es - set (n # visited) = ?unseen"
      by auto
    with False show ?thesis
      by (simp add: succs_key)
  qed
qed auto

definition dependency_path_exists :: "edges \<Rightarrow> string \<Rightarrow> string \<Rightarrow> bool" where
  "dependency_path_exists es start target = dfs es target [start] []"

section \<open>The search decides reachability\<close>

definition depends :: "edges \<Rightarrow> (string \<times> string) set" where
  "depends es = {(a, b). b \<in> set (succs es a)}"

lemma leaves_visited:
  assumes "(n, t) \<in> (depends es)\<^sup>*" "n \<in> V" "t \<notin> V"
    and "\<forall>v\<in>V. set (succs es v) \<subseteq> V \<union> P"
  shows "\<exists>m\<in>P. (m, t) \<in> (depends es)\<^sup>*"
  using assms(1,2)
proof (induction rule: converse_rtrancl_induct)
  case (step a b)
  show ?case
  proof (cases "b \<in> V")
    case False
    then have "b \<in> P"
      using step assms(4) by (auto simp: depends_def)
    with step show ?thesis by blast
  qed (use step in blast)
qed (use assms(3) in blast)

lemma dfs_correct:
  "target \<notin> set visited \<Longrightarrow> \<forall>v\<in>set visited. set (succs es v) \<subseteq> set visited \<union> set pending \<Longrightarrow>
   dfs es target pending visited \<longleftrightarrow> (\<exists>n\<in>set pending. (n, target) \<in> (depends es)\<^sup>*)"
proof (induction es target pending visited rule: dfs.induct)
  case (2 es target n pending visited)
  consider "n = target" | "n \<noteq> target" "n \<in> set visited" | "n \<noteq> target" "n \<notin> set visited"
    by blast
  then show ?case
  proof cases
    case 2
    have closed: "\<forall>v\<in>set visited. set (succs es v) \<subseteq> set visited \<union> set pending"
      using "2.prems"(2) 2(2) by auto
    have "(n, target) \<in> (depends es)\<^sup>* \<Longrightarrow> \<exists>m\<in>set pending. (m, target) \<in> (depends es)\<^sup>*"
      using leaves_visited [OF _ 2(2) "2.prems"(1) closed] .
    then show ?thesis
      using "2.IH"(1) [OF 2(1,2) "2.prems"(1) closed] 2 by auto
  next
    case 3
    have "\<forall>v\<in>set (n # visited). set (succs es v)
        \<subseteq> set (n # visited) \<union> set (rev (succs es n) @ pending)"
      using "2.prems"(2) by auto
    then have "dfs es target (rev (succs es n) @ pending) (n # visited)
        \<longleftrightarrow> (\<exists>m\<in>set (rev (succs es n) @ pending). (m, target) \<in> (depends es)\<^sup>*)"
      using "2.IH"(2) [OF 3] "2.prems"(1) 3 by auto
    moreover have "(n, target) \<in> (depends es)\<^sup>* \<longleftrightarrow> (\<exists>m\<in>set (succs es n). (m, target) \<in> (depends es)\<^sup>*)"
      using 3(1) by (auto simp: depends_def elim: converse_rtranclE intro: converse_rtrancl_into_rtrancl)
    ultimately show ?thesis
      using 3 by auto
  qed simp
qed simp

lemma path_exists_iff: "dependency_path_exists es a b \<longleftrightarrow> (a, b) \<in> (depends es)\<^sup>*"
  unfolding dependency_path_exists_def by (subst dfs_correct) simp_all

lemma in_succs: "b \<in> set (succs es a) \<longleftrightarrow> (\<exists>ds. map_of es a = Some ds \<and> b \<in> set ds)"
  by (cases "map_of es a") (simp_all add: succs_def)

lemma succs_Cons: "succs ((a, ds) # es) n = (if n = a then ds else succs es n)"
  by (simp add: succs_def)

lemma succs_extend:
  "set (succs (extend_edges k ds es) n) = set (succs es n) \<union> (if n = k then set ds else {})"
proof (induction k ds es rule: extend_edges.induct)
  case (1 k ds)
  then show ?case by (simp add: succs_def)
next
  case (2 k ds a b es)
  then show ?case by (cases "a = k"; cases "n = a") (simp_all add: succs_Cons)
qed

lemma depends_extend: "depends (extend_edges k ds es) = depends es \<union> {k} \<times> set ds"
  by (auto simp: depends_def succs_extend split: if_splits)

text \<open>An edge closes a cycle exactly when its target already reaches its source.\<close>

lemma acyclic_iff_no_back_path:
  "acyclic r \<longleftrightarrow> (\<forall>(a, b)\<in>r. (b, a) \<notin> r\<^sup>*)"
proof -
  have "(a, a) \<in> r\<^sup>+ \<longleftrightarrow> (\<exists>b. (a, b) \<in> r \<and> (b, a) \<in> r\<^sup>*)" for a
    by (meson rtrancl_into_trancl2 tranclD)
  then show ?thesis
    by (auto simp: acyclic_def)
qed

section \<open>Validating a DAG\<close>

definition spec_edges :: "agent_dag_task_spec list \<Rightarrow> edges" where
  "spec_edges tasks = map (\<lambda>t. (sp_task_id t, sp_dependencies t)) tasks"

definition validate_agent_dag_tasks :: "agent_dag_task_spec list \<Rightarrow> unit res" where
  "validate_agent_dag_tasks tasks =
     (let ids = map sp_task_id tasks; es = spec_edges tasks
      in guarded
        ([ensure (card (set ids) = length tasks) ''agent DAG task ids must be unique'']
         @ concat (map (\<lambda>t. map (\<lambda>d. ensure (d \<in> set ids)
             (''agent task `'' @ sp_task_id t @ ''` depends on missing task `'' @ d @ ''`'')) (sp_dependencies t)) tasks)
         @ concat (map (\<lambda>t. map (\<lambda>d. ensure (\<not> dependency_path_exists es d (sp_task_id t))
             (''agent DAG dependency cycle connects `'' @ sp_task_id t @ ''` and `'' @ d @ ''`''))
             (sp_dependencies t)) tasks))
        (Ok ()))"

lemma depends_spec:
  assumes "distinct (map sp_task_id tasks)"
  shows "depends (spec_edges tasks) = {(sp_task_id t, d) | t d. t \<in> set tasks \<and> d \<in> set (sp_dependencies t)}"
proof -
  have some: "map_of (spec_edges tasks) a = Some ds \<longleftrightarrow> (\<exists>t\<in>set tasks. sp_task_id t = a \<and> sp_dependencies t = ds)" for a ds
    using assms by (subst map_of_eq_Some_iff) (auto simp: spec_edges_def o_def)
  then show ?thesis
    unfolding depends_def in_succs some by auto
qed

lemma validate_dag_iff:
  "validate_agent_dag_tasks tasks = Ok () \<longleftrightarrow>
     distinct (map sp_task_id tasks)
     \<and> (\<forall>t\<in>set tasks. set (sp_dependencies t) \<subseteq> sp_task_id ` set tasks)
     \<and> acyclic (depends (spec_edges tasks))"
proof -
  let ?dep = "\<forall>t\<in>set tasks. set (sp_dependencies t) \<subseteq> sp_task_id ` set tasks"
  let ?loops = "\<forall>t\<in>set tasks. \<forall>d\<in>set (sp_dependencies t). (d, sp_task_id t) \<notin> (depends (spec_edges tasks))\<^sup>*"
  have unique: "card (sp_task_id ` set tasks) = length tasks \<longleftrightarrow> distinct (map sp_task_id tasks)"
    using card_distinct [of "map sp_task_id tasks"] distinct_card [of "map sp_task_id tasks"] by auto
  have "?loops \<longleftrightarrow> acyclic (depends (spec_edges tasks))" if "distinct (map sp_task_id tasks)"
    unfolding acyclic_iff_no_back_path using depends_spec [OF that] by auto
  moreover have "validate_agent_dag_tasks tasks = Ok () \<longleftrightarrow>
      card (sp_task_id ` set tasks) = length tasks \<and> ?dep \<and> ?loops"
    unfolding validate_agent_dag_tasks_def Let_def guarded_Inr set_append ball_Un checks_nested
    by (auto simp: path_exists_iff)
  ultimately show ?thesis
    using unique by blast
qed

end
