(* ===== verification/Trust_Session.thy ===== *)
theory Trust_Session
  imports Execution_Backstop Audit_Timeline Evidence_Gate Task_Graph
begin

text \<open>
  The session state the trust loop works on, and the helpers its operations share
  (\<open>crates/runtime/src/trust_loop.rs\<close>, \<open>runtime_contract.rs\<close>, \<open>runtime_tasks.rs\<close>,
  \<open>workflow_commands.rs\<close>): identity checks, the permission question, the audit append, the upserts.
  An operation is a function from a session to a result and the session after it: a failing
  operation still keeps what it changed before it failed.
\<close>

section \<open>Operations\<close>

type_synonym ('a, 's) op = "'s \<Rightarrow> 'a res \<times> 's"

definition op_check :: "'a res \<Rightarrow> ('a \<Rightarrow> ('b, 's) op) \<Rightarrow> ('b, 's) op" where
  "op_check r k s = (case r of Inl e \<Rightarrow> (Inl e, s) | Inr x \<Rightarrow> k x s)"

definition op_bind :: "('a, 's) op \<Rightarrow> ('a \<Rightarrow> ('b, 's) op) \<Rightarrow> ('b, 's) op" where
  "op_bind m k s = (case m s of (Inl e, t) \<Rightarrow> (Inl e, t) | (Inr x, t) \<Rightarrow> k x t)"

lemma op_check_Inr [res_simps]: "op_check r k s = (Inr y, t) \<longleftrightarrow> (\<exists>x. r = Inr x \<and> k x s = (Inr y, t))"
  by (simp add: op_check_def split: sum.splits)

lemma op_bind_Inr [res_simps]:
  "op_bind m k s = (Inr y, t) \<longleftrightarrow> (\<exists>x u. m s = (Inr x, u) \<and> k x u = (Inr y, t))"
  by (auto simp: op_bind_def split: prod.splits sum.splits)

section \<open>State\<close>

record permission_log_entry =
  pl_timestamp :: u64
  pl_tool_name :: string
  pl_decision :: string
  pl_reason :: string
  pl_message :: "string option"

record session =
  ss_permissions :: shared_engine
  ss_transcript :: "permission_log_entry list"
  ss_audit :: "audit_record list"
  ss_disk :: context_disk
  ss_bundles :: "context_bundle_summary list"
  ss_cwd :: string
  ss_tasks :: "agent_task list"
  ss_dags :: "agent_dag list"
  ss_gates :: "merge_gate list"
  ss_evidence :: "evidence_view list"
  ss_handoffs :: "handoff_record list"
  ss_reviews :: "review_request list"
  ss_contracts :: "contract_record list"
  ss_dependencies :: "dependency_record list"
  ss_conflicts :: "conflict_bounce list"
  ss_reverts :: "revert_record list"

text \<open>
  What an operation gets from outside: the readings of the clock and the fresh ids it will draw (in
  the order it draws them), whether the transcript and audit appends fail, the operator, the hash
  function and the JSON codec of the context store, and \<open>serde_json\<close>'s event persistence outcome.
\<close>

record 'ctx trust_env =
  te_clock :: "nat \<Rightarrow> u64"
  te_fresh :: "string \<Rightarrow> nat \<Rightarrow> string"
  te_transcript_io :: "string option"
  te_audit_io :: "string option"
  te_persist_io :: "string option"
  te_flow :: "'ctx ask_flow"
  te_sha :: "string \<Rightarrow> string"
  te_decoder :: decoder

datatype trust_event =
    HandoffUpdated handoff_record
  | ReviewRequestUpdated review_request
  | ContractUpdated contract_record
  | DependencyUpdated dependency_record
  | MergeGateUpdated merge_gate
  | MergeConflictBounced conflict_bounce
  | RevertRecorded revert_record
  | TaskUpdated agent_task
  | EvidenceRecorded evidence_view
  | EvidenceCanonicalized string string string
  | AgentDagUpdated agent_dag

section \<open>Identity and text checks\<close>

definition validate_trust_id :: "string \<Rightarrow> string \<Rightarrow> unit res" where
  "validate_trust_id name value = ensure (safe_identifier 128 value) (''invalid trust-loop '' @ name)"

definition validate_trust_text :: "string \<Rightarrow> string \<Rightarrow> nat \<Rightarrow> string res" where
  "validate_trust_text name value max_chars =
     (let v = str_trim value
      in if v = [] \<or> has_control_char v then Err (name @ '' cannot be empty or contain control characters'')
         else Ok (truncate_for_preview v max_chars))"

definition validate_optional_id :: "string \<Rightarrow> string option \<Rightarrow> unit res" where
  "validate_optional_id name v = (case v of None \<Rightarrow> Ok () | Some s \<Rightarrow> validate_trust_id name s)"

definition validate_owner :: "runtime_owner \<Rightarrow> string option \<Rightarrow> string \<Rightarrow> unit res" where
  "validate_owner ow lane task_id = guarded
     [map_err (\<lambda>_. ''trust-loop owner requires valid workspace identity'')
        (validate_trust_id ''owner.workspace_id'' (ow_workspace_id ow)),
      map_err (\<lambda>_. ''trust-loop owner requires valid project identity'')
        (validate_trust_id ''owner.project_id'' (ow_project_id ow)),
      validate_optional_id ''owner.lane_id'' (ow_lane_id ow),
      validate_optional_id ''owner.session_id'' (ow_session_id ow),
      validate_optional_id ''owner.task_id'' (ow_task_id ow),
      validate_optional_id ''owner.turn_id'' (ow_turn_id ow),
      ensure (ow_task_id ow = Some task_id) ''trust-loop owner task identity mismatch'',
      ensure (lane = None \<or> ow_lane_id ow = lane) ''trust-loop owner lane identity mismatch'']
     (Ok ())"

definition validate_review_requester :: "merge_gate \<Rightarrow> string \<Rightarrow> runtime_owner \<Rightarrow> unit res" where
  "validate_review_requester g lane ow = guarded
     [ensure (ow_lane_id (mg_owner g) = None \<or> ow_lane_id (mg_owner g) = Some lane)
        ''review requester does not own the merge gate'',
      ensure (mg_owner g = ow) ''review request owner must match the complete merge gate owner scope'']
     (Ok ())"

definition validate_review_decider :: "review_request \<Rightarrow> runtime_owner \<Rightarrow> unit res" where
  "validate_review_decider r actor = guarded
     [ensure (actor \<noteq> default_owner) ''review decision requires an actor'',
      ensure (ow_lane_id actor = Some (rr_reviewer_lane_id r))
        ''review decision requires the independent reviewer lane'',
      validate_owner actor (Some (rr_reviewer_lane_id r)) (rr_task_id r),
      ensure (ow_workspace_id actor = ow_workspace_id (rr_owner r)
              \<and> ow_project_id actor = ow_project_id (rr_owner r))
        ''review decision actor does not match the review workspace scope'']
     (Ok ())"

definition reviewer_owner_from_requester :: "runtime_owner \<Rightarrow> string \<Rightarrow> runtime_owner" where
  "reviewer_owner_from_requester requester lane =
     requester\<lparr>ow_lane_id := Some lane, ow_session_id := None, ow_turn_id := None\<rparr>"

definition owner_matches_validator_lane :: "runtime_owner \<Rightarrow> runtime_owner \<Rightarrow> bool" where
  "owner_matches_validator_lane actor v \<longleftrightarrow>
     ow_workspace_id actor = ow_workspace_id v \<and> ow_project_id actor = ow_project_id v
     \<and> ow_task_id actor = ow_task_id v \<and> ow_lane_id actor \<noteq> None \<and> ow_lane_id actor = ow_lane_id v"

definition validate_reject_actor :: "merge_gate \<Rightarrow> runtime_owner \<Rightarrow> string \<Rightarrow> unit res" where
  "validate_reject_actor g actor action =
     (if actor = default_owner then Err (action @ '' requires an actor'')
      else if (case mg_validator g of None \<Rightarrow> False
               | Some v \<Rightarrow> owner_matches_validator_lane actor (gv_owner v)) then Ok ()
      else if actor = mg_owner g then Ok ()
      else Err (action @ '' actor is not authorized for the merge gate''))"

definition ensure_unique :: "bool \<Rightarrow> string \<Rightarrow> string \<Rightarrow> unit res" where
  "ensure_unique exists kind i = ensure (\<not> exists) (kind @ '' `'' @ i @ ''` already exists'')"

definition require_runtime_task :: "session \<Rightarrow> string \<Rightarrow> unit res" where
  "require_runtime_task s i = ensure (list_ex (\<lambda>t. at_id t = i) (ss_tasks s))
     (''agent task `'' @ i @ ''` does not exist'')"

text \<open>\<open>position\<close> of the first gate with an id.\<close>

fun position :: "('a \<Rightarrow> bool) \<Rightarrow> 'a list \<Rightarrow> nat option" where
  "position P [] = None"
| "position P (x # xs) = (if P x then Some 0 else map_option Suc (position P xs))"

definition require_gate :: "session \<Rightarrow> string \<Rightarrow> nat res" where
  "require_gate s i = ok_or (position (\<lambda>g. mg_gate_id g = i) (ss_gates s))
     (''merge gate `'' @ i @ ''` does not exist'')"

definition dag_id_for_task :: "session \<Rightarrow> string \<Rightarrow> string res" where
  "dag_id_for_task s i = ok_or
     (map_option dag_id (find (\<lambda>d. list_ex (\<lambda>t. sp_task_id t = i) (dag_tasks d)) (ss_dags s)))
     (''agent DAG for task `'' @ i @ ''` does not exist'')"

section \<open>Permission\<close>

fun reason_debug :: "decision_reason \<Rightarrow> string" where
  "reason_debug RuleAllow = ''RuleAllow''"
| "reason_debug RuleDeny = ''RuleDeny''"
| "reason_debug RuleAsk = ''RuleAsk''"
| "reason_debug SafeRead = ''SafeRead''"
| "reason_debug RequiresApproval = ''RequiresApproval''"
| "reason_debug OutOfScopePath = ''OutOfScopePath''"
| "reason_debug BypassMode = ''BypassMode''"
| "reason_debug DontAskMode = ''DontAskMode''"
| "reason_debug PlanModeReason = ''PlanMode''"
| "reason_debug AcceptEditsMode = ''AcceptEditsMode''"

definition render_permission_denial :: "string \<Rightarrow> string \<Rightarrow> string \<Rightarrow> string" where
  "render_permission_denial tool reason msg = join [newline]
     [''Permission decision:'', ''  Summary: decision=deny'', [], ''Details:'',
      ''     tool: '' @ tool, ''     reason: '' @ reason, ''     message: '' @ msg]"

definition workflow_tool :: "string \<Rightarrow> tool_spec" where
  "workflow_tool action = \<lparr>ts_name = ''workflow_'' @ action,
     ts_description = ''Workflow mutation: '' @ action, ts_is_mutating = True,
     ts_input_schema_hint = ''workflow action''\<rparr>"

definition workflow_input :: "string \<Rightarrow> string \<Rightarrow> tool_input" where
  "workflow_input action preview =
     input_insert (''preview'', preview) (input_insert (''action'', action) [])"

definition store_entry :: "'ctx trust_env \<Rightarrow> permission_log_entry \<Rightarrow> (unit, session) op" where
  "store_entry env entry s = (case te_transcript_io env of
     Some e \<Rightarrow> (Err e, s) | None \<Rightarrow> (Ok (), s\<lparr>ss_transcript := ss_transcript s @ [entry]\<rparr>))"

text \<open>
  \<open>ensure_workflow_permission_with_context\<close>, with the denial it may return as an error. The
  operator's answer to a prompt may depend on everything asked so far and on the context shown.
\<close>

definition trust_answer ::
  "'ctx trust_env \<Rightarrow> string \<Rightarrow> string \<Rightarrow> 'ctx option \<Rightarrow> session
   \<Rightarrow> permission_decision \<times> shared_engine \<times> 'ctx exchange list" where
  "trust_answer env action preview context s =
     resolve_permission shared_decide shared_apply_approval (workflow_tool action)
       (ts_name (workflow_tool action)) (workflow_input action preview)
       (\<lambda>k ask p. te_flow env k ask (p\<lparr>pp_decision_context := context\<rparr>)) (ss_permissions s)"

definition require_trust_permission ::
  "'ctx trust_env \<Rightarrow> string \<Rightarrow> string \<Rightarrow> 'ctx option \<Rightarrow> (unit, session) op" where
  "require_trust_permission env action preview context s =
     (let tool = workflow_tool action;
          (decision, e', _) = trust_answer env action preview context s;
          s' = s\<lparr>ss_permissions := e'\<rparr>
      in case decision of
           Allow a \<Rightarrow> store_entry env \<lparr>pl_timestamp = te_clock env 0, pl_tool_name = ts_name tool,
               pl_decision = ''allow'',
               pl_reason = (case ad_reason a of None \<Rightarrow> ''None'' | Some r \<Rightarrow> ''Some('' @ reason_debug r @ '')''),
               pl_message = ad_feedback a\<rparr> s'
         | Ask _ \<Rightarrow> (Err ''ask decisions should be resolved'', s')
         | Deny d \<Rightarrow> op_bind (store_entry env \<lparr>pl_timestamp = te_clock env 0, pl_tool_name = ts_name tool,
               pl_decision = ''deny'', pl_reason = reason_debug (dd_reason d),
               pl_message = Some (dd_message d)\<rparr>)
             (\<lambda>_ t. (Err (render_permission_denial (ts_name tool) (reason_debug (dd_reason d)) (dd_message d)), t)) s')"

section \<open>Audit\<close>

definition trust_audit_record ::
  "string \<Rightarrow> u64 \<Rightarrow> runtime_owner \<Rightarrow> string \<Rightarrow> audit_object list \<Rightarrow> (string \<times> string) list
   \<Rightarrow> audit_record res" where
  "trust_audit_record aid ts ow action objects args =
     sanitized_audit_record aid ts ow ActorOperator action objects AuditSuccess
       (fold input_insert args [])"

definition append_trust_audit :: "'ctx trust_env \<Rightarrow> audit_record res \<Rightarrow> (unit, session) op" where
  "append_trust_audit env r = op_check r (\<lambda>rec s.
     op_check (append_audit_record (te_audit_io env) rec (ss_audit s))
       (\<lambda>log t. (Ok (), t\<lparr>ss_audit := log\<rparr>)) s)"

section \<open>Upserts and gate updates\<close>

definition now_millis :: "u64 \<Rightarrow> u64" where
  "now_millis clock = sat_mul clock 1000"

definition task_retained :: "u64 \<Rightarrow> agent_task \<Rightarrow> bool" where
  "task_retained clock t \<longleftrightarrow> task_is_active t
     \<or> (case at_updated_at t of None \<Rightarrow> True
        | Some u \<Rightarrow> sat_sub (now_millis clock) (15 * 60 * 1000) \<le> u)"

definition upsert_agent_task :: "u64 \<Rightarrow> agent_task \<Rightarrow> agent_task list \<Rightarrow> agent_task list" where
  "upsert_agent_task clock t ts = filter (task_retained clock) (upsert_by at_id (sanitize_agent_task t) ts)"

definition upsert_runtime_evidence :: "evidence_view \<Rightarrow> evidence_view list \<Rightarrow> evidence_view list" where
  "upsert_runtime_evidence = upsert_by ev_id"

definition upsert_dependency :: "dependency_record \<Rightarrow> dependency_record list \<Rightarrow> dependency_record list" where
  "upsert_dependency = upsert_by de_dependency_id"

definition upsert_conflict :: "conflict_bounce \<Rightarrow> conflict_bounce list \<Rightarrow> conflict_bounce list" where
  "upsert_conflict = upsert_by bo_bounce_id"

definition find_task :: "session \<Rightarrow> string \<Rightarrow> agent_task option" where
  "find_task s i = find (\<lambda>t. at_id t = i) (ss_tasks s)"

definition update_gate :: "nat \<Rightarrow> (merge_gate \<Rightarrow> merge_gate) \<Rightarrow> session \<Rightarrow> session" where
  "update_gate i f s = s\<lparr>ss_gates := (ss_gates s)[i := f (ss_gates s ! i)]\<rparr>"

text \<open>The task of a gate, when it is still held, is updated and published after the other events.\<close>

definition touch_task ::
  "u64 \<Rightarrow> string \<Rightarrow> (agent_task \<Rightarrow> agent_task) \<Rightarrow> trust_event list \<Rightarrow> (trust_event list, session) op" where
  "touch_task clock i f events s = (case find_task s i of
     None \<Rightarrow> (Ok events, s)
   | Some t \<Rightarrow> (Ok (events @ [TaskUpdated (f t)]),
       s\<lparr>ss_tasks := upsert_agent_task clock (f t) (ss_tasks s)\<rparr>))"

section \<open>Evidence of a gate\<close>

definition session_gate_facts :: "'ctx trust_env \<Rightarrow> session \<Rightarrow> gate_facts" where
  "session_gate_facts env s = \<lparr>gf_sha = te_sha env, gf_decoder = te_decoder env, gf_disk = ss_disk s,
     gf_bundles = ss_bundles s\<rparr>"

definition bind_evidence ::
  "merge_gate \<Rightarrow> gate_facts \<Rightarrow> evidence_view list \<Rightarrow> string \<Rightarrow> evidence_binding res" where
  "bind_evidence g f es i = (case find (\<lambda>e. ev_id e = i) es of
     None \<Rightarrow> Err (''review evidence `'' @ i @ ''` does not exist'')
   | Some e \<Rightarrow> (let report = validate_evidence_for_gate g e f
       in if rp_status report \<noteq> CanonVerified
          then Err (''review evidence `'' @ i @ ''` is not canonical: '' @ reason_text report)
          else (case ev_canonical e of
              None \<Rightarrow> Err (''review evidence `'' @ i @ ''` is not canonical'')
            | Some c \<Rightarrow> Ok (Binding i (cr_source_hash c)))))"

fun all_ok :: "'a res list \<Rightarrow> 'a list res" where
  "all_ok [] = Ok []"
| "all_ok (r # rs) = try_then r (\<lambda>x. try_then (all_ok rs) (\<lambda>xs. Ok (x # xs)))"

text \<open>\<open>sort\<close> and \<open>dedup\<close> together give the elements in order, each once.\<close>

definition validated_bindings ::
  "'ctx trust_env \<Rightarrow> session \<Rightarrow> merge_gate \<Rightarrow> string list \<Rightarrow> evidence_binding list res" where
  "validated_bindings env s g ids =
     try_then (all_ok (map (bind_evidence g (session_gate_facts env s) (ss_evidence s)) ids))
       (\<lambda>bs. Ok (btree bs))"

definition conflict_pending :: "merge_gate \<Rightarrow> bool" where
  "conflict_pending g \<longleftrightarrow> (case mg_conflict g of None \<Rightarrow> False | Some c \<Rightarrow> bo_status c = ConflictPending)"

definition find_review :: "session \<Rightarrow> string \<Rightarrow> review_request option" where
  "find_review s i = find (\<lambda>r. rr_review_id r = i) (ss_reviews s)"

section \<open>Lemmas\<close>

text \<open>
  What asking for permission may change: the engine, and the transcript at its end; nothing of the
  domain.
\<close>

definition asked_from :: "session \<Rightarrow> session \<Rightarrow> bool" where
  "asked_from s t \<longleftrightarrow> (\<exists>p es. t = s\<lparr>ss_permissions := p, ss_transcript := ss_transcript s @ es\<rparr>)"

definition permission_granted :: "'ctx trust_env \<Rightarrow> string \<Rightarrow> string \<Rightarrow> session \<Rightarrow> bool" where
  "permission_granted env action preview s \<longleftrightarrow>
     (case fst (trust_answer env action preview None s) of Allow _ \<Rightarrow> True | _ \<Rightarrow> False)"

lemma asked_from_intro: "asked_from s (s\<lparr>ss_permissions := p, ss_transcript := ss_transcript s @ es\<rparr>)"
  by (auto simp: asked_from_def)

lemma store_entry_cases:
  "te_transcript_io env = None \<Longrightarrow> store_entry env entry s = (Ok (), s\<lparr>ss_transcript := ss_transcript s @ [entry]\<rparr>)"
  "te_transcript_io env = Some e \<Longrightarrow> store_entry env entry s = (Err e, s)"
  by (simp_all add: store_entry_def)

lemma require_permission_frame: "asked_from s (snd (require_trust_permission env action preview context s))"
proof -
  obtain d e n where ans: "trust_answer env action preview context s = (d, e, n)"
    by (cases "trust_answer env action preview context s")
  have none: "asked_from s (s\<lparr>ss_permissions := e\<rparr>)"
    using asked_from_intro [where s = s and p = e and es = "[]"] by simp
  show ?thesis
  proof (cases d)
    case (Allow a)
    then show ?thesis
      using none asked_from_intro [where s = s and p = e]
      by (cases "te_transcript_io env")
        (simp_all add: require_trust_permission_def ans Let_def store_entry_cases)
  next
    case (Deny dd)
    then show ?thesis
      using none asked_from_intro [where s = s and p = e]
      by (cases "te_transcript_io env")
        (simp_all add: require_trust_permission_def ans Let_def store_entry_cases op_bind_def)
  qed (simp add: require_trust_permission_def ans none)
qed

lemma require_permission_Inr:
  assumes "require_trust_permission env action preview None s = (Inr u, t)"
  shows "permission_granted env action preview s
    \<and> (\<exists>p e. t = s\<lparr>ss_permissions := p, ss_transcript := ss_transcript s @ [e]\<rparr>
        \<and> pl_decision e = ''allow'' \<and> pl_tool_name e = ''workflow_'' @ action)"
proof -
  obtain d e n where ans: "trust_answer env action preview None s = (d, e, n)"
    by (cases "trust_answer env action preview None s")
  with assms obtain a where a: "d = Allow a"
    by (cases d) (auto simp: require_trust_permission_def Let_def op_bind_Inr)
  have "te_transcript_io env = None"
    using assms by (cases "te_transcript_io env")
      (auto simp: require_trust_permission_def ans a Let_def store_entry_cases)
  with assms have t: "t = s\<lparr>ss_permissions := e, ss_transcript := ss_transcript s @
      [\<lparr>pl_timestamp = te_clock env 0, pl_tool_name = ts_name (workflow_tool action),
        pl_decision = ''allow'',
        pl_reason = (case ad_reason a of None \<Rightarrow> ''None'' | Some r \<Rightarrow> ''Some('' @ reason_debug r @ '')''),
        pl_message = ad_feedback a\<rparr>]\<rparr>"
    unfolding require_trust_permission_def ans a Let_def by (simp add: store_entry_cases)
  show ?thesis
  proof (intro conjI exI)
    show "permission_granted env action preview s"
      by (simp add: permission_granted_def ans a)
  qed (rule t, simp_all add: workflow_tool_def)
qed

lemma position_Some: "position P xs = Some i \<Longrightarrow> i < length xs \<and> P (xs ! i)"
  by (induction xs arbitrary: i) (auto split: if_splits)

lemma require_gate_Ok: "require_gate s i = Ok n \<Longrightarrow> n < length (ss_gates s) \<and> mg_gate_id (ss_gates s ! n) = i"
  by (auto simp: require_gate_def res_simps dest: position_Some)

lemma all_ok_iff: "all_ok rs = Ok xs \<longleftrightarrow> map Ok xs = rs"
  by (induction rs arbitrary: xs) (auto simp: res_simps map_eq_Cons_conv)

lemma bind_evidence_Ok:
  "bind_evidence g f es i = Ok b \<longleftrightarrow>
     (\<exists>e c. find (\<lambda>e. ev_id e = i) es = Some e \<and> ev_canonical e = Some c \<and> reference_counts g f c
        \<and> b = Binding i (cr_source_hash c))"
proof (cases "find (\<lambda>e. ev_id e = i) es")
  case None
  then show ?thesis by (simp add: bind_evidence_def)
next
  case (Some e)
  then show ?thesis
    using validate_verified_iff [of g e f]
    by (cases "ev_canonical e") (auto simp: bind_evidence_def Let_def)
qed

lemma map_Ok_eq:
  "map Ok cs = map h ids \<Longrightarrow>
   (\<forall>i\<in>set ids. \<exists>b\<in>set cs. h i = Ok b) \<and> (\<forall>b\<in>set cs. \<exists>i\<in>set ids. h i = Ok b)"
proof -
  assume "map Ok cs = map h ids"
  then have "Ok ` set cs = h ` set ids"
    by (metis list.set_map)
  then show ?thesis
    by (metis imageE imageI)
qed

lemma validated_bindings_Ok:
  assumes "validated_bindings env s g ids = Ok bs"
  shows "b \<in> set bs \<longleftrightarrow> (\<exists>i\<in>set ids. bind_evidence g (session_gate_facts env s) (ss_evidence s) i = Ok b)"
    and "i \<in> set ids \<Longrightarrow> \<exists>b\<in>set bs. bind_evidence g (session_gate_facts env s) (ss_evidence s) i = Ok b"
proof -
  obtain cs where cs: "map Ok cs = map (bind_evidence g (session_gate_facts env s) (ss_evidence s)) ids"
      and bs: "set bs = set cs"
    using assms by (auto simp: validated_bindings_def res_simps all_ok_iff)
  show "b \<in> set bs \<longleftrightarrow> (\<exists>i\<in>set ids. bind_evidence g (session_gate_facts env s) (ss_evidence s) i = Ok b)"
    using map_Ok_eq [OF cs] unfolding bs by (metis sum.inject(2))
  show "\<exists>b\<in>set bs. bind_evidence g (session_gate_facts env s) (ss_evidence s) i = Ok b" if "i \<in> set ids"
    using map_Ok_eq [OF cs] that unfolding bs by blast
qed

lemma bindings_nonempty:
  "validated_bindings env s g ids = Ok bs \<Longrightarrow> ids \<noteq> [] \<Longrightarrow> bs \<noteq> []"
  using validated_bindings_Ok(2) [of env s g ids bs "hd ids"] by auto

end
