(* ===== verification/Review_Loop.thy ===== *)
theory Review_Loop
  imports Trust_Session
begin

text \<open>
  The operations of the trust loop on handoffs, reviews, contracts, dependencies and conflicts
  (\<open>crates/runtime/src/trust_loop.rs\<close>). All of them have one shape: validate the request
  against the session, ask for permission, append the audit fact, and only then change the domain.
  \<open>trust_operation\<close> is that shape, and what an operation does is its validation, its audit
  record and its effect.
\<close>

section \<open>The shape of an operation\<close>

definition trust_operation ::
  "'ctx trust_env \<Rightarrow> (session \<Rightarrow> 'x res) \<Rightarrow> string \<Rightarrow> string \<Rightarrow> ('x \<Rightarrow> session \<Rightarrow> audit_record res)
   \<Rightarrow> ('x \<Rightarrow> (trust_event list, session) op) \<Rightarrow> (trust_event list, session) op" where
  "trust_operation env preflight action preview audit_of effect s =
     op_check (preflight s) (\<lambda>x.
       op_bind (require_trust_permission env action preview None) (\<lambda>_ s1.
         op_bind (append_trust_audit env (audit_of x s1)) (\<lambda>_. effect x) s1)) s"

lemma trust_operation_Inr:
  "trust_operation env preflight action preview audit_of effect s = (Inr y, t) \<longleftrightarrow>
     (\<exists>x s1 r. preflight s = Inr x \<and> require_trust_permission env action preview None s = (Inr (), s1)
        \<and> audit_of x s1 = Inr r \<and> record_bounds r \<and> te_audit_io env = None
        \<and> effect x (s1\<lparr>ss_audit := ss_audit s1 @ [r]\<rparr>) = (Inr y, t))"
  by (auto simp: trust_operation_def res_simps append_trust_audit_def op_check_Inr op_bind_Inr
      append_audit_iff)

text \<open>
  A successful operation validated, was granted, appended its audit record, and then took effect in
  the session it started from, up to permissions and transcript.
\<close>

lemma trust_operation_done:
  assumes "trust_operation env preflight action preview audit_of effect s = (Inr y, t)"
  obtains x p e r where "preflight s = Inr x" "permission_granted env action preview s"
    "pl_decision e = ''allow''" "te_audit_io env = None" "record_bounds r"
    "audit_of x (s\<lparr>ss_permissions := p, ss_transcript := ss_transcript s @ [e]\<rparr>) = Inr r"
    "effect x (s\<lparr>ss_permissions := p, ss_transcript := ss_transcript s @ [e],
       ss_audit := ss_audit s @ [r]\<rparr>) = (Inr y, t)"
proof -
  obtain x s1 r where op: "preflight s = Inr x" "require_trust_permission env action preview None s = (Inr (), s1)"
      "audit_of x s1 = Inr r" "record_bounds r" "te_audit_io env = None"
      "effect x (s1\<lparr>ss_audit := ss_audit s1 @ [r]\<rparr>) = (Inr y, t)"
    using assms unfolding trust_operation_Inr by blast
  obtain p e where s1: "s1 = s\<lparr>ss_permissions := p, ss_transcript := ss_transcript s @ [e]\<rparr>"
      "pl_decision e = ''allow''" and "permission_granted env action preview s"
    using require_permission_Inr [OF op(2)] by blast
  with op show ?thesis
    by (intro that [of x e r p]) simp_all
qed

section \<open>Handoffs\<close>

fun acceptance_token :: "handoff_acceptance \<Rightarrow> string" where
  "acceptance_token HandoffAccepted = ''accepted''"
| "acceptance_token HandoffRejected = ''rejected''"

definition handoff_preflight ::
  "string \<Rightarrow> string \<Rightarrow> string \<Rightarrow> string \<Rightarrow> runtime_owner \<Rightarrow> string \<Rightarrow> session \<Rightarrow> string res" where
  "handoff_preflight hid task from_lane to_lane ow summary s = guarded
     [validate_trust_id ''handoff_id'' hid, validate_trust_id ''task_id'' task,
      validate_trust_id ''from_lane_id'' from_lane, validate_trust_id ''to_lane_id'' to_lane,
      validate_owner ow (Some to_lane) task,
      ensure (from_lane \<noteq> to_lane) ''handoff requires distinct source and destination lanes'',
      require_runtime_task s task]
     (try_then (validate_trust_text ''handoff summary'' summary 500) (\<lambda>text.
        guarded [ensure_unique (\<exists>r\<in>set (ss_handoffs s). ho_handoff_id r = hid) ''handoff'' hid] (Ok text)))"

text \<open>An accepted handoff moves the task's first gate to the new owner.\<close>

definition move_gate_owner ::
  "string \<Rightarrow> runtime_owner \<Rightarrow> string \<Rightarrow> u64 \<Rightarrow> session \<Rightarrow> merge_gate option \<times> session" where
  "move_gate_owner task ow aid now s = (case position (\<lambda>g. mg_task_id g = task) (ss_gates s) of
     None \<Rightarrow> (None, s)
   | Some i \<Rightarrow> (let t = update_gate i (\<lambda>g. g\<lparr>mg_owner := ow, mg_audit_ids := mg_audit_ids g @ [aid],
                                         mg_updated_at := Some now\<rparr>) s
               in (Some (ss_gates t ! i), t)))"

definition create_handoff ::
  "'ctx trust_env \<Rightarrow> string \<Rightarrow> string \<Rightarrow> string \<Rightarrow> string \<Rightarrow> runtime_owner \<Rightarrow> string
   \<Rightarrow> handoff_acceptance \<Rightarrow> (trust_event list, session) op" where
  "create_handoff env hid task from_lane to_lane ow summary acceptance =
     (let now = te_clock env 1; aid = te_fresh env ''audit'' 0 in
      trust_operation env (handoff_preflight hid task from_lane to_lane ow summary)
        ''create_handoff'' (''task='' @ task @ '' from='' @ from_lane @ '' to='' @ to_lane)
        (\<lambda>_ _. trust_audit_record aid now ow ''handoff.created''
           [audit_object ''handoff'' hid, audit_object ''task'' task,
            audit_object ''lane'' from_lane, audit_object ''lane'' to_lane]
           [(''acceptance'', acceptance_token acceptance)])
        (\<lambda>text s.
           let handoff = \<lparr>ho_handoff_id = hid, ho_task_id = task, ho_from_lane_id = from_lane,
                 ho_to_lane_id = to_lane, ho_owner = ow, ho_summary = text,
                 ho_acceptance = acceptance, ho_audit_id = aid, ho_updated_at = now\<rparr>;
               s1 = s\<lparr>ss_handoffs := ss_handoffs s @ [handoff]\<rparr>;
               (moved, s2) = (if acceptance = HandoffAccepted then move_gate_owner task ow aid now s1
                              else (None, s1))
           in (Ok (HandoffUpdated handoff # (case moved of None \<Rightarrow> [] | Some g \<Rightarrow> [MergeGateUpdated g])), s2)))"

section \<open>Reviews\<close>

definition evidence_held :: "session \<Rightarrow> string \<Rightarrow> bool" where
  "evidence_held s i \<longleftrightarrow> (\<exists>e\<in>set (ss_evidence s). ev_id e = i)"

definition review_evidence_checks :: "session \<Rightarrow> string list \<Rightarrow> unit res list" where
  "review_evidence_checks s ids = concat (map (\<lambda>i.
     [validate_trust_id ''evidence_id'' i,
      ensure (evidence_held s i) (''review evidence `'' @ i @ ''` does not exist'')]) ids)"

text \<open>Gives the index of the gate and the bindings the reviewer is asked about.\<close>

definition review_preflight ::
  "'ctx trust_env \<Rightarrow> string \<Rightarrow> string \<Rightarrow> string \<Rightarrow> string \<Rightarrow> runtime_owner \<Rightarrow> string list
   \<Rightarrow> session \<Rightarrow> (nat \<times> evidence_binding list) res" where
  "review_preflight env rid gate requester reviewer ow ids s = guarded
     [validate_trust_id ''review_id'' rid, validate_trust_id ''gate_id'' gate,
      validate_trust_id ''requester_lane_id'' requester, validate_trust_id ''reviewer_lane_id'' reviewer,
      ensure (requester \<noteq> reviewer) ''review requires an independent lane'',
      ensure_unique (\<exists>r\<in>set (ss_reviews s). rr_review_id r = rid) ''review request'' rid]
     (try_then (require_gate s gate) (\<lambda>i. guarded
        ([validate_review_requester (ss_gates s ! i) requester ow,
          ensure (ids \<noteq> []) ''review request requires canonical evidence bindings'']
         @ review_evidence_checks s ids)
        (try_then (validated_bindings env s (ss_gates s ! i) ids) (\<lambda>bs. Ok (i, bs)))))"

definition request_review ::
  "'ctx trust_env \<Rightarrow> string \<Rightarrow> string \<Rightarrow> string \<Rightarrow> string \<Rightarrow> runtime_owner \<Rightarrow> string list
   \<Rightarrow> (trust_event list, session) op" where
  "request_review env rid gate requester reviewer ow ids =
     (let now = te_clock env 1; aid = te_fresh env ''audit'' 0 in
      trust_operation env (review_preflight env rid gate requester reviewer ow ids)
        ''request_review'' (''gate='' @ gate @ '' reviewer='' @ reviewer)
        (\<lambda>(i, _) s.
           let objects = [audit_object ''review_request'' rid, audit_object ''merge_gate'' gate,
                 audit_object ''task'' (mg_task_id (ss_gates s ! i)),
                 audit_object ''lane'' requester, audit_object ''lane'' reviewer]
           in trust_audit_record aid now ow ''review.requested''
                (objects @ map (audit_object ''evidence'') (take (max_audit_objects - length objects) ids))
                [(''status'', ''pending''), (''evidence_count'', show_nat (length ids))])
        (\<lambda>(i, bindings) s.
           let review = \<lparr>rr_review_id = rid, rr_gate_id = gate,
                 rr_task_id = mg_task_id (ss_gates s ! i), rr_requester_lane_id = requester,
                 rr_reviewer_lane_id = reviewer, rr_owner = ow, rr_evidence_ids = ids,
                 rr_evidence_bindings = bindings, rr_status = ReviewPending, rr_feedback = None,
                 rr_audit_id = aid, rr_updated_at = now\<rparr>;
               t = update_gate i (\<lambda>g. g\<lparr>
                 mg_validator := Some \<lparr>gv_owner = reviewer_owner_from_requester ow reviewer,
                   gv_review_request_id = rid, gv_independent = True, gv_validated_at = None\<rparr>,
                 mg_policy := (mg_policy g)\<lparr>gp_requires_independent_validator := True\<rparr>,
                 mg_status := GateCollectingEvidence,
                 mg_decision := Some (decided_now (te_clock env 2) OutcomeAwaitingEvidence
                   ''independent_review_required'' (mg_owner g) (mg_evidence_ids g)
                   (te_fresh env ''audit'' 1)),
                 mg_audit_ids := mg_audit_ids g @ [aid],
                 mg_updated_at := Some now\<rparr>) (s\<lparr>ss_reviews := ss_reviews s @ [review]\<rparr>)
           in (Ok [ReviewRequestUpdated review, MergeGateUpdated (ss_gates t ! i)], t)))"

text \<open>\<open>preflight_decide_review\<close> gives the review's index; the bindings are checked again.\<close>

definition decide_review_preflight ::
  "'ctx trust_env \<Rightarrow> string \<Rightarrow> string option \<Rightarrow> runtime_owner \<Rightarrow> session \<Rightarrow> nat res" where
  "decide_review_preflight env rid feedback actor s =
     guarded [validate_trust_id ''review_id'' rid]
     (try_then (ok_or (position (\<lambda>r. rr_review_id r = rid) (ss_reviews s))
                  (''review request `'' @ rid @ ''` does not exist'')) (\<lambda>i.
        let r = ss_reviews s ! i in guarded
          [ensure (rr_status r = ReviewPending) (''review `'' @ rid @ ''` is already decided''),
           validate_review_decider r actor]
          (try_then (require_gate s (rr_gate_id r)) (\<lambda>gi.
             try_then (map_err (\<lambda>e. ''review evidence drifted since the request; re-request review: '' @ e)
                         (validated_bindings env s (ss_gates s ! gi) (rr_evidence_ids r))) (\<lambda>current.
               guarded [ensure (current = rr_evidence_bindings r)
                   ''review evidence drifted since the request; re-request review'']
               (case feedback of
                  None \<Rightarrow> Ok i
                | Some f \<Rightarrow> try_then (validate_trust_text ''review feedback'' f 500) (\<lambda>_. Ok i)))))))"

text \<open>What a verdict makes of the review, and of its gate: only the validator's own review stamps it.\<close>

definition decided_review ::
  "'ctx trust_env \<Rightarrow> review_verdict \<Rightarrow> string option \<Rightarrow> review_request \<Rightarrow> review_request" where
  "decided_review env verdict feedback r = r\<lparr>rr_status := status_of_verdict verdict,
     rr_feedback := feedback, rr_audit_id := te_fresh env ''audit'' 0, rr_updated_at := te_clock env 1\<rparr>"

definition reviewed_gate :: "'ctx trust_env \<Rightarrow> string \<Rightarrow> review_verdict \<Rightarrow> merge_gate \<Rightarrow> merge_gate" where
  "reviewed_gate env rid verdict g = g\<lparr>
     mg_validator := map_option (\<lambda>v. if verdict = VerdictAccepted \<and> gv_review_request_id v = rid
       then v\<lparr>gv_validated_at := Some (te_clock env 1)\<rparr> else v) (mg_validator g),
     mg_audit_ids := mg_audit_ids g @ [te_fresh env ''audit'' 0],
     mg_updated_at := Some (te_clock env 1)\<rparr>"

definition decide_review ::
  "'ctx trust_env \<Rightarrow> string \<Rightarrow> review_verdict \<Rightarrow> string option \<Rightarrow> runtime_owner
   \<Rightarrow> (trust_event list, session) op" where
  "decide_review env rid verdict feedback actor =
     (let now = te_clock env 1; aid = te_fresh env ''audit'' 0 in
      trust_operation env
        (\<lambda>s. try_then (decide_review_preflight env rid feedback actor s) (\<lambda>i.
           case feedback of
             None \<Rightarrow> Ok (i, None)
           | Some f \<Rightarrow> try_then (validate_trust_text ''review feedback'' f 500) (\<lambda>t. Ok (i, Some t))))
        ''decide_review'' (''review='' @ rid @ '' verdict='' @ verdict_token verdict)
        (\<lambda>(i, _) s.
           let r = ss_reviews s ! i
           in try_then (require_gate s (rr_gate_id r)) (\<lambda>_.
             trust_audit_record aid now actor ''review.decided''
               [audit_object ''review_request'' rid, audit_object ''merge_gate'' (rr_gate_id r),
                audit_object ''task'' (rr_task_id r), audit_object ''lane'' (rr_requester_lane_id r),
                audit_object ''lane'' (rr_reviewer_lane_id r)]
               [(''verdict'', verdict_token verdict)]))
        (\<lambda>(i, text) s.
           op_check (require_gate s (rr_gate_id (ss_reviews s ! i))) (\<lambda>gi s.
             let review = decided_review env verdict text (ss_reviews s ! i);
                 t = update_gate gi (reviewed_gate env rid verdict)
                       (s\<lparr>ss_reviews := (ss_reviews s)[i := review]\<rparr>)
             in (Ok [ReviewRequestUpdated review, MergeGateUpdated (ss_gates t ! gi)], t)) s))"

section \<open>Contracts\<close>

fun contract_token :: "contract_decision \<Rightarrow> string" where
  "contract_token ContractConfirmed = ''confirmed''"
| "contract_token ContractRejected = ''rejected''"

definition contract_preflight ::
  "string \<Rightarrow> string \<Rightarrow> runtime_owner \<Rightarrow> string \<Rightarrow> session \<Rightarrow> string res" where
  "contract_preflight cid task ow summary s = guarded
     [validate_trust_id ''contract_id'' cid, validate_trust_id ''task_id'' task,
      validate_owner ow (ow_lane_id ow) task, require_runtime_task s task,
      ensure_unique (\<exists>r\<in>set (ss_contracts s). co_contract_id r = cid) ''contract'' cid]
     (validate_trust_text ''contract summary'' summary 500)"

definition confirm_contract ::
  "'ctx trust_env \<Rightarrow> string \<Rightarrow> string \<Rightarrow> runtime_owner \<Rightarrow> string \<Rightarrow> contract_decision
   \<Rightarrow> (trust_event list, session) op" where
  "confirm_contract env cid task ow summary decision =
     (let now = te_clock env 1; aid = te_fresh env ''audit'' 0 in
      trust_operation env (contract_preflight cid task ow summary)
        ''confirm_contract'' (''task='' @ task @ '' contract='' @ cid)
        (\<lambda>_ _. trust_audit_record aid now ow ''contract.confirmed''
           [audit_object ''contract'' cid, audit_object ''task'' task]
           [(''decision'', contract_token decision)])
        (\<lambda>text s.
           let contract = \<lparr>co_contract_id = cid, co_task_id = task, co_owner = ow, co_summary = text,
                 co_decision = decision, co_audit_id = aid, co_updated_at = now\<rparr>
           in (Ok [ContractUpdated contract], s\<lparr>ss_contracts := ss_contracts s @ [contract]\<rparr>)))"

end
