(* ===== verification/Dependency_Conflict.thy ===== *)
theory Dependency_Conflict
  imports Review_Loop
begin

text \<open>
  The rest of \<open>crates/runtime/src/trust_loop.rs\<close>: dependencies between tasks, with the cycle
  check over the DAGs' edges and the blocked dependencies, and merge conflicts, bounced to the lane
  they came from and revalidated by it.
\<close>

section \<open>Dependencies\<close>

text \<open>The edges of the DAGs, and then those of the blocked dependencies under other ids.\<close>

definition dag_edges :: "agent_dag list \<Rightarrow> edges" where
  "dag_edges dags = fold (\<lambda>d es. fold (\<lambda>t es. extend_edges (sp_task_id t) (sp_dependencies t) es)
     (dag_tasks d) es) dags []"

definition dependency_edges :: "string \<Rightarrow> agent_dag list \<Rightarrow> dependency_record list \<Rightarrow> edges" where
  "dependency_edges did dags deps = fold (\<lambda>d es.
     if de_dependency_id d \<noteq> did \<and> de_state d = DepBlocked
     then extend_edges (de_task_id d) [de_depends_on_task_id d] es else es) deps (dag_edges dags)"

definition validate_dependency_mutation ::
  "string \<Rightarrow> string \<Rightarrow> string \<Rightarrow> dependency_state \<Rightarrow> session \<Rightarrow> unit res" where
  "validate_dependency_mutation did task on st s =
     (let es = dependency_edges did (ss_dags s) (ss_dependencies s) in
      guarded
        ([require_runtime_task s task,
          map_err (\<lambda>_. ''dependency task `'' @ on @ ''` does not exist'') (require_runtime_task s on),
          ensure (task \<noteq> on) (''agent task `'' @ task @ ''` cannot depend on itself'')]
         @ map (\<lambda>d. ensure (de_dependency_id d = did \<longrightarrow> de_task_id d = task \<and> de_depends_on_task_id d = on)
             (''dependency id `'' @ did @ ''` is already bound to different endpoints'')) (ss_dependencies s))
        (if st = DepUnblocked then Ok ()
         else ensure (\<not> dependency_path_exists (extend_edges task [on] es) on task)
           (''dependency cycle would connect `'' @ task @ ''` and `'' @ on @ ''`'')))"

definition find_map :: "('a \<Rightarrow> 'b option) \<Rightarrow> 'a list \<Rightarrow> 'b option" where
  "find_map f xs = (case List.map_filter f xs of [] \<Rightarrow> None | y # _ \<Rightarrow> Some y)"

definition task_finished :: "agent_task \<Rightarrow> bool" where
  "task_finished t \<longleftrightarrow> at_status t \<in> {TaskDone, TaskApplied, TaskArchived}"

text \<open>Inside the search, a dependency whose task is no longer held is passed over.\<close>

definition static_blocker :: "session \<Rightarrow> string \<Rightarrow> agent_dag \<Rightarrow> string option" where
  "static_blocker s task d = (case find (\<lambda>t. sp_task_id t = task) (dag_tasks d) of
     None \<Rightarrow> None
   | Some spec \<Rightarrow> find_map (\<lambda>dep. case find_task s dep of
         None \<Rightarrow> None
       | Some t \<Rightarrow> if task_finished t then None else Some dep) (sp_dependencies spec))"

definition blocking_dependency_for_task :: "session \<Rightarrow> string \<Rightarrow> string option" where
  "blocking_dependency_for_task s task = (case find_map (static_blocker s task) (ss_dags s) of
     Some b \<Rightarrow> Some b
   | None \<Rightarrow> map_option de_depends_on_task_id
       (find (\<lambda>d. de_task_id d = task \<and> de_state d = DepBlocked) (ss_dependencies s)))"

fun dependency_state_token :: "dependency_state \<Rightarrow> string" where
  "dependency_state_token DepBlocked = ''blocked''"
| "dependency_state_token DepUnblocked = ''unblocked''"

fun dependency_state_debug :: "dependency_state \<Rightarrow> string" where
  "dependency_state_debug DepBlocked = ''Blocked''"
| "dependency_state_debug DepUnblocked = ''Unblocked''"

definition dependency_preflight ::
  "string \<Rightarrow> string \<Rightarrow> string \<Rightarrow> runtime_owner \<Rightarrow> dependency_state \<Rightarrow> string \<Rightarrow> session \<Rightarrow> string res" where
  "dependency_preflight did task on ow st reason s = guarded
     [validate_trust_id ''dependency_id'' did, validate_trust_id ''task_id'' task,
      validate_trust_id ''depends_on_task_id'' on, validate_owner ow (ow_lane_id ow) task,
      validate_dependency_mutation did task on st s]
     (validate_trust_text ''dependency reason'' reason 240)"

definition set_dependency ::
  "'ctx trust_env \<Rightarrow> string \<Rightarrow> string \<Rightarrow> string \<Rightarrow> runtime_owner \<Rightarrow> dependency_state \<Rightarrow> string
   \<Rightarrow> (trust_event list, session) op" where
  "set_dependency env did task on ow st reason =
     (let now = te_clock env 1; aid = te_fresh env ''audit'' 0 in
      trust_operation env (dependency_preflight did task on ow st reason)
        ''set_dependency'' (''task='' @ task @ '' dependency='' @ on @ '' state='' @ dependency_state_debug st)
        (\<lambda>_ _. trust_audit_record aid now ow ''dependency.set''
           [audit_object ''dependency'' did, audit_object ''task'' task, audit_object ''task'' on]
           [(''state'', dependency_state_token st)])
        (\<lambda>text s.
           let dep = \<lparr>de_dependency_id = did, de_task_id = task, de_depends_on_task_id = on,
                 de_owner = ow, de_state = st, de_reason = text, de_audit_id = aid, de_updated_at = now\<rparr>;
               s1 = s\<lparr>ss_dependencies := upsert_dependency dep (ss_dependencies s)\<rparr>
           in touch_task (te_clock env 2) task (\<lambda>t.
                (case blocking_dependency_for_task s1 task of
                   Some b \<Rightarrow> t\<lparr>at_status := TaskBlocked, at_activity := ''dependency blocked: '' @ b\<rparr>
                 | None \<Rightarrow> if at_status t = TaskBlocked
                     then t\<lparr>at_status := TaskQueued, at_activity := ''dependency unblocked: '' @ text\<rparr> else t)
                \<lparr>at_updated_at := Some (sat_mul now 1000)\<rparr>) [DependencyUpdated dep] s1))"

section \<open>Conflicts\<close>

definition validate_conflict_bounce ::
  "'ctx trust_env \<Rightarrow> nat \<Rightarrow> string \<Rightarrow> runtime_owner \<Rightarrow> session \<Rightarrow> evidence_binding list res" where
  "validate_conflict_bounce env i lane ow s =
     (let g = ss_gates s ! i in guarded
        [ensure (ow_lane_id (mg_owner g) = Some lane \<and> ow = mg_owner g)
           ''merge conflict bounce must target the gate owner origin lane'']
        (map_err (\<lambda>e. ''merge conflict bounce requires valid canonical evidence baseline: '' @ e)
           (validated_bindings env s g (mg_evidence_ids g))))"

definition new_bounce ::
  "'ctx trust_env \<Rightarrow> merge_gate \<Rightarrow> string \<Rightarrow> runtime_owner \<Rightarrow> string \<Rightarrow> conflict_content option
   \<Rightarrow> evidence_binding list \<Rightarrow> conflict_bounce" where
  "new_bounce env g lane ow reason content baseline =
     \<lparr>bo_bounce_id = te_fresh env ''conflict'' 0, bo_gate_id = mg_gate_id g, bo_task_id = mg_task_id g,
      bo_original_lane_id = lane, bo_owner = ow, bo_reason = reason, bo_status = ConflictPending,
      bo_evidence_ids = mg_evidence_ids g, bo_baseline_evidence = baseline,
      bo_revalidation_evidence = [], bo_content = content, bo_audit_id = te_fresh env ''audit'' 0,
      bo_created_at = te_clock env 1, bo_revalidated_at = None\<rparr>"

definition bounced_gate :: "'ctx trust_env \<Rightarrow> conflict_bounce \<Rightarrow> merge_gate \<Rightarrow> merge_gate" where
  "bounced_gate env c g = g\<lparr>mg_status := GateNeedsChanges, mg_conflict := Some c,
     mg_decision := Some (decided_now (te_clock env 2) OutcomeConflict (bo_reason c) (bo_owner c)
       (mg_evidence_ids g) (bo_audit_id c)),
     mg_audit_ids := mg_audit_ids g @ [bo_audit_id c],
     mg_updated_at := Some (bo_created_at c)\<rparr>"

definition bounced_task :: "conflict_bounce \<Rightarrow> agent_task \<Rightarrow> agent_task" where
  "bounced_task c t = t\<lparr>at_status := TaskNeedsInput, at_activity := bo_reason c,
     at_next_action := Some \<lparr>na_label = ''resolve merge conflict'',
       na_command = Some (''/lane attach '' @ bo_original_lane_id c),
       na_reason = Some ''merge conflict returned to the originating lane''\<rparr>,
     at_updated_at := Some (sat_mul (bo_created_at c) 1000)\<rparr>"

definition bounce_audit :: "conflict_bounce \<Rightarrow> audit_record res" where
  "bounce_audit c = trust_audit_record (bo_audit_id c) (bo_created_at c) (bo_owner c) ''conflict.bounced''
     [audit_object ''merge_gate'' (bo_gate_id c), audit_object ''task'' (bo_task_id c),
      audit_object ''lane'' (bo_original_lane_id c)]
     [(''status'', ''pending''), (''bounce_id'', bo_bounce_id c)]"

definition record_conflict_bounce ::
  "'ctx trust_env \<Rightarrow> nat \<Rightarrow> string \<Rightarrow> runtime_owner \<Rightarrow> string \<Rightarrow> conflict_content option
   \<Rightarrow> (trust_event list, session) op" where
  "record_conflict_bounce env i lane ow reason content s =
     op_check (validate_conflict_bounce env i lane ow s) (\<lambda>baseline.
       let c = new_bounce env (ss_gates s ! i) lane ow reason content baseline in
       op_bind (append_trust_audit env (bounce_audit c)) (\<lambda>_ s.
         let t = update_gate i (bounced_gate env c) (s\<lparr>ss_conflicts := ss_conflicts s @ [c]\<rparr>)
         in touch_task (te_clock env 3) (bo_task_id c) (bounced_task c)
              [MergeConflictBounced c, MergeGateUpdated (ss_gates t ! i)] t)) s"

definition bounce_preflight ::
  "'ctx trust_env \<Rightarrow> string \<Rightarrow> string \<Rightarrow> runtime_owner \<Rightarrow> string \<Rightarrow> session \<Rightarrow> (nat \<times> string) res" where
  "bounce_preflight env gate lane ow reason s = guarded
     [validate_trust_id ''gate_id'' gate, validate_trust_id ''original_lane_id'' lane]
     (try_then (require_gate s gate) (\<lambda>i. guarded
        [validate_owner ow (ow_lane_id ow) (mg_task_id (ss_gates s ! i))]
        (try_then (validate_trust_text ''conflict reason'' reason 500) (\<lambda>text.
          try_then (validate_conflict_bounce env i lane ow s) (\<lambda>_. Ok (i, text))))))"

definition bounce_merge_conflict ::
  "'ctx trust_env \<Rightarrow> string \<Rightarrow> string \<Rightarrow> runtime_owner \<Rightarrow> string \<Rightarrow> (trust_event list, session) op" where
  "bounce_merge_conflict env gate lane ow reason s =
     op_check (bounce_preflight env gate lane ow reason s) (\<lambda>(i, text).
       op_bind (require_trust_permission env ''bounce_merge_conflict''
                  (''gate='' @ gate @ '' origin='' @ lane) None)
         (\<lambda>_. record_conflict_bounce env i lane ow text None)) s"

text \<open>Gives the indices of the gate and of the bounce.\<close>

definition validate_conflict_revalidation ::
  "'ctx trust_env \<Rightarrow> string \<Rightarrow> string \<Rightarrow> runtime_owner \<Rightarrow> evidence_binding \<Rightarrow> session \<Rightarrow> (nat \<times> nat) res" where
  "validate_conflict_revalidation env gate bid actor b s = guarded
     [validate_trust_id ''gate_id'' gate, validate_trust_id ''bounce_id'' bid,
      validate_trust_id ''evidence_id'' (eb_evidence_id b)]
     (try_then (require_gate s gate) (\<lambda>i. let g = ss_gates s ! i in guarded
        [validate_owner actor (ow_lane_id actor) (mg_task_id g)]
        (try_then (ok_or (mg_conflict g) (''merge gate `'' @ gate @ ''` has no conflict to revalidate'')) (\<lambda>c. guarded
          [ensure (bo_bounce_id c = bid) ''merge conflict bounce identity mismatch'',
           ensure (bo_status c = ConflictPending) ''merge conflict is not pending revalidation'',
           ensure (ow_lane_id actor = Some (bo_original_lane_id c) \<and> actor = bo_owner c)
             ''merge conflict revalidation must come from the origin lane'']
          (try_then (validated_bindings env s g [eb_evidence_id b]) (\<lambda>current. guarded
            [ensure (current = [b]) ''merge conflict evidence hash does not match canonical bytes'',
             ensure (\<not> (\<exists>x\<in>set (bo_baseline_evidence c). eb_source_hash x = eb_source_hash b))
               ''merge conflict revalidation requires a changed canonical receipt'']
            (try_then (ok_or (Option.bind (find (\<lambda>e. ev_id e = eb_evidence_id b) (ss_evidence s)) ev_canonical)
                         ''merge conflict evidence is not canonical'') (\<lambda>stored. guarded
              [ensure (ep_identity (cr_producer stored) = bo_original_lane_id c)
                 ''merge conflict evidence producer is not the origin lane'']
              (try_then (ok_or (position (\<lambda>x. bo_bounce_id x = bid) (ss_conflicts s))
                           ''merge conflict bounce fact does not exist'') (\<lambda>k. Ok (i, k)))))))))))"

definition revalidated :: "u64 \<Rightarrow> evidence_binding \<Rightarrow> conflict_bounce \<Rightarrow> conflict_bounce" where
  "revalidated now b c = c\<lparr>bo_status := ConflictRevalidated, bo_revalidated_at := Some now,
     bo_revalidation_evidence := [b]\<rparr>"

definition revalidated_gate ::
  "'ctx trust_env \<Rightarrow> runtime_owner \<Rightarrow> conflict_bounce \<Rightarrow> merge_gate \<Rightarrow> merge_gate" where
  "revalidated_gate env actor c g = g\<lparr>mg_conflict := Some c, mg_status := GateCollectingEvidence,
     mg_decision := Some (decided_now (te_clock env 2) OutcomeAwaitingEvidence
       ''revalidated_conflict_requires_review'' actor (mg_evidence_ids g) (te_fresh env ''audit'' 0)),
     mg_updated_at := Some (te_clock env 1)\<rparr>"

definition revalidate_merge_conflict ::
  "'ctx trust_env \<Rightarrow> string \<Rightarrow> string \<Rightarrow> runtime_owner \<Rightarrow> evidence_binding \<Rightarrow> (trust_event list, session) op" where
  "revalidate_merge_conflict env gate bid actor b =
     trust_operation env (validate_conflict_revalidation env gate bid actor b)
       ''revalidate_merge_conflict'' (''gate='' @ gate @ '' bounce='' @ bid)
       (\<lambda>(i, _) s. trust_audit_record (te_fresh env ''audit'' 0) (te_clock env 1) actor ''conflict.revalidated''
          [audit_object ''merge_gate'' gate, audit_object ''task'' (mg_task_id (ss_gates s ! i)),
           audit_object ''conflict'' bid, audit_object ''evidence'' (eb_evidence_id b)]
          [(''status'', ''revalidated'')])
       (\<lambda>(i, k) s.
          let c = revalidated (te_clock env 1) b (ss_conflicts s ! k);
              t = update_gate i (revalidated_gate env actor c)
                    (s\<lparr>ss_conflicts := (ss_conflicts s)[k := c]\<rparr>)
          in (Ok [MergeConflictBounced c, MergeGateUpdated (ss_gates t ! i)], t))"

definition mark_conflict_resolved :: "nat \<Rightarrow> session \<Rightarrow> conflict_bounce option \<times> session" where
  "mark_conflict_resolved i s = (case mg_conflict (ss_gates s ! i) of
     None \<Rightarrow> (None, s)
   | Some c \<Rightarrow> (let c' = c\<lparr>bo_status := ConflictResolved\<rparr>
       in (Some c', (update_gate i (\<lambda>g. g\<lparr>mg_conflict := Some c'\<rparr>) s)
                      \<lparr>ss_conflicts := upsert_conflict c' (ss_conflicts s)\<rparr>)))"

end
