(* ===== verification/Gate_Decisions.thy ===== *)
theory Gate_Decisions
  imports Dependency_Conflict
begin

text \<open>
  Agent DAGs and merge gates (\<open>crates/runtime/src/runtime_contract.rs\<close>): starting a DAG creates a
  task and a gate per specification; evidence is recorded for a gate; a gate, or its only artifact,
  is accepted or rejected; an agent task that ends reports its summary to its gate.
\<close>

section \<open>Starting a DAG\<close>

fun role_next_action_label :: "agent_role \<Rightarrow> string" where
  "role_next_action_label Planner = ''start planning''"
| "role_next_action_label Coder = ''start coding''"
| "role_next_action_label Reviewer = ''start review''"
| "role_next_action_label Tester = ''start testing''"
| "role_next_action_label DocWriter = ''start docs''"
| "role_next_action_label Researcher = ''start research''"
| "role_next_action_label ReleaseOperator = ''start release gate''"

definition agent_task_record_from_spec :: "string \<Rightarrow> agent_dag_task_spec \<Rightarrow> u64 \<Rightarrow> agent_task" where
  "agent_task_record_from_spec cwd spec timestamp =
     \<lparr>at_id = sp_task_id spec,
      at_parent_id = (case sp_dependencies spec of [] \<Rightarrow> None | d # _ \<Rightarrow> Some d),
      at_role = sp_role spec, at_kind = KindAgent, at_route = RouteBuiltIn, at_title = sp_title spec,
      at_status = TaskQueued, at_activity = ''queued for supervised execution'',
      at_summary = sp_objective spec, at_progress = 0, at_started_at = None,
      at_updated_at = Some (sat_mul timestamp 1000),
      at_workspace = (case sp_workspace spec of Some w \<Rightarrow> Some w | None \<Rightarrow> Some cwd),
      at_evidence = map (\<lambda>k. ''required '' @ k) (sp_required_evidence spec),
      at_permissions = [''policy '' @ sp_permission_policy spec], at_decision = None, at_result = None,
      at_resume_handle = None, at_pid = None,
      at_next_action = Some \<lparr>na_label = role_next_action_label (sp_role spec),
        na_command = Some (''/agent start '' @ sp_task_id spec),
        na_reason = Some ''task is queued in the supervised Agent DAG''\<rparr>,
      at_owner = None\<rparr>"

definition gate_from_spec :: "agent_dag_task_spec \<Rightarrow> u64 \<Rightarrow> merge_gate" where
  "gate_from_spec spec now =
     \<lparr>mg_gate_id = ''gate-'' @ sp_task_id spec, mg_task_id = sp_task_id spec, mg_status = GateProposed,
      mg_required_evidence = sp_required_evidence spec, mg_evidence_ids = [],
      mg_gate_type = (if list_ex (\<lambda>k. canonical_required_kind k = ''patch'') (sp_required_evidence spec)
                      then GatePatch else GateArtifact),
      mg_owner = default_owner\<lparr>ow_task_id := Some (sp_task_id spec)\<rparr>,
      mg_validator = None,
      mg_policy = \<lparr>gp_required_evidence = sp_required_evidence spec, gp_permission_snapshot_id = None,
        gp_requires_independent_validator = False, gp_captured_at = Some now\<rparr>,
      mg_decision = None, mg_conflict = None, mg_applied_change_id = None, mg_recovery = None,
      mg_audit_ids = [], mg_updated_at = Some now\<rparr>"

text \<open>One round of the loop over the specifications: a task, and a gate for it.\<close>

definition dag_step ::
  "'ctx trust_env \<Rightarrow> agent_dag_task_spec \<Rightarrow> trust_event list \<times> session \<Rightarrow> trust_event list \<times> session" where
  "dag_step env = (\<lambda>spec (events, s).
     let t = agent_task_record_from_spec (ss_cwd s) spec (te_clock env 1);
         g = gate_from_spec spec (te_clock env 1)
     in (events @ [TaskUpdated t, MergeGateUpdated g],
         s\<lparr>ss_tasks := upsert_agent_task (te_clock env 2) t (ss_tasks s), ss_gates := ss_gates s @ [g]\<rparr>))"

definition new_dag :: "'ctx trust_env \<Rightarrow> string \<Rightarrow> agent_dag_task_spec list \<Rightarrow> agent_dag" where
  "new_dag env goal tasks = \<lparr>dag_id = te_fresh env ''dag'' 0,
     dag_goal = sanitize_runtime_domain_text goal 160, dag_status = DagActive, dag_tasks = tasks,
     dag_created_at = Some (te_clock env 1), dag_updated_at = Some (te_clock env 1)\<rparr>"

definition dag_preflight :: "agent_dag_task_spec list \<Rightarrow> agent_dag_task_spec list res" where
  "dag_preflight specs = guarded
     [ensure (specs \<noteq> []) ''agent DAG requires at least one task'',
      validate_agent_dag_tasks (map sanitize_task_spec specs)]
     (Ok (map sanitize_task_spec specs))"

definition start_agent_dag ::
  "'ctx trust_env \<Rightarrow> string \<Rightarrow> agent_dag_task_spec list \<Rightarrow> (trust_event list, session) op" where
  "start_agent_dag env goal specs s = op_check (dag_preflight specs) (\<lambda>tasks s.
     let dag = new_dag env goal tasks;
         (events, t) = fold (dag_step env) tasks ([AgentDagUpdated dag], s)
     in (Ok events, t\<lparr>ss_dags := ss_dags t @ [dag]\<rparr>)) s"

section \<open>Task status\<close>

definition update_agent_task_status ::
  "'ctx trust_env \<Rightarrow> string \<Rightarrow> agent_task_status \<Rightarrow> string \<Rightarrow> u8 \<Rightarrow> (trust_event list, session) op" where
  "update_agent_task_status env task st activity progress s = (case find_task s task of
     None \<Rightarrow> (Err (''agent task `'' @ task @ ''` does not exist''), s)
   | Some t \<Rightarrow> (let t' = t\<lparr>at_status := st, at_activity := activity, at_progress := progress,
                     at_updated_at := Some (sat_mul (te_clock env 1) 1000)\<rparr>
       in (Ok [TaskUpdated t'], s\<lparr>ss_tasks := upsert_agent_task (te_clock env 2) t' (ss_tasks s)\<rparr>)))"

definition cancel_agent_task :: "'ctx trust_env \<Rightarrow> string \<Rightarrow> (trust_event list, session) op" where
  "cancel_agent_task env task s = op_check (dag_id_for_task s task) (\<lambda>_.
     update_agent_task_status env task TaskCancelled ''cancelled by operator'' 100) s"

definition update_agent_task_failure ::
  "'ctx trust_env \<Rightarrow> string \<Rightarrow> string \<Rightarrow> string \<Rightarrow> string \<Rightarrow> (trust_event list, session) op" where
  "update_agent_task_failure env task activity failure_class recovery s = (case find_task s task of
     None \<Rightarrow> (Err (''agent task `'' @ task @ ''` does not exist''), s)
   | Some t \<Rightarrow> (let t' = t\<lparr>at_status := TaskFailed, at_activity := activity, at_progress := 100,
                     at_result := Some (''failed:'' @ failure_class),
                     at_updated_at := Some (sat_mul (te_clock env 1) 1000),
                     at_next_action := Some \<lparr>na_label = ''retry agent task'',
                       na_command = Some (''/agent start '' @ task),
                       na_reason = Some (failure_class @ '': '' @ recovery)\<rparr>\<rparr>
       in (Ok [TaskUpdated t'], s\<lparr>ss_tasks := upsert_agent_task (te_clock env 2) t' (ss_tasks s)\<rparr>)))"

text \<open>A blocked task is marked so, and the run ends there.\<close>

definition blocked_by_unfinished_dependency ::
  "'ctx trust_env \<Rightarrow> agent_dag_task_spec \<Rightarrow> (trust_event list option, session) op" where
  "blocked_by_unfinished_dependency env spec s = (case blocking_dependency_for_task s (sp_task_id spec) of
     None \<Rightarrow> (Ok None, s)
   | Some b \<Rightarrow> (case find_task s (sp_task_id spec) of
       None \<Rightarrow> (Err (''agent task `'' @ sp_task_id spec @ ''` does not exist''), s)
     | Some t \<Rightarrow> (let t' = t\<lparr>at_status := TaskBlocked, at_activity := ''waiting for dependency `'' @ b @ ''`'',
                       at_progress := 0, at_updated_at := Some (sat_mul (te_clock env 1) 1000)\<rparr>
         in (Ok (Some [TaskUpdated t']),
             s\<lparr>ss_tasks := upsert_agent_task (te_clock env 2) t' (ss_tasks s)\<rparr>))))"

section \<open>Accepting and rejecting\<close>

definition independent_validator :: "merge_gate \<Rightarrow> bool" where
  "independent_validator g \<longleftrightarrow> (case mg_validator g of None \<Rightarrow> False | Some v \<Rightarrow> gv_independent v)"

text \<open>
  The rules for an acceptance with a validator, and without one. The evidence the review was asked
  about, the evidence on the gate now and the evidence the actor says it reviewed must be the same.
\<close>

definition validator_acceptance ::
  "session \<Rightarrow> string \<Rightarrow> runtime_owner \<Rightarrow> evidence_binding list \<Rightarrow> evidence_binding list \<Rightarrow> gate_validator
   \<Rightarrow> review_request res" where
  "validator_acceptance s gate actor reviewed current v = guarded
     [ensure (owner_matches_validator_lane actor (gv_owner v))
        ''merge gate acceptance actor does not match validator owner'']
     (try_then (ok_or (find_review s (gv_review_request_id v))
                  ''merge gate validator review request does not exist'') (\<lambda>r. guarded
        [ensure (rr_status r \<noteq> ReviewRejected)
           (''cannot accept merge gate `'' @ gate @ ''`: independent review `'' @ rr_review_id r @ ''` was rejected''),
         ensure (current = rr_evidence_bindings r \<and> reviewed = rr_evidence_bindings r)
           ''merge gate reviewed evidence changed after review request'']
        (Ok r)))"

definition owner_acceptance ::
  "merge_gate \<Rightarrow> runtime_owner \<Rightarrow> evidence_binding list \<Rightarrow> evidence_binding list \<Rightarrow> unit res" where
  "owner_acceptance g actor reviewed current = guarded
     [ensure (actor = mg_owner g) ''merge gate acceptance actor does not match gate owner'',
      ensure (mg_owner g = default_owner \<or> reviewed = current)
        ''merge gate acceptance requires exact reviewed evidence'']
     (Ok ())"

definition acceptance_report :: "'ctx trust_env \<Rightarrow> session \<Rightarrow> string \<Rightarrow> merge_gate \<Rightarrow> unit res" where
  "acceptance_report env s gate g =
     (let report = reduce_gate_status g (ss_evidence s) (session_gate_facts env s)
      in ensure (rp_status report = CanonVerified)
           (''merge gate `'' @ gate @ ''` cannot be accepted: '' @ reason_text report))"

definition conflict_check :: "string \<Rightarrow> merge_gate \<Rightarrow> unit res" where
  "conflict_check gate g = ensure (\<not> conflict_pending g)
     (''merge gate `'' @ gate @ ''` has a pending conflict that requires origin-lane revalidation'')"

definition validator_check :: "string \<Rightarrow> bool \<Rightarrow> unit res" where
  "validator_check gate b = ensure b (''merge gate `'' @ gate @ ''` requires an independent validator'')"

definition preflight_accept_merge_gate ::
  "'ctx trust_env \<Rightarrow> string \<Rightarrow> runtime_owner \<Rightarrow> evidence_binding list \<Rightarrow> session \<Rightarrow> unit res" where
  "preflight_accept_merge_gate env gate actor reviewed s =
     try_then (require_gate s gate) (\<lambda>i. let g = ss_gates s ! i in guarded
       [acceptance_report env s gate g, conflict_check gate g]
       (try_then (validated_bindings env s g (mg_evidence_ids g)) (\<lambda>current.
          case mg_validator g of
            Some v \<Rightarrow> guarded [validator_check gate (gv_independent v)]
              (try_then (validator_acceptance s gate actor (btree reviewed) current v) (\<lambda>_. Ok ()))
          | None \<Rightarrow> guarded [validator_check gate (\<not> gp_requires_independent_validator (mg_policy g))]
              (owner_acceptance g actor (btree reviewed) current))))"

definition artifact_checks :: "merge_gate \<Rightarrow> string \<Rightarrow> unit res list" where
  "artifact_checks g evidence =
     [ensure (\<not> gp_requires_independent_validator (mg_policy g) \<and> mg_validator g = None)
        ''agent artifact shortcut cannot bypass independent review policy'',
      ensure (mg_conflict g = None) ''agent artifact shortcut cannot accept a conflicted gate'',
      ensure (mg_evidence_ids g = [evidence])
        ''agent artifact shortcut requires a single exact gate evidence binding'']"

definition preflight_accept_agent_artifact ::
  "'ctx trust_env \<Rightarrow> string \<Rightarrow> string \<Rightarrow> runtime_owner \<Rightarrow> string \<Rightarrow> session \<Rightarrow> unit res" where
  "preflight_accept_agent_artifact env gate evidence actor hash s =
     try_then (require_gate s gate) (\<lambda>i. guarded (artifact_checks (ss_gates s ! i) evidence)
       (preflight_accept_merge_gate env gate actor [Binding evidence hash] s))"

definition preflight_reject_merge_gate :: "string \<Rightarrow> runtime_owner \<Rightarrow> session \<Rightarrow> unit res" where
  "preflight_reject_merge_gate gate actor s =
     try_then (require_gate s gate) (\<lambda>i. validate_reject_actor (ss_gates s ! i) actor ''merge gate rejection'')"

definition preflight_reject_agent_artifact ::
  "string \<Rightarrow> string \<Rightarrow> runtime_owner \<Rightarrow> session \<Rightarrow> unit res" where
  "preflight_reject_agent_artifact gate evidence actor s = guarded
     [ensure (str_trim evidence \<noteq> []) ''agent artifact evidence id cannot be empty'']
     (try_then (require_gate s gate) (\<lambda>i. guarded
        [ensure (evidence_held s evidence) (''agent artifact evidence `'' @ evidence @ ''` does not exist''),
         ensure (evidence \<in> set (mg_evidence_ids (ss_gates s ! i)))
           (''agent artifact evidence `'' @ evidence @ ''` is not bound to the gate evidence set''),
         validate_reject_actor (ss_gates s ! i) actor ''agent artifact rejection'']
        (Ok ())))"

text \<open>
  The checks of \<open>decide_merge_gate\<close>: an acceptance gives the evidence the decision will record and
  the review it settles. Unlike the preflight, it asks for an independent validator only when the
  policy does.
\<close>

definition check_acceptance ::
  "'ctx trust_env \<Rightarrow> string \<Rightarrow> runtime_owner option \<Rightarrow> evidence_binding list \<Rightarrow> merge_gate \<Rightarrow> session
   \<Rightarrow> (evidence_binding list \<times> string option) res" where
  "check_acceptance env gate actor reviewed g s = guarded
     [acceptance_report env s gate g,
      validator_check gate (gp_requires_independent_validator (mg_policy g) \<longrightarrow> independent_validator g),
      conflict_check gate g]
     (try_then (ok_or actor ''merge gate acceptance requires an actor'') (\<lambda>a.
        try_then (validated_bindings env s g (mg_evidence_ids g)) (\<lambda>current.
          let rev = btree reviewed in
          case mg_validator g of
            Some v \<Rightarrow> try_then (validator_acceptance s gate a rev current v)
              (\<lambda>r. Ok (rev, Some (rr_review_id r)))
          | None \<Rightarrow> guarded [owner_acceptance g a rev current]
              (Ok (if mg_owner g = default_owner \<and> rev = [] then current else rev, None)))))"

definition decision_preflight ::
  "'ctx trust_env \<Rightarrow> string \<Rightarrow> bool \<Rightarrow> runtime_owner option \<Rightarrow> evidence_binding list \<Rightarrow> string \<Rightarrow> session
   \<Rightarrow> (nat \<times> evidence_binding list \<times> string option) res" where
  "decision_preflight env gate accept actor reviewed text s = guarded
     [ensure (str_trim text \<noteq> []) ''merge gate decision cannot be empty'']
     (try_then (require_gate s gate) (\<lambda>i. let g = ss_gates s ! i in
        try_then (dag_id_for_task s (mg_task_id g)) (\<lambda>_.
          if accept then try_then (check_acceptance env gate actor reviewed g s)
            (\<lambda>(rev, review). Ok (i, rev, review))
          else try_then (ok_or actor ''merge gate rejection requires an actor'') (\<lambda>a.
            guarded [validate_reject_actor g a ''merge gate rejection''] (Ok (i, reviewed, None))))))"

text \<open>The review of a decided gate, if it is still pending, is settled with it.\<close>

definition settled_review :: "bool \<Rightarrow> u64 \<Rightarrow> review_request \<Rightarrow> review_request" where
  "settled_review accept now r = r\<lparr>rr_status := (if accept then ReviewAccepted else ReviewRejected),
     rr_updated_at := now\<rparr>"

definition settle_review ::
  "string option \<Rightarrow> bool \<Rightarrow> u64 \<Rightarrow> trust_event list \<Rightarrow> session \<Rightarrow> trust_event list \<times> session" where
  "settle_review rid accept now events s = (case rid of
     None \<Rightarrow> (events, s)
   | Some i \<Rightarrow> (case position (\<lambda>r. rr_review_id r = i) (ss_reviews s) of
       None \<Rightarrow> (events, s)
     | Some k \<Rightarrow> (let r = ss_reviews s ! k in
         if rr_status r \<noteq> ReviewPending then (events, s)
         else (events @ [ReviewRequestUpdated (settled_review accept now r)],
               s\<lparr>ss_reviews := (ss_reviews s)[k := settled_review accept now r]\<rparr>))))"

definition gate_review_id :: "string option \<Rightarrow> merge_gate \<Rightarrow> string option" where
  "gate_review_id accepted g = (case accepted of
     Some r \<Rightarrow> Some r | None \<Rightarrow> map_option gv_review_request_id (mg_validator g))"

definition decided_gate ::
  "'ctx trust_env \<Rightarrow> bool \<Rightarrow> runtime_owner option \<Rightarrow> string \<Rightarrow> evidence_binding list \<Rightarrow> string option
   \<Rightarrow> merge_gate \<Rightarrow> merge_gate" where
  "decided_gate env accept actor reason bindings review g =
     (let by = (case actor of Some a \<Rightarrow> a | None \<Rightarrow> mg_owner g);
          outcome = (if accept then OutcomeAccepted else OutcomeRejected);
          aid = te_fresh env ''audit'' 0; now = te_clock env 1
      in g\<lparr>mg_status := (if accept then GateAccepted else GateNeedsChanges),
           mg_decision := Some ((decided_now (te_clock env 2) outcome reason by (map eb_evidence_id bindings) aid)
             \<lparr>gd_reviewed_evidence := bindings, gd_review_request_id := review\<rparr>),
           mg_validator := (if accept then map_option (\<lambda>v. v\<lparr>gv_validated_at := Some now\<rparr>) (mg_validator g)
                            else mg_validator g),
           mg_audit_ids := mg_audit_ids g @ [aid],
           mg_updated_at := Some now\<rparr>)"

definition decided_task :: "'ctx trust_env \<Rightarrow> bool \<Rightarrow> string \<Rightarrow> agent_task \<Rightarrow> agent_task" where
  "decided_task env accept reason k =
     (if accept then k\<lparr>at_activity := ''merge gate accepted: '' @ reason, at_next_action := None\<rparr>
      else k\<lparr>at_status := TaskNeedsInput, at_activity := ''merge gate requested changes: '' @ reason,
        at_next_action := Some \<lparr>na_label = ''revise task'',
          na_command = Some (''/agent start '' @ at_id k),
          na_reason = Some ''merge gate rejected the current evidence''\<rparr>\<rparr>)
     \<lparr>at_decision := Some reason, at_updated_at := Some (sat_mul (te_clock env 1) 1000)\<rparr>"

definition decision_audit ::
  "'ctx trust_env \<Rightarrow> bool \<Rightarrow> runtime_owner option \<Rightarrow> string \<Rightarrow> string option \<Rightarrow> merge_gate \<Rightarrow> audit_record res" where
  "decision_audit env accept actor gate review g =
     trust_audit_record (te_fresh env ''audit'' 0) (te_clock env 1)
       (case actor of Some a \<Rightarrow> a | None \<Rightarrow> mg_owner g) ''gate.decided''
       ([audit_object ''merge_gate'' gate, audit_object ''task'' (mg_task_id g)]
        @ (case gate_review_id review g of None \<Rightarrow> [] | Some r \<Rightarrow> [audit_object ''review_request'' r]))
       [(''outcome'', if accept then ''accepted'' else ''needs_changes'')]"

text \<open>\<open>status\<close> is either accepted or needs changes at every call; the flag says which.\<close>

definition decide_merge_gate ::
  "'ctx trust_env \<Rightarrow> string \<Rightarrow> bool \<Rightarrow> runtime_owner option \<Rightarrow> evidence_binding list \<Rightarrow> string
   \<Rightarrow> (trust_event list, session) op" where
  "decide_merge_gate env gate accept actor reviewed decision =
     (let reason = sanitize_runtime_domain_text decision 240 in
      trust_operation env (decision_preflight env gate accept actor reviewed reason)
        (if accept then ''accept_merge_gate'' else ''reject_merge_gate'') (''gate='' @ gate)
        (\<lambda>(i, _, review) s. decision_audit env accept actor gate review (ss_gates s ! i))
        (\<lambda>(i, bindings, review) s.
           let t = update_gate i (decided_gate env accept actor reason bindings review) s;
               g = ss_gates t ! i;
               (events, u) = settle_review (gate_review_id review g) accept (te_clock env 1)
                 [MergeGateUpdated g] t
           in touch_task (te_clock env 3) (mg_task_id g) (decided_task env accept reason) events u))"

definition artifact_preflight ::
  "string \<Rightarrow> string \<Rightarrow> string \<Rightarrow> string \<Rightarrow> session \<Rightarrow> unit res" where
  "artifact_preflight gate evidence hash text s = guarded
     [ensure (str_trim text \<noteq> []) ''agent artifact decision cannot be empty'',
      ensure (str_trim evidence \<noteq> []) ''agent artifact evidence id cannot be empty'']
     (try_then (require_gate s gate) (\<lambda>i.
        try_then (dag_id_for_task s (mg_task_id (ss_gates s ! i))) (\<lambda>_.
          guarded (artifact_checks (ss_gates s ! i) evidence)
            (try_then (ok_or (find (\<lambda>e. ev_id e = evidence) (ss_evidence s))
                         (''agent artifact evidence `'' @ evidence @ ''` does not exist'')) (\<lambda>e.
               try_then (ok_or (ev_canonical e)
                           (''agent artifact evidence `'' @ evidence @ ''` is not canonical'')) (\<lambda>c.
                 ensure (hash = cr_source_hash c)
                   ''agent artifact source hash does not match canonical bytes''))))))"

definition accept_agent_artifact ::
  "'ctx trust_env \<Rightarrow> string \<Rightarrow> string \<Rightarrow> runtime_owner \<Rightarrow> string \<Rightarrow> string \<Rightarrow> (trust_event list, session) op" where
  "accept_agent_artifact env gate evidence actor hash decision s =
     (let text = sanitize_runtime_domain_text decision 240 in
      op_check (artifact_preflight gate evidence hash text s) (\<lambda>_.
        decide_merge_gate env gate True (Some actor) [Binding evidence hash] text) s)"

definition rejected_gate ::
  "'ctx trust_env \<Rightarrow> string \<Rightarrow> runtime_owner \<Rightarrow> string \<Rightarrow> merge_gate \<Rightarrow> merge_gate" where
  "rejected_gate env evidence actor reason g =
     (let kept = filter (\<lambda>e. e \<noteq> evidence) (mg_evidence_ids g)
      in g\<lparr>mg_evidence_ids := kept, mg_status := GateNeedsChanges,
           mg_decision := Some (decided_now (te_clock env 2) OutcomeRejected reason actor kept
             (te_fresh env ''audit'' 0)),
           mg_updated_at := Some (te_clock env 1)\<rparr>)"

definition rejected_task :: "'ctx trust_env \<Rightarrow> string \<Rightarrow> string \<Rightarrow> agent_task \<Rightarrow> agent_task" where
  "rejected_task env evidence reason k = k\<lparr>
     at_evidence := filter (\<lambda>e. e \<noteq> evidence) (at_evidence k), at_status := TaskNeedsInput,
     at_activity := ''artifact rejected: '' @ reason, at_decision := Some reason,
     at_next_action := Some \<lparr>na_label = ''revise artifact'',
       na_command = Some (''/agent start '' @ at_id k),
       na_reason = Some ''merge gate rejected an artifact''\<rparr>,
     at_updated_at := Some (sat_mul (te_clock env 1) 1000)\<rparr>"

definition rejection_preflight :: "string \<Rightarrow> string \<Rightarrow> runtime_owner \<Rightarrow> string \<Rightarrow> session \<Rightarrow> nat res" where
  "rejection_preflight gate evidence actor reason s = guarded
     [ensure (str_trim reason \<noteq> []) ''agent artifact rejection reason cannot be empty'',
      preflight_reject_agent_artifact gate evidence actor s]
     (try_then (require_gate s gate) (\<lambda>i.
        try_then (dag_id_for_task s (mg_task_id (ss_gates s ! i))) (\<lambda>_. Ok i)))"

definition reject_agent_artifact ::
  "'ctx trust_env \<Rightarrow> string \<Rightarrow> string \<Rightarrow> runtime_owner \<Rightarrow> string \<Rightarrow> (trust_event list, session) op" where
  "reject_agent_artifact env gate evidence actor decision =
     (let reason = sanitize_runtime_domain_text decision 240 in
      trust_operation env (rejection_preflight gate evidence actor reason)
        ''reject_agent_artifact'' (''gate='' @ gate @ '' evidence='' @ evidence)
        (\<lambda>i s. trust_audit_record (te_fresh env ''audit'' 0) (te_clock env 1) actor ''evidence.rejected''
           [audit_object ''merge_gate'' gate, audit_object ''task'' (mg_task_id (ss_gates s ! i)),
            audit_object ''evidence'' evidence] [(''outcome'', ''rejected'')])
        (\<lambda>i s.
           let t = update_gate i (rejected_gate env evidence actor reason) s; g = ss_gates t ! i
           in touch_task (te_clock env 3) (mg_task_id g) (rejected_task env evidence reason)
                [MergeGateUpdated g] t))"

end
