(* ===== verification/Evidence_Recording.thy ===== *)
theory Evidence_Recording
  imports Gate_Decisions
begin

text \<open>
  Evidence entering a gate (\<open>crates/runtime/src/runtime_contract.rs\<close>): the permissioned
  \<open>record_agent_evidence\<close>, and the summary a finished agent task leaves, which shares the gate's
  reduction but not its treatment of a pending conflict.
\<close>

section \<open>Recording evidence\<close>

text \<open>The reference as it will stand once permission is given: scoped, verified, passed.\<close>

definition stamp_canonical :: "string \<Rightarrow> canonical_reference \<Rightarrow> canonical_reference" where
  "stamp_canonical receipt c = c\<lparr>cr_permission_snapshot_id := Some receipt,
     cr_permission_scope := cr_evidence_scope c, cr_verification := Verified,
     cr_quality := \<lparr>qf_status = QualityPass, qf_reason_codes = []\<rparr>\<rparr>"

definition preflight_record_agent_evidence ::
  "'ctx trust_env \<Rightarrow> string \<Rightarrow> string option \<Rightarrow> string \<Rightarrow> canonical_reference option \<Rightarrow> session \<Rightarrow> unit res" where
  "preflight_record_agent_evidence env gate eid kind canonical s =
     try_then (require_gate s gate) (\<lambda>i. guarded
       [ensure (normalize_evidence_kind kind \<noteq> []) ''agent evidence kind cannot be empty'']
       (case canonical of
          None \<Rightarrow> Ok ()
        | Some c \<Rightarrow> try_then (validate_external_reference c) (\<lambda>c.
            let e = \<lparr>ev_id = (case eid of Some i \<Rightarrow> i | None \<Rightarrow> ''evidence-preflight''),
                  ev_kind = normalize_evidence_kind kind, ev_summary = ''preflight'', ev_path = None,
                  ev_source = None, ev_canonical = Some (stamp_canonical ''permission-preflight'' c),
                  ev_metadata = None, ev_timestamp = None, ev_owner = None\<rparr>;
                report = validate_evidence_for_gate (ss_gates s ! i) e (session_gate_facts env s)
            in ensure (rp_status report = CanonVerified)
                 (''agent evidence canonical preflight failed: '' @ reason_text report))))"

record evidence_request =
  eq_gate_id :: string
  eq_evidence_id :: "string option"
  eq_kind :: string
  eq_summary :: string
  eq_path :: "string option"
  eq_source :: "string option"
  eq_canonical :: "canonical_reference option"

text \<open>The request once its texts are cleaned: kind, summary, path, source and reference.\<close>

definition clean_evidence_request :: "evidence_request \<Rightarrow> evidence_request res" where
  "clean_evidence_request q =
     (let kind = normalize_evidence_kind (eq_kind q); summary = str_trim (eq_summary q)
      in guarded [ensure (kind \<noteq> []) ''agent evidence kind cannot be empty'',
                  ensure (summary \<noteq> []) ''agent evidence summary cannot be empty'']
         (try_then (case eq_path q of None \<Rightarrow> Ok None
                    | Some p \<Rightarrow> try_then (validate_evidence_path p) (\<lambda>p. Ok (Some p))) (\<lambda>path.
           try_then (case eq_canonical q of None \<Rightarrow> Ok None
                     | Some c \<Rightarrow> try_then (validate_external_reference c) (\<lambda>c. Ok (Some c))) (\<lambda>canonical.
             Ok (q\<lparr>eq_kind := kind, eq_summary := sanitize_evidence_summary summary, eq_path := path,
                   eq_source := non_empty (map_option sanitize_evidence_source (eq_source q)),
                   eq_canonical := canonical\<rparr>)))))"

text \<open>What the reduction of its evidence makes of a gate.\<close>

definition review_still_pending :: "canonical_report \<Rightarrow> merge_gate \<Rightarrow> bool" where
  "review_still_pending report g \<longleftrightarrow> rp_status report = CanonVerified
     \<and> gp_requires_independent_validator (mg_policy g)
     \<and> (case mg_validator g of None \<Rightarrow> True | Some v \<Rightarrow> gv_validated_at v = None)"

definition add_evidence_id :: "string \<Rightarrow> merge_gate \<Rightarrow> merge_gate" where
  "add_evidence_id i g = (if i \<in> set (mg_evidence_ids g) then g
     else g\<lparr>mg_evidence_ids := mg_evidence_ids g @ [i]\<rparr>)"

definition settle_gate_after_record :: "canonical_report \<Rightarrow> u64 \<Rightarrow> u64 \<Rightarrow> string \<Rightarrow> merge_gate \<Rightarrow> merge_gate" where
  "settle_gate_after_record report now decided_at aid g =
     (let pending = review_still_pending report g;
          reasons = (case canonical_reason_summary report of None \<Rightarrow> [] | Some r \<Rightarrow> r)
      in g\<lparr>mg_status := (if conflict_pending g then GateNeedsChanges
             else if pending then GateCollectingEvidence
             else gate_status_from_canonical (rp_status report)),
           mg_decision := (if conflict_pending g then mg_decision g
             else if reasons \<noteq> [] \<or> pending then Some (decided_now decided_at OutcomeAwaitingEvidence
               (if pending then ''independent_review_required'' else reasons) (mg_owner g)
               (mg_evidence_ids g) aid)
             else None),
           mg_updated_at := Some now\<rparr>)"

definition record_preflight ::
  "'ctx trust_env \<Rightarrow> evidence_request \<Rightarrow> session \<Rightarrow> (nat \<times> evidence_request) res" where
  "record_preflight env q s = try_then (clean_evidence_request q) (\<lambda>c.
     try_then (require_gate s (eq_gate_id q)) (\<lambda>i.
       try_then (dag_id_for_task s (mg_task_id (ss_gates s ! i))) (\<lambda>_. guarded
         [preflight_record_agent_evidence env (eq_gate_id q) (eq_evidence_id q) (eq_kind c) (eq_canonical c) s]
         (Ok (i, c)))))"

text \<open>The id given, trimmed, or a fresh one.\<close>

definition recorded_evidence_id :: "'ctx trust_env \<Rightarrow> string \<Rightarrow> evidence_request \<Rightarrow> string" where
  "recorded_evidence_id env task c =
     (case non_empty (map_option str_trim (eq_evidence_id c)) of
        Some i \<Rightarrow> i
      | None \<Rightarrow> te_fresh env (''evidence-'' @ task @ ''-'' @ eq_kind c) 0)"

definition recorded_evidence :: "'ctx trust_env \<Rightarrow> merge_gate \<Rightarrow> evidence_request \<Rightarrow> evidence_view" where
  "recorded_evidence env g c =
     \<lparr>ev_id = recorded_evidence_id env (mg_task_id g) c, ev_kind = eq_kind c,
      ev_summary = truncate_for_preview (eq_summary c) 500, ev_path = eq_path c, ev_source = eq_source c,
      ev_canonical = map_option (stamp_canonical (te_fresh env ''permission-receipt'' 0)) (eq_canonical c),
      ev_metadata = None, ev_timestamp = Some (te_clock env 1), ev_owner = Some (mg_owner g)\<rparr>"

definition record_effect ::
  "'ctx trust_env \<Rightarrow> nat \<Rightarrow> evidence_request \<Rightarrow> (trust_event list, session) op" where
  "record_effect env i c s =
     (let now = te_clock env 1; e = recorded_evidence env (ss_gates s ! i) c;
          s1 = s\<lparr>ss_evidence := upsert_runtime_evidence e (ss_evidence s)\<rparr>;
          g1 = add_evidence_id (ev_id e) (ss_gates s1 ! i);
          report = reduce_gate_status g1 (ss_evidence s1) (session_gate_facts env s1);
          t = update_gate i (\<lambda>_. settle_gate_after_record report now (te_clock env 2) (te_fresh env ''audit'' 0) g1) s1
      in touch_task (te_clock env 3) (mg_task_id g1) (\<lambda>k. k\<lparr>
           at_evidence := (if ev_id e \<in> set (at_evidence k) then at_evidence k else at_evidence k @ [ev_id e]),
           at_activity := ''evidence recorded: '' @ eq_kind c,
           at_updated_at := Some (sat_mul now 1000)\<rparr>)
         (EvidenceRecorded e
          # (case ev_canonical e of None \<Rightarrow> []
             | Some r \<Rightarrow> [EvidenceCanonicalized (ev_id e) (cr_item_id r) (cr_source_hash r)])
          @ [MergeGateUpdated (ss_gates t ! i)]) t)"

text \<open>No audit record here: the code appends none for recorded evidence.\<close>

definition record_agent_evidence ::
  "'ctx trust_env \<Rightarrow> evidence_request \<Rightarrow> (trust_event list, session) op" where
  "record_agent_evidence env q s = op_check (record_preflight env q s) (\<lambda>(i, c).
     op_bind (require_trust_permission env ''record_agent_evidence''
                (''gate='' @ eq_gate_id q @ '' kind='' @ eq_kind c) None)
       (\<lambda>_. record_effect env i c)) s"

section \<open>A finished agent task\<close>

text \<open>
  \<open>run_agent_task_with_control_inner\<close>, from the provider's answer on: the summary becomes evidence
  without a canonical reference, the task is done, and the task's first gate is reduced again.
\<close>

definition task_summary_evidence ::
  "'ctx trust_env \<Rightarrow> agent_dag_task_spec \<Rightarrow> string \<Rightarrow> session \<Rightarrow> evidence_view" where
  "task_summary_evidence env spec summary s =
     \<lparr>ev_id = ''evidence-'' @ sp_task_id spec @ ''-task_summary'', ev_kind = ''task_summary'',
      ev_summary = sanitize_evidence_summary summary, ev_path = None,
      ev_source = Some (role_as_str (sp_role spec)), ev_canonical = None, ev_metadata = None,
      ev_timestamp = Some (te_clock env 1),
      ev_owner = Option.bind (find_task s (sp_task_id spec)) at_owner\<rparr>"

definition settle_gate_after_task :: "canonical_report \<Rightarrow> u64 \<Rightarrow> u64 \<Rightarrow> string \<Rightarrow> merge_gate \<Rightarrow> merge_gate" where
  "settle_gate_after_task report now decided_at aid g =
     (let pending = review_still_pending report g;
          reason = (case canonical_reason_summary report of
             Some r \<Rightarrow> Some r
           | None \<Rightarrow> if pending then Some ''independent_review_required'' else None)
      in g\<lparr>mg_status := (if pending then GateCollectingEvidence
             else gate_status_from_canonical (rp_status report)),
           mg_decision := map_option (\<lambda>r. decided_now decided_at OutcomeAwaitingEvidence r (mg_owner g)
             (mg_evidence_ids g) aid) reason,
           mg_updated_at := Some now\<rparr>)"

definition finish_agent_task ::
  "'ctx trust_env \<Rightarrow> agent_dag_task_spec \<Rightarrow> string \<Rightarrow> session \<Rightarrow> trust_event list \<times> session" where
  "finish_agent_task env spec output s =
     (let summary = (if str_trim output = [] then role_as_str (sp_role spec) @ '' completed without assistant text''
                     else output);
          e = task_summary_evidence env spec summary s;
          s1 = s\<lparr>ss_evidence := upsert_runtime_evidence e (ss_evidence s)\<rparr>
      in case find_task s1 (sp_task_id spec) of
           None \<Rightarrow> ([EvidenceRecorded e], s1)
         | Some t \<Rightarrow>
             (let t' = t\<lparr>at_status := TaskDone, at_activity := ''supervised role task complete'',
                    at_progress := 100, at_result := Some (truncate_for_preview summary 500),
                    at_evidence := at_evidence t @ [ev_id e],
                    at_updated_at := Some (sat_mul (te_clock env 2) 1000)\<rparr>;
                  s2 = s1\<lparr>ss_tasks := upsert_agent_task (te_clock env 3) t' (ss_tasks s1)\<rparr>
              in case position (\<lambda>g. mg_task_id g = sp_task_id spec) (ss_gates s2) of
                   None \<Rightarrow> ([EvidenceRecorded e, TaskUpdated t'], s2)
                 | Some i \<Rightarrow>
                     (let g1 = add_evidence_id (ev_id e) (ss_gates s2 ! i);
                          report = reduce_gate_status g1 (ss_evidence s2) (session_gate_facts env s2);
                          s3 = update_gate i (\<lambda>_. settle_gate_after_task report (te_clock env 5)
                                 (te_clock env 4) (te_fresh env ''audit'' 0) g1) s2
                      in ([EvidenceRecorded e, TaskUpdated t', MergeGateUpdated (ss_gates s3 ! i)], s3))))"

end
