(* ===== verification/Trust_Commands.thy ===== *)
theory Trust_Commands
  imports Evidence_Recording
begin

text \<open>
  The command boundary (\<open>validate_trust_command\<close> in \<open>crates/runtime/src/trust_loop.rs\<close>,
  \<open>handle_runtime_command\<close> in \<open>runtime_contract.rs\<close>, \<open>session_lifecycle.rs\<close>): a command is
  described and validated, run against a snapshot, and its events persisted; if the run or the
  append fails, the domain is what it was.
\<close>

section \<open>Commands\<close>

datatype trust_command =
    CreateHandoff string string string string runtime_owner string handoff_acceptance
  | RequestReview string string string string runtime_owner "string list"
  | DecideReview string review_verdict "string option" runtime_owner
  | ConfirmContract string string runtime_owner string contract_decision
  | SetDependency string string string runtime_owner dependency_state string
  | AcceptMergeGate string runtime_owner "evidence_binding list" "string option"
  | RejectMergeGate string runtime_owner string
  | RecordAgentEvidence evidence_request
  | AcceptAgentArtifact string string runtime_owner string "string option"
  | RejectAgentArtifact string string runtime_owner string
  | RevalidateMergeConflict string string runtime_owner evidence_binding
  | BounceMergeConflict string string runtime_owner string
  | StartAgentDag string "agent_dag_task_spec list"
  | CancelAgentTask string

section \<open>Descriptors\<close>

text \<open>
  What the permission question of a command will be about: its action and preview, after the same
  validation the operation makes. The order of the checks differs from the operation's, so the two
  may answer a wrong request with different errors.
\<close>

definition text_check :: "string \<Rightarrow> string option \<Rightarrow> nat \<Rightarrow> unit res" where
  "text_check name value n = (case value of None \<Rightarrow> Ok ()
     | Some v \<Rightarrow> try_then (validate_trust_text name v n) (\<lambda>_. Ok ()))"

definition described :: "unit res list \<Rightarrow> string \<Rightarrow> string \<Rightarrow> (string \<times> string) option res" where
  "described checks action preview = guarded checks (Ok (Some (action, preview)))"

definition describe_review_request ::
  "'ctx trust_env \<Rightarrow> session \<Rightarrow> string \<Rightarrow> string \<Rightarrow> string \<Rightarrow> string \<Rightarrow> runtime_owner \<Rightarrow> string list
   \<Rightarrow> (string \<times> string) option res" where
  "describe_review_request env s rid gate requester reviewer ow ids = guarded
     [validate_trust_id ''review_id'' rid, validate_trust_id ''gate_id'' gate,
      validate_trust_id ''requester_lane_id'' requester, validate_trust_id ''reviewer_lane_id'' reviewer]
     (try_then (require_gate s gate) (\<lambda>i. guarded
        ([validate_review_requester (ss_gates s ! i) requester ow,
          ensure (requester \<noteq> reviewer) ''review requires an independent lane'',
          ensure_unique (\<exists>r\<in>set (ss_reviews s). rr_review_id r = rid) ''review request'' rid,
          ensure (ids \<noteq> []) ''review request requires canonical evidence bindings'']
         @ review_evidence_checks s ids)
        (try_then (validated_bindings env s (ss_gates s ! i) ids) (\<lambda>_.
           Ok (Some (''request_review'', ''gate='' @ gate @ '' reviewer='' @ reviewer))))))"

definition describe_bounce ::
  "'ctx trust_env \<Rightarrow> session \<Rightarrow> string \<Rightarrow> string \<Rightarrow> runtime_owner \<Rightarrow> string \<Rightarrow> (string \<times> string) option res" where
  "describe_bounce env s gate lane ow reason = try_then (require_gate s gate) (\<lambda>i. guarded
     [validate_trust_id ''original_lane_id'' lane,
      validate_owner ow (ow_lane_id ow) (mg_task_id (ss_gates s ! i)),
      text_check ''conflict reason'' (Some reason) 500]
     (try_then (validate_conflict_bounce env i lane ow s) (\<lambda>_.
        Ok (Some (''bounce_merge_conflict'', ''gate='' @ gate @ '' origin='' @ lane)))))"

fun validate_trust_command ::
  "'ctx trust_env \<Rightarrow> session \<Rightarrow> trust_command \<Rightarrow> (string \<times> string) option res" where
  "validate_trust_command env s (CreateHandoff hid task from_lane to_lane ow summary acc) = described
     [validate_trust_id ''handoff_id'' hid, validate_trust_id ''task_id'' task,
      validate_trust_id ''from_lane_id'' from_lane, validate_trust_id ''to_lane_id'' to_lane,
      validate_owner ow (Some to_lane) task,
      ensure (from_lane \<noteq> to_lane) ''handoff requires distinct source and destination lanes'',
      require_runtime_task s task, text_check ''handoff summary'' (Some summary) 500,
      ensure_unique (\<exists>r\<in>set (ss_handoffs s). ho_handoff_id r = hid) ''handoff'' hid]
     ''create_handoff'' (''task='' @ task @ '' from='' @ from_lane @ '' to='' @ to_lane)"
| "validate_trust_command env s (RequestReview rid gate requester reviewer ow ids) =
     describe_review_request env s rid gate requester reviewer ow ids"
| "validate_trust_command env s (DecideReview rid verdict feedback actor) =
     try_then (decide_review_preflight env rid feedback actor s) (\<lambda>_.
       described [] ''decide_review'' (''review='' @ rid @ '' verdict='' @ verdict_token verdict))"
| "validate_trust_command env s (ConfirmContract cid task ow summary d) = described
     [validate_trust_id ''contract_id'' cid, validate_trust_id ''task_id'' task,
      validate_owner ow (ow_lane_id ow) task, require_runtime_task s task,
      ensure_unique (\<exists>r\<in>set (ss_contracts s). co_contract_id r = cid) ''contract'' cid,
      text_check ''contract summary'' (Some summary) 500]
     ''confirm_contract'' (''task='' @ task @ '' contract='' @ cid)"
| "validate_trust_command env s (SetDependency did task on ow st reason) = described
     [validate_trust_id ''dependency_id'' did, validate_trust_id ''task_id'' task,
      validate_trust_id ''depends_on_task_id'' on, validate_owner ow (ow_lane_id ow) task,
      validate_dependency_mutation did task on st s, text_check ''dependency reason'' (Some reason) 240]
     ''set_dependency'' (''task='' @ task @ '' dependency='' @ on @ '' state='' @ dependency_state_debug st)"
| "validate_trust_command env s (AcceptMergeGate gate actor reviewed d) = described
     [text_check ''merge gate decision'' d 240, preflight_accept_merge_gate env gate actor reviewed s]
     ''accept_merge_gate'' (''gate='' @ gate)"
| "validate_trust_command env s (RejectMergeGate gate actor reason) = described
     [text_check ''merge gate decision'' (Some reason) 240, preflight_reject_merge_gate gate actor s]
     ''reject_merge_gate'' (''gate='' @ gate)"
| "validate_trust_command env s (RecordAgentEvidence q) = described
     [preflight_record_agent_evidence env (eq_gate_id q) (eq_evidence_id q) (eq_kind q) (eq_canonical q) s]
     ''record_agent_evidence'' (''gate='' @ eq_gate_id q @ '' kind='' @ str_trim (eq_kind q))"
| "validate_trust_command env s (AcceptAgentArtifact gate evidence actor hash d) = described
     [text_check ''agent artifact decision'' d 240,
      preflight_accept_agent_artifact env gate evidence actor hash s]
     ''accept_agent_artifact'' (''gate='' @ gate @ '' evidence='' @ evidence)"
| "validate_trust_command env s (RejectAgentArtifact gate evidence actor reason) = described
     [text_check ''agent artifact rejection reason'' (Some reason) 240,
      preflight_reject_agent_artifact gate evidence actor s]
     ''reject_agent_artifact'' (''gate='' @ gate @ '' evidence='' @ evidence)"
| "validate_trust_command env s (RevalidateMergeConflict gate bid actor b) =
     try_then (validate_conflict_revalidation env gate bid actor b s) (\<lambda>_.
       described [] ''revalidate_merge_conflict'' (''gate='' @ gate @ '' bounce='' @ bid))"
| "validate_trust_command env s (BounceMergeConflict gate lane ow reason) =
     describe_bounce env s gate lane ow reason"
| "validate_trust_command env s _ = Ok None"

section \<open>Operations of commands\<close>

definition default_text :: "string \<Rightarrow> string option \<Rightarrow> string" where
  "default_text d v = (case v of None \<Rightarrow> d | Some t \<Rightarrow> t)"

fun run_operation :: "'ctx trust_env \<Rightarrow> trust_command \<Rightarrow> (trust_event list, session) op" where
  "run_operation env (CreateHandoff hid task from_lane to_lane ow summary acc) =
     create_handoff env hid task from_lane to_lane ow summary acc"
| "run_operation env (RequestReview rid gate requester reviewer ow ids) =
     request_review env rid gate requester reviewer ow ids"
| "run_operation env (DecideReview rid verdict feedback actor) = decide_review env rid verdict feedback actor"
| "run_operation env (ConfirmContract cid task ow summary d) = confirm_contract env cid task ow summary d"
| "run_operation env (SetDependency did task on ow st reason) = set_dependency env did task on ow st reason"
| "run_operation env (AcceptMergeGate gate actor reviewed d) =
     decide_merge_gate env gate True (Some actor) reviewed (default_text ''accepted'' d)"
| "run_operation env (RejectMergeGate gate actor reason) =
     decide_merge_gate env gate False (Some actor) [] reason"
| "run_operation env (RecordAgentEvidence q) = record_agent_evidence env q"
| "run_operation env (AcceptAgentArtifact gate evidence actor hash d) =
     accept_agent_artifact env gate evidence actor hash (default_text ''artifact accepted'' d)"
| "run_operation env (RejectAgentArtifact gate evidence actor reason) =
     reject_agent_artifact env gate evidence actor reason"
| "run_operation env (RevalidateMergeConflict gate bid actor b) = revalidate_merge_conflict env gate bid actor b"
| "run_operation env (BounceMergeConflict gate lane ow reason) = bounce_merge_conflict env gate lane ow reason"
| "run_operation env (StartAgentDag goal specs) = start_agent_dag env goal specs"
| "run_operation env (CancelAgentTask task) = cancel_agent_task env task"

section \<open>Persisting events\<close>

definition projection_event_cap :: nat where "projection_event_cap = 256"

text \<open>
  All events here are durable. Beyond the cap on their number the batch is refused;
  \<open>te_persist_io\<close> is every other reason for the append to fail.
\<close>

definition persist_batch :: "'ctx trust_env \<Rightarrow> 'e list \<Rightarrow> unit res" where
  "persist_batch env events = (if events = [] then Ok ()
     else guarded [ensure (length events \<le> projection_event_cap)
         (''workflow projection batch exceeds event cap: '' @ show_nat (length events) @ '' > ''
           @ show_nat projection_event_cap)]
       (case te_persist_io env of Some e \<Rightarrow> Err e | None \<Rightarrow> Ok ()))"

text \<open>\<open>remember_runtime_domain_event\<close>: also what a restart replays.\<close>

fun remember_event :: "u64 \<Rightarrow> trust_event \<Rightarrow> session \<Rightarrow> session" where
  "remember_event clock (AgentDagUpdated d) s = s\<lparr>ss_dags := upsert_by dag_id d (ss_dags s)\<rparr>"
| "remember_event clock (TaskUpdated t) s = s\<lparr>ss_tasks := upsert_agent_task clock t (ss_tasks s)\<rparr>"
| "remember_event clock (EvidenceRecorded e) s = s\<lparr>ss_evidence := upsert_runtime_evidence e (ss_evidence s)\<rparr>"
| "remember_event clock (MergeGateUpdated g) s = s\<lparr>ss_gates := upsert_by mg_gate_id g (ss_gates s)\<rparr>"
| "remember_event clock (HandoffUpdated h) s = s\<lparr>ss_handoffs := upsert_by ho_handoff_id h (ss_handoffs s)\<rparr>"
| "remember_event clock (ReviewRequestUpdated r) s = s\<lparr>ss_reviews := upsert_by rr_review_id r (ss_reviews s)\<rparr>"
| "remember_event clock (ContractUpdated c) s = s\<lparr>ss_contracts := upsert_by co_contract_id c (ss_contracts s)\<rparr>"
| "remember_event clock (DependencyUpdated d) s =
     s\<lparr>ss_dependencies := upsert_dependency d (ss_dependencies s)\<rparr>"
| "remember_event clock (MergeConflictBounced c) s = s\<lparr>ss_conflicts := upsert_conflict c (ss_conflicts s)\<rparr>"
| "remember_event clock (RevertRecorded r) s = s\<lparr>ss_reverts := upsert_by re_revert_id r (ss_reverts s)\<rparr>"
| "remember_event clock (EvidenceCanonicalized _ _ _) s = s"

definition persist_domain_events :: "'ctx trust_env \<Rightarrow> trust_event list \<Rightarrow> (unit, session) op" where
  "persist_domain_events env events = op_check (persist_batch env events)
     (\<lambda>_ s. (Ok (), fold (remember_event (te_clock env 4)) events s))"

section \<open>The transaction\<close>

text \<open>
  The snapshot holds the domain lists; permissions, transcript and audit are not restored, nor is
  anything no operation here writes.
\<close>

definition restore_domain :: "session \<Rightarrow> session \<Rightarrow> session" where
  "restore_domain before s = s\<lparr>ss_tasks := ss_tasks before, ss_dags := ss_dags before,
     ss_gates := ss_gates before, ss_evidence := ss_evidence before, ss_handoffs := ss_handoffs before,
     ss_reviews := ss_reviews before, ss_contracts := ss_contracts before,
     ss_dependencies := ss_dependencies before, ss_conflicts := ss_conflicts before,
     ss_reverts := ss_reverts before\<rparr>"

datatype command_outcome = CommandRejected string | CommandAccepted "trust_event list"

definition handle_trust_command ::
  "'ctx trust_env \<Rightarrow> trust_command \<Rightarrow> session \<Rightarrow> command_outcome \<times> session" where
  "handle_trust_command env c s = (case validate_trust_command env s c of
     Inl e \<Rightarrow> (CommandRejected e, s)
   | Inr _ \<Rightarrow> (case op_bind (run_operation env c)
         (\<lambda>events. op_bind (persist_domain_events env events) (\<lambda>_ t. (Ok events, t))) s of
       (Inl e, t) \<Rightarrow> (CommandRejected e, restore_domain s t)
     | (Inr events, t) \<Rightarrow> (CommandAccepted events, t)))"

end
