(* ===== verification/Trust_Invariants.thy ===== *)
theory Trust_Invariants
  imports Trust_Commands
begin

text \<open>
  What holds of every session the trust commands can reach: identities are unique, every fact names
  the audit record that carries it, reviewers are independent, a conflict is only revalidated by
  changed evidence, and no audit record exists without a permission that was granted. The invariant
  is a conjunction of one predicate per record, over the audit records \<open>A\<close> and the review ids \<open>R\<close> of
  the session, both of which only grow.
\<close>

section \<open>The invariant\<close>

definition audited :: "audit_record set \<Rightarrow> string \<Rightarrow> string \<Rightarrow> audit_object \<Rightarrow> bool" where
  "audited A aid action ob \<longleftrightarrow>
     (\<exists>r\<in>A. au_audit_id r = aid \<and> au_action r = action \<and> ob \<in> set (au_objects r))"

definition handoff_ok :: "audit_record set \<Rightarrow> handoff_record \<Rightarrow> bool" where
  "handoff_ok A h \<longleftrightarrow> ho_from_lane_id h \<noteq> ho_to_lane_id h
     \<and> ow_lane_id (ho_owner h) = Some (ho_to_lane_id h) \<and> ow_task_id (ho_owner h) = Some (ho_task_id h)
     \<and> audited A (ho_audit_id h) ''handoff.created'' (audit_object ''handoff'' (ho_handoff_id h))"

definition review_ok :: "audit_record set \<Rightarrow> review_request \<Rightarrow> bool" where
  "review_ok A r \<longleftrightarrow> rr_requester_lane_id r \<noteq> rr_reviewer_lane_id r \<and> rr_evidence_ids r \<noteq> []
     \<and> eb_evidence_id ` set (rr_evidence_bindings r) = set (rr_evidence_ids r)
     \<and> (audited A (rr_audit_id r) ''review.requested'' (audit_object ''review_request'' (rr_review_id r))
        \<or> audited A (rr_audit_id r) ''review.decided'' (audit_object ''review_request'' (rr_review_id r)))"

definition contract_ok :: "audit_record set \<Rightarrow> contract_record \<Rightarrow> bool" where
  "contract_ok A c \<longleftrightarrow> ow_task_id (co_owner c) = Some (co_task_id c)
     \<and> audited A (co_audit_id c) ''contract.confirmed'' (audit_object ''contract'' (co_contract_id c))"

definition dependency_ok :: "audit_record set \<Rightarrow> dependency_record \<Rightarrow> bool" where
  "dependency_ok A d \<longleftrightarrow> de_task_id d \<noteq> de_depends_on_task_id d
     \<and> audited A (de_audit_id d) ''dependency.set'' (audit_object ''dependency'' (de_dependency_id d))"

definition conflict_ok :: "audit_record set \<Rightarrow> conflict_bounce \<Rightarrow> bool" where
  "conflict_ok A c \<longleftrightarrow>
     audited A (bo_audit_id c) ''conflict.bounced'' (audit_object ''merge_gate'' (bo_gate_id c))
     \<and> ow_lane_id (bo_owner c) = Some (bo_original_lane_id c)
     \<and> (bo_status c = ConflictRevalidated \<longrightarrow> (\<exists>b. bo_revalidation_evidence c = [b]))"

definition gate_ok :: "audit_record set \<Rightarrow> string set \<Rightarrow> merge_gate \<Rightarrow> bool" where
  "gate_ok A R g \<longleftrightarrow>
     (\<forall>v. mg_validator g = Some v \<longrightarrow> gv_independent v \<and> gv_review_request_id v \<in> R)
     \<and> (\<forall>d. mg_decision g = Some d \<and> gd_outcome d = OutcomeAccepted \<longrightarrow>
          audited A (gd_audit_id d) ''gate.decided'' (audit_object ''merge_gate'' (mg_gate_id g)))
     \<and> (\<forall>c. mg_conflict g = Some c \<longrightarrow> conflict_ok A c)"

fun event_ok :: "audit_record set \<Rightarrow> string set \<Rightarrow> trust_event \<Rightarrow> bool" where
  "event_ok A R (HandoffUpdated h) = handoff_ok A h"
| "event_ok A R (ReviewRequestUpdated r) = (review_ok A r \<and> rr_review_id r \<in> R)"
| "event_ok A R (ContractUpdated c) = contract_ok A c"
| "event_ok A R (DependencyUpdated d) = dependency_ok A d"
| "event_ok A R (MergeGateUpdated g) = gate_ok A R g"
| "event_ok A R (MergeConflictBounced c) = conflict_ok A c"
| "event_ok A R _ = True"

definition review_ids :: "session \<Rightarrow> string set" where
  "review_ids s = rr_review_id ` set (ss_reviews s)"

definition lists_ok :: "audit_record set \<Rightarrow> string set \<Rightarrow> session \<Rightarrow> bool" where
  "lists_ok A R s \<longleftrightarrow> (\<forall>h\<in>set (ss_handoffs s). handoff_ok A h) \<and> (\<forall>r\<in>set (ss_reviews s). review_ok A r)
     \<and> (\<forall>c\<in>set (ss_contracts s). contract_ok A c) \<and> (\<forall>d\<in>set (ss_dependencies s). dependency_ok A d)
     \<and> (\<forall>c\<in>set (ss_conflicts s). conflict_ok A c) \<and> (\<forall>g\<in>set (ss_gates s). gate_ok A R g)"

definition ids_unique :: "session \<Rightarrow> bool" where
  "ids_unique s \<longleftrightarrow> distinct (map ho_handoff_id (ss_handoffs s)) \<and> distinct (map rr_review_id (ss_reviews s))
     \<and> distinct (map co_contract_id (ss_contracts s)) \<and> distinct (map de_dependency_id (ss_dependencies s))"

definition allowances :: "session \<Rightarrow> permission_log_entry list" where
  "allowances s = filter (\<lambda>l. pl_decision l = ''allow'') (ss_transcript s)"

definition trust_inv :: "session \<Rightarrow> bool" where
  "trust_inv s \<longleftrightarrow> lists_ok (set (ss_audit s)) (review_ids s) s \<and> ids_unique s
     \<and> length (ss_audit s) \<le> length (allowances s)"

text \<open>What an operation owes: the invariant after it, and events whose records satisfy it.\<close>

definition keeps_inv :: "(trust_event list, session) op \<Rightarrow> bool" where
  "keeps_inv m \<longleftrightarrow> (\<forall>s es t. trust_inv s \<and> m s = (Inr es, t) \<longrightarrow>
     trust_inv t \<and> (\<forall>e\<in>set es. event_ok (set (ss_audit t)) (review_ids t) e))"

section \<open>Growth\<close>

lemma audited_mono: "A \<subseteq> B \<Longrightarrow> audited A aid action ob \<Longrightarrow> audited B aid action ob"
  by (auto simp: audited_def)

lemma record_ok_mono:
  assumes "A \<subseteq> B"
  shows "handoff_ok A h \<Longrightarrow> handoff_ok B h" "review_ok A r \<Longrightarrow> review_ok B r"
    "contract_ok A c \<Longrightarrow> contract_ok B c" "dependency_ok A d \<Longrightarrow> dependency_ok B d"
    "conflict_ok A b \<Longrightarrow> conflict_ok B b" "R \<subseteq> S \<Longrightarrow> gate_ok A R g \<Longrightarrow> gate_ok B S g"
  using audited_mono [OF assms]
  by (auto simp: handoff_ok_def review_ok_def contract_ok_def dependency_ok_def conflict_ok_def gate_ok_def)

lemma lists_ok_mono: "A \<subseteq> B \<Longrightarrow> R \<subseteq> S \<Longrightarrow> lists_ok A R s \<Longrightarrow> lists_ok B S s"
  using record_ok_mono [of A B] by (auto simp: lists_ok_def)

lemma event_ok_mono: "A \<subseteq> B \<Longrightarrow> R \<subseteq> S \<Longrightarrow> event_ok A R e \<Longrightarrow> event_ok B S e"
  using record_ok_mono [of A B] by (cases e) auto

lemma gates_update: "set (ss_gates (update_gate i f s)) \<subseteq> insert (f (ss_gates s ! i)) (set (ss_gates s))"
  by (simp add: update_gate_def set_update_subset_insert)

lemma update_gate_simps [simp]:
  "ss_handoffs (update_gate i f s) = ss_handoffs s" "ss_reviews (update_gate i f s) = ss_reviews s"
  "ss_contracts (update_gate i f s) = ss_contracts s" "ss_dependencies (update_gate i f s) = ss_dependencies s"
  "ss_conflicts (update_gate i f s) = ss_conflicts s" "ss_audit (update_gate i f s) = ss_audit s"
  "ss_transcript (update_gate i f s) = ss_transcript s" "ss_tasks (update_gate i f s) = ss_tasks s"
  "ss_evidence (update_gate i f s) = ss_evidence s" "ss_dags (update_gate i f s) = ss_dags s"
  "ss_disk (update_gate i f s) = ss_disk s" "ss_bundles (update_gate i f s) = ss_bundles s"
  "ss_cwd (update_gate i f s) = ss_cwd s" "ss_permissions (update_gate i f s) = ss_permissions s"
  "ss_reverts (update_gate i f s) = ss_reverts s"
  "i < length (ss_gates s) \<Longrightarrow> ss_gates (update_gate i f s) ! i = f (ss_gates s ! i)"
  "length (ss_gates (update_gate i f s)) = length (ss_gates s)"
  by (simp_all add: update_gate_def)

text \<open>The touched task is not part of the invariant.\<close>

lemma touch_task_Inr:
  "touch_task clock i f es s = (Inr es', t) \<Longrightarrow>
   \<exists>ts. t = s\<lparr>ss_tasks := ts\<rparr> \<and> (es' = es \<or> (\<exists>k. es' = es @ [TaskUpdated k]))"
  by (auto simp: touch_task_def split: option.splits intro: exI [of _ "ss_tasks s"])

lemma lists_ok_tasks [simp]:
  "lists_ok A R (s\<lparr>ss_tasks := ts\<rparr>) = lists_ok A R s" "ids_unique (s\<lparr>ss_tasks := ts\<rparr>) = ids_unique s"
  "review_ids (s\<lparr>ss_tasks := ts\<rparr>) = review_ids s" "allowances (s\<lparr>ss_tasks := ts\<rparr>) = allowances s"
  by (simp_all add: lists_ok_def ids_unique_def review_ids_def allowances_def)

lemma trust_inv_tasks [simp]: "trust_inv (s\<lparr>ss_tasks := ts\<rparr>) = trust_inv s"
  by (simp add: trust_inv_def)

text \<open>The session an operation's effect starts from: granted and audited.\<close>

lemma inv_audited:
  assumes "trust_inv s" "pl_decision e = ''allow''"
  shows "trust_inv (s\<lparr>ss_permissions := p, ss_transcript := ss_transcript s @ [e], ss_audit := ss_audit s @ [r]\<rparr>)"
proof -
  have "lists_ok (insert r (set (ss_audit s))) (review_ids s) s"
    using assms(1) lists_ok_mono [of "set (ss_audit s)" "insert r (set (ss_audit s))" "review_ids s" "review_ids s" s]
    by (auto simp: trust_inv_def)
  then show ?thesis
    using assms by (auto simp: trust_inv_def lists_ok_def ids_unique_def allowances_def review_ids_def)
qed

lemma trust_audit_Inr:
  "trust_audit_record aid ts ow action objects args = Inr r \<Longrightarrow>
   au_audit_id r = aid \<and> au_action r = action \<and> au_objects r = objects"
  by (auto simp: trust_audit_record_def dest!: sanitized_Ok)

lemma audited_last: "au_audit_id r = aid \<Longrightarrow> au_action r = action \<Longrightarrow> ob \<in> set (au_objects r)
  \<Longrightarrow> audited (insert r A) aid action ob"
  by (auto simp: audited_def)

text \<open>
  An operation of the common shape keeps the invariant if its effect does, from a session that
  satisfies it and whose last audit record is the operation's.
\<close>

lemma keeps_inv_operation:
  assumes "\<And>s x u r es t. preflight s = Inr x \<Longrightarrow> trust_inv u \<Longrightarrow> audit_of x u = Inr r \<Longrightarrow> r \<in> set (ss_audit u)
      \<Longrightarrow> \<exists>p l a. u = s\<lparr>ss_permissions := p, ss_transcript := l, ss_audit := a\<rparr>
      \<Longrightarrow> effect x u = (Inr es, t) \<Longrightarrow>
      trust_inv t \<and> (\<forall>e\<in>set es. event_ok (set (ss_audit t)) (review_ids t) e)"
    and audit_frame: "\<And>x s a. audit_of x (s\<lparr>ss_audit := a\<rparr>) = audit_of x s"
  shows "keeps_inv (trust_operation env preflight action preview audit_of effect)"
  unfolding keeps_inv_def
proof (intro allI impI, elim conjE)
  fix s es t
  assume inv: "trust_inv s" and run: "trust_operation env preflight action preview audit_of effect s = (Inr es, t)"
  show "trust_inv t \<and> (\<forall>e\<in>set es. event_ok (set (ss_audit t)) (review_ids t) e)"
    using run
  proof (rule trust_operation_done)
    fix x p e r
    let ?u = "s\<lparr>ss_permissions := p, ss_transcript := ss_transcript s @ [e], ss_audit := ss_audit s @ [r]\<rparr>"
    assume op: "preflight s = Inr x" "pl_decision e = ''allow''"
      "audit_of x (s\<lparr>ss_permissions := p, ss_transcript := ss_transcript s @ [e]\<rparr>) = Inr r"
      "effect x ?u = (Inr es, t)"
    have "audit_of x ?u = Inr r"
      using op(3) audit_frame [where x = x and a = "ss_audit s @ [r]"
          and s = "s\<lparr>ss_permissions := p, ss_transcript := ss_transcript s @ [e]\<rparr>"]
      by simp
    then show "trust_inv t \<and> (\<forall>e\<in>set es. event_ok (set (ss_audit t)) (review_ids t) e)"
      by (rule assms(1) [OF op(1) inv_audited [OF inv op(2)] _ _ _ op(4)]) auto
  qed
qed

section \<open>Steps that keep it\<close>

lemma inv_handoff:
  "trust_inv s \<Longrightarrow> handoff_ok (set (ss_audit s)) h \<Longrightarrow> ho_handoff_id h \<notin> ho_handoff_id ` set (ss_handoffs s)
   \<Longrightarrow> trust_inv (s\<lparr>ss_handoffs := ss_handoffs s @ [h]\<rparr>)"
  by (auto simp: trust_inv_def lists_ok_def ids_unique_def allowances_def review_ids_def)

lemma inv_contract:
  "trust_inv s \<Longrightarrow> contract_ok (set (ss_audit s)) c \<Longrightarrow> co_contract_id c \<notin> co_contract_id ` set (ss_contracts s)
   \<Longrightarrow> trust_inv (s\<lparr>ss_contracts := ss_contracts s @ [c]\<rparr>)"
  by (auto simp: trust_inv_def lists_ok_def ids_unique_def allowances_def review_ids_def)

lemma inv_review:
  assumes "trust_inv s" "review_ok (set (ss_audit s)) r" "rr_review_id r \<notin> rr_review_id ` set (ss_reviews s)"
  shows "trust_inv (s\<lparr>ss_reviews := ss_reviews s @ [r]\<rparr>)"
proof -
  have "lists_ok (set (ss_audit s)) (insert (rr_review_id r) (review_ids s)) s"
    using assms(1) lists_ok_mono [of "set (ss_audit s)" "set (ss_audit s)" "review_ids s"
        "insert (rr_review_id r) (review_ids s)" s]
    by (simp add: trust_inv_def subset_insertI)
  with assms show ?thesis
    by (auto simp: trust_inv_def lists_ok_def ids_unique_def allowances_def review_ids_def)
qed

lemma map_same_key: "i < length xs \<Longrightarrow> key (xs ! i) = key x \<Longrightarrow> map key (xs[i := x]) = map key xs"
  by (metis list_update_id map_update)

lemma inv_review_update:
  assumes "trust_inv s" "review_ok (set (ss_audit s)) r" "i < length (ss_reviews s)"
    "rr_review_id (ss_reviews s ! i) = rr_review_id r"
  shows "trust_inv (s\<lparr>ss_reviews := (ss_reviews s)[i := r]\<rparr>)"
    and "review_ids (s\<lparr>ss_reviews := (ss_reviews s)[i := r]\<rparr>) = review_ids s"
proof -
  let ?t = "s\<lparr>ss_reviews := (ss_reviews s)[i := r]\<rparr>"
  have keys: "map rr_review_id (ss_reviews ?t) = map rr_review_id (ss_reviews s)"
    using assms(3,4) by (simp add: map_same_key)
  then show ids: "review_ids ?t = review_ids s"
    unfolding review_ids_def by (metis list.set_map)
  have "lists_ok (set (ss_audit s)) (review_ids s) ?t"
    using assms(1,2) set_update_subset_insert [of "ss_reviews s" i r]
    by (auto simp: trust_inv_def lists_ok_def)
  moreover have "ids_unique ?t"
    using assms(1) keys by (auto simp: trust_inv_def ids_unique_def)
  ultimately show "trust_inv ?t"
    using assms(1) ids by (simp add: trust_inv_def allowances_def)
qed

lemma inv_dependency:
  assumes "trust_inv s" "dependency_ok (set (ss_audit s)) d"
  shows "trust_inv (s\<lparr>ss_dependencies := upsert_dependency d (ss_dependencies s)\<rparr>)"
  using assms set_upsert_by [of de_dependency_id d "ss_dependencies s"]
    distinct_upsert_by [of de_dependency_id "ss_dependencies s" d]
  by (auto simp: trust_inv_def lists_ok_def ids_unique_def allowances_def review_ids_def upsert_dependency_def)

lemma inv_conflicts:
  assumes "trust_inv s" "\<forall>c\<in>set cs. conflict_ok (set (ss_audit s)) c"
  shows "trust_inv (s\<lparr>ss_conflicts := cs\<rparr>)"
  using assms by (auto simp: trust_inv_def lists_ok_def ids_unique_def allowances_def review_ids_def)

lemma inv_gates:
  assumes "trust_inv s" "\<forall>g\<in>set gs. gate_ok (set (ss_audit s)) (review_ids s) g"
  shows "trust_inv (s\<lparr>ss_gates := gs\<rparr>)"
  using assms by (auto simp: trust_inv_def lists_ok_def ids_unique_def allowances_def review_ids_def)

lemma inv_update_gate:
  assumes "trust_inv s" "gate_ok (set (ss_audit s)) (review_ids s) (f (ss_gates s ! i))"
  shows "trust_inv (update_gate i f s)"
  unfolding update_gate_def
  using assms set_update_subset_insert [of "ss_gates s" i "f (ss_gates s ! i)"]
  by (intro inv_gates) (auto simp: trust_inv_def lists_ok_def)

lemma inv_gate_at: "trust_inv s \<Longrightarrow> i < length (ss_gates s) \<Longrightarrow> gate_ok (set (ss_audit s)) (review_ids s) (ss_gates s ! i)"
  by (simp add: trust_inv_def lists_ok_def)

lemma inv_review_at: "trust_inv s \<Longrightarrow> i < length (ss_reviews s) \<Longrightarrow> review_ok (set (ss_audit s)) (ss_reviews s ! i)"
  by (simp add: trust_inv_def lists_ok_def)

lemma inv_frame:
  "trust_inv (s\<lparr>ss_evidence := es\<rparr>) = trust_inv s" "trust_inv (s\<lparr>ss_dags := ds\<rparr>) = trust_inv s"
  by (simp_all add: trust_inv_def lists_ok_def ids_unique_def allowances_def review_ids_def)

text \<open>Fields of a session the gate predicate's sets do not read.\<close>

lemma review_ids_frame [simp]:
  "review_ids (update_gate i f s) = review_ids s" "review_ids (s\<lparr>ss_handoffs := hs\<rparr>) = review_ids s"
  "review_ids (s\<lparr>ss_contracts := cs\<rparr>) = review_ids s" "review_ids (s\<lparr>ss_dependencies := ds\<rparr>) = review_ids s"
  "review_ids (s\<lparr>ss_conflicts := bs\<rparr>) = review_ids s" "review_ids (s\<lparr>ss_gates := gs\<rparr>) = review_ids s"
  "review_ids (s\<lparr>ss_evidence := es\<rparr>) = review_ids s" "review_ids (s\<lparr>ss_dags := gs'\<rparr>) = review_ids s"
  by (simp_all add: review_ids_def)

end
