(* ===== verification/Trust_Operations.thy ===== *)
theory Trust_Operations
  imports Trust_Invariants
begin

text \<open>
  Every trust operation that succeeds keeps the invariant, and the events it gives carry records
  that satisfy it: one lemma per operation, and then the command boundary as a whole.
\<close>

section \<open>Checks\<close>

lemma guarded_list: "guarded cs k = Inr y \<Longrightarrow> (\<forall>c\<in>set cs. is_ok c) \<and> k = Inr y"
  by (simp add: guarded_Inr)

lemma validate_owner_ok_owner:
  "is_ok (validate_owner ow lane task) \<Longrightarrow> ow_task_id ow = Some task \<and> (\<forall>l. lane = Some l \<longrightarrow> ow_lane_id ow = Some l)"
  by (auto simp: validate_owner_def guarded_ok)

lemma handoff_preflight_Inr:
  assumes "handoff_preflight hid task from_lane to_lane ow summary s = Inr text"
  shows "from_lane \<noteq> to_lane \<and> ow_lane_id ow = Some to_lane \<and> ow_task_id ow = Some task
    \<and> hid \<notin> ho_handoff_id ` set (ss_handoffs s)"
  using assms validate_owner_ok_owner [of ow "Some to_lane" task]
  by (auto simp: handoff_preflight_def guarded_Inr try_then_Inr ensure_unique_def)

section \<open>Handoffs, contracts, dependencies\<close>

lemma inv_move_gate_owner:
  assumes "trust_inv s" "move_gate_owner task ow aid now s = (g, t)"
  shows "trust_inv t \<and> ss_audit t = ss_audit s \<and> review_ids t = review_ids s
    \<and> (\<forall>h. g = Some h \<longrightarrow> gate_ok (set (ss_audit s)) (review_ids s) h)"
proof (cases "position (\<lambda>g. mg_task_id g = task) (ss_gates s)")
  case (Some i)
  let ?f = "\<lambda>g. g\<lparr>mg_owner := ow, mg_audit_ids := mg_audit_ids g @ [aid], mg_updated_at := Some now\<rparr>"
  have i: "i < length (ss_gates s)"
    using position_Some [OF Some] by simp
  have "gate_ok (set (ss_audit s)) (review_ids s) (?f (ss_gates s ! i))"
    using inv_gate_at [OF assms(1) i] by (simp add: gate_ok_def)
  then show ?thesis
    using assms i inv_update_gate [OF assms(1), of ?f i]
    by (auto simp: move_gate_owner_def Some Let_def)
qed (use assms in \<open>simp add: move_gate_owner_def\<close>)

lemma create_handoff_inv: "keeps_inv (create_handoff env hid task from_lane to_lane ow summary acceptance)"
  unfolding create_handoff_def Let_def
proof (rule keeps_inv_operation, goal_cases)
  case (1 s body u r es t)
  then obtain p l a where u: "u = s\<lparr>ss_permissions := p, ss_transcript := l, ss_audit := a\<rparr>"
    by blast
  define h where "h = \<lparr>ho_handoff_id = hid, ho_task_id = task, ho_from_lane_id = from_lane,
     ho_to_lane_id = to_lane, ho_owner = ow, ho_summary = body, ho_acceptance = acceptance,
     ho_audit_id = te_fresh env ''audit'' 0, ho_updated_at = te_clock env 1\<rparr>"
  have ok: "handoff_ok (set (ss_audit u)) h"
    using handoff_preflight_Inr [OF 1(1)] trust_audit_Inr [OF 1(3)] 1(4)
    by (auto simp: handoff_ok_def h_def audited_def)
  let ?u = "u\<lparr>ss_handoffs := ss_handoffs u @ [h]\<rparr>"
  have inv: "trust_inv ?u"
    using handoff_preflight_Inr [OF 1(1)] by (intro inv_handoff 1(2) ok) (simp add: u h_def)
  show ?case
  proof (cases "acceptance = HandoffAccepted")
    case True
    obtain g v where move: "move_gate_owner task ow (te_fresh env ''audit'' 0) (te_clock env 1) ?u = (g, v)"
      by (cases "move_gate_owner task ow (te_fresh env ''audit'' 0) (te_clock env 1) ?u")
    have "es = HandoffUpdated h # (case g of None \<Rightarrow> [] | Some g \<Rightarrow> [MergeGateUpdated g])" "t = v"
      using 1(6) True move by (auto simp: h_def)
    then show ?thesis
      using inv_move_gate_owner [OF inv move] ok by (auto split: option.splits)
  next
    case False
    with 1(6) inv ok show ?thesis
      by (auto simp: h_def)
  qed
qed simp

lemma confirm_contract_inv: "keeps_inv (confirm_contract env cid task ow summary decision)"
  unfolding confirm_contract_def Let_def
proof (rule keeps_inv_operation, goal_cases)
  case (1 s body u r es t)
  then obtain p l a where u: "u = s\<lparr>ss_permissions := p, ss_transcript := l, ss_audit := a\<rparr>"
    by blast
  have pre: "ow_task_id ow = Some task" "cid \<notin> co_contract_id ` set (ss_contracts s)"
    using 1(1) validate_owner_ok_owner [of ow "ow_lane_id ow" task]
    by (auto simp: contract_preflight_def guarded_Inr ensure_unique_def)
  define c where "c = \<lparr>co_contract_id = cid, co_task_id = task, co_owner = ow, co_summary = body,
     co_decision = decision, co_audit_id = te_fresh env ''audit'' 0, co_updated_at = te_clock env 1\<rparr>"
  have ok: "contract_ok (set (ss_audit u)) c"
    using pre trust_audit_Inr [OF 1(3)] 1(4) by (auto simp: contract_ok_def c_def audited_def)
  have "trust_inv (u\<lparr>ss_contracts := ss_contracts u @ [c]\<rparr>)"
    using pre by (intro inv_contract 1(2) ok) (simp add: u c_def)
  with 1(6) ok show ?case
    by (auto simp: c_def)
qed simp

lemma dependency_preflight_Inr:
  "dependency_preflight did task on ow st reason s = Inr text \<Longrightarrow>
   task \<noteq> on \<and> validate_dependency_mutation did task on st s = Inr ()"
  by (simp add: dependency_preflight_def guarded_Inr is_ok_iff)
    (simp add: validate_dependency_mutation_def Let_def guarded_Inr)

lemma set_dependency_inv: "keeps_inv (set_dependency env did task on ow st reason)"
  unfolding set_dependency_def Let_def
proof (rule keeps_inv_operation, goal_cases)
  case (1 s body u r es t)
  define d where "d = \<lparr>de_dependency_id = did, de_task_id = task, de_depends_on_task_id = on,
     de_owner = ow, de_state = st, de_reason = body, de_audit_id = te_fresh env ''audit'' 0,
     de_updated_at = te_clock env 1\<rparr>"
  let ?u = "u\<lparr>ss_dependencies := upsert_dependency d (ss_dependencies u)\<rparr>"
  have ok: "dependency_ok (set (ss_audit u)) d"
    using dependency_preflight_Inr [OF 1(1)] trust_audit_Inr [OF 1(3)] 1(4)
    by (auto simp: dependency_ok_def d_def audited_def)
  have inv: "trust_inv ?u"
    by (rule inv_dependency [OF 1(2) ok])
  obtain ts where "t = ?u\<lparr>ss_tasks := ts\<rparr>" "es = [DependencyUpdated d] \<or> (\<exists>k. es = [DependencyUpdated d] @ [TaskUpdated k])"
    using touch_task_Inr [OF 1(6)] unfolding d_def by blast
  with inv ok show ?case
    by auto
qed simp

section \<open>Reviews\<close>

lemma bindings_ids:
  assumes "validated_bindings env s g ids = Inr bs"
  shows "eb_evidence_id ` set bs = set ids"
proof -
  have id_of: "bind_evidence g f es i = Inr b \<Longrightarrow> eb_evidence_id b = i" for f es i b
    by (auto simp: bind_evidence_Ok)
  show ?thesis
    using validated_bindings_Ok [OF assms] id_of by (auto simp: image_iff) (metis+)
qed

lemma review_preflight_Inr:
  assumes "review_preflight env rid gate requester reviewer ow ids s = Inr (i, bs)"
  shows "requester \<noteq> reviewer \<and> rid \<notin> rr_review_id ` set (ss_reviews s) \<and> ids \<noteq> []
    \<and> i < length (ss_gates s) \<and> mg_gate_id (ss_gates s ! i) = gate \<and> mg_owner (ss_gates s ! i) = ow
    \<and> validated_bindings env s (ss_gates s ! i) ids = Inr bs"
  using assms require_gate_Ok [of s gate i]
  by (auto simp: review_preflight_def guarded_Inr try_then_Inr ensure_unique_def validate_review_requester_def
      guarded_ok)

lemma request_review_inv: "keeps_inv (request_review env rid gate requester reviewer ow ids)"
  unfolding request_review_def Let_def
proof (rule keeps_inv_operation, goal_cases)
  case (1 s x u r es t)
  then obtain p l a where u: "u = s\<lparr>ss_permissions := p, ss_transcript := l, ss_audit := a\<rparr>"
    by blast
  obtain i bs where x: "x = (i, bs)" by (cases x)
  note pre = review_preflight_Inr [OF 1(1) [unfolded x]]
  define rev where "rev = \<lparr>rr_review_id = rid, rr_gate_id = gate,
     rr_task_id = mg_task_id (ss_gates u ! i), rr_requester_lane_id = requester,
     rr_reviewer_lane_id = reviewer, rr_owner = ow, rr_evidence_ids = ids, rr_evidence_bindings = bs,
     rr_status = ReviewPending, rr_feedback = None, rr_audit_id = te_fresh env ''audit'' 0,
     rr_updated_at = te_clock env 1\<rparr>"
  define f :: "merge_gate \<Rightarrow> merge_gate" where "f = (\<lambda>g. g\<lparr>
     mg_validator := Some \<lparr>gv_owner = reviewer_owner_from_requester ow reviewer,
       gv_review_request_id = rid, gv_independent = True, gv_validated_at = None\<rparr>,
     mg_policy := (mg_policy g)\<lparr>gp_requires_independent_validator := True\<rparr>,
     mg_status := GateCollectingEvidence,
     mg_decision := Some (decided_now (te_clock env 2) OutcomeAwaitingEvidence
       ''independent_review_required'' (mg_owner g) (mg_evidence_ids g) (te_fresh env ''audit'' 1)),
     mg_audit_ids := mg_audit_ids g @ [te_fresh env ''audit'' 0],
     mg_updated_at := Some (te_clock env 1)\<rparr>)"
  let ?u = "u\<lparr>ss_reviews := ss_reviews u @ [rev]\<rparr>"
  have t: "t = update_gate i f ?u" "es = [ReviewRequestUpdated rev, MergeGateUpdated (ss_gates t ! i)]"
    using 1(6) unfolding x rev_def f_def by auto
  have i: "i < length (ss_gates ?u)"
    using pre by (simp add: u)
  have ok: "review_ok (set (ss_audit u)) rev"
    using pre bindings_ids [of env s "ss_gates s ! i" ids bs] 1(4) trust_audit_Inr [OF 1(3) [unfolded x, simplified]]
    by (auto simp: review_ok_def rev_def audited_def)
  have inv: "trust_inv ?u"
    using pre by (intro inv_review 1(2) ok) (simp add: u rev_def)
  have "gate_ok (set (ss_audit u)) (review_ids ?u) (f (ss_gates ?u ! i))"
    using inv_gate_at [OF inv i] by (auto simp: gate_ok_def f_def decided_now_def review_ids_def rev_def)
  then show ?case
    using inv_update_gate [OF inv, of f i] i ok by (auto simp: t review_ids_def rev_def)
qed auto

lemma decide_review_preflight_Inr:
  assumes "decide_review_preflight env rid feedback actor s = Inr i"
  shows "i < length (ss_reviews s) \<and> rr_review_id (ss_reviews s ! i) = rid
    \<and> rr_status (ss_reviews s ! i) = ReviewPending
    \<and> is_ok (validate_review_decider (ss_reviews s ! i) actor)
    \<and> (\<exists>gi. require_gate s (rr_gate_id (ss_reviews s ! i)) = Inr gi
        \<and> validated_bindings env s (ss_gates s ! gi) (rr_evidence_ids (ss_reviews s ! i))
            = Inr (rr_evidence_bindings (ss_reviews s ! i)))"
proof -
  obtain k where k: "position (\<lambda>r. rr_review_id r = rid) (ss_reviews s) = Some k"
    using assms by (auto simp: decide_review_preflight_def guarded_Inr try_then_Inr ok_or_Inr)
  have "i = k"
    using assms k
    by (auto simp: decide_review_preflight_def guarded_Inr try_then_Inr ok_or_Inr Let_def split: option.splits)
  with assms k position_Some [OF k] show ?thesis
    by (auto simp: decide_review_preflight_def guarded_Inr try_then_Inr ok_or_Inr Let_def)
qed

lemma decide_review_inv: "keeps_inv (decide_review env rid verdict feedback actor)"
  unfolding decide_review_def Let_def
proof (rule keeps_inv_operation, goal_cases)
  case (1 s x u r es t)
  then obtain p l a where u: "u = s\<lparr>ss_permissions := p, ss_transcript := l, ss_audit := a\<rparr>"
    by blast
  obtain i fb where x: "x = (i, fb)" by (cases x)
  have "decide_review_preflight env rid feedback actor s = Inr i"
    using 1(1) unfolding x by (auto simp: try_then_Inr split: option.splits)
  note pre = decide_review_preflight_Inr [OF this]
  have i: "i < length (ss_reviews u)" and rid: "rr_review_id (ss_reviews u ! i) = rid"
    using pre by (simp_all add: u)
  obtain gi where gi: "require_gate u (rr_gate_id (ss_reviews u ! i)) = Inr gi"
    using 1(6) unfolding x by (auto simp: op_check_Inr)
  let ?rev = "decided_review env verdict fb (ss_reviews u ! i)" and ?f = "reviewed_gate env rid verdict"
  let ?u = "u\<lparr>ss_reviews := (ss_reviews u)[i := ?rev]\<rparr>"
  have t: "t = update_gate gi ?f ?u" "es = [ReviewRequestUpdated ?rev, MergeGateUpdated (ss_gates t ! gi)]"
    using 1(6) gi unfolding x by (auto simp: op_check_Inr)
  have gates: "gi < length (ss_gates ?u)"
    using require_gate_Ok [OF gi] by simp
  have ok: "review_ok (set (ss_audit u)) ?rev"
    using inv_review_at [OF 1(2) i] 1(3,4) rid unfolding x
    by (auto simp: review_ok_def decided_review_def audited_def try_then_Inr dest!: trust_audit_Inr)
  have inv: "trust_inv ?u" and ids: "review_ids ?u = review_ids u"
    using inv_review_update [OF 1(2) ok i] by (simp_all add: decided_review_def)
  have "gate_ok (set (ss_audit u)) (review_ids ?u) (?f (ss_gates ?u ! gi))"
    using inv_gate_at [OF inv gates] by (auto simp: gate_ok_def reviewed_gate_def split: option.splits)
  moreover have "rr_review_id ?rev \<in> review_ids u"
    using i by (force simp: review_ids_def decided_review_def)
  ultimately show ?case
    using inv_update_gate [OF inv, of ?f gi] gates ok ids by (auto simp: t)
qed (auto simp: require_gate_def)

section \<open>Conflicts\<close>

text \<open>A bounce is recorded after its permission, under the same checks again.\<close>

lemma inv_asked:
  assumes "trust_inv s" "require_trust_permission env action preview None s = (Inr u, t)"
  shows "trust_inv t \<and> length (ss_audit t) < length (allowances t)"
    and "\<exists>p l. t = s\<lparr>ss_permissions := p, ss_transcript := l\<rparr>"
  using require_permission_Inr [OF assms(2)] assms(1)
  by (auto simp: trust_inv_def lists_ok_def ids_unique_def allowances_def review_ids_def)

lemma inv_append_audit:
  assumes "trust_inv s" "length (ss_audit s) < length (allowances s)"
  shows "trust_inv (s\<lparr>ss_audit := ss_audit s @ [r]\<rparr>)"
proof -
  have "lists_ok (insert r (set (ss_audit s))) (review_ids s) s"
    using assms(1) lists_ok_mono [of "set (ss_audit s)" "insert r (set (ss_audit s))" "review_ids s" "review_ids s" s]
    by (auto simp: trust_inv_def)
  with assms show ?thesis
    by (simp add: trust_inv_def lists_ok_def ids_unique_def allowances_def review_ids_def)
qed

lemma append_trust_audit_Inr:
  "append_trust_audit env x s = (Inr u, t) \<Longrightarrow>
   \<exists>r. x = Inr r \<and> record_bounds r \<and> t = s\<lparr>ss_audit := ss_audit s @ [r]\<rparr>"
  by (auto simp: append_trust_audit_def op_check_Inr append_audit_iff)

lemma record_bounce_Inr:
  assumes "record_conflict_bounce env i lane ow reason content s = (Inr es, t)"
  obtains baseline r c where "validate_conflict_bounce env i lane ow s = Inr baseline"
    "c = new_bounce env (ss_gates s ! i) lane ow reason content baseline" "bounce_audit c = Inr r"
    "touch_task (te_clock env 3) (bo_task_id c) (bounced_task c)
       [MergeConflictBounced c, MergeGateUpdated (ss_gates (update_gate i (bounced_gate env c)
          (s\<lparr>ss_audit := ss_audit s @ [r], ss_conflicts := ss_conflicts s @ [c]\<rparr>)) ! i)]
       (update_gate i (bounced_gate env c)
          (s\<lparr>ss_audit := ss_audit s @ [r], ss_conflicts := ss_conflicts s @ [c]\<rparr>)) = (Inr es, t)"
proof -
  obtain baseline z u where base: "validate_conflict_bounce env i lane ow s = Inr baseline"
    and u: "append_trust_audit env (bounce_audit (new_bounce env (ss_gates s ! i) lane ow reason content baseline)) s
      = (Inr z, u)"
    and rest: "touch_task (te_clock env 3) (bo_task_id (new_bounce env (ss_gates s ! i) lane ow reason content baseline))
       (bounced_task (new_bounce env (ss_gates s ! i) lane ow reason content baseline))
       [MergeConflictBounced (new_bounce env (ss_gates s ! i) lane ow reason content baseline),
        MergeGateUpdated (ss_gates (update_gate i (bounced_gate env (new_bounce env (ss_gates s ! i) lane ow reason content baseline))
          (u\<lparr>ss_conflicts := ss_conflicts u @ [new_bounce env (ss_gates s ! i) lane ow reason content baseline]\<rparr>)) ! i)]
       (update_gate i (bounced_gate env (new_bounce env (ss_gates s ! i) lane ow reason content baseline))
          (u\<lparr>ss_conflicts := ss_conflicts u @ [new_bounce env (ss_gates s ! i) lane ow reason content baseline]\<rparr>)) = (Inr es, t)"
    using assms unfolding record_conflict_bounce_def Let_def op_check_Inr op_bind_Inr by blast
  obtain r where "bounce_audit (new_bounce env (ss_gates s ! i) lane ow reason content baseline) = Inr r"
      "u = s\<lparr>ss_audit := ss_audit s @ [r]\<rparr>"
    using append_trust_audit_Inr [OF u] by blast
  with base rest show ?thesis
    by (intro that [of baseline "new_bounce env (ss_gates s ! i) lane ow reason content baseline" r]) simp_all
qed

text \<open>What a finished touch adds to the events and the session.\<close>

lemma touched:
  assumes "touch_task clock k f es s = (Inr es', t)" "trust_inv s" "\<forall>e\<in>set es. event_ok (set (ss_audit s)) (review_ids s) e"
  shows "trust_inv t \<and> (\<forall>e\<in>set es'. event_ok (set (ss_audit t)) (review_ids t) e)"
  using touch_task_Inr [OF assms(1)] assms(2,3) by auto

lemma record_bounce_inv:
  assumes "trust_inv s" "length (ss_audit s) < length (allowances s)" "i < length (ss_gates s)"
    "record_conflict_bounce env i lane ow reason content s = (Inr es, t)"
  shows "trust_inv t \<and> (\<forall>e\<in>set es. event_ok (set (ss_audit t)) (review_ids t) e)"
  using assms(4)
proof (rule record_bounce_Inr)
  fix baseline r c
  assume base: "validate_conflict_bounce env i lane ow s = Inr baseline"
    and c: "c = new_bounce env (ss_gates s ! i) lane ow reason content baseline" and r: "bounce_audit c = Inr r"
  let ?u = "s\<lparr>ss_audit := ss_audit s @ [r]\<rparr>"
  let ?v = "?u\<lparr>ss_conflicts := ss_conflicts ?u @ [c]\<rparr>"
  let ?f = "bounced_gate env c"
  assume run: "touch_task (te_clock env 3) (bo_task_id c) (bounced_task c)
       [MergeConflictBounced c, MergeGateUpdated (ss_gates (update_gate i ?f
          (s\<lparr>ss_audit := ss_audit s @ [r], ss_conflicts := ss_conflicts s @ [c]\<rparr>)) ! i)]
       (update_gate i ?f (s\<lparr>ss_audit := ss_audit s @ [r], ss_conflicts := ss_conflicts s @ [c]\<rparr>)) = (Inr es, t)"
  have ok: "conflict_ok (set (ss_audit ?u)) c"
    using base trust_audit_Inr [OF r [unfolded bounce_audit_def]]
    by (auto simp: conflict_ok_def audited_def c new_bounce_def validate_conflict_bounce_def Let_def guarded_Inr)
  have inv: "trust_inv ?v"
    using inv_append_audit [OF assms(1,2), of r] ok
    by (intro inv_conflicts) (auto simp: trust_inv_def lists_ok_def)
  have gate: "gate_ok (set (ss_audit ?v)) (review_ids ?v) (?f (ss_gates ?v ! i))"
    using inv_gate_at [OF inv, of i] assms(3) ok by (auto simp: gate_ok_def bounced_gate_def decided_now_def)
  show ?thesis
    by (rule touched [OF run]) (use inv_update_gate [where s = ?v and f = ?f and i = i, OF inv gate] gate ok assms(3) in auto)
qed

lemma bounce_preflight_Inr:
  "bounce_preflight env gate lane ow reason s = Inr (i, msg) \<Longrightarrow> i < length (ss_gates s)"
  using require_gate_Ok [of s gate i] by (auto simp: bounce_preflight_def guarded_Inr try_then_Inr)

lemma bounce_merge_conflict_inv: "keeps_inv (bounce_merge_conflict env gate lane ow reason)"
  unfolding keeps_inv_def
proof (intro allI impI, elim conjE)
  fix s es t
  assume inv: "trust_inv s" and run: "bounce_merge_conflict env gate lane ow reason s = (Inr es, t)"
  then obtain x where x: "bounce_preflight env gate lane ow reason s = Inr x"
    unfolding bounce_merge_conflict_def op_check_Inr by blast
  obtain i msg where im: "x = (i, msg)" by (cases x)
  then obtain u where u: "require_trust_permission env ''bounce_merge_conflict''
        (''gate='' @ gate @ '' origin='' @ lane) None s = (Inr (), u)"
      and rest: "record_conflict_bounce env i lane ow msg None u = (Inr es, t)"
    using run x unfolding bounce_merge_conflict_def op_check_Inr by (auto simp: op_bind_Inr)
  have "i < length (ss_gates u)"
    using bounce_preflight_Inr x im inv_asked(2) [OF inv u] by auto
  then show "trust_inv t \<and> (\<forall>e\<in>set es. event_ok (set (ss_audit t)) (review_ids t) e)"
    using inv_asked(1) [OF inv u] by (intro record_bounce_inv [OF _ _ _ rest]) simp_all
qed

lemma revalidation_Inr:
  assumes "validate_conflict_revalidation env gate bid actor b s = Inr (i, k)"
  shows "i < length (ss_gates s) \<and> mg_gate_id (ss_gates s ! i) = gate
    \<and> k < length (ss_conflicts s) \<and> bo_bounce_id (ss_conflicts s ! k) = bid
    \<and> (\<exists>c. mg_conflict (ss_gates s ! i) = Some c \<and> bo_bounce_id c = bid \<and> bo_status c = ConflictPending
        \<and> actor = bo_owner c \<and> ow_lane_id actor = Some (bo_original_lane_id c)
        \<and> (\<forall>x\<in>set (bo_baseline_evidence c). eb_source_hash x \<noteq> eb_source_hash b)
        \<and> validated_bindings env s (ss_gates s ! i) [eb_evidence_id b] = Inr [b])"
proof -
  obtain j where j: "require_gate s gate = Inr j"
    using assms by (auto simp: validate_conflict_revalidation_def guarded_Inr try_then_Inr)
  have "\<exists>c. mg_conflict (ss_gates s ! j) = Some c \<and> bo_bounce_id c = bid \<and> bo_status c = ConflictPending
      \<and> actor = bo_owner c \<and> ow_lane_id actor = Some (bo_original_lane_id c)
      \<and> (\<forall>x\<in>set (bo_baseline_evidence c). eb_source_hash x \<noteq> eb_source_hash b)
      \<and> validated_bindings env s (ss_gates s ! j) [eb_evidence_id b] = Inr [b]
      \<and> i = j \<and> position (\<lambda>x. bo_bounce_id x = bid) (ss_conflicts s) = Some k"
    using assms unfolding validate_conflict_revalidation_def Let_def
    by (simp add: guarded_Inr try_then_Inr ok_or_Inr j) auto
  then show ?thesis
    using require_gate_Ok [OF j] by (auto dest: position_Some)
qed

lemma revalidate_merge_conflict_inv: "keeps_inv (revalidate_merge_conflict env gate bid actor b)"
  unfolding revalidate_merge_conflict_def
proof (rule keeps_inv_operation, goal_cases)
  case (1 s x u r es t)
  then obtain p l a where u: "u = s\<lparr>ss_permissions := p, ss_transcript := l, ss_audit := a\<rparr>"
    by blast
  obtain i k where x: "x = (i, k)" by (cases x)
  note pre = revalidation_Inr [OF 1(1) [unfolded x]]
  let ?c = "revalidated (te_clock env 1) b (ss_conflicts u ! k)"
  let ?u = "u\<lparr>ss_conflicts := (ss_conflicts u)[k := ?c]\<rparr>" and ?f = "revalidated_gate env actor ?c"
  have t: "t = update_gate i ?f ?u" "es = [MergeConflictBounced ?c, MergeGateUpdated (ss_gates t ! i)]"
    using 1(6) unfolding x by (auto simp: Let_def)
  have k: "k < length (ss_conflicts u)" and i: "i < length (ss_gates ?u)"
    using pre by (simp_all add: u)
  have ok: "conflict_ok (set (ss_audit u)) ?c"
    using 1(2) k by (auto simp: trust_inv_def lists_ok_def conflict_ok_def revalidated_def)
  have inv: "trust_inv ?u"
    using 1(2) ok set_update_subset_insert [of "ss_conflicts u" k ?c]
    by (intro inv_conflicts) (auto simp: trust_inv_def lists_ok_def)
  have gate: "gate_ok (set (ss_audit ?u)) (review_ids ?u) (?f (ss_gates ?u ! i))"
    using inv_gate_at [OF inv i] ok by (auto simp: gate_ok_def revalidated_gate_def decided_now_def)
  show ?case
    using inv_update_gate [where s = ?u and f = ?f and i = i, OF inv gate] gate ok i by (auto simp: t)
qed auto

section \<open>Gates\<close>

lemma decision_preflight_Inr:
  assumes "decision_preflight env gate accept actor reviewed reason s = Inr (i, bs, review)"
  shows "require_gate s gate = Inr i \<and> str_trim reason \<noteq> []
    \<and> is_ok (dag_id_for_task s (mg_task_id (ss_gates s ! i)))
    \<and> (accept \<longrightarrow> check_acceptance env gate actor reviewed (ss_gates s ! i) s = Inr (bs, review))
    \<and> (\<not> accept \<longrightarrow> bs = reviewed \<and> review = None
        \<and> (\<exists>a. actor = Some a \<and> is_ok (validate_reject_actor (ss_gates s ! i) a ''merge gate rejection'')))"
  using assms
  by (auto simp: decision_preflight_def Let_def guarded_Inr try_then_Inr ok_or_Inr is_ok_iff
      ensure_Inr split: if_splits)

lemma settle_review_inv:
  assumes "trust_inv s" "\<forall>e\<in>set es. event_ok (set (ss_audit s)) (review_ids s) e"
    "settle_review rid accept now es s = (es', t)"
  shows "trust_inv t \<and> (\<forall>e\<in>set es'. event_ok (set (ss_audit t)) (review_ids t) e)"
proof (cases "\<exists>i k. rid = Some i \<and> position (\<lambda>r. rr_review_id r = i) (ss_reviews s) = Some k
    \<and> rr_status (ss_reviews s ! k) = ReviewPending")
  case True
  then obtain i k where at: "rid = Some i" "position (\<lambda>r. rr_review_id r = i) (ss_reviews s) = Some k"
      "rr_status (ss_reviews s ! k) = ReviewPending"
    by blast
  let ?r = "settled_review accept now (ss_reviews s ! k)"
  have k: "k < length (ss_reviews s)"
    using position_Some [OF at(2)] by simp
  have ok: "review_ok (set (ss_audit s)) ?r"
    using inv_review_at [OF assms(1) k] by (simp add: review_ok_def settled_review_def)
  have "rr_review_id (ss_reviews s ! k) \<in> review_ids s"
    using k by (simp add: review_ids_def)
  moreover have "t = s\<lparr>ss_reviews := (ss_reviews s)[k := ?r]\<rparr>" "es' = es @ [ReviewRequestUpdated ?r]"
    using assms(3) at by (simp_all add: settle_review_def Let_def)
  ultimately show ?thesis
    using inv_review_update [OF assms(1) ok k] ok assms(2) by (auto simp: settled_review_def)
next
  case False
  then have "es' = es \<and> t = s"
    using assms(3) by (auto simp: settle_review_def Let_def split: option.splits if_splits)
  with assms(1,2) show ?thesis by simp
qed

lemma decide_merge_gate_inv: "keeps_inv (decide_merge_gate env gate accept actor reviewed decision)"
  unfolding decide_merge_gate_def Let_def
proof (rule keeps_inv_operation, goal_cases)
  case (1 s x u r es t)
  then obtain p l a where u: "u = s\<lparr>ss_permissions := p, ss_transcript := l, ss_audit := a\<rparr>"
    by blast
  obtain i bs review where x: "x = (i, bs, review)" by (cases x)
  note pre = decision_preflight_Inr [OF 1(1) [unfolded x]]
  let ?f = "decided_gate env accept actor (sanitize_runtime_domain_text decision 240) bs review"
  let ?v = "update_gate i ?f u"
  have i: "i < length (ss_gates u)" and gid: "mg_gate_id (ss_gates u ! i) = gate"
    using pre require_gate_Ok [of s gate i] by (auto simp: u)
  have aud: "audited (set (ss_audit u)) (te_fresh env ''audit'' 0) ''gate.decided'' (audit_object ''merge_gate'' gate)"
    using 1(3,4) unfolding x decision_audit_def by (auto simp: audited_def dest!: trust_audit_Inr)
  have gate: "gate_ok (set (ss_audit u)) (review_ids u) (?f (ss_gates u ! i))"
    using inv_gate_at [OF 1(2) i] aud gid
    by (auto simp: gate_ok_def decided_gate_def Let_def decided_now_def)
  have inv: "trust_inv ?v"
    by (rule inv_update_gate [where f = ?f and i = i and s = u, OF 1(2) gate])
  obtain es1 w where settle: "settle_review (gate_review_id review (ss_gates ?v ! i)) accept (te_clock env 1)
      [MergeGateUpdated (ss_gates ?v ! i)] ?v = (es1, w)"
    by fastforce
  have "trust_inv w \<and> (\<forall>e\<in>set es1. event_ok (set (ss_audit w)) (review_ids w) e)"
    by (rule settle_review_inv [OF inv _ settle]) (use gate i in auto)
  moreover have "touch_task (te_clock env 3) (mg_task_id (ss_gates ?v ! i))
      (decided_task env accept (sanitize_runtime_domain_text decision 240)) es1 w = (Inr es, t)"
    using 1(6) settle unfolding x by simp
  ultimately show ?case
    using touched by blast
qed auto

lemma op_check_keeps: "(\<And>x. keeps_inv (k x)) \<Longrightarrow> keeps_inv (\<lambda>s. op_check (r s) k s)"
  unfolding keeps_inv_def op_check_Inr by blast

lemma accept_agent_artifact_inv: "keeps_inv (accept_agent_artifact env gate evidence actor hash decision)"
  unfolding accept_agent_artifact_def Let_def by (intro op_check_keeps decide_merge_gate_inv)

lemma rejection_preflight_Inr:
  "rejection_preflight gate evidence actor reason s = Inr i \<Longrightarrow> require_gate s gate = Inr i"
  by (auto simp: rejection_preflight_def guarded_Inr try_then_Inr)

lemma reject_agent_artifact_inv: "keeps_inv (reject_agent_artifact env gate evidence actor decision)"
  unfolding reject_agent_artifact_def Let_def
proof (rule keeps_inv_operation, goal_cases)
  case (1 s i u r es t)
  then obtain p l a where u: "u = s\<lparr>ss_permissions := p, ss_transcript := l, ss_audit := a\<rparr>"
    by blast
  let ?f = "rejected_gate env evidence actor (sanitize_runtime_domain_text decision 240)"
  have i: "i < length (ss_gates u)"
    using rejection_preflight_Inr [OF 1(1)] require_gate_Ok [of s gate i] by (simp add: u)
  have gate: "gate_ok (set (ss_audit u)) (review_ids u) (?f (ss_gates u ! i))"
    using inv_gate_at [OF 1(2) i] by (auto simp: gate_ok_def rejected_gate_def Let_def decided_now_def)
  show ?case
    by (rule touched [OF 1(6)]) (use inv_update_gate [where f = ?f and i = i and s = u, OF 1(2) gate] gate i in auto)
qed auto

section \<open>Evidence, DAGs and tasks\<close>

lemma settle_gate_ok:
  assumes "gate_ok A R g"
  shows "gate_ok A R (settle_gate_after_record report now at aid (add_evidence_id i g))"
  using assms
  by (auto simp: gate_ok_def settle_gate_after_record_def add_evidence_id_def Let_def decided_now_def split: if_splits)

lemma record_effect_inv:
  assumes "trust_inv s" "i < length (ss_gates s)" "record_effect env i c s = (Inr es, t)"
  shows "trust_inv t \<and> (\<forall>e\<in>set es. event_ok (set (ss_audit t)) (review_ids t) e)"
proof -
  let ?e = "recorded_evidence env (ss_gates s ! i) c"
  let ?u = "s\<lparr>ss_evidence := upsert_runtime_evidence ?e (ss_evidence s)\<rparr>"
  let ?g = "add_evidence_id (ev_id ?e) (ss_gates s ! i)"
  let ?f = "\<lambda>_. settle_gate_after_record (reduce_gate_status ?g (ss_evidence ?u) (session_gate_facts env ?u))
      (te_clock env 1) (te_clock env 2) (te_fresh env ''audit'' 0) ?g"
  have inv: "trust_inv ?u"
    using assms(1) by (simp add: inv_frame)
  have gate: "gate_ok (set (ss_audit ?u)) (review_ids ?u) (?f (ss_gates ?u ! i))"
    using inv_gate_at [OF assms(1,2)] by (simp add: settle_gate_ok)
  show ?thesis
    by (rule touched [OF assms(3) [unfolded record_effect_def Let_def]])
      (use inv_update_gate [where s = ?u and f = ?f and i = i, OF inv gate] gate assms(2) in
        \<open>auto split: option.splits\<close>)
qed

lemma record_agent_evidence_inv: "keeps_inv (record_agent_evidence env q)"
  unfolding keeps_inv_def
proof (intro allI impI, elim conjE)
  fix s es t
  assume inv: "trust_inv s" and run: "record_agent_evidence env q s = (Inr es, t)"
  then obtain x where x: "record_preflight env q s = Inr x"
    unfolding record_agent_evidence_def op_check_Inr by blast
  obtain i c where ic: "x = (i, c)" by (cases x)
  then obtain u where u: "require_trust_permission env ''record_agent_evidence''
        (''gate='' @ eq_gate_id q @ '' kind='' @ eq_kind c) None s = (Inr (), u)"
      and rest: "record_effect env i c u = (Inr es, t)"
    using run x unfolding record_agent_evidence_def op_check_Inr by (auto simp: op_bind_Inr)
  have "i < length (ss_gates s)"
    using x require_gate_Ok [of s "eq_gate_id q" i] unfolding ic
    by (auto simp: record_preflight_def try_then_Inr guarded_Inr)
  then show "trust_inv t \<and> (\<forall>e\<in>set es. event_ok (set (ss_audit t)) (review_ids t) e)"
    using inv_asked [OF inv u] by (intro record_effect_inv [OF _ _ rest]) auto
qed

lemma gate_from_spec_ok: "gate_ok A R (gate_from_spec spec now)"
  by (simp add: gate_ok_def gate_from_spec_def)

lemma dag_fold_inv:
  "trust_inv s \<Longrightarrow> \<forall>e\<in>set es. event_ok (set (ss_audit s)) (review_ids s) e \<Longrightarrow>
   fold (dag_step env) specs (es, s) = (es', t) \<Longrightarrow>
   trust_inv t \<and> (\<forall>e\<in>set es'. event_ok (set (ss_audit t)) (review_ids t) e)"
proof (induction specs arbitrary: es s)
  case (Cons spec specs)
  let ?t = "s\<lparr>ss_gates := ss_gates s @ [gate_from_spec spec (te_clock env 1)]\<rparr>"
  have "trust_inv ?t"
    using Cons.prems(1) by (intro inv_gates) (auto simp: trust_inv_def lists_ok_def gate_from_spec_ok)
  moreover have "review_ids ?t = review_ids s" "ss_audit ?t = ss_audit s"
    by simp_all
  ultimately show ?case
    using Cons.prems(2,3) Cons.IH [of "snd (dag_step env spec (es, s))" "fst (dag_step env spec (es, s))"]
    by (simp add: dag_step_def gate_from_spec_ok ball_Un trust_inv_def lists_ok_def ids_unique_def
        allowances_def review_ids_def Let_def)
qed simp

lemma start_agent_dag_inv: "keeps_inv (start_agent_dag env goal specs)"
  unfolding keeps_inv_def
proof (intro allI impI, elim conjE)
  fix s es t
  assume inv: "trust_inv s" and run: "start_agent_dag env goal specs s = (Inr es, t)"
  then obtain tasks where body: "(let (es', u) = fold (dag_step env) tasks ([AgentDagUpdated (new_dag env goal tasks)], s)
      in (Ok es', u\<lparr>ss_dags := ss_dags u @ [new_dag env goal tasks]\<rparr>)) = (Ok es, t)"
    unfolding start_agent_dag_def op_check_Inr by (auto simp: Let_def)
  obtain es' u where step: "fold (dag_step env) tasks ([AgentDagUpdated (new_dag env goal tasks)], s) = (es', u)"
    by (rule prod.exhaust)
  with body have "fold (dag_step env) tasks ([AgentDagUpdated (new_dag env goal tasks)], s) = (es, u)"
      "t = u\<lparr>ss_dags := ss_dags u @ [new_dag env goal tasks]\<rparr>"
    by simp_all
  then show "trust_inv t \<and> (\<forall>e\<in>set es. event_ok (set (ss_audit t)) (review_ids t) e)"
    using dag_fold_inv [OF inv, of "[AgentDagUpdated (new_dag env goal tasks)]" env tasks es u] inv_frame
    by simp
qed

lemma cancel_agent_task_inv: "keeps_inv (cancel_agent_task env task)"
  unfolding keeps_inv_def cancel_agent_task_def op_check_Inr update_agent_task_status_def
  by (auto simp: Let_def split: option.splits)

section \<open>The command boundary\<close>

lemmas operations_inv = create_handoff_inv request_review_inv decide_review_inv confirm_contract_inv
  set_dependency_inv decide_merge_gate_inv record_agent_evidence_inv accept_agent_artifact_inv
  reject_agent_artifact_inv revalidate_merge_conflict_inv bounce_merge_conflict_inv
  start_agent_dag_inv cancel_agent_task_inv

lemma run_operation_inv: "keeps_inv (run_operation env c)"
  by (cases c) (simp_all add: operations_inv)

text \<open>Remembering an event whose record is fine puts a fine record in the place of another.\<close>

lemma keys_upsert: "key ` set (upsert_by key v rs) = insert (key v) (key ` set rs)"
  by (rule keys_upsert_by)

lemma remember_event_inv:
  assumes "trust_inv s" "event_ok (set (ss_audit s)) (review_ids s) e"
  shows "trust_inv (remember_event clock e s) \<and> ss_audit (remember_event clock e s) = ss_audit s
    \<and> review_ids (remember_event clock e s) = review_ids s"
proof (cases e)
  case (HandoffUpdated h)
  with assms show ?thesis
    using set_upsert_by [of ho_handoff_id h "ss_handoffs s"] distinct_upsert_by [of ho_handoff_id "ss_handoffs s" h]
    by (auto simp: trust_inv_def lists_ok_def ids_unique_def allowances_def review_ids_def)
next
  case (ReviewRequestUpdated r)
  have "review_ids (remember_event clock e s) = review_ids s"
    using assms(2) ReviewRequestUpdated by (auto simp: review_ids_def keys_upsert)
  with assms show ?thesis
    using ReviewRequestUpdated set_upsert_by [of rr_review_id r "ss_reviews s"]
      distinct_upsert_by [of rr_review_id "ss_reviews s" r]
    by (auto simp: trust_inv_def lists_ok_def ids_unique_def allowances_def)
next
  case (ContractUpdated c)
  with assms show ?thesis
    using set_upsert_by [of co_contract_id c "ss_contracts s"] distinct_upsert_by [of co_contract_id "ss_contracts s" c]
    by (auto simp: trust_inv_def lists_ok_def ids_unique_def allowances_def review_ids_def)
next
  case (DependencyUpdated d)
  with assms show ?thesis
    using inv_dependency [of s d] by simp
next
  case (MergeGateUpdated g)
  have "\<forall>x\<in>set (upsert_by mg_gate_id g (ss_gates s)). gate_ok (set (ss_audit s)) (review_ids s) x"
    using assms MergeGateUpdated set_upsert_by [of mg_gate_id g "ss_gates s"]
    by (auto simp: trust_inv_def lists_ok_def)
  from inv_gates [OF assms(1) this] show ?thesis
    using MergeGateUpdated by (simp add: review_ids_def)
next
  case (MergeConflictBounced c)
  have "\<forall>x\<in>set (upsert_by bo_bounce_id c (ss_conflicts s)). conflict_ok (set (ss_audit s)) x"
    using assms MergeConflictBounced set_upsert_by [of bo_bounce_id c "ss_conflicts s"]
    by (auto simp: trust_inv_def lists_ok_def)
  from inv_conflicts [OF assms(1) this] show ?thesis
    using MergeConflictBounced by (simp add: review_ids_def upsert_conflict_def)
qed (use assms in \<open>simp_all add: trust_inv_def lists_ok_def ids_unique_def allowances_def review_ids_def\<close>)

lemma remember_events_inv:
  "trust_inv s \<Longrightarrow> \<forall>e\<in>set es. event_ok (set (ss_audit s)) (review_ids s) e \<Longrightarrow>
   trust_inv (fold (remember_event clock) es s)"
proof (induction es arbitrary: s)
  case (Cons e es)
  then show ?case
    using remember_event_inv [of s e clock] by simp
qed simp

end
