(* ===== verification/Command_Safety.thy ===== *)
theory Command_Safety
  imports Trust_Operations
begin

text \<open>
  Whole commands and sequences of them: the audit and permission trail of an operation that fails,
  what a rejected command leaves, the sessions that commands can reach and the invariant they keep.
\<close>

section \<open>The trail of an operation\<close>

text \<open>
  Whatever an operation answers, the audit and the transcript only grow, by no more audit records
  than allowances, and what no trust operation writes stays the same.
\<close>

definition trail :: "session \<Rightarrow> session \<Rightarrow> bool" where
  "trail s t \<longleftrightarrow> (\<exists>rs es. ss_audit t = ss_audit s @ rs \<and> ss_transcript t = ss_transcript s @ es
      \<and> length rs \<le> length (filter (\<lambda>l. pl_decision l = ''allow'') es))
    \<and> ss_disk t = ss_disk s \<and> ss_bundles t = ss_bundles s \<and> ss_cwd t = ss_cwd s"

definition trails :: "('a, session) op \<Rightarrow> bool" where
  "trails m \<longleftrightarrow> (\<forall>s. trail s (snd (m s)))"

text \<open>An operation that writes the domain lists only.\<close>

definition quiet :: "session \<Rightarrow> session \<Rightarrow> bool" where
  "quiet s t \<longleftrightarrow> ss_audit t = ss_audit s \<and> ss_transcript t = ss_transcript s
     \<and> ss_permissions t = ss_permissions s
     \<and> ss_disk t = ss_disk s \<and> ss_bundles t = ss_bundles s \<and> ss_cwd t = ss_cwd s"

lemma trail_refl [simp]: "trail s s"
  by (simp add: trail_def)

lemma trail_trans: "trail s t \<Longrightarrow> trail t u \<Longrightarrow> trail s u"
  by (force simp: trail_def)

lemma quiet_trail: "quiet s t \<Longrightarrow> trail s t"
  by (simp add: quiet_def trail_def)

lemma quiet_refl [simp]: "quiet s s"
  by (simp add: quiet_def)

lemma quiet_trans: "quiet s t \<Longrightarrow> quiet t u \<Longrightarrow> quiet s u"
  by (simp add: quiet_def)

lemma trails_check: "(\<And>x. trails (k x)) \<Longrightarrow> trails (op_check r k)"
  by (auto simp: trails_def op_check_def split: sum.splits)

lemma trails_check_at: "(\<And>x. trails (k x)) \<Longrightarrow> trail s (snd (op_check r k s))"
  by (auto simp: trails_def op_check_def split: sum.splits)

lemma trail_permission: "trail s (snd (require_trust_permission env action preview ctx s))"
  using require_permission_frame [of s env action preview ctx]
  by (auto simp: asked_from_def trail_def)

lemma trails_bind: "trails m \<Longrightarrow> (\<And>x. trails (k x)) \<Longrightarrow> trails (op_bind m k)"
  unfolding trails_def op_bind_def by (force split: prod.splits sum.splits intro: trail_trans)

lemma trail_granted_audit:
  assumes "require_trust_permission env action preview None s = (Inr u, s1)"
  shows "trail s (snd (append_trust_audit env r s1))"
  using require_permission_Inr [OF assms]
  by (auto simp: append_trust_audit_def op_check_def trail_def append_audit_iff split: sum.splits)

text \<open>One grant covers one audit record.\<close>

lemma trails_asked:
  assumes "\<And>u s1. require_trust_permission env action preview None s = (Inr u, s1) \<Longrightarrow> trail s (snd (k u s1))"
  shows "trail s (snd (op_bind (require_trust_permission env action preview None) k s))"
proof (cases "require_trust_permission env action preview None s")
  case (Pair r s1)
  then show ?thesis
    using assms [of _ s1] trail_permission [of s env action preview None]
    by (cases r) (simp_all add: op_bind_def)
qed

lemma trail_granted_operation:
  assumes "require_trust_permission env action preview None s = (Inr u, s1)"
    and "\<And>t. quiet t (snd (k () t))"
  shows "trail s (snd (op_bind (append_trust_audit env r) k s1))"
proof (cases "append_trust_audit env r s1")
  case (Pair x s2)
  then have "trail s s2"
    using trail_granted_audit [OF assms(1), of r] by simp
  with Pair show ?thesis
    using assms(2) by (cases x) (auto simp: op_bind_def intro: trail_trans quiet_trail)
qed

lemma trails_operation:
  assumes "\<And>x t. quiet t (snd (effect x t))"
  shows "trails (trust_operation env preflight action preview audit_of effect)"
  unfolding trails_def trust_operation_def
proof (intro allI)
  fix s
  show "trail s (snd (op_check (preflight s) (\<lambda>x. op_bind (require_trust_permission env action preview None)
      (\<lambda>_ s1. op_bind (append_trust_audit env (audit_of x s1)) (\<lambda>_. effect x) s1)) s))"
  proof (cases "preflight s")
    case (Inr x)
    have "trail s (snd (op_bind (require_trust_permission env action preview None)
        (\<lambda>_ s1. op_bind (append_trust_audit env (audit_of x s1)) (\<lambda>_. effect x) s1) s))"
      by (rule trails_asked) (rule trail_granted_operation [OF _ assms])
    with Inr show ?thesis by (simp add: op_check_def)
  qed (simp add: op_check_def)
qed

section \<open>Every operation leaves a trail\<close>

lemma quiet_update_gate [simp]:
  "quiet s (update_gate i f t) = quiet s t" "quiet (update_gate i f s) t = quiet s t"
  "quiet (s\<lparr>ss_handoffs := hs\<rparr>) t = quiet s t"
  by (simp_all add: quiet_def)

lemma quiet_lists [simp]:
  "quiet s (t\<lparr>ss_tasks := a\<rparr>) = quiet s t" "quiet s (t\<lparr>ss_dags := b\<rparr>) = quiet s t"
  "quiet s (t\<lparr>ss_gates := c\<rparr>) = quiet s t" "quiet s (t\<lparr>ss_evidence := d\<rparr>) = quiet s t"
  "quiet s (t\<lparr>ss_handoffs := e\<rparr>) = quiet s t" "quiet s (t\<lparr>ss_reviews := f\<rparr>) = quiet s t"
  "quiet s (t\<lparr>ss_contracts := g\<rparr>) = quiet s t" "quiet s (t\<lparr>ss_dependencies := h\<rparr>) = quiet s t"
  "quiet s (t\<lparr>ss_conflicts := i\<rparr>) = quiet s t" "quiet s (t\<lparr>ss_reverts := j\<rparr>) = quiet s t"
  by (simp_all add: quiet_def)

lemma quiet_touch [simp]: "quiet s (snd (touch_task clock i f es t)) = quiet s t"
  by (simp add: touch_task_def split: option.splits)

lemma quiet_settle: "settle_review rid accept now es s = (es', t) \<Longrightarrow> quiet s t"
  by (auto simp: settle_review_def Let_def split: option.splits if_splits)

lemma quiet_move: "move_gate_owner task ow aid now s = (g, t) \<Longrightarrow> quiet s t"
  by (auto simp: move_gate_owner_def Let_def split: option.splits)

lemma trails_create_handoff: "trails (create_handoff env hid task from_lane to_lane ow summary acceptance)"
  unfolding create_handoff_def Let_def
  by (rule trails_operation) (auto split: prod.splits dest!: quiet_move)

lemma trails_simple:
  "trails (confirm_contract env cid task ow summary d)"
  "trails (set_dependency env did task on ow st reason)"
  "trails (request_review env rid gate requester reviewer ow ids)"
  "trails (decide_review env rid verdict feedback actor)"
  "trails (revalidate_merge_conflict env gate bid actor b)"
  "trails (reject_agent_artifact env gate evidence actor reason')"
  unfolding confirm_contract_def set_dependency_def request_review_def decide_review_def
    revalidate_merge_conflict_def reject_agent_artifact_def Let_def
  by (rule trails_operation; simp add: op_check_def split: prod.split sum.split)+

lemma trails_decide: "trails (decide_merge_gate env gate accept actor reviewed decision)"
  unfolding decide_merge_gate_def Let_def
  by (rule trails_operation) (auto split: prod.split dest: quiet_settle)

lemma trails_accept_artifact: "trails (accept_agent_artifact env gate evidence actor hash decision)"
  unfolding accept_agent_artifact_def Let_def trails_def by (intro allI trails_check_at trails_decide)

lemma quiet_record: "quiet s (snd (record_effect env i c s))"
  by (simp add: record_effect_def Let_def)

lemma trails_record: "trails (record_agent_evidence env q)"
  unfolding trails_def record_agent_evidence_def
proof (intro allI)
  fix s
  have "trail s (snd (op_bind (require_trust_permission env a p None) (\<lambda>_. record_effect env i c) s))" for a p i c
    by (rule trails_asked) (use trail_permission [of s env a p None] quiet_record in
      \<open>metis quiet_trail snd_conv trail_trans\<close>)
  then show "trail s (snd (op_check (record_preflight env q s) (\<lambda>(i, c).
      op_bind (require_trust_permission env ''record_agent_evidence''
        (''gate='' @ eq_gate_id q @ '' kind='' @ eq_kind c) None) (\<lambda>_. record_effect env i c)) s))"
    by (auto simp: op_check_def split: sum.splits)
qed

lemma trails_bounce: "trails (bounce_merge_conflict env gate lane ow reason)"
  unfolding trails_def bounce_merge_conflict_def
proof (intro allI)
  fix s
  have "trail s (snd (op_bind (require_trust_permission env a p None)
      (\<lambda>_. record_conflict_bounce env i lane ow msg None) s))" for a p i msg
  proof (rule trails_asked)
    fix u s1
    assume asked: "require_trust_permission env a p None s = (Inr u, s1)"
    then have "trail s s1"
      using trail_permission [of s env a p None] by simp
    then show "trail s (snd (record_conflict_bounce env i lane ow msg None s1))"
      by (auto simp: record_conflict_bounce_def op_check_def Let_def split: sum.splits
          intro!: trail_granted_operation [OF asked])
  qed
  then show "trail s (snd (op_check (bounce_preflight env gate lane ow reason s) (\<lambda>(i, msg).
      op_bind (require_trust_permission env ''bounce_merge_conflict'' (''gate='' @ gate @ '' origin='' @ lane) None)
        (\<lambda>_. record_conflict_bounce env i lane ow msg None)) s))"
    by (auto simp: op_check_def split: sum.splits)
qed

lemma quiet_dag_fold: "quiet s (snd (fold (dag_step env) specs (es, s)))"
proof (induction specs arbitrary: es s)
  case (Cons spec specs)
  obtain es' u where step: "dag_step env spec (es, s) = (es', u)"
    by (rule prod.exhaust)
  then have "quiet s u"
    by (auto simp: dag_step_def Let_def)
  with Cons [of u es'] step show ?case
    using quiet_trans by auto
qed simp

lemma trails_dag: "trails (start_agent_dag env goal specs)"
  unfolding trails_def start_agent_dag_def
proof (intro allI trails_check_at)
  fix tasks
  show "trails (\<lambda>s. let dag = new_dag env goal tasks;
         (events, t) = fold (dag_step env) tasks ([AgentDagUpdated dag], s)
     in (Ok events, t\<lparr>ss_dags := ss_dags t @ [dag]\<rparr>))"
    unfolding trails_def Let_def
    by (auto split: prod.split intro!: quiet_trail) (metis quiet_dag_fold snd_conv)
qed

lemma trails_cancel: "trails (cancel_agent_task env task)"
  unfolding trails_def cancel_agent_task_def
  by (intro allI trails_check_at)
    (auto simp: trails_def update_agent_task_status_def Let_def intro!: quiet_trail split: option.split)

lemma run_operation_trails: "trails (run_operation env c)"
  by (cases c) (simp_all add: trails_create_handoff trails_simple trails_decide trails_accept_artifact
      trails_record trails_bounce trails_dag trails_cancel)

lemma quiet_remember: "quiet s (remember_event clock e s)"
  by (cases e) simp_all

lemma quiet_remember_all: "quiet s (fold (remember_event clock) es s)"
proof (induction es arbitrary: s)
  case (Cons e es)
  show ?case
    using quiet_trans [OF quiet_remember Cons [of "remember_event clock e s"]] by simp
qed simp

lemma persist_trails: "trail s (snd (persist_domain_events env es s))"
  by (auto simp: persist_domain_events_def op_check_def intro!: quiet_trail quiet_remember_all split: sum.splits)

section \<open>Commands\<close>

definition run_and_persist :: "'ctx trust_env \<Rightarrow> trust_command \<Rightarrow> (trust_event list, session) op" where
  "run_and_persist env c = op_bind (run_operation env c)
     (\<lambda>events. op_bind (persist_domain_events env events) (\<lambda>_ t. (Ok events, t)))"

lemma handle_command_eq:
  "handle_trust_command env c s = (case validate_trust_command env s c of
     Inl e \<Rightarrow> (CommandRejected e, s)
   | Inr _ \<Rightarrow> (case run_and_persist env c s of
       (Inl e, t) \<Rightarrow> (CommandRejected e, restore_domain s t)
     | (Inr events, t) \<Rightarrow> (CommandAccepted events, t)))"
  unfolding handle_trust_command_def run_and_persist_def by (rule refl)

lemma run_and_persist_trails: "trails (run_and_persist env c)"
  unfolding run_and_persist_def
  by (intro trails_bind run_operation_trails) (auto simp: trails_def intro: persist_trails)

lemma command_trail: "trail s (snd (handle_trust_command env c s))"
proof -
  obtain r t where run: "run_and_persist env c s = (r, t)"
    by (rule prod.exhaust)
  then have "trail s t"
    using run_and_persist_trails [of env c] by (auto simp: trails_def dest!: spec [of _ s])
  then show ?thesis
    by (auto simp: handle_command_eq run trail_def restore_domain_def split: sum.splits)
qed

lemma trust_inv_trail:
  assumes "trust_inv s" "trail s t"
  shows "trust_inv (restore_domain s t)"
proof -
  obtain rs es where t: "ss_audit t = ss_audit s @ rs" "ss_transcript t = ss_transcript s @ es"
      "length rs \<le> length (filter (\<lambda>l. pl_decision l = ''allow'') es)"
    using assms(2) by (auto simp: trail_def)
  have "lists_ok (set (ss_audit t)) (review_ids s) s"
    using assms(1) t(1) lists_ok_mono [of "set (ss_audit s)" "set (ss_audit t)" "review_ids s" "review_ids s" s]
    by (auto simp: trust_inv_def)
  with assms(1) t show ?thesis
    by (auto simp: trust_inv_def lists_ok_def ids_unique_def review_ids_def allowances_def restore_domain_def)
qed

lemma run_and_persist_inv:
  assumes "trust_inv s" "run_and_persist env c s = (Inr es, t)"
  shows "trust_inv t"
proof -
  obtain u where run: "run_operation env c s = (Inr es, u)"
      and keep: "t = fold (remember_event (te_clock env 4)) es u"
    using assms(2) unfolding run_and_persist_def
    by (auto simp: op_bind_Inr persist_domain_events_def op_check_Inr)
  have "trust_inv u \<and> (\<forall>e\<in>set es. event_ok (set (ss_audit u)) (review_ids u) e)"
    using run_operation_inv [of env c] assms(1) run by (auto simp: keeps_inv_def)
  then show ?thesis
    unfolding keep by (intro remember_events_inv) blast+
qed

lemma command_inv:
  assumes "trust_inv s"
  shows "trust_inv (snd (handle_trust_command env c s))"
proof -
  obtain r t where run: "run_and_persist env c s = (r, t)"
    by (rule prod.exhaust)
  have trail: "trail s t"
    using run_and_persist_trails [of env c] run by (auto simp: trails_def dest!: spec [of _ s])
  show ?thesis
    using assms run trust_inv_trail [OF assms trail] run_and_persist_inv [OF assms, of env c _ t]
    by (auto simp: handle_command_eq split: sum.splits)
qed

section \<open>Sessions that commands can reach\<close>

text \<open>
  A session starts without trust facts. It then takes commands, each in an environment of its own
  out of \<open>envs\<close> (the clock, the fresh ids and
  the failures of the disk differ from one to the next), the permission questions and
  the context writes of everything else that runs in the session, and agent tasks that finish. The
  commands that merge a patch or revert one are not among the steps.
\<close>

definition fresh_session :: "session \<Rightarrow> bool" where
  "fresh_session s \<longleftrightarrow> ss_audit s = [] \<and> ss_gates s = [] \<and> ss_handoffs s = [] \<and> ss_reviews s = []
     \<and> ss_contracts s = [] \<and> ss_dependencies s = [] \<and> ss_conflicts s = []"

inductive reachable :: "'ctx trust_env set \<Rightarrow> session \<Rightarrow> bool" for envs where
  start: "fresh_session s \<Longrightarrow> reachable envs s"
| command: "reachable envs s \<Longrightarrow> env \<in> envs \<Longrightarrow> reachable envs (snd (handle_trust_command env c s))"
| permission: "reachable envs s \<Longrightarrow>
    reachable envs (s\<lparr>ss_permissions := p, ss_transcript := ss_transcript s @ es\<rparr>)"
| evidence_store: "reachable envs s \<Longrightarrow> reachable envs (s\<lparr>ss_disk := d, ss_bundles := bs\<rparr>)"
| task_finished: "reachable envs s \<Longrightarrow> env \<in> envs \<Longrightarrow>
    reachable envs (snd (finish_agent_task env spec out s))"

lemma finish_task_inv:
  assumes "trust_inv s"
  shows "trust_inv (snd (finish_agent_task env spec out s))"
proof -
  have gate: "gate_ok A R (settle_gate_after_task report now at aid (add_evidence_id i g))"
    if "gate_ok A R g" for A R report now at aid i g
    using that by (auto simp: settle_gate_after_task_def add_evidence_id_def gate_ok_def Let_def decided_now_def
        split: option.splits)
  show ?thesis
    using assms
    by (auto simp: finish_agent_task_def Let_def inv_frame split: option.split
        dest!: position_Some intro!: inv_update_gate gate inv_gate_at)
qed

lemma start_inv: "fresh_session s \<Longrightarrow> trust_inv s"
  by (simp add: fresh_session_def trust_inv_def lists_ok_def ids_unique_def)

lemma reachable_inv: "reachable envs s \<Longrightarrow> trust_inv s"
proof (induction rule: reachable.induct)
  case (permission s p es)
  then show ?case
    by (auto simp: trust_inv_def lists_ok_def ids_unique_def review_ids_def allowances_def)
next
  case (evidence_store s d bs)
  then show ?case
    by (auto simp: trust_inv_def lists_ok_def ids_unique_def review_ids_def allowances_def)
qed (auto intro: start_inv command_inv finish_task_inv)

end
