(* ===== verification/Demo_Session.thy ===== *)
theory Demo_Session
  imports Command_Safety
begin

text \<open>
  A small session for the witnesses of the trust properties: an engine that asks nothing, a gate of
  task \<open>t1\<close> with one evidence row whose bytes the context store holds, a second task.
\<close>

section \<open>Plain text\<close>

definition plain :: "string \<Rightarrow> bool" where
  "plain s \<longleftrightarrow> list_all (\<lambda>c. 32 < byte c \<and> byte c < 127) s"

lemma plain_chars: "list_all (\<lambda>c. 32 \<le> byte c \<and> byte c < 127) s \<Longrightarrow> utf8_chars s = map (\<lambda>c. [c]) s"
proof (induction s)
  case (Cons c cs)
  then have "takeWhile is_cont cs = [] \<and> dropWhile is_cont cs = cs"
    by (cases cs) (auto simp: is_cont_def)
  with Cons show ?case by simp
qed simp

lemma plain_trim: "plain s \<Longrightarrow> str_trim s = s"
proof -
  assume plain: "plain s"
  have stop: "dropWhile is_whitespace_char (map (\<lambda>c. [c]) t) = map (\<lambda>c. [c]) t" if "plain t" for t
    using that by (cases t) (auto simp: plain_def is_whitespace_char_def Let_def)
  have "plain (rev s)"
    using plain by (simp add: plain_def)
  from stop [OF this] stop [OF plain] show ?thesis
    using plain plain_chars [of s]
    by (simp add: str_trim_def trim_by_def rev_map [symmetric] plain_def list_all_iff order.strict_implies_order)
qed

lemma lowercase_plain: "list_all (\<lambda>c. \<not> is_ascii_uppercase c) s \<Longrightarrow> to_ascii_lowercase s = s"
  by (induction s) (simp_all add: to_ascii_lowercase_def)

section \<open>Environment\<close>

definition demo_trust_env :: "unit trust_env" where
  "demo_trust_env = \<lparr>te_clock = (\<lambda>_. 100), te_fresh = (\<lambda>k n. k @ ''-1''),
     te_transcript_io = None, te_audit_io = None, te_persist_io = None,
     te_flow = (\<lambda>_ _ _. \<lparr>resp_decision = ApproveDeny, resp_feedback = None\<rparr>),
     te_sha = demo_sha, te_decoder = (\<lambda>_. Inr demo_record)\<rparr>"

definition demo_bypass :: shared_engine where
  "demo_bypass = new_shared (set_mode BypassPermissions (new_engine ''/tmp/project''))"

lemma demo_env_simps [simp]:
  "te_clock demo_trust_env n = 100" "te_fresh demo_trust_env k n = k @ ''-1''"
  "te_transcript_io demo_trust_env = None" "te_audit_io demo_trust_env = None"
  "te_persist_io demo_trust_env = None" "te_sha demo_trust_env = demo_sha"
  "te_decoder demo_trust_env = (\<lambda>_. Inr demo_record)"
  by (simp_all add: demo_trust_env_def)

lemma demo_workflow_input:
  "workflow_input action preview = [(''action'', action), (''preview'', preview)]"
  by (simp add: workflow_input_def less_char_def)

lemma demo_decide: "decide (se_engine demo_bypass) tool (workflow_input action preview) = allow_because BypassMode"
proof -
  have "extract_paths (workflow_input action preview) = []"
    by (simp add: extract_paths_def demo_workflow_input input_get_def List.map_filter_def)
  then show ?thesis
    by (simp add: demo_bypass_def new_shared_def set_mode_def new_engine_def default_context_def
        decide_def matches_rule_def Let_def decide_by_mode_def current_paths_def)
qed

lemma demo_permission:
  assumes "ss_permissions s = demo_bypass"
  shows "require_trust_permission demo_trust_env action preview None s
     = (Inr (), s\<lparr>ss_permissions := demo_bypass, ss_transcript := ss_transcript s @
         [\<lparr>pl_timestamp = 100, pl_tool_name = ''workflow_'' @ action, pl_decision = ''allow'',
           pl_reason = ''Some(BypassMode)'', pl_message = None\<rparr>]\<rparr>)"
  using assms demo_decide
  by (simp add: require_trust_permission_def trust_answer_def resolve_permission_def shared_decide_def
     allow_because_def max_approval_revisions_def numeral_eq_Suc store_entry_def Let_def
     workflow_tool_def)

text \<open>An operation that passes its preflight and writes a bounded record takes effect.\<close>

lemma demo_operation:
  assumes "ss_permissions s = demo_bypass" "preflight s = Inr x"
    and "\<And>p e. audit_of x (s\<lparr>ss_permissions := p, ss_transcript := e\<rparr>) = Inr r" "record_bounds r"
  shows "\<exists>p e. trust_operation demo_trust_env preflight action preview audit_of effect s
     = effect x (s\<lparr>ss_permissions := p, ss_transcript := e, ss_audit := ss_audit s @ [r]\<rparr>)"
  using assms(2,3) append_audit_iff [of None r "ss_audit s" "ss_audit s @ [r]"] assms(4)
  by (auto simp: trust_operation_def op_check_def op_bind_def demo_permission [OF assms(1)] append_trust_audit_def)

section \<open>The session\<close>

definition demo_hash :: string where "demo_hash = demo_sha ''hello''"

definition demo_owner :: runtime_owner where
  "demo_owner = \<lparr>ow_workspace_id = ''w'', ow_project_id = ''p'', ow_lane_id = Some ''lane-a'',
     ow_session_id = None, ow_task_id = Some ''t1'', ow_turn_id = None\<rparr>"

definition demo_spec :: "string \<Rightarrow> string list \<Rightarrow> agent_dag_task_spec" where
  "demo_spec i ds = \<lparr>sp_task_id = i, sp_role = Coder, sp_title = ''Fix'', sp_objective = ''Fix it'',
     sp_dependencies = ds, sp_workspace = None, sp_file_scope = [], sp_context_bundle_id = None,
     sp_required_evidence = [''tests''], sp_permission_policy = ''ask''\<rparr>"

definition demo_task :: "string \<Rightarrow> string list \<Rightarrow> agent_task" where
  "demo_task i ds = agent_task_record_from_spec ''/tmp/project'' (demo_spec i ds) 100"

definition demo_dag :: agent_dag where
  "demo_dag = \<lparr>dag_id = ''dag-1'', dag_goal = ''goal'', dag_status = DagActive,
     dag_tasks = [demo_spec ''t1'' [], demo_spec ''t2'' [''t1'']], dag_created_at = None, dag_updated_at = None\<rparr>"

definition demo_reference :: canonical_reference where
  "demo_reference = \<lparr>cr_item_id = ''ctxi_1'', cr_bundle_id = ''b1'', cr_source_hash = demo_hash,
     cr_producer = \<lparr>ep_identity = ''lane-a'', ep_role = ''tester'', ep_task_id = ''t1''\<rparr>,
     cr_permission_snapshot_id = Some ''receipt'', cr_permission_scope = ScopeTask ''t1'',
     cr_evidence_scope = ScopeTask ''t1'', cr_verification = Verified,
     cr_quality = \<lparr>qf_status = QualityPass, qf_reason_codes = []\<rparr>\<rparr>"

definition demo_evidence :: evidence_view where
  "demo_evidence = \<lparr>ev_id = ''e1'', ev_kind = ''test_result'', ev_summary = ''passed'', ev_path = None,
     ev_source = None, ev_canonical = Some demo_reference, ev_metadata = None, ev_timestamp = None,
     ev_owner = None\<rparr>"

definition demo_gate :: merge_gate where
  "demo_gate = (gate_from_spec (demo_spec ''t1'' []) 100)\<lparr>mg_owner := demo_owner, mg_evidence_ids := [''e1'']\<rparr>"

definition demo_session :: session where
  "demo_session = \<lparr>ss_permissions = demo_bypass, ss_transcript = [], ss_audit = [],
     ss_disk = \<lparr>cd_metadata = ''x'' @ [newline], cd_blobs = [(demo_hash, ''hello'')]\<rparr>,
     ss_bundles = [\<lparr>cb_bundle_id = ''b1'', cb_scope = ScopeTask ''t1'', cb_handle_ids = [], cb_estimated_tokens = 5\<rparr>],
     ss_cwd = ''/tmp/project'', ss_tasks = [demo_task ''t1'' [], demo_task ''t2'' [''t1'']],
     ss_dags = [demo_dag], ss_gates = [demo_gate], ss_evidence = [demo_evidence],
     ss_handoffs = [], ss_reviews = [], ss_contracts = [], ss_dependencies = [], ss_conflicts = [],
     ss_reverts = []\<rparr>"

lemma demo_session_simps [simp]:
  "ss_permissions demo_session = demo_bypass" "ss_gates demo_session = [demo_gate]"
  "ss_evidence demo_session = [demo_evidence]" "ss_dags demo_session = [demo_dag]"
  "ss_tasks demo_session = [demo_task ''t1'' [], demo_task ''t2'' [''t1'']]" "ss_audit demo_session = []"
  "ss_reviews demo_session = []" "ss_conflicts demo_session = []" "ss_dependencies demo_session = []"
  by (simp_all add: demo_session_def)

lemma demo_gate_simps [simp]:
  "mg_gate_id demo_gate = ''gate-t1''" "mg_task_id demo_gate = ''t1''" "mg_owner demo_gate = demo_owner"
  "mg_evidence_ids demo_gate = [''e1'']" "mg_required_evidence demo_gate = [''tests'']"
  "mg_validator demo_gate = None" "mg_conflict demo_gate = None"
  "gp_requires_independent_validator (mg_policy demo_gate) = False"
  by (simp_all add: demo_gate_def gate_from_spec_def demo_spec_def)

lemma demo_evidence_simps [simp]:
  "ev_id demo_evidence = ''e1''" "ev_canonical demo_evidence = Some demo_reference"
  "ev_kind demo_evidence = ''test_result''" "cr_source_hash demo_reference = demo_hash"
  by (simp_all add: demo_evidence_def demo_reference_def)

lemma demo_task_simps [simp]:
  "at_id (demo_task i ds) = i" "at_status (demo_task i ds) = TaskQueued"
  by (simp_all add: demo_task_def agent_task_record_from_spec_def demo_spec_def)

abbreviation demo_facts :: gate_facts where
  "demo_facts \<equiv> session_gate_facts demo_trust_env demo_session"

lemma demo_load: "load_metadata (\<lambda>_. Inr demo_record) (''x'' @ [newline]) = Inr [demo_record]"
  using load_log [OF demo_log_ok, of "[]"] by (simp add: log_bytes_def)

lemma demo_counts:
  assumes "mg_task_id g = ''t1''"
  shows "reference_counts g demo_facts demo_reference"
proof -
  have "verify_item demo_sha (\<lambda>_. Inr demo_record) (ss_disk demo_session) [demo_record] ''ctxi_1'' demo_hash (ScopeTask ''t1'')
      = Inr \<lparr>vi_item = md_item demo_record, vi_content = ''hello'', vi_byte_count = 5\<rparr>"
    using demo_sha_valid [of "''hello''"]
    by (simp add: verify_item_def lookup_item_def find_item_def read_blob_def demo_session_def demo_record_def
        put_record_def demo_put_def validate_content_sha256_def is_valid_content_sha256_def Let_def demo_hash_def)
  then have "reference_intact demo_facts demo_reference"
    using demo_load
    by (simp add: reference_intact_def open_and_verify_def session_gate_facts_def
        demo_reference_def) (simp add: demo_session_def)
  with assms show ?thesis
    by (simp add: reference_counts_def demo_reference_def session_gate_facts_def demo_session_def
        str_trim_def trim_by_def is_whitespace_char_def)
qed

lemma demo_bind:
  "mg_task_id g = ''t1'' \<Longrightarrow> bind_evidence g demo_facts [demo_evidence] ''e1'' = Inr (Binding ''e1'' demo_hash)"
  using demo_counts by (simp add: bind_evidence_Ok)

lemma demo_bindings:
  "mg_task_id g = ''t1'' \<Longrightarrow>
   validated_bindings demo_trust_env demo_session g [''e1''] = Inr [Binding ''e1'' demo_hash]"
  using demo_bind by (simp add: validated_bindings_def btree_def)

lemma demo_kinds: "canonical_required_kind ''tests'' = ''test''" "canonical_required_kind ''test_result'' = ''test''"
  using plain_trim [of "''tests''"] plain_trim [of "''test_result''"]
    lowercase_plain [of "''tests''"] lowercase_plain [of "''test_result''"]
  by (simp_all add: canonical_required_kind_def normalize_evidence_kind_def replace_char_def
      plain_def is_ascii_uppercase_def Let_def)

lemma demo_verified:
  assumes "mg_task_id g = ''t1''" "mg_required_evidence g = [''tests'']" "mg_evidence_ids g = [''e1'']"
  shows "rp_status (reduce_gate_status g [demo_evidence] demo_facts) = CanonVerified"
  using assms demo_counts [OF assms(1)]
  by (auto simp: reduce_verified_iff set_counted evidence_by_id_def demo_kinds)

end
