(* ===== verification/Decision_Safety.thy ===== *)
theory Decision_Safety
  imports Demo_Session
begin

text \<open>
  What a gate decision, a review verdict, a dependency, a revalidation and a recorded evidence row
  presuppose and do, operation by operation.
\<close>

section \<open>Acceptance\<close>

lemma settle_gates: "settle_review rid accept now es s = (es', t) \<Longrightarrow> ss_gates t = ss_gates s \<and> ss_audit t = ss_audit s"
  by (auto simp: settle_review_def Let_def split: option.splits if_splits)

lemma touch_gates: "touch_task clock i f es s = (r, t) \<Longrightarrow> ss_gates t = ss_gates s \<and> ss_audit t = ss_audit s"
  by (auto simp: touch_task_def split: option.splits)

lemma decision_done:
  assumes "decide_merge_gate env gate accept actor reviewed decision s = (Inr es, t)"
  obtains i bs review r where
    "decision_preflight env gate accept actor reviewed (sanitize_runtime_domain_text decision 240) s = Inr (i, bs, review)"
    "permission_granted env (if accept then ''accept_merge_gate'' else ''reject_merge_gate'') (''gate='' @ gate) s"
    "decision_audit env accept actor gate review (ss_gates s ! i) = Inr r" "ss_audit t = ss_audit s @ [r]"
    "ss_gates t = (ss_gates s)[i := decided_gate env accept actor (sanitize_runtime_domain_text decision 240)
       bs review (ss_gates s ! i)]"
proof -
  from assms obtain x p e r where op:
      "decision_preflight env gate accept actor reviewed (sanitize_runtime_domain_text decision 240) s = Inr x"
      "permission_granted env (if accept then ''accept_merge_gate'' else ''reject_merge_gate'') (''gate='' @ gate) s"
      "(case x of (i, _, review) \<Rightarrow> \<lambda>s. decision_audit env accept actor gate review (ss_gates s ! i))
         (s\<lparr>ss_permissions := p, ss_transcript := ss_transcript s @ [e]\<rparr>) = Inr r"
      "(case x of (i, bindings, review) \<Rightarrow> \<lambda>s.
           let t = update_gate i (decided_gate env accept actor (sanitize_runtime_domain_text decision 240) bindings review) s;
               g = ss_gates t ! i;
               (events, u) = settle_review (gate_review_id review g) accept (te_clock env 1) [MergeGateUpdated g] t
           in touch_task (te_clock env 3) (mg_task_id g)
                (decided_task env accept (sanitize_runtime_domain_text decision 240)) events u)
         (s\<lparr>ss_permissions := p, ss_transcript := ss_transcript s @ [e], ss_audit := ss_audit s @ [r]\<rparr>) = (Inr es, t)"
    unfolding decide_merge_gate_def Let_def by (rule trust_operation_done) (auto simp: case_prod_beta)
  obtain i bs review where x: "x = (i, bs, review)"
    by (cases x)
  from op(4) have "ss_audit t = ss_audit s @ [r]"
      "ss_gates t = (ss_gates s)[i := decided_gate env accept actor (sanitize_runtime_domain_text decision 240)
         bs review (ss_gates s ! i)]"
    unfolding x Let_def
    by (auto simp: update_gate_def split: prod.splits dest!: touch_gates settle_gates)
  with op x show ?thesis
    by (intro that) auto
qed

text \<open>C23: An operator's decision to accept a merge gate goes through only when its evidence is verified
  against the stored bytes, no conflict is pending, the policy's demand for an independent validator is
  met, and the actor is the gate's owner or, when a validator is set, of the validator's lane, holding a
  review that was not rejected and whose evidence is exactly what the actor reviewed and what the gate
  holds now; the operator's permission was granted, and one audit record of the decision was appended.
  Recording evidence and the end of a task settle a gate on other ways, without such a decision.\<close>

theorem accepted_gate_was_reviewed:
  assumes "decide_merge_gate env gate True actor reviewed decision s = (Inr es, t)"
  shows "\<exists>i a r. require_gate s gate = Inr i \<and> actor = Some a
    \<and> (let g = ss_gates s ! i in
        rp_status (reduce_gate_status g (ss_evidence s) (session_gate_facts env s)) = CanonVerified
        \<and> \<not> conflict_pending g
        \<and> (gp_requires_independent_validator (mg_policy g) \<longrightarrow> independent_validator g)
        \<and> (case mg_validator g of
             None \<Rightarrow> a = mg_owner g
           | Some v \<Rightarrow> owner_matches_validator_lane a (gv_owner v)
               \<and> (\<exists>rv. find_review s (gv_review_request_id v) = Some rv \<and> rr_status rv \<noteq> ReviewRejected
                   \<and> btree reviewed = rr_evidence_bindings rv
                   \<and> validated_bindings env s g (mg_evidence_ids g) = Inr (rr_evidence_bindings rv))))
    \<and> permission_granted env ''accept_merge_gate'' (''gate='' @ gate) s
    \<and> ss_audit t = ss_audit s @ [r] \<and> au_action r = ''gate.decided''
    \<and> audit_object ''merge_gate'' gate \<in> set (au_objects r)
    \<and> mg_status (ss_gates t ! i) = GateAccepted"
proof -
  obtain i bs review r where op:
      "decision_preflight env gate True actor reviewed (sanitize_runtime_domain_text decision 240) s = Inr (i, bs, review)"
      "permission_granted env ''accept_merge_gate'' (''gate='' @ gate) s"
      "decision_audit env True actor gate review (ss_gates s ! i) = Inr r" "ss_audit t = ss_audit s @ [r]"
      "ss_gates t = (ss_gates s)[i := decided_gate env True actor (sanitize_runtime_domain_text decision 240)
         bs review (ss_gates s ! i)]"
    using decision_done [OF assms] by simp metis
  note pre = decision_preflight_Inr [OF op(1)]
  then have i: "require_gate s gate = Inr i" and check: "check_acceptance env gate actor reviewed (ss_gates s ! i) s = Inr (bs, review)"
    by simp_all
  obtain a where a: "actor = Some a"
    using check by (auto simp: check_acceptance_def guarded_Inr try_then_Inr ok_or_Inr)
  have "rp_status (reduce_gate_status (ss_gates s ! i) (ss_evidence s) (session_gate_facts env s)) = CanonVerified"
      "\<not> conflict_pending (ss_gates s ! i)"
      "gp_requires_independent_validator (mg_policy (ss_gates s ! i)) \<longrightarrow> independent_validator (ss_gates s ! i)"
    using check by (auto simp: check_acceptance_def guarded_Inr acceptance_report_def Let_def conflict_check_def
        validator_check_def)
  moreover have "case mg_validator (ss_gates s ! i) of
             None \<Rightarrow> a = mg_owner (ss_gates s ! i)
           | Some v \<Rightarrow> owner_matches_validator_lane a (gv_owner v)
               \<and> (\<exists>rv. find_review s (gv_review_request_id v) = Some rv \<and> rr_status rv \<noteq> ReviewRejected
                   \<and> btree reviewed = rr_evidence_bindings rv
                   \<and> validated_bindings env s (ss_gates s ! i) (mg_evidence_ids (ss_gates s ! i))
                       = Inr (rr_evidence_bindings rv))"
    using check unfolding a
    by (auto simp: check_acceptance_def guarded_Inr guarded_ok try_then_Inr ok_or_Inr Let_def owner_acceptance_def
        validator_acceptance_def split: option.splits)
  moreover have "au_action r = ''gate.decided'' \<and> audit_object ''merge_gate'' gate \<in> set (au_objects r)"
    using op(3) unfolding decision_audit_def by (auto dest!: trust_audit_Inr)
  moreover have "mg_status (ss_gates t ! i) = GateAccepted"
    using require_gate_Ok [OF i] op(5) by (simp add: decided_gate_def Let_def)
  ultimately show ?thesis
    using i a op(2,4) by (auto simp: Let_def)
qed

lemma demo_dag_id: "dag_id_for_task demo_session ''t1'' = Inr ''dag-1''"
  by (simp add: dag_id_for_task_def demo_dag_def demo_spec_def ok_or_def)

lemma demo_gate_at: "require_gate demo_session ''gate-t1'' = Inr 0"
  by (simp add: require_gate_def ok_or_def)

lemma demo_text: "sanitize_runtime_domain_text ''ok'' 240 = ''ok''"
  by (simp add: sanitize_runtime_domain_text_def redact_command_text_def truncate_for_preview_def
      split_whitespace_def plain_chars plain_trim plain_def redact_word_def word_is_sensitive_def
      is_whitespace_char_def to_ascii_lowercase_def is_ascii_uppercase_def Let_def secret_markers_def
      starts_with_def has_control_char_def is_control_char_def)

lemma audit_record_ok:
  assumes "record_bounds \<lparr>au_audit_id = aid, au_timestamp = ts, au_owner = ow, au_actor = ActorOperator,
      au_action = action, au_objects = objects, au_outcome = AuditSuccess, au_args = fold input_insert args []\<rparr>"
  shows "trust_audit_record aid ts ow action objects args =
    Inr \<lparr>au_audit_id = aid, au_timestamp = ts, au_owner = ow, au_actor = ActorOperator,
      au_action = action, au_objects = objects, au_outcome = AuditSuccess, au_args = fold input_insert args []\<rparr>"
proof -
  obtain r where r: "trust_audit_record aid ts ow action objects args = Inr r"
    using assms sanitized_is_ok [of aid ts ow ActorOperator action objects AuditSuccess "fold input_insert args []"]
    by (auto simp: trust_audit_record_def is_ok_iff)
  then show ?thesis
    using sanitized_Ok unfolding trust_audit_record_def by (metis sum.inject(2))
qed

lemmas bounds_eval = record_bounds_def valid_action_def owner_bounds_def present_ok_def valid_object_kind_def
  arg_bounds_def valid_arg_key_def safe_identifier_def is_ascii_def is_ascii_alphanumeric_def
  is_ascii_lowercase_def is_ascii_uppercase_def is_ascii_digit_def starts_with_any_def ends_with_any_def
  looks_like_secret_def secret_prefixes_def credential_markers_def starts_with_def
  to_ascii_lowercase_def has_control_char_def plain_chars is_control_char_def less_char_def
  max_audit_action_bytes_def max_audit_object_kind_bytes_def max_audit_arg_key_bytes_def

abbreviation demo_accept_record :: audit_record where
  "demo_accept_record \<equiv> \<lparr>au_audit_id = ''audit-1'', au_timestamp = 100, au_owner = demo_owner, au_actor = ActorOperator,
      au_action = ''gate.decided'', au_objects = [audit_object ''merge_gate'' ''gate-t1'', audit_object ''task'' ''t1''],
      au_outcome = AuditSuccess, au_args = [(''outcome'', ''accepted'')]\<rparr>"

lemma demo_accept_audit:
  "record_bounds demo_accept_record"
  "decision_audit demo_trust_env True (Some demo_owner) ''gate-t1'' None demo_gate = Inr demo_accept_record"
proof -
  show bounds: "record_bounds demo_accept_record"
    by (simp add: bounds_eval demo_owner_def)
  show "decision_audit demo_trust_env True (Some demo_owner) ''gate-t1'' None demo_gate = Inr demo_accept_record"
    unfolding decision_audit_def
    by (subst audit_record_ok) (simp_all add: gate_review_id_def bounds)
qed

lemma demo_accept_preflight:
  "decision_preflight demo_trust_env ''gate-t1'' True (Some demo_owner) [Binding ''e1'' demo_hash] ''ok'' demo_session
     = Inr (0, [Binding ''e1'' demo_hash], None)"
  using demo_verified [of demo_gate] demo_bindings [of demo_gate] plain_trim [of "''ok''"]
  by (simp add: decision_preflight_def Let_def check_acceptance_def demo_gate_at demo_dag_id plain_def
      guarded.simps ensure_def acceptance_report_def validator_check_def conflict_check_def conflict_pending_def
      ok_or_def owner_acceptance_def btree_def demo_owner_def default_owner_def)

lemma demo_success:
  assumes "ss_permissions s = demo_bypass" "preflight s = Inr x"
    and "\<And>p e. audit_of x (s\<lparr>ss_permissions := p, ss_transcript := e\<rparr>) = Inr r" "record_bounds r"
    and "\<And>p e. \<exists>es t. effect x (s\<lparr>ss_permissions := p, ss_transcript := e, ss_audit := ss_audit s @ [r]\<rparr>) = (Inr es, t)"
  shows "\<exists>es t. trust_operation demo_trust_env preflight action preview audit_of effect s = (Inr es, t)"
proof -
  have "\<exists>p e. trust_operation demo_trust_env preflight action preview audit_of effect s
     = effect x (s\<lparr>ss_permissions := p, ss_transcript := e, ss_audit := ss_audit s @ [r]\<rparr>)"
    by (rule demo_operation) (use assms in simp_all)
  with assms(5) show ?thesis by metis
qed

lemma touch_task_ok: "\<exists>es' t. touch_task clock i f es s = (Inr es', t)"
  by (simp add: touch_task_def split: option.split)

lemma demo_accept:
  "\<exists>es t. decide_merge_gate demo_trust_env ''gate-t1'' True (Some demo_owner) [Binding ''e1'' demo_hash] ''ok''
     demo_session = (Inr es, t)"
  unfolding decide_merge_gate_def Let_def demo_text
proof (rule demo_success [where x = "(0, [Binding ''e1'' demo_hash], None)" and r = demo_accept_record], goal_cases)
  case 2
  show ?case by (rule demo_accept_preflight)
next
  case (3 p e)
  show ?case using demo_accept_audit(2) by simp
next
  case 4
  show ?case by (rule demo_accept_audit(1))
next
  case (5 p e)
  show ?case by (auto simp: touch_task_ok split: prod.split)
qed simp

theorem accepted_gate_was_reviewed_witness:
  "permission_granted demo_trust_env ''accept_merge_gate'' ''gate=gate-t1'' demo_session
   \<and> rp_status (reduce_gate_status demo_gate [demo_evidence] demo_facts) = CanonVerified"
proof -
  obtain es t where "decide_merge_gate demo_trust_env ''gate-t1'' True (Some demo_owner)
      [Binding ''e1'' demo_hash] ''ok'' demo_session = (Inr es, t)"
    using demo_accept by blast
  from accepted_gate_was_reviewed [OF this] show ?thesis
    by (auto simp: demo_gate_at Let_def)
qed

section \<open>Reviews\<close>

lemma require_gate_frame:
  "require_gate (s\<lparr>ss_permissions := p, ss_transcript := l\<rparr>) i = require_gate s i"
  "require_gate (s\<lparr>ss_permissions := p, ss_transcript := l, ss_audit := a\<rparr>) i = require_gate s i"
  by (simp_all add: require_gate_def)

lemma reviewed_gate_validator:
  "mg_validator (reviewed_gate env rid verdict g) \<noteq> mg_validator g \<Longrightarrow>
   verdict = VerdictAccepted \<and> (\<exists>v. mg_validator g = Some v \<and> gv_review_request_id v = rid)"
  by (cases "mg_validator g") (auto simp: reviewed_gate_def split: if_splits)

lemma reviewed_gate_status [simp]: "mg_status (reviewed_gate env rid verdict g) = mg_status g"
  by (simp add: reviewed_gate_def)

text \<open>Asking for permission changes nothing of the permission engine but its allow rules, which only grow.\<close>

lemma require_permission_engine:
  "same_but_allow (se_engine (ss_permissions s))
     (se_engine (ss_permissions (snd (require_trust_permission env action preview context s))))"
proof -
  obtain d p n where ans: "trust_answer env action preview context s = (d, p, n)"
    by (cases "trust_answer env action preview context s")
  have "same_but_allow (se_engine (ss_permissions s)) (se_engine p)"
    using ans shared.loop_frame [of "ss_permissions s"] unfolding trust_answer_def resolve_permission_def shared_frame_def
    by (metis fst_conv snd_conv)
  then show ?thesis
    by (cases d; cases "te_transcript_io env")
      (simp_all add: require_trust_permission_def ans Let_def store_entry_cases op_bind_def)
qed

lemma trust_operation_engine:
  assumes "trust_operation env preflight action preview audit_of effect s = (Inr y, t)"
    and "\<And>x u z v. effect x u = (Inr z, v) \<Longrightarrow> ss_permissions v = ss_permissions u"
  shows "same_but_allow (se_engine (ss_permissions s)) (se_engine (ss_permissions t))"
proof -
  obtain x s1 r where op: "require_trust_permission env action preview None s = (Inr (), s1)"
      "effect x (s1\<lparr>ss_audit := ss_audit s1 @ [r]\<rparr>) = (Inr y, t)"
    using assms(1) unfolding trust_operation_Inr by blast
  have "ss_permissions t = ss_permissions s1"
    using assms(2) [OF op(2)] by simp
  with require_permission_engine [of s env action preview None] op(1) show ?thesis
    by simp
qed

text \<open>C24: A review is only decided once, by its reviewer's lane, and only while the evidence it was bound to
  still validates to exactly the same bindings, with permission granted. The decision changes of the
  review its status, feedback, audit id and time; of its gate the audit ids and the time, and the
  validator only when an accepted verdict of the validator's own review stamps it. Beside that the audit
  log has one record more, the transcript one entry, and the permission engine at most more allow rules:
  every other review and gate and everything else the session holds is what it was.\<close>

theorem review_decided_by_reviewer:
  assumes "decide_review env rid verdict feedback actor s = (Inr es, t)"
  shows "\<exists>i gi entry rec. i < length (ss_reviews s) \<and> require_gate s (rr_gate_id (ss_reviews s ! i)) = Inr gi
    \<and> (let r = ss_reviews s ! i; g = ss_gates s ! gi; r' = ss_reviews t ! i; g' = ss_gates t ! gi in
        rr_review_id r = rid \<and> rr_status r = ReviewPending
        \<and> ow_lane_id actor = Some (rr_reviewer_lane_id r)
        \<and> validated_bindings env s g (rr_evidence_ids r) = Inr (rr_evidence_bindings r)
        \<and> permission_granted env ''decide_review'' (''review='' @ rid @ '' verdict='' @ verdict_token verdict) s
        \<and> r' = r\<lparr>rr_status := status_of_verdict verdict, rr_feedback := rr_feedback r',
                 rr_audit_id := au_audit_id rec, rr_updated_at := te_clock env 1\<rparr>
        \<and> g' = g\<lparr>mg_validator := mg_validator g', mg_audit_ids := mg_audit_ids g @ [au_audit_id rec],
                 mg_updated_at := Some (te_clock env 1)\<rparr>
        \<and> (mg_validator g' \<noteq> mg_validator g \<longrightarrow> verdict = VerdictAccepted
            \<and> (\<exists>v. mg_validator g = Some v \<and> gv_review_request_id v = rid))
        \<and> au_action rec = ''review.decided''
        \<and> t = s\<lparr>ss_permissions := ss_permissions t, ss_transcript := ss_transcript s @ [entry], ss_audit := ss_audit s @ [rec],
                 ss_reviews := (ss_reviews s)[i := r'], ss_gates := (ss_gates s)[gi := g']\<rparr>)
    \<and> same_but_allow (se_engine (ss_permissions s)) (se_engine (ss_permissions t))"
proof -
  from assms obtain i body gi p entry rec where op:
      "decide_review_preflight env rid feedback actor s = Inr i"
      "permission_granted env ''decide_review'' (''review='' @ rid @ '' verdict='' @ verdict_token verdict) s"
      "require_gate s (rr_gate_id (ss_reviews s ! i)) = Inr gi"
      "au_audit_id rec = te_fresh env ''audit'' 0" "au_action rec = ''review.decided''"
      "t = s\<lparr>ss_permissions := p, ss_transcript := ss_transcript s @ [entry], ss_audit := ss_audit s @ [rec],
         ss_reviews := (ss_reviews s)[i := decided_review env verdict body (ss_reviews s ! i)],
         ss_gates := (ss_gates s)[gi := reviewed_gate env rid verdict (ss_gates s ! gi)]\<rparr>"
    unfolding decide_review_def Let_def
    by (elim trust_operation_done) (auto simp: try_then_Inr op_check_Inr update_gate_def require_gate_frame
        split: option.splits dest!: trust_audit_Inr)
  note pre = decide_review_preflight_Inr [OF op(1)]
  let ?r = "ss_reviews s ! i" and ?g = "ss_gates s ! gi"
  have "validated_bindings env s ?g (rr_evidence_ids ?r) = Inr (rr_evidence_bindings ?r)"
      "ow_lane_id actor = Some (rr_reviewer_lane_id ?r)"
    using pre op(3) by (auto simp: validate_review_decider_def guarded_ok)
  moreover have at: "ss_reviews t ! i = decided_review env verdict body ?r" "ss_gates t ! gi = reviewed_gate env rid verdict ?g"
    using pre require_gate_Ok [OF op(3)] by (simp_all add: op(6))
  moreover have "decided_review env verdict body ?r = ?r\<lparr>rr_status := status_of_verdict verdict,
      rr_feedback := rr_feedback (decided_review env verdict body ?r), rr_audit_id := au_audit_id rec, rr_updated_at := te_clock env 1\<rparr>"
    by (simp add: decided_review_def op(4))
  moreover have "reviewed_gate env rid verdict ?g = ?g\<lparr>mg_validator := mg_validator (reviewed_gate env rid verdict ?g),
      mg_audit_ids := mg_audit_ids ?g @ [au_audit_id rec], mg_updated_at := Some (te_clock env 1)\<rparr>"
    by (simp add: reviewed_gate_def op(4))
  moreover have "t = s\<lparr>ss_permissions := ss_permissions t, ss_transcript := ss_transcript s @ [entry], ss_audit := ss_audit s @ [rec],
         ss_reviews := (ss_reviews s)[i := ss_reviews t ! i], ss_gates := (ss_gates s)[gi := ss_gates t ! gi]\<rparr>"
    unfolding at by (simp add: op(6))
  moreover have "same_but_allow (se_engine (ss_permissions s)) (se_engine (ss_permissions t))"
    using assms unfolding decide_review_def Let_def
    by (rule trust_operation_engine) (auto simp: op_check_Inr update_gate_def split: prod.splits)
  ultimately show ?thesis
    using pre op(2,3,5) reviewed_gate_validator [of env rid verdict ?g]
    unfolding at by - (rule exI [of _ i], rule exI [of _ gi], rule exI [of _ entry], rule exI [of _ rec], unfold Let_def at, blast)
qed

definition demo_review :: review_request where
  "demo_review = \<lparr>rr_review_id = ''r1'', rr_gate_id = ''gate-t1'', rr_task_id = ''t1'',
     rr_requester_lane_id = ''lane-a'', rr_reviewer_lane_id = ''lane-b'', rr_owner = demo_owner,
     rr_evidence_ids = [''e1''], rr_evidence_bindings = [Binding ''e1'' demo_hash],
     rr_status = ReviewPending, rr_feedback = None, rr_audit_id = ''audit-0'', rr_updated_at = 1\<rparr>"

definition demo_reviewed :: session where
  "demo_reviewed = demo_session\<lparr>ss_reviews := [demo_review]\<rparr>"

abbreviation demo_reviewer :: runtime_owner where
  "demo_reviewer \<equiv> demo_owner\<lparr>ow_lane_id := Some ''lane-b''\<rparr>"

abbreviation demo_review_record :: audit_record where
  "demo_review_record \<equiv> \<lparr>au_audit_id = ''audit-1'', au_timestamp = 100, au_owner = demo_reviewer,
      au_actor = ActorOperator, au_action = ''review.decided'',
      au_objects = [audit_object ''review_request'' ''r1'', audit_object ''merge_gate'' ''gate-t1'',
        audit_object ''task'' ''t1'', audit_object ''lane'' ''lane-a'', audit_object ''lane'' ''lane-b''],
      au_outcome = AuditSuccess, au_args = [(''verdict'', ''accepted'')]\<rparr>"

lemma demo_review_bounds: "record_bounds demo_review_record"
  by (simp add: bounds_eval demo_owner_def)

lemma demo_review_preflight:
  "decide_review_preflight demo_trust_env ''r1'' None demo_reviewer demo_reviewed = Inr 0"
proof -
  have "validated_bindings demo_trust_env demo_reviewed demo_gate [''e1''] = Inr [Binding ''e1'' demo_hash]"
    using demo_bindings [of demo_gate] by (simp add: demo_reviewed_def validated_bindings_def session_gate_facts_def)
  moreover have "require_gate demo_reviewed ''gate-t1'' = Inr 0"
    using demo_gate_at by (simp add: demo_reviewed_def require_gate_def)
  ultimately show ?thesis
    by (simp add: decide_review_preflight_def guarded.simps ok_or_def demo_reviewed_def demo_review_def Let_def
        ensure_def validate_review_decider_def validate_owner_def validate_optional_id_def validate_trust_id_def
        map_err_def demo_owner_def default_owner_def bounds_eval)
qed

lemma demo_decides:
  "\<exists>es t. decide_review demo_trust_env ''r1'' VerdictAccepted None demo_reviewer demo_reviewed = (Inr es, t)"
  unfolding decide_review_def Let_def
proof (rule demo_success [where x = "(0, None)" and r = demo_review_record], goal_cases)
  case (3 p e)
  have "require_gate demo_reviewed ''gate-t1'' = Inr 0"
    using demo_gate_at by (simp add: demo_reviewed_def require_gate_def)
  then show ?case
    using demo_review_bounds
    by (simp add: require_gate_frame demo_reviewed_def demo_review_def) (subst audit_record_ok, simp_all)
next
  case (5 p e)
  have "require_gate demo_reviewed ''gate-t1'' = Inr 0"
    using demo_gate_at by (simp add: demo_reviewed_def require_gate_def)
  then show ?case
    by (simp add: op_check_def require_gate_frame) (simp add: demo_reviewed_def demo_review_def)
qed (simp_all add: demo_review_preflight demo_review_bounds, simp add: demo_reviewed_def)

theorem review_decided_by_reviewer_witness:
  "permission_granted demo_trust_env ''decide_review'' ''review=r1 verdict=accepted'' demo_reviewed"
proof -
  obtain es t where "decide_review demo_trust_env ''r1'' VerdictAccepted None demo_reviewer demo_reviewed = (Inr es, t)"
    using demo_decides by blast
  from review_decided_by_reviewer [OF this] show ?thesis
    by (auto simp: Let_def)
qed

end
