(* ===== verification/Read_Safety.thy ===== *)
theory Read_Safety
  imports Paged_Reads Decision_Safety
begin

text \<open>
  Bounds and completeness of what the runtime records and serves: audit appends, the three paged
  queries, redacted text, DAG validation and the evidence a gate counts.
\<close>

section \<open>Audit\<close>

text \<open>The audit log takes a record exactly when every field is within its bounds (ids and kinds in their
  charsets and lengths, at most 32 objects and 32 arguments, no argument that is too long, holds
  control characters or a parent step, or looks like a secret) and the file append works, and then
  it is appended at the end and nothing else changes.\<close>

lemma audit_append_bounded:
  "append_audit_record io r log = Ok log' \<longleftrightarrow>
     safe_identifier 128 (au_audit_id r) \<and> valid_action (au_action r) \<and> owner_bounds (au_owner r)
     \<and> length (au_objects r) \<le> 32
     \<and> (\<forall>ob\<in>set (au_objects r). valid_object_kind (ao_kind ob) \<and> safe_identifier 128 (ao_id ob))
     \<and> length (au_args r) \<le> 32
     \<and> (\<forall>(k, v)\<in>set (au_args r). valid_arg_key k \<and> length v \<le> 512 \<and> \<not> has_control_char v
          \<and> \<not> str_contains ''..'' v \<and> \<not> looks_like_secret v)
     \<and> (\<forall>i. au_actor r = ActorAgent i \<longrightarrow> safe_identifier 128 i)
     \<and> io = None \<and> log' = log @ [r]"
  by (simp add: append_audit_iff record_bounds_def arg_bounds_def case_prod_beta)

theorem audit_append_bounded_witness:
  "append_audit_record None demo_accept_record [] = Ok [demo_accept_record]"
  using audit_append_bounded [of None demo_accept_record "[]" "[demo_accept_record]"] demo_accept_audit(1)
  by (simp add: record_bounds_def arg_bounds_def case_prod_beta)

text \<open>C36: Following the cursors of an audit query from the newest page on ends, serves every record that
  matches the query exactly once, newest first, and no page holds more than the clamped limit; no
  record is skipped or repeated at a page boundary.\<close>

theorem audit_pages_complete:
  assumes "distinct (map audit_cursor log)"
  shows "(\<exists>pages. collect_pages (audit_read (log, q)) (Suc (length (audit_walk (log, q)))) None = Some pages
      \<and> concat pages = sort_desc audit_cursor (filter (audit_matches_query q) log))
    \<and> length (ap_records (audit_page log q)) \<le> audit_clamped_limit q \<and> audit_clamped_limit q \<le> 500"
proof (intro conjI)
  show "\<exists>pages. collect_pages (audit_read (log, q)) (Suc (length (audit_walk (log, q)))) None = Some pages
      \<and> concat pages = sort_desc audit_cursor (filter (audit_matches_query q) log)"
    using audit.pages_tile [of "(log, q)"] assms by (simp add: distinct_cursors_def audit_walk_def)
qed (simp_all add: audit_page_def Let_def audit_clamped_limit_def clamp_def max_audit_page_size_def)

definition demo_log :: "audit_record list" where
  "demo_log = map (\<lambda>n. \<lparr>au_audit_id = replicate n (CHR ''a''), au_timestamp = 7, au_owner = default_owner,
     au_actor = ActorSystem, au_action = ''gate.decided'', au_objects = [], au_outcome = AuditSuccess,
     au_args = []\<rparr>) [1, 2, 3]"

definition demo_audit_query :: audit_query where
  "demo_audit_query = \<lparr>aq_project_id = None, aq_lane_id = None, aq_object = None, aq_actor = None,
     aq_from = None, aq_until = None, aq_before = None, aq_limit = 2\<rparr>"

theorem audit_pages_complete_witness:
  "\<exists>pages. collect_pages (audit_read (demo_log, demo_audit_query)) (Suc (length (audit_walk (demo_log, demo_audit_query)))) None
     = Some pages \<and> concat pages = sort_desc audit_cursor (filter (audit_matches_query demo_audit_query) demo_log)"
proof -
  have "distinct (map audit_cursor demo_log)"
    by (simp add: demo_log_def audit_cursor_def numeral_eq_Suc)
  from audit_pages_complete [OF this] show ?thesis by blast
qed

section \<open>Evidence and transcript rows\<close>

text \<open>Following the text cursors of an evidence query ends and serves every matching row exactly once,
  oldest first (rows without a timestamp before the rest), at most 200 to a page: the cursor's
  text form loses nothing the order needs.\<close>

lemma evidence_pages_complete:
  assumes "distinct (map ev_id rows)" and "[] \<notin> ev_id ` set rows"
  shows "(\<exists>pages. collect_pages (evidence_read (rows, q)) (Suc (length (evidence_walk (rows, q)))) None = Some pages
      \<and> concat pages = sort_key evidence_cursor (filter (evidence_matches q) rows))
    \<and> length (pg_entries (evidence_page rows q)) \<le> evidence_clamped_limit q \<and> evidence_clamped_limit q \<le> 200"
proof (intro conjI)
  show "\<exists>pages. collect_pages (evidence_read (rows, q)) (Suc (length (evidence_walk (rows, q)))) None = Some pages
      \<and> concat pages = sort_key evidence_cursor (filter (evidence_matches q) rows)"
    using evidence.pages_tile [of "(rows, q)"] assms by (simp add: evidence_ids_ok_def evidence_walk_def)
qed (simp_all add: evidence_page_def Let_def evidence_clamped_limit_def max_evidence_page_size_def)

definition demo_evidence_query :: evidence_query where
  "demo_evidence_query = \<lparr>eq_owner = None, eq_kinds = [], eq_limit = 1, eq_after = None\<rparr>"

theorem evidence_pages_complete_witness:
  "\<exists>pages. collect_pages (evidence_read ([demo_evidence, demo_evidence\<lparr>ev_id := ''e2''\<rparr>], demo_evidence_query))
     (Suc (length (evidence_walk ([demo_evidence, demo_evidence\<lparr>ev_id := ''e2''\<rparr>], demo_evidence_query)))) None
     = Some pages"
  using evidence_pages_complete [of "[demo_evidence, demo_evidence\<lparr>ev_id := ''e2''\<rparr>]" demo_evidence_query] by auto

text \<open>Reading a session's transcript rows backwards page by page ends and serves every row of the scope
  exactly once, each page in reading order, at most 200 rows to a page.\<close>

lemma rows_pages_complete:
  assumes "distinct (map tr_id rows)" and "[] \<notin> tr_id ` set rows"
  shows "(\<exists>pages. collect_pages (rows_read (rows, q)) (Suc (length rows)) None = Some pages
      \<and> concat pages = rev (sort_key rows_cursor (filter (\<lambda>r. owner_scope_matches (rq_owner q) (tr_owner r)) rows)))
    \<and> length (rp_rows (transcript_rows_page rows q)) \<le> rows_clamped_limit q \<and> rows_clamped_limit q \<le> 200"
proof (intro conjI)
  have "length (rev (rows_scoped (rows, q))) - 0 < Suc (length rows)"
    by (simp add: rows_scoped_def le_imp_less_Suc)
  then show "\<exists>pages. collect_pages (rows_read (rows, q)) (Suc (length rows)) None = Some pages
      \<and> concat pages = rev (sort_key rows_cursor (filter (\<lambda>r. owner_scope_matches (rq_owner q) (tr_owner r)) rows))"
    using rows.collect_from [of "(rows, q)" None 0 "Suc (length rows)"] rows.remaining_start [of "(rows, q)"] assms
    by (simp add: row_ids_ok_def rows_scoped_def)
qed (auto simp: transcript_rows_page_def Let_def rows_clamped_limit_def max_transcript_rows_page_def)

definition demo_rows :: "transcript_row list" where
  "demo_rows = map (\<lambda>(i, n). \<lparr>tr_id = i, tr_owner = demo_owner, tr_sequence = n,
     tr_timestamp = None, tr_content = RowUser ''hi'' False\<rparr>) [(''r2'', 2), (''r1'', 1)]"

theorem rows_pages_complete_witness:
  "\<exists>pages. collect_pages (rows_read (demo_rows, \<lparr>rq_owner = demo_owner, rq_before = None, rq_limit = Some 1\<rparr>))
     (Suc (length demo_rows)) None = Some pages"
proof -
  have "distinct (map tr_id demo_rows)" "[] \<notin> tr_id ` set demo_rows"
    by (simp_all add: demo_rows_def)
  from rows_pages_complete [OF this] show ?thesis by blast
qed

section \<open>Redaction\<close>

lemma markers: "m \<in> set secret_markers \<Longrightarrow> CHR ''.'' \<notin> set m \<and> m \<noteq> []"
  using marker_no_space by blast

text \<open>C37: No secret marker (secret, token=, api_key, apikey, in any case) survives redaction: not in the text
  of a decision or a goal, not in an evidence summary or source, whatever the input and wherever
  the text is cut off afterwards.\<close>

theorem redacted_text_holds_no_marker:
  assumes "m \<in> set secret_markers"
  shows "\<not> str_contains m (to_ascii_lowercase (sanitize_runtime_domain_text v n))
    \<and> \<not> str_contains m (to_ascii_lowercase (sanitize_evidence_summary v))
    \<and> \<not> str_contains m (to_ascii_lowercase (sanitize_evidence_source v))"
  using truncate_clean [OF redact_clean [OF assms]] markers [OF assms]
  by (simp add: sanitize_runtime_domain_text_def sanitize_evidence_summary_def sanitize_evidence_source_def)

theorem redacted_text_holds_no_marker_witness:
  "\<not> str_contains ''token='' (to_ascii_lowercase (sanitize_runtime_domain_text ''use TOKEN=abc now'' 240))"
  using redacted_text_holds_no_marker [of "''token=''" "''use TOKEN=abc now''" 240] by (simp add: secret_markers_def)

text \<open>The test for a diff header looks at the raw text, the words are joined with single spaces: a
  header spelt with two spaces comes out as the header the test was for.\<close>

lemma spaced_diff_header_passes: "redact_command_text ''diff  --git x y'' = ''diff --git x y''"
  by (simp add: redact_command_text_def split_whitespace_def is_cont_def redact_word_def word_is_sensitive_def
      is_whitespace_char_def to_ascii_lowercase_def is_ascii_uppercase_def Let_def secret_markers_def
      starts_with_def has_control_char_def is_control_char_def)

section \<open>DAGs\<close>

text \<open>C38: A DAG is accepted exactly when its task ids are distinct, every dependency names one of its tasks
  and the dependency relation has no cycle; the search the code makes for every edge (an explicit
  stack and a visited set) ends and decides exactly this.\<close>

theorem dag_accepted_iff_acyclic:
  "validate_agent_dag_tasks tasks = Ok () \<longleftrightarrow>
     distinct (map sp_task_id tasks)
     \<and> (\<forall>t\<in>set tasks. \<forall>d\<in>set (sp_dependencies t). d \<in> sp_task_id ` set tasks)
     \<and> acyclic {(sp_task_id t, d) | t d. t \<in> set tasks \<and> d \<in> set (sp_dependencies t)}"
  using validate_dag_iff [of tasks] depends_spec [of tasks] by (auto simp: subset_iff)

theorem dag_accepted_iff_acyclic_witness:
  "validate_agent_dag_tasks [demo_spec ''t1'' [''t1'']] \<noteq> Ok ()"
proof -
  have "\<not> acyclic {(sp_task_id t, d) | t d. t \<in> set [demo_spec ''t1'' [''t1'']] \<and> d \<in> set (sp_dependencies t)}"
    by (auto simp: demo_spec_def acyclic_def)
  then show ?thesis
    using dag_accepted_iff_acyclic [of "[demo_spec ''t1'' [''t1'']]"] by blast
qed

section \<open>Evidence of a gate\<close>

text \<open>The evidence of a gate reduces to verified exactly when the gate requires something, every row
  attached to it that is of a required kind carries a canonical reference that counts (its bytes
  are in the store under the hash and scope it names, its bundle exists, its permission receipt
  and producer are of the gate's task, its quality did not fail, it is marked verified), and every
  required kind has such a row.\<close>

lemma gate_verified_iff:
  "rp_status (reduce_gate_status g es f) = CanonVerified \<longleftrightarrow>
     mg_required_evidence g \<noteq> []
     \<and> (\<forall>e\<in>set (counted_evidence g es). \<exists>c. ev_canonical e = Some c \<and> reference_counts g f c)
     \<and> (\<forall>k\<in>set (mg_required_evidence g). \<exists>e\<in>set (counted_evidence g es).
          canonical_required_kind (ev_kind e) = canonical_required_kind k)"
  by (rule reduce_verified_iff)

theorem gate_verified_iff_witness:
  "rp_status (reduce_gate_status (demo_gate\<lparr>mg_required_evidence := []\<rparr>) [demo_evidence] demo_facts) \<noteq> CanonVerified"
  by (subst gate_verified_iff) simp

end
