(* ===== verification/Trust_Safety.thy ===== *)
theory Trust_Safety
  imports Decision_Safety
begin

text \<open>
  What holds of every session that commands can reach, what a rejected command leaves, and where
  the command boundary and the operation behind it agree.
\<close>

section \<open>Reachable sessions\<close>

abbreviation demo_unfrozen :: session where
  "demo_unfrozen \<equiv> demo_session\<lparr>ss_gates := []\<rparr>"

abbreviation demo_freeze :: trust_command where
  "demo_freeze \<equiv> ConfirmContract ''c1'' ''t1'' demo_owner ''frozen'' ContractConfirmed"

definition demo_reached :: session where
  "demo_reached = snd (handle_trust_command demo_trust_env demo_freeze demo_unfrozen)"

lemma demo_reached: "reachable {demo_trust_env} demo_reached"
  unfolding demo_reached_def
  by (intro reachable.command reachable.start) (simp_all add: fresh_session_def demo_session_def)

abbreviation demo_contract_record :: audit_record where
  "demo_contract_record \<equiv> \<lparr>au_audit_id = ''audit-1'', au_timestamp = 100, au_owner = demo_owner,
      au_actor = ActorOperator, au_action = ''contract.confirmed'',
      au_objects = [audit_object ''contract'' ''c1'', audit_object ''task'' ''t1''],
      au_outcome = AuditSuccess, au_args = [(''decision'', ''confirmed'')]\<rparr>"

lemma demo_contract_bounds: "record_bounds demo_contract_record"
  by (simp add: bounds_eval demo_owner_def)

lemma demo_summary: "validate_trust_text name ''frozen'' 500 = Ok ''frozen''"
  by (simp add: validate_trust_text_def plain_trim [of "''frozen''"] plain_def has_control_char_def
      plain_chars is_control_char_def truncate_for_preview_def Let_def)

lemma demo_contract_ids:
  "validate_trust_id n ''c1'' = Ok ()" "validate_trust_id n ''t1'' = Ok ()"
  "validate_owner demo_owner (ow_lane_id demo_owner) ''t1'' = Ok ()"
  by (simp_all add: validate_owner_def validate_optional_id_def validate_trust_id_def guarded.simps ensure_def
      map_err_def demo_owner_def default_owner_def bounds_eval)

lemma demo_contract_preflight:
  "contract_preflight ''c1'' ''t1'' demo_owner ''frozen'' demo_unfrozen = Ok ''frozen''"
  by (simp add: contract_preflight_def demo_contract_ids demo_summary guarded.simps require_runtime_task_def
      ensure_def ensure_unique_def) (simp add: demo_session_def)

lemma demo_contract_valid:
  "validate_trust_command demo_trust_env demo_unfrozen demo_freeze
     = Ok (Some (''confirm_contract'', ''task=t1 contract=c1''))"
  by (simp add: described_def text_check_def demo_contract_ids demo_summary guarded.simps require_runtime_task_def
      ensure_def ensure_unique_def try_then_def) (simp add: demo_session_def)

lemma demo_confirms:
  "\<exists>es t. confirm_contract demo_trust_env ''c1'' ''t1'' demo_owner ''frozen'' ContractConfirmed demo_unfrozen
     = (Inr es, t)"
  unfolding confirm_contract_def Let_def
proof (rule demo_success [where x = "''frozen''" and r = demo_contract_record], goal_cases)
  case 2
  show ?case by (rule demo_contract_preflight)
next
  case (3 p e)
  show ?case using demo_contract_bounds by (simp add: audit_record_ok)
next
  case 4
  show ?case by (rule demo_contract_bounds)
qed auto

lemma demo_reached_contracts: "\<exists>c. ss_contracts demo_reached = [c]"
proof -
  obtain es t where run: "confirm_contract demo_trust_env ''c1'' ''t1'' demo_owner ''frozen'' ContractConfirmed
      demo_unfrozen = (Inr es, t)"
    using demo_confirms by blast
  have "ss_contracts demo_unfrozen = []"
    by (simp add: demo_session_def)
  with run obtain c where "es = [ContractUpdated c]" "ss_contracts t = [c]"
    unfolding confirm_contract_def Let_def by (elim trust_operation_done) auto
  with run show ?thesis
    unfolding demo_reached_def handle_trust_command_def demo_contract_valid
    by (simp add: op_bind_def
        persist_domain_events_def persist_batch_def op_check_def projection_event_cap_def guarded.simps ensure_def)
qed

text \<open>C28: In every session that the trust commands can reach, under any interleaving with permission questions,
  context writes and finished agent tasks, each trust fact names the audit record that carries it:
  handoffs, reviews, contracts, dependencies and conflicts by the id, action and object of a record
  in the audit log, and every accepting decision of a gate by its record. The commands that merge a patch
  or revert one are not steps of these sessions (a merge decides a gate without a record, lemma
  merge_leaves_no_audit_record of Applied_Limits), and revert records are not covered.\<close>

theorem reachable_facts_audited:
  assumes "reachable envs s"
  shows "(\<forall>h\<in>set (ss_handoffs s). audited (set (ss_audit s)) (ho_audit_id h) ''handoff.created''
            (audit_object ''handoff'' (ho_handoff_id h)))
    \<and> (\<forall>r\<in>set (ss_reviews s). \<exists>action\<in>{''review.requested'', ''review.decided''}.
          audited (set (ss_audit s)) (rr_audit_id r) action (audit_object ''review_request'' (rr_review_id r)))
    \<and> (\<forall>c\<in>set (ss_contracts s). audited (set (ss_audit s)) (co_audit_id c) ''contract.confirmed''
          (audit_object ''contract'' (co_contract_id c)))
    \<and> (\<forall>d\<in>set (ss_dependencies s). audited (set (ss_audit s)) (de_audit_id d) ''dependency.set''
          (audit_object ''dependency'' (de_dependency_id d)))
    \<and> (\<forall>c\<in>set (ss_conflicts s). audited (set (ss_audit s)) (bo_audit_id c) ''conflict.bounced''
          (audit_object ''merge_gate'' (bo_gate_id c)))
    \<and> (\<forall>g\<in>set (ss_gates s). \<forall>d. mg_decision g = Some d \<and> gd_outcome d = OutcomeAccepted \<longrightarrow>
          audited (set (ss_audit s)) (gd_audit_id d) ''gate.decided'' (audit_object ''merge_gate'' (mg_gate_id g)))"
  using reachable_inv [OF assms]
  by (auto simp: trust_inv_def lists_ok_def handoff_ok_def review_ok_def contract_ok_def dependency_ok_def
      conflict_ok_def gate_ok_def)

theorem reachable_facts_audited_witness:
  "\<exists>c. ss_contracts demo_reached = [c] \<and>
     audited (set (ss_audit demo_reached)) (co_audit_id c) ''contract.confirmed''
       (audit_object ''contract'' (co_contract_id c))"
  using reachable_facts_audited [OF demo_reached] demo_reached_contracts by auto

text \<open>In every reachable session reviews are independent: the reviewer's lane is not the requester's,
  a review is bound to the evidence it was asked about, every gate's validator is marked independent
  and its review is on record, and the ids of handoffs, reviews, contracts and dependencies are
  unique.\<close>

theorem reachable_reviews_independent:
  assumes "reachable envs s"
  shows "(\<forall>r\<in>set (ss_reviews s). rr_requester_lane_id r \<noteq> rr_reviewer_lane_id r \<and> rr_evidence_ids r \<noteq> []
            \<and> eb_evidence_id ` set (rr_evidence_bindings r) = set (rr_evidence_ids r))
    \<and> (\<forall>g\<in>set (ss_gates s). \<forall>v. mg_validator g = Some v \<longrightarrow> gv_independent v
          \<and> gv_review_request_id v \<in> rr_review_id ` set (ss_reviews s))
    \<and> ids_unique s"
  using reachable_inv [OF assms]
  by (auto simp: trust_inv_def lists_ok_def review_ok_def gate_ok_def review_ids_def)

theorem reachable_reviews_independent_witness: "ids_unique demo_reached"
  using reachable_reviews_independent [OF demo_reached] by blast

text \<open>No audit fact without a grant: in every reachable session the audit log holds at most as many
  records as the transcript holds allowances.\<close>

theorem audit_bounded_by_grants:
  assumes "reachable envs s"
  shows "length (ss_audit s) \<le> length (filter (\<lambda>l. pl_decision l = ''allow'') (ss_transcript s))"
  using reachable_inv [OF assms] by (simp add: trust_inv_def allowances_def)

theorem audit_bounded_by_grants_witness:
  "length (ss_audit demo_reached) \<le> length (filter (\<lambda>l. pl_decision l = ''allow'') (ss_transcript demo_reached))"
  by (rule audit_bounded_by_grants [OF demo_reached])

section \<open>Rejected commands\<close>

text \<open>C29: A rejected command leaves the domain exactly as it was (tasks, DAGs, gates, evidence, handoffs,
  reviews, contracts, dependencies, conflicts, reverts), whichever step failed: validation, the
  operation's own checks, permission, the audit append or the persistence of its events. Only the
  permission engine may have changed, and the transcript and the audit log have only grown, by no
  more audit records than allowances.\<close>

theorem rejected_command_restores_domain:
  assumes "handle_trust_command env c s = (CommandRejected e, t)"
  shows "\<exists>p es rs. t = s\<lparr>ss_permissions := p, ss_transcript := ss_transcript s @ es, ss_audit := ss_audit s @ rs\<rparr>
    \<and> length rs \<le> length (filter (\<lambda>l. pl_decision l = ''allow'') es)"
proof -
  obtain rs es where grown: "ss_audit t = ss_audit s @ rs" "ss_transcript t = ss_transcript s @ es"
      "length rs \<le> length (filter (\<lambda>l. pl_decision l = ''allow'') es)"
    and same: "ss_disk t = ss_disk s" "ss_bundles t = ss_bundles s" "ss_cwd t = ss_cwd s"
    using command_trail [of s env c] assms by (auto simp: trail_def)
  have "restore_domain s t = t"
    using assms by (auto simp: handle_command_eq restore_domain_def split: sum.splits prod.splits)
  then have "t = s\<lparr>ss_permissions := ss_permissions t, ss_transcript := ss_transcript t, ss_audit := ss_audit t\<rparr>"
    using same by (cases s; cases t) (simp add: restore_domain_def)
  with grown show ?thesis by metis
qed

lemma demo_rejected:
  "handle_trust_command demo_trust_env (RejectMergeGate ''gate-t9'' demo_owner ''no'') demo_session
     = (CommandRejected ''merge gate `gate-t9` does not exist'', demo_session)"
proof -
  have "preflight_reject_merge_gate ''gate-t9'' demo_owner demo_session
      = Inl ''merge gate `gate-t9` does not exist''"
    by (simp add: preflight_reject_merge_gate_def require_gate_def ok_or_def try_then_def)
  moreover have "text_check ''merge gate decision'' (Some ''no'') 240 = Ok ()"
    by (simp add: text_check_def validate_trust_text_def Let_def plain_trim [of "''no''"] plain_def has_control_char_def
        plain_chars is_control_char_def)
  ultimately show ?thesis
    by (simp add: handle_trust_command_def described_def guarded.simps)
qed

theorem rejected_command_restores_domain_witness:
  "snd (handle_trust_command demo_trust_env (RejectMergeGate ''gate-t9'' demo_owner ''no'') demo_session)
     = demo_session"
  using rejected_command_restores_domain [OF demo_rejected] by (auto simp: demo_rejected)

section \<open>The boundary and the operation agree\<close>

text \<open>In a reachable session the acceptance of a gate that the command boundary describes and the one
  the operation checks are the same: the preflight passes exactly when the operation's own check
  does, although the two are written separately and test the independent validator under different
  conditions.\<close>

theorem acceptance_preflight_agrees:
  assumes "reachable envs s" and "require_gate s gate = Inr i"
  shows "preflight_accept_merge_gate env gate actor reviewed s = Inr ()
    \<longleftrightarrow> is_ok (check_acceptance env gate (Some actor) reviewed (ss_gates s ! i) s)"
proof -
  let ?g = "ss_gates s ! i"
  have "i < length (ss_gates s)"
    using require_gate_Ok [OF assms(2)] by simp
  from inv_gate_at [OF reachable_inv [OF assms(1)] this]
  have independent: "gv_independent v" if "mg_validator ?g = Some v" for v
    using that by (simp add: gate_ok_def)
  show ?thesis
  proof (cases "mg_validator ?g")
    case None
    then show ?thesis
      using assms(2)
      by (auto simp: preflight_accept_merge_gate_def check_acceptance_def Let_def is_ok_iff guarded_Inr
          try_then_Inr ok_or_Inr validator_check_def ensure_Inr independent_validator_def)
  next
    case (Some v)
    with independent [OF Some] show ?thesis
      using assms(2)
      by (auto simp: preflight_accept_merge_gate_def check_acceptance_def Let_def is_ok_iff guarded_Inr
          try_then_Inr ok_or_Inr validator_check_def ensure_Inr independent_validator_def)
  qed
qed

definition demo_gated :: session where
  "demo_gated = snd (handle_trust_command demo_trust_env (StartAgentDag ''goal'' [demo_spec ''t1'' []])
     (demo_session\<lparr>ss_gates := []\<rparr>))"

lemma demo_gated_reached: "reachable {demo_trust_env} demo_gated"
  unfolding demo_gated_def
  by (intro reachable.command reachable.start) (simp_all add: fresh_session_def demo_session_def)

lemma demo_dag_ok: "dag_preflight [demo_spec ''t1'' []] = Inr [sanitize_task_spec (demo_spec ''t1'' [])]"
proof -
  have "depends (spec_edges [sanitize_task_spec (demo_spec ''t1'' [])]) = {}"
    by (subst depends_spec) (simp_all add: demo_spec_def)
  then have "validate_agent_dag_tasks [sanitize_task_spec (demo_spec ''t1'' [])] = Ok ()"
    by (simp add: validate_dag_iff demo_spec_def acyclic_def)
  then show ?thesis
    by (simp add: dag_preflight_def guarded.simps ensure_def)
qed

lemma demo_gated_gates: "require_gate demo_gated ''gate-t1'' = Inr 0"
proof -
  let ?g = "gate_from_spec (sanitize_task_spec (demo_spec ''t1'' [])) 100"
  have "mg_gate_id ?g = ''gate-t1''"
    by (simp add: gate_from_spec_def demo_spec_def)
  moreover have "ss_gates demo_gated = [?g]"
    by (simp add: demo_gated_def handle_command_eq run_and_persist_def start_agent_dag_def demo_dag_ok op_check_def
        op_bind_def dag_step_def Let_def persist_domain_events_def persist_batch_def guarded.simps ensure_def
        projection_event_cap_def)
  ultimately show ?thesis
    by (simp add: require_gate_def ok_or_def)
qed

theorem acceptance_preflight_agrees_witness:
  "preflight_accept_merge_gate demo_trust_env ''gate-t1'' demo_owner [] demo_gated = Inr ()
   \<longleftrightarrow> is_ok (check_acceptance demo_trust_env ''gate-t1'' (Some demo_owner) [] (ss_gates demo_gated ! 0) demo_gated)"
  by (rule acceptance_preflight_agrees [OF demo_gated_reached demo_gated_gates])

end
