(* ===== verification/Conflict_Safety.thy ===== *)
theory Conflict_Safety
  imports Trust_Safety Decision_Safety
begin

text \<open>
  Dependencies, conflicts and recorded evidence: which edges a dependency may add, what resolves a
  conflict, what recorded evidence makes of a gate, and two runs in which a gate loses what was
  decided about it.
\<close>

section \<open>Dependencies\<close>

text \<open>The edges that block a task: those of the DAGs and the blocked dependencies.\<close>

definition live_edges :: "session \<Rightarrow> (string \<times> string) set" where
  "live_edges s = depends (dag_edges (ss_dags s))
     \<union> {(de_task_id d, de_depends_on_task_id d) | d. d \<in> set (ss_dependencies s) \<and> de_state d = DepBlocked}"

lemma depends_fold:
  "depends (fold (\<lambda>d es. if de_dependency_id d \<noteq> did \<and> de_state d = DepBlocked
     then extend_edges (de_task_id d) [de_depends_on_task_id d] es else es) deps es)
   = depends es \<union> {(de_task_id d, de_depends_on_task_id d) | d.
       d \<in> set deps \<and> de_dependency_id d \<noteq> did \<and> de_state d = DepBlocked}"
proof (induction deps arbitrary: es)
  case (Cons d deps)
  then show ?case
    by (auto simp: depends_extend)
qed simp

lemma depends_dependency_edges:
  "depends (dependency_edges did dags deps) = depends (dag_edges dags)
     \<union> {(de_task_id d, de_depends_on_task_id d) | d. d \<in> set deps \<and> de_dependency_id d \<noteq> did \<and> de_state d = DepBlocked}"
  by (simp add: dependency_edges_def depends_fold)

lemma set_dependency_done:
  assumes "set_dependency env did task on ow st reason s = (Inr es, t)"
  shows "validate_dependency_mutation did task on st s = Inr ()
    \<and> permission_granted env ''set_dependency'' (''task='' @ task @ '' dependency='' @ on @ '' state='' @ dependency_state_debug st) s
    \<and> ss_dags t = ss_dags s
    \<and> (\<exists>d. de_dependency_id d = did \<and> de_task_id d = task \<and> de_depends_on_task_id d = on \<and> de_state d = st
        \<and> ss_dependencies t = upsert_dependency d (ss_dependencies s))"
  using assms unfolding set_dependency_def Let_def
  by (elim trust_operation_done) (force dest: dependency_preflight_Inr touch_task_Inr)

text \<open>C25: Setting a dependency keeps the graph that blocks tasks acyclic: if the edges of the DAGs and of
  the blocked dependencies form no cycle, they form none after any successful set_dependency,
  whether it blocks, unblocks or replaces an edge.\<close>

theorem set_dependency_keeps_acyclic:
  assumes "set_dependency env did task on ow st reason s = (Inr es, t)" and "acyclic (live_edges s)"
  shows "acyclic (live_edges t)"
proof -
  from set_dependency_done [OF assms(1)] obtain d where d: "de_dependency_id d = did" "de_task_id d = task"
      "de_depends_on_task_id d = on" "de_state d = st" "ss_dags t = ss_dags s"
      "ss_dependencies t = upsert_dependency d (ss_dependencies s)"
      and valid: "validate_dependency_mutation did task on st s = Inr ()"
    by blast
  have kept: "x \<in> set (ss_dependencies t) \<Longrightarrow> x = d \<or> x \<in> set (ss_dependencies s)" for x
    using set_upsert_by [of de_dependency_id d "ss_dependencies s"] by (auto simp: d(6) upsert_dependency_def)
  show ?thesis
  proof (cases st)
    case DepUnblocked
    then have "x \<in> set (ss_dependencies s)" if "x \<in> set (ss_dependencies t)" "de_state x = DepBlocked" for x
      using kept [OF that(1)] d(4) that(2) by auto
    then have "live_edges t \<subseteq> live_edges s"
      using d(5) by (auto simp: live_edges_def)
    then show ?thesis
      using acyclic_subset assms(2) by blast
  next
    case DepBlocked
    let ?old = "depends (dependency_edges did (ss_dags s) (ss_dependencies s))"
    have "(on, task) \<notin> (insert (task, on) ?old)\<^sup>*"
      using valid DepBlocked
      by (auto simp: validate_dependency_mutation_def Let_def guarded_Inr ensure_Inr path_exists_iff depends_extend)
    then have "(on, task) \<notin> ?old\<^sup>*"
      by (meson rtrancl_mono subsetD subset_insertI)
    moreover have "?old \<subseteq> live_edges s"
      by (auto simp: depends_dependency_edges live_edges_def)
    then have "acyclic ?old"
      using assms(2) acyclic_subset by blast
    ultimately have "acyclic (insert (task, on) ?old)"
      by simp
    moreover have "de_task_id x = task \<and> de_depends_on_task_id x = on"
      if "x \<in> set (ss_dependencies t)" "de_dependency_id x = did" for x
      using kept [OF that(1)] that(2) valid d(2,3)
      by (auto simp: validate_dependency_mutation_def Let_def guarded_Inr ball_Un)
    then have "live_edges t \<subseteq> insert (task, on) ?old"
      using kept d(1,5) by (auto simp: live_edges_def depends_dependency_edges)
    ultimately show ?thesis
      using acyclic_subset by blast
  qed
qed

abbreviation demo_waiter :: runtime_owner where
  "demo_waiter \<equiv> demo_owner\<lparr>ow_task_id := Some ''t2''\<rparr>"

abbreviation demo_dependency_record :: audit_record where
  "demo_dependency_record \<equiv> \<lparr>au_audit_id = ''audit-1'', au_timestamp = 100, au_owner = demo_waiter,
      au_actor = ActorOperator, au_action = ''dependency.set'',
      au_objects = [audit_object ''dependency'' ''d1'', audit_object ''task'' ''t2'', audit_object ''task'' ''t1''],
      au_outcome = AuditSuccess, au_args = [(''state'', ''blocked'')]\<rparr>"

lemma demo_dag_edges: "dag_edges [demo_dag] = [(''t1'', []), (''t2'', [''t1''])]"
  by (simp add: dag_edges_def demo_dag_def demo_spec_def)

lemma demo_dependency_preflight:
  "dependency_preflight ''d1'' ''t2'' ''t1'' demo_waiter DepBlocked ''wait'' demo_session = Inr ''wait''"
proof -
  have "validate_trust_text ''dependency reason'' ''wait'' 240 = Inr ''wait''"
    by (simp add: validate_trust_text_def Let_def plain_trim [of "''wait''"] plain_def has_control_char_def
        plain_chars is_control_char_def truncate_for_preview_def)
  moreover have "validate_dependency_mutation ''d1'' ''t2'' ''t1'' DepBlocked demo_session = Inr ()"
    by (simp add: validate_dependency_mutation_def dependency_edges_def demo_dag_edges guarded.simps ensure_def
        require_runtime_task_def map_err_def dependency_path_exists_def succs_def)
  ultimately show ?thesis
    by (simp add: dependency_preflight_def guarded.simps ensure_def validate_owner_def validate_optional_id_def
        validate_trust_id_def map_err_def demo_owner_def bounds_eval)
qed

lemma demo_sets_dependency:
  "\<exists>es t. set_dependency demo_trust_env ''d1'' ''t2'' ''t1'' demo_waiter DepBlocked ''wait'' demo_session = (Inr es, t)"
  unfolding set_dependency_def Let_def
proof (rule demo_success [where x = "''wait''" and r = demo_dependency_record], goal_cases)
  case (3 p e)
  have "record_bounds demo_dependency_record"
    by (simp add: bounds_eval demo_owner_def)
  then show ?case by (subst audit_record_ok) simp_all
next
  case 4
  show ?case by (simp add: bounds_eval demo_owner_def)
qed (simp_all add: demo_dependency_preflight touch_task_ok)

theorem set_dependency_keeps_acyclic_witness:
  "acyclic (live_edges (snd (set_dependency demo_trust_env ''d1'' ''t2'' ''t1'' demo_waiter DepBlocked ''wait'' demo_session)))"
proof -
  obtain es t where run: "set_dependency demo_trust_env ''d1'' ''t2'' ''t1'' demo_waiter DepBlocked ''wait'' demo_session = (Inr es, t)"
    using demo_sets_dependency by blast
  have "live_edges demo_session = {(''t2'', ''t1'')}"
    by (auto simp: live_edges_def demo_dag_edges depends_def in_succs split: if_splits)
  moreover have "acyclic ({} :: (string \<times> string) set)"
    by (simp add: acyclic_def)
  ultimately have "acyclic (live_edges demo_session)"
    by simp
  from set_dependency_keeps_acyclic [OF run this] show ?thesis
    by (simp add: run)
qed

section \<open>Conflicts\<close>

text \<open>C26: A bounced conflict is only revalidated by its origin lane, with evidence that is on record,
  validates against the stored bytes, was produced by that lane and whose hash differs from every
  hash of the baseline; the conflict was pending, permission was granted, and afterwards the gate
  holds the conflict as revalidated by exactly this evidence and has to be decided again.\<close>

theorem revalidation_needs_changed_receipt:
  assumes "revalidate_merge_conflict env gate bid actor b s = (Inr es, t)"
  shows "\<exists>i c e r. require_gate s gate = Inr i \<and> mg_conflict (ss_gates s ! i) = Some c
    \<and> bo_bounce_id c = bid \<and> bo_status c = ConflictPending
    \<and> actor = bo_owner c \<and> ow_lane_id actor = Some (bo_original_lane_id c)
    \<and> (\<forall>x\<in>set (bo_baseline_evidence c). eb_source_hash x \<noteq> eb_source_hash b)
    \<and> find (\<lambda>e. ev_id e = eb_evidence_id b) (ss_evidence s) = Some e \<and> ev_canonical e = Some r
    \<and> reference_counts (ss_gates s ! i) (session_gate_facts env s) r
    \<and> eb_source_hash b = cr_source_hash r \<and> ep_identity (cr_producer r) = bo_original_lane_id c
    \<and> permission_granted env ''revalidate_merge_conflict'' (''gate='' @ gate @ '' bounce='' @ bid) s
    \<and> (\<exists>c'. mg_conflict (ss_gates t ! i) = Some c' \<and> bo_status c' = ConflictRevalidated
         \<and> bo_revalidation_evidence c' = [b])
    \<and> mg_status (ss_gates t ! i) = GateCollectingEvidence"
proof -
  from assms obtain i k where op:
      "validate_conflict_revalidation env gate bid actor b s = Inr (i, k)"
      "permission_granted env ''revalidate_merge_conflict'' (''gate='' @ gate @ '' bounce='' @ bid) s"
      "ss_gates t = (ss_gates s)[i := revalidated_gate env actor (revalidated (te_clock env 1) b (ss_conflicts s ! k))
         (ss_gates s ! i)]"
    unfolding revalidate_merge_conflict_def
    by (elim trust_operation_done) (auto simp: Let_def update_gate_def)
  have i: "i < length (ss_gates s)"
    using revalidation_Inr [OF op(1)] by simp
  obtain c where c: "require_gate s gate = Inr i" "mg_conflict (ss_gates s ! i) = Some c" "bo_bounce_id c = bid"
      "bo_status c = ConflictPending" "actor = bo_owner c" "ow_lane_id actor = Some (bo_original_lane_id c)"
      "\<forall>x\<in>set (bo_baseline_evidence c). eb_source_hash x \<noteq> eb_source_hash b"
      and bind: "validated_bindings env s (ss_gates s ! i) [eb_evidence_id b] = Inr [b]"
      and stored: "\<exists>e r. find (\<lambda>e. ev_id e = eb_evidence_id b) (ss_evidence s) = Some e \<and> ev_canonical e = Some r
         \<and> ep_identity (cr_producer r) = bo_original_lane_id c"
    using op(1) unfolding validate_conflict_revalidation_def
    by (auto simp: guarded_Inr try_then_Inr ok_or_Inr Let_def bind_eq_Some_conv)
  have "bind_evidence (ss_gates s ! i) (session_gate_facts env s) (ss_evidence s) (eb_evidence_id b) = Inr b"
    using validated_bindings_Ok(1) [OF bind, of b] by simp
  then obtain e r where "find (\<lambda>e. ev_id e = eb_evidence_id b) (ss_evidence s) = Some e" "ev_canonical e = Some r"
      "reference_counts (ss_gates s ! i) (session_gate_facts env s) r" "eb_source_hash b = cr_source_hash r"
    by (metis bind_evidence_Ok evidence_binding.sel(2))
  with c stored op(2,3) i show ?thesis
    by (intro exI [of _ i] exI [of _ c] exI [of _ e] exI [of _ r])
      (auto simp: revalidated_gate_def revalidated_def)
qed

definition demo_conflict :: conflict_bounce where
  "demo_conflict = \<lparr>bo_bounce_id = ''c1'', bo_gate_id = ''gate-t1'', bo_task_id = ''t1'',
     bo_original_lane_id = ''lane-a'', bo_owner = demo_owner, bo_reason = ''conflict'',
     bo_status = ConflictPending, bo_evidence_ids = [''e0''],
     bo_baseline_evidence = [Binding ''e0'' (demo_sha [])], bo_revalidation_evidence = [],
     bo_content = None, bo_audit_id = ''audit-0'', bo_created_at = 1, bo_revalidated_at = None\<rparr>"

definition demo_conflicted :: session where
  "demo_conflicted = demo_session\<lparr>ss_conflicts := [demo_conflict],
     ss_gates := [demo_gate\<lparr>mg_conflict := Some demo_conflict\<rparr>]\<rparr>"

abbreviation demo_revalidation_record :: audit_record where
  "demo_revalidation_record \<equiv> \<lparr>au_audit_id = ''audit-1'', au_timestamp = 100, au_owner = demo_owner,
      au_actor = ActorOperator, au_action = ''conflict.revalidated'',
      au_objects = [audit_object ''merge_gate'' ''gate-t1'', audit_object ''task'' ''t1'',
        audit_object ''conflict'' ''c1'', audit_object ''evidence'' ''e1''],
      au_outcome = AuditSuccess, au_args = [(''status'', ''revalidated'')]\<rparr>"

lemma demo_revalidation_preflight:
  "validate_conflict_revalidation demo_trust_env ''gate-t1'' ''c1'' demo_owner (Binding ''e1'' demo_hash) demo_conflicted
     = Inr (0, 0)"
proof -
  have "validated_bindings demo_trust_env demo_conflicted (demo_gate\<lparr>mg_conflict := Some demo_conflict\<rparr>) [''e1'']
      = Inr [Binding ''e1'' demo_hash]"
    using demo_bindings [of "demo_gate\<lparr>mg_conflict := Some demo_conflict\<rparr>"]
    by (simp add: demo_conflicted_def validated_bindings_def session_gate_facts_def)
  moreover have "require_gate demo_conflicted ''gate-t1'' = Inr 0"
    by (simp add: demo_conflicted_def require_gate_def ok_or_def)
  moreover have "demo_sha [] \<noteq> demo_hash"
    by (simp add: demo_hash_def demo_sha_def numeral_eq_Suc)
  ultimately show ?thesis
    by (simp add: validate_conflict_revalidation_def guarded.simps ensure_def ok_or_def demo_conflicted_def
        demo_conflict_def Let_def validate_owner_def validate_optional_id_def validate_trust_id_def map_err_def
        demo_owner_def bounds_eval demo_reference_def)
qed

lemma demo_revalidates:
  "\<exists>es t. revalidate_merge_conflict demo_trust_env ''gate-t1'' ''c1'' demo_owner (Binding ''e1'' demo_hash)
     demo_conflicted = (Inr es, t)"
  unfolding revalidate_merge_conflict_def
proof (rule demo_success [where x = "(0, 0)" and r = demo_revalidation_record], goal_cases)
  case (3 p e)
  have "record_bounds demo_revalidation_record"
    by (simp add: bounds_eval demo_owner_def)
  then show ?case by (simp add: demo_conflicted_def) (subst audit_record_ok, simp_all)
next
  case 4
  show ?case by (simp add: bounds_eval demo_owner_def)
qed (simp_all add: demo_revalidation_preflight Let_def, simp add: demo_conflicted_def)

theorem revalidation_needs_changed_receipt_witness:
  "permission_granted demo_trust_env ''revalidate_merge_conflict'' ''gate=gate-t1 bounce=c1'' demo_conflicted"
proof -
  obtain es t where "revalidate_merge_conflict demo_trust_env ''gate-t1'' ''c1'' demo_owner
      (Binding ''e1'' demo_hash) demo_conflicted = (Inr es, t)"
    using demo_revalidates by blast
  from revalidation_needs_changed_receipt [OF this] show ?thesis by auto
qed

section \<open>Recorded evidence\<close>

text \<open>The reduction reads three fields of a gate.\<close>

lemma reduce_gate_cong:
  assumes "mg_task_id g = mg_task_id h" "mg_required_evidence g = mg_required_evidence h"
    "mg_evidence_ids g = mg_evidence_ids h"
  shows "reduce_gate_status g es f = reduce_gate_status h es f"
proof -
  have "evidence_findings g f c = evidence_findings h f c" for c
    using assms(1) by (simp add: evidence_findings_def scope_matches_gate_def)
  then have "validate_evidence_for_gate g e f = validate_evidence_for_gate h e f" for e
    by (cases "ev_canonical e") (simp_all add: validate_evidence_for_gate_def Let_def)
  moreover have "required_kinds g = required_kinds h" "counted_evidence g es = counted_evidence h es"
    using assms(2,3) by (simp_all add: required_kinds_def counted_evidence_def)
  ultimately show ?thesis
    by (simp add: reduce_gate_status_def)
qed

lemma record_done:
  assumes "record_agent_evidence env q s = (Inr es, t)"
  obtains i c e where "require_gate s (eq_gate_id q) = Inr i"
    "permission_granted env ''record_agent_evidence'' (''gate='' @ eq_gate_id q @ '' kind='' @ eq_kind c) s"
    "e = recorded_evidence env (ss_gates s ! i) c"
    "ss_evidence t = upsert_runtime_evidence e (ss_evidence s)" "ss_audit t = ss_audit s"
    "ss_gates t = (ss_gates s)[i := settle_gate_after_record
       (reduce_gate_status (add_evidence_id (ev_id e) (ss_gates s ! i)) (ss_evidence t) (session_gate_facts env s))
       (te_clock env 1) (te_clock env 2) (te_fresh env ''audit'' 0) (add_evidence_id (ev_id e) (ss_gates s ! i))]"
proof -
  obtain i c u s1 where run: "record_preflight env q s = Inr (i, c)"
      "require_trust_permission env ''record_agent_evidence'' (''gate='' @ eq_gate_id q @ '' kind='' @ eq_kind c) None s
         = (Inr u, s1)" "record_effect env i c s1 = (Inr es, t)"
    using assms by (auto simp: record_agent_evidence_def op_check_Inr op_bind_Inr)
  obtain p l where s1: "s1 = s\<lparr>ss_permissions := p, ss_transcript := ss_transcript s @ [l]\<rparr>"
      and granted: "permission_granted env ''record_agent_evidence'' (''gate='' @ eq_gate_id q @ '' kind='' @ eq_kind c) s"
    using require_permission_Inr [OF run(2)] by blast
  have "require_gate s (eq_gate_id q) = Inr i"
    using run(1) by (auto simp: record_preflight_def try_then_Inr guarded_Inr)
  with run(3) granted show ?thesis
    by (intro that [of i c]) (auto simp: record_effect_def Let_def s1 update_gate_def session_gate_facts_def
        dest!: touch_task_Inr)
qed

lemma settled_conflict [simp]:
  "mg_conflict (settle_gate_after_record report now at aid (add_evidence_id i g)) = mg_conflict g"
  by (simp add: settle_gate_after_record_def add_evidence_id_def Let_def)

lemma settled_accepted:
  assumes "mg_status (settle_gate_after_record report now at aid (add_evidence_id i g)) = GateAccepted"
  shows "\<not> conflict_pending g \<and> rp_status report = CanonVerified
    \<and> (gp_requires_independent_validator (mg_policy g) \<longrightarrow> (\<exists>v. mg_validator g = Some v \<and> gv_validated_at v \<noteq> None))"
proof -
  let ?g = "add_evidence_id i g"
  have g: "conflict_pending ?g = conflict_pending g" "mg_policy ?g = mg_policy g" "mg_validator ?g = mg_validator g"
    by (simp_all add: add_evidence_id_def conflict_pending_def)
  have "\<not> conflict_pending ?g" "\<not> review_still_pending report ?g" "gate_status_from_canonical (rp_status report) = GateAccepted"
    using assms by (auto simp: settle_gate_after_record_def Let_def split: if_splits)
  then show ?thesis
    unfolding g by (cases "rp_status report") (auto simp: review_still_pending_def g split: option.splits)
qed

lemma settled_pending:
  "conflict_pending g \<Longrightarrow>
   mg_status (settle_gate_after_record report now at aid (add_evidence_id i g)) = GateNeedsChanges
   \<and> mg_decision (settle_gate_after_record report now at aid (add_evidence_id i g)) = mg_decision g"
  by (simp add: settle_gate_after_record_def add_evidence_id_def Let_def conflict_pending_def)

text \<open>C27: Recording evidence never accepts a gate behind anyone's back: after a successful
  record_agent_evidence the gate stands accepted only if no conflict is pending, the evidence on
  record including the new row is verified for it, and an independent validator, where the policy
  asks for one, has validated it; permission was granted, other gates and the audit log are
  untouched, and a pending conflict leaves the gate in need of changes with its decision.\<close>

theorem recorded_evidence_respects_conflicts:
  assumes "record_agent_evidence env q s = (Inr es, t)"
  shows "\<exists>i kind. require_gate s (eq_gate_id q) = Inr i
    \<and> permission_granted env ''record_agent_evidence'' (''gate='' @ eq_gate_id q @ '' kind='' @ kind) s
    \<and> ss_audit t = ss_audit s \<and> (\<forall>j. j \<noteq> i \<longrightarrow> ss_gates t ! j = ss_gates s ! j)
    \<and> (let g = ss_gates s ! i; g' = ss_gates t ! i in
        mg_conflict g' = mg_conflict g
        \<and> (mg_status g' = GateAccepted \<longrightarrow> \<not> conflict_pending g
            \<and> rp_status (reduce_gate_status g' (ss_evidence t) (session_gate_facts env s)) = CanonVerified
            \<and> (gp_requires_independent_validator (mg_policy g) \<longrightarrow>
                 (\<exists>v. mg_validator g = Some v \<and> gv_validated_at v \<noteq> None)))
        \<and> (conflict_pending g \<longrightarrow> mg_status g' = GateNeedsChanges \<and> mg_decision g' = mg_decision g))"
proof -
  from assms obtain i and c :: evidence_request and e :: evidence_view where op:
    "require_gate s (eq_gate_id q) = Inr i"
    "permission_granted env ''record_agent_evidence'' (''gate='' @ eq_gate_id q @ '' kind='' @ eq_kind c) s"
    "ss_audit t = ss_audit s"
    "ss_gates t = (ss_gates s)[i := settle_gate_after_record
       (reduce_gate_status (add_evidence_id (ev_id e) (ss_gates s ! i)) (ss_evidence t) (session_gate_facts env s))
       (te_clock env 1) (te_clock env 2) (te_fresh env ''audit'' 0) (add_evidence_id (ev_id e) (ss_gates s ! i))]"
    by (rule record_done) (rule that; assumption)
  let ?g = "ss_gates s ! i" and ?g1 = "add_evidence_id (ev_id e) (ss_gates s ! i)" and ?g' = "ss_gates t ! i"
  let ?report = "reduce_gate_status ?g1 (ss_evidence t) (session_gate_facts env s)"
  have g': "?g' = settle_gate_after_record ?report (te_clock env 1) (te_clock env 2) (te_fresh env ''audit'' 0) ?g1"
    using require_gate_Ok [OF op(1)] op(4) by simp
  have same: "reduce_gate_status ?g' es f = reduce_gate_status ?g1 es f" for es f
    unfolding g' by (rule reduce_gate_cong) (simp_all add: settle_gate_after_record_def Let_def)
  have accepted: "mg_status ?g' = GateAccepted \<longrightarrow> \<not> conflict_pending ?g
      \<and> rp_status (reduce_gate_status ?g' (ss_evidence t) (session_gate_facts env s)) = CanonVerified
      \<and> (gp_requires_independent_validator (mg_policy ?g) \<longrightarrow> (\<exists>v. mg_validator ?g = Some v \<and> gv_validated_at v \<noteq> None))"
    unfolding same unfolding g' using settled_accepted by blast
  have "mg_conflict ?g' = mg_conflict ?g"
      "conflict_pending ?g \<longrightarrow> mg_status ?g' = GateNeedsChanges \<and> mg_decision ?g' = mg_decision ?g"
    unfolding g' using settled_pending by simp_all
  moreover have "\<forall>j. j \<noteq> i \<longrightarrow> ss_gates t ! j = ss_gates s ! j"
    using op(4) by simp
  ultimately show ?thesis
    using op(1-3) accepted unfolding Let_def by blast
qed

definition demo_request :: evidence_request where
  "demo_request = \<lparr>eq_gate_id = ''gate-t1'', eq_evidence_id = None, eq_kind = ''log'', eq_summary = ''ran'',
     eq_path = None, eq_source = None, eq_canonical = None\<rparr>"

lemma demo_records: "\<exists>es t. record_agent_evidence demo_trust_env demo_request demo_session = (Inr es, t)"
proof -
  have kind: "normalize_evidence_kind ''log'' = ''log''"
    using plain_trim [of "''log''"] lowercase_plain [of "''log''"]
    by (simp add: normalize_evidence_kind_def replace_char_def plain_def is_ascii_uppercase_def)
  then obtain c where "clean_evidence_request demo_request = Inr c" "eq_kind c = ''log''" "eq_canonical c = None"
    using plain_trim [of "''ran''"]
    by (simp add: clean_evidence_request_def demo_request_def guarded.simps ensure_def plain_def Let_def)
  then have "record_preflight demo_trust_env demo_request demo_session = Inr (0, c)"
    using demo_gate_at demo_dag_id kind
    by (simp add: record_preflight_def demo_request_def preflight_record_agent_evidence_def guarded.simps ensure_def)
  then show ?thesis
    using touch_task_ok
    by (simp add: record_agent_evidence_def op_check_def op_bind_def demo_permission record_effect_def Let_def)
qed

theorem recorded_evidence_respects_conflicts_witness:
  "ss_audit (snd (record_agent_evidence demo_trust_env demo_request demo_session)) = []"
proof -
  obtain es t where run: "record_agent_evidence demo_trust_env demo_request demo_session = (Inr es, t)"
    using demo_records by blast
  from recorded_evidence_respects_conflicts [OF this] show ?thesis
    by (auto simp: run)
qed

section \<open>Where decisions are lost\<close>

lemma evidence_by_upsert:
  "evidence_by_id (upsert_runtime_evidence e es) i = (if ev_id e = i then Some e else evidence_by_id es i)"
  using find_by_upsert_by [of ev_id i e es] by (simp add: evidence_by_id_def upsert_runtime_evidence_def find_by_def)

text \<open>A row of a kind the gate does not require changes nothing of its reduction.\<close>

lemma counted_with_other:
  assumes "canonical_required_kind (ev_kind e) \<notin> canonical_required_kind ` set (mg_required_evidence g)"
    and "\<forall>x\<in>set es. ev_id x = ev_id e \<longrightarrow> ev_kind x = ev_kind e"
  shows "set (counted_evidence (add_evidence_id (ev_id e) g) (upsert_runtime_evidence e es)) = set (counted_evidence g es)"
proof -
  define wanted where "wanted = (\<lambda>x :: evidence_view. canonical_required_kind (ev_kind x) \<in> canonical_required_kind ` set (mg_required_evidence g))"
  have wanted: "canonical_required_kind (ev_kind x) \<in> canonical_required_kind ` set (mg_required_evidence g) \<longleftrightarrow> wanted x" for x
    by (simp add: wanted_def)
  have other: "\<not> wanted e" and same: "evidence_by_id es (ev_id e) = Some x \<Longrightarrow> \<not> wanted x" for x
    using assms by (auto simp: wanted_def evidence_by_id_def find_Some_iff)
  have ids: "set (mg_evidence_ids (add_evidence_id (ev_id e) g)) = insert (ev_id e) (set (mg_evidence_ids g))"
      "mg_required_evidence (add_evidence_id (ev_id e) g) = mg_required_evidence g"
    by (auto simp: add_evidence_id_def)
  have "x \<in> set (counted_evidence (add_evidence_id (ev_id e) g) (upsert_runtime_evidence e es))
      \<longleftrightarrow> wanted x \<and> (\<exists>i\<in>set (mg_evidence_ids g). ev_id e \<noteq> i \<and> evidence_by_id es i = Some x)" for x
    unfolding set_counted ids evidence_by_upsert wanted using other by (auto split: if_splits)
  moreover have "wanted x \<and> (\<exists>i\<in>set (mg_evidence_ids g). ev_id e \<noteq> i \<and> evidence_by_id es i = Some x)
      \<longleftrightarrow> x \<in> set (counted_evidence g es)" for x
    unfolding set_counted wanted using same by metis
  ultimately show ?thesis by blast
qed

lemma verified_with_other:
  assumes "canonical_required_kind (ev_kind e) \<notin> canonical_required_kind ` set (mg_required_evidence g)"
    and "\<forall>x\<in>set es. ev_id x = ev_id e \<longrightarrow> ev_kind x = ev_kind e"
    and "rp_status (reduce_gate_status g es f) = CanonVerified"
  shows "rp_status (reduce_gate_status (add_evidence_id (ev_id e) g) (upsert_runtime_evidence e es) f) = CanonVerified"
proof -
  have "reference_counts (add_evidence_id (ev_id e) g) f c = reference_counts g f c" for c
    by (simp add: reference_counts_def add_evidence_id_def)
  moreover have "mg_required_evidence (add_evidence_id (ev_id e) g) = mg_required_evidence g"
    by (simp add: add_evidence_id_def)
  ultimately show ?thesis
    using assms(3) counted_with_other [OF assms(1,2)] by (simp add: reduce_verified_iff)
qed

text \<open>A finished agent task overrides a pending conflict: when its gate waits for the origin lane to
  revalidate a bounced conflict, and the evidence on record verifies, the end of the task's run sets
  the gate to accepted and drops the recorded conflict decision, while the conflict is still
  pending. record_agent_evidence guards against exactly this.\<close>

theorem finished_task_overrides_conflict:
  assumes "position (\<lambda>g. mg_task_id g = sp_task_id spec) (ss_gates s) = Some i" and "find_task s (sp_task_id spec) = Some k"
    and "conflict_pending (ss_gates s ! i)" and "\<not> gp_requires_independent_validator (mg_policy (ss_gates s ! i))"
    and "rp_status (reduce_gate_status (ss_gates s ! i) (ss_evidence s) (session_gate_facts env s)) = CanonVerified"
    and "canonical_required_kind ''task_summary'' \<notin> canonical_required_kind ` set (mg_required_evidence (ss_gates s ! i))"
    and "\<forall>x\<in>set (ss_evidence s). ev_id x = ''evidence-'' @ sp_task_id spec @ ''-task_summary'' \<longrightarrow> ev_kind x = ''task_summary''"
  shows "mg_status (ss_gates (snd (finish_agent_task env spec out s)) ! i) = GateAccepted
    \<and> conflict_pending (ss_gates (snd (finish_agent_task env spec out s)) ! i)"
proof -
  define text' where "text' = (if str_trim out = [] then role_as_str (sp_role spec) @ '' completed without assistant text'' else out)"
  let ?e = "task_summary_evidence env spec text' s" and ?g = "ss_gates s ! i"
  let ?es = "upsert_runtime_evidence ?e (ss_evidence s)"
  have e: "ev_id ?e = ''evidence-'' @ sp_task_id spec @ ''-task_summary''" "ev_kind ?e = ''task_summary''"
    by (simp_all add: task_summary_evidence_def)
  have i: "i < length (ss_gates s)"
    using position_Some [OF assms(1)] by simp
  have "rp_status (reduce_gate_status (add_evidence_id (ev_id ?e) ?g) ?es (session_gate_facts env s)) = CanonVerified"
    using assms(5-7) e by (intro verified_with_other) simp_all
  then have "settle_gate_after_task (reduce_gate_status (add_evidence_id (ev_id ?e) ?g) ?es (session_gate_facts env s))
      (te_clock env 5) (te_clock env 4) (te_fresh env ''audit'' 0) (add_evidence_id (ev_id ?e) ?g) = h \<Longrightarrow>
      mg_status h = GateAccepted \<and> mg_conflict h = mg_conflict ?g" for h
    using assms(4) by (auto simp: settle_gate_after_task_def review_still_pending_def add_evidence_id_def Let_def)
  then show ?thesis
    using assms(1-3) i
    by (simp add: finish_agent_task_def Let_def find_task_def text'_def [symmetric] session_gate_facts_def
        update_gate_def conflict_pending_def)
qed

theorem finished_task_overrides_conflict_witness:
  "mg_status (ss_gates (snd (finish_agent_task demo_trust_env (demo_spec ''t1'' []) ''done'' demo_conflicted)) ! 0) = GateAccepted"
proof -
  let ?g = "demo_gate\<lparr>mg_conflict := Some demo_conflict\<rparr>"
  have "rp_status (reduce_gate_status ?g [demo_evidence] (session_gate_facts demo_trust_env demo_conflicted)) = CanonVerified"
    using demo_verified [of ?g] by (simp add: session_gate_facts_def demo_conflicted_def)
  moreover have "canonical_required_kind ''task_summary'' = ''task_summary''"
    using plain_trim [of "''task_summary''"] lowercase_plain [of "''task_summary''"]
    by (simp add: canonical_required_kind_def normalize_evidence_kind_def replace_char_def plain_def is_ascii_uppercase_def Let_def)
  ultimately show ?thesis
    using finished_task_overrides_conflict [of "demo_spec ''t1'' []" demo_conflicted 0 "demo_task ''t1'' []" demo_trust_env "''done''"]
    by (simp add: demo_conflicted_def demo_spec_def find_task_def conflict_pending_def demo_conflict_def demo_kinds)
qed

lemma upsert_at_position:
  "position (\<lambda>x. key x = key v) xs = Some k \<Longrightarrow> upsert_by key v (xs @ ys) = xs[k := v] @ ys"
  by (induction xs arbitrary: k) (auto split: if_splits)

text \<open>A DAG that uses a task id again resets the gate of that id: the new DAG is validated on its own
  only, a second gate is pushed, and when the command's events are remembered the first gate with
  the id is overwritten by a freshly proposed one, whatever was recorded, reviewed, accepted or
  merged under it.\<close>

theorem reused_task_id_resets_gate:
  assumes "handle_trust_command env (StartAgentDag goal [spec]) s = (CommandAccepted es, t)"
    and "require_gate s (''gate-'' @ sp_task_id spec) = Inr k"
  shows "ss_gates t ! k = gate_from_spec (sanitize_task_spec spec) (te_clock env 1)
    \<and> mg_status (ss_gates t ! k) = GateProposed \<and> mg_evidence_ids (ss_gates t ! k) = []
    \<and> mg_decision (ss_gates t ! k) = None \<and> length (ss_gates t) = Suc (length (ss_gates s))"
proof -
  let ?g = "gate_from_spec (sanitize_task_spec spec) (te_clock env 1)"
  have id: "mg_gate_id ?g = ''gate-'' @ sp_task_id spec"
    by (simp add: gate_from_spec_def)
  have k: "position (\<lambda>g. mg_gate_id g = mg_gate_id ?g) (ss_gates s) = Some k"
    using assms(2) unfolding id by (auto simp: require_gate_def ok_or_Inr)
  obtain events where run: "run_and_persist env (StartAgentDag goal [spec]) s = (Inr events, t)"
    using assms(1) by (auto simp: handle_command_eq split: sum.splits prod.splits)
  then have "ss_gates t = upsert_by mg_gate_id ?g (ss_gates s @ [?g])"
    by (auto simp: run_and_persist_def op_bind_Inr start_agent_dag_def op_check_Inr Let_def dag_preflight_def
        guarded_Inr dag_step_def persist_domain_events_def)
  then have "ss_gates t = (ss_gates s)[k := ?g] @ [?g]"
    using upsert_at_position [OF k] by simp
  then show ?thesis
    using position_Some [OF k] by (simp add: nth_append gate_from_spec_def)
qed

definition demo_again :: session where
  "demo_again = snd (handle_trust_command demo_trust_env (StartAgentDag ''again'' [demo_spec ''t1'' []]) demo_session)"

lemma demo_restart:
  "\<exists>es. handle_trust_command demo_trust_env (StartAgentDag ''again'' [demo_spec ''t1'' []]) demo_session
     = (CommandAccepted es, demo_again)"
  by (simp add: demo_again_def handle_command_eq run_and_persist_def start_agent_dag_def demo_dag_ok op_check_def
      op_bind_def dag_step_def Let_def persist_domain_events_def persist_batch_def guarded.simps ensure_def
      projection_event_cap_def)

theorem reused_task_id_resets_gate_witness:
  "mg_evidence_ids (ss_gates demo_session ! 0) = [''e1''] \<and> mg_evidence_ids (ss_gates demo_again ! 0) = []"
proof -
  obtain es where "handle_trust_command demo_trust_env (StartAgentDag ''again'' [demo_spec ''t1'' []]) demo_session
      = (CommandAccepted es, demo_again)"
    using demo_restart by blast
  moreover have "sp_task_id (demo_spec ''t1'' []) = ''t1''"
    by (simp add: demo_spec_def)
  ultimately show ?thesis
    using reused_task_id_resets_gate [of demo_trust_env "''again''" "demo_spec ''t1'' []" demo_session es demo_again 0]
      demo_gate_at by (simp add: gate_from_spec_def)
qed

end
