(* ===== verification/Unified_Diff.thy ===== *)
theory Unified_Diff
  imports Core_Types Path_Scope
begin

text \<open>
  The scan of unified diff text (\<open>crates/tools/src/patch.rs\<close>) and the two shapes made of it: the
  strict apply's view of a patch, and the structured document that clients render. Text is a list
  of bytes; a \<open>usize\<close> count cast to \<open>u32\<close> wraps, cursors and byte counts saturate.
\<close>

section \<open>Errors\<close>

datatype lane_error =
    UnsafePath string
  | IoError string
  | GitError string
  | PatchConflict string string

type_synonym 'a lane_res = "lane_error + 'a"

section \<open>Lines\<close>

abbreviation LF :: char where "LF \<equiv> CHR 0x0A"
abbreviation CR :: char where "CR \<equiv> CHR 0x0D"

text \<open>\<open>split_inclusive('\n')\<close>: every line keeps its line feed.\<close>

fun split_inclusive :: "string \<Rightarrow> string list" where
  "split_inclusive [] = []"
| "split_inclusive (c # s) =
     (if c = LF then [c] # split_inclusive s
      else case split_inclusive s of [] \<Rightarrow> [[c]] | l # ls \<Rightarrow> (c # l) # ls)"

definition trim_end_char :: "char \<Rightarrow> string \<Rightarrow> string" where
  "trim_end_char c s = rev (dropWhile (\<lambda>x. x = c) (rev s))"

definition line_text :: "string \<Rightarrow> string" where
  "line_text raw = trim_end_char CR (trim_end_char LF raw)"

text \<open>\<open>str::split_once\<close> on a pattern of several bytes.\<close>

fun split_once_str :: "string \<Rightarrow> string \<Rightarrow> (string \<times> string) option" where
  "split_once_str p [] = (if p = [] then Some ([], []) else None)"
| "split_once_str p (c # s) =
     (if prefix p (c # s) then Some ([], drop (length p) (c # s))
      else map_option (\<lambda>(a, b). (c # a, b)) (split_once_str p s))"

section \<open>The scan\<close>

record scanned_hunk =
  sh_old_start :: u32
  sh_old_lines :: u32
  sh_new_start :: u32
  sh_new_lines :: u32
  sh_header :: "string option"
  sh_declared :: bool
  sh_rows :: "(char \<times> string) list"

record scanned_file =
  sf_old_path :: string
  sf_new_path :: string
  sf_binary :: bool
  sf_renamed :: bool
  sf_hunks :: "scanned_hunk list"

definition default_hunk :: scanned_hunk where
  "default_hunk = \<lparr>sh_old_start = 0, sh_old_lines = 0, sh_new_start = 0, sh_new_lines = 0,
     sh_header = None, sh_declared = False, sh_rows = []\<rparr>"

definition default_file :: scanned_file where
  "default_file = \<lparr>sf_old_path = [], sf_new_path = [], sf_binary = False, sf_renamed = False, sf_hunks = []\<rparr>"

definition parse_u32 :: "string \<Rightarrow> u32" where
  "parse_u32 s = (case parse_uint (2 ^ 32) s of None \<Rightarrow> 0 | Some n \<Rightarrow> of_nat n)"

text \<open>One range of a hunk header; a missing length is one line.\<close>

definition hunk_span :: "string \<Rightarrow> u32 \<times> u32" where
  "hunk_span span = (case split_once (CHR '','') span of
      Some (start, len) \<Rightarrow> (parse_u32 start, parse_u32 len)
    | None \<Rightarrow> (parse_u32 span, 1))"

fun hunk_token :: "string \<Rightarrow> scanned_hunk \<Rightarrow> scanned_hunk" where
  "hunk_token [] h = h"
| "hunk_token (sign # span) h =
     (let (start, len) = hunk_span span in
      if sign = CHR ''-'' then h\<lparr>sh_old_start := start, sh_old_lines := len\<rparr>
      else if sign = CHR ''+'' then h\<lparr>sh_new_start := start, sh_new_lines := len\<rparr>
      else h)"

definition parse_hunk_header :: "string \<Rightarrow> scanned_hunk" where
  "parse_hunk_header line =
     (let h = default_hunk\<lparr>sh_declared := True\<rparr> in
      case strip_prefix ''@@'' line of None \<Rightarrow> h
      | Some rest \<Rightarrow> (case split_once_str ''@@'' rest of None \<Rightarrow> h
          | Some (ranges, tail) \<Rightarrow>
              (let heading = str_trim tail
               in fold hunk_token (split_whitespace ranges)
                    (if heading = [] then h else h\<lparr>sh_header := Some heading\<rparr>))))"

text \<open>The path of a \<open>---\<close> or \<open>+++\<close> line: up to a tab, or the first word.\<close>

definition header_path :: "string \<Rightarrow> string" where
  "header_path v = (case split_once (CHR 0x09) (str_trim v) of
      Some (p, _) \<Rightarrow> p
    | None \<Rightarrow> (case split_whitespace v of [] \<Rightarrow> [] | w # _ \<Rightarrow> w))"

definition split_patch_line :: "string \<Rightarrow> (char \<times> string) option" where
  "split_patch_line raw = (case raw of [] \<Rightarrow> None
     | c # s \<Rightarrow> if c = CHR '' '' \<or> c = CHR ''-'' \<or> c = CHR ''+'' then Some (c, s) else None)"

record scan_state =
  sc_files :: "scanned_file list"
  sc_file :: "scanned_file option"
  sc_hunk :: "scanned_hunk option"

text \<open>\<open>finish_patch_hunk\<close>: a hunk without a header takes its lengths from its rows.\<close>

definition counted_hunk :: "scanned_hunk \<Rightarrow> scanned_hunk" where
  "counted_hunk h = (if sh_declared h then h
     else h\<lparr>sh_old_lines := of_nat (length (filter (\<lambda>r. fst r \<noteq> CHR ''+'') (sh_rows h))),
            sh_new_lines := of_nat (length (filter (\<lambda>r. fst r \<noteq> CHR ''-'') (sh_rows h)))\<rparr>)"

definition push_hunk :: "scanned_hunk \<Rightarrow> scanned_file \<Rightarrow> scanned_file" where
  "push_hunk h f = f\<lparr>sf_hunks := sf_hunks f @ [h]\<rparr>"

definition finish_patch_hunk :: "scan_state \<Rightarrow> scan_state" where
  "finish_patch_hunk s = s\<lparr>sc_hunk := None,
     sc_file := (case (sc_file s, sc_hunk s) of
       (Some f, Some h) \<Rightarrow> Some (push_hunk (counted_hunk h) f)
     | _ \<Rightarrow> sc_file s)\<rparr>"

definition finish_file :: "scan_state \<Rightarrow> scan_state" where
  "finish_file s = s\<lparr>sc_file := None,
     sc_files := sc_files s @ (case sc_file s of None \<Rightarrow> [] | Some f \<Rightarrow> [f])\<rparr>"

definition open_section :: "string \<Rightarrow> string \<Rightarrow> scan_state \<Rightarrow> scan_state lane_res" where
  "open_section line rest s =
     (case split_whitespace rest of
        old # new # _ \<Rightarrow> Inr ((finish_file (finish_patch_hunk s))
          \<lparr>sc_file := Some (default_file\<lparr>sf_old_path := old, sf_new_path := new\<rparr>)\<rparr>)
      | _ \<Rightarrow> Inl (PatchConflict [] (''invalid diff header `'' @ line @ ''`'')))"

text \<open>The headers before the first hunk; \<open>None\<close> when the line is none of them.\<close>

definition file_header :: "string \<Rightarrow> scan_state \<Rightarrow> scan_state option" where
  "file_header line s =
     (case strip_prefix ''--- '' line of
        Some p \<Rightarrow> Some (s\<lparr>sc_file := Some ((case sc_file s of None \<Rightarrow> default_file | Some f \<Rightarrow> f)
          \<lparr>sf_old_path := header_path p\<rparr>)\<rparr>)
      | None \<Rightarrow> (case strip_prefix ''+++ '' line of
          Some p \<Rightarrow> Some (s\<lparr>sc_file := map_option (\<lambda>f. f\<lparr>sf_new_path := header_path p\<rparr>) (sc_file s)\<rparr>)
        | None \<Rightarrow> (case sc_file s of None \<Rightarrow> None
            | Some f \<Rightarrow>
               (case strip_prefix ''rename from '' line of
                  Some p \<Rightarrow> Some (s\<lparr>sc_file := Some (f\<lparr>sf_renamed := True, sf_old_path := str_trim p\<rparr>)\<rparr>)
                | None \<Rightarrow> (case strip_prefix ''rename to '' line of
                    Some p \<Rightarrow> Some (s\<lparr>sc_file := Some (f\<lparr>sf_renamed := True, sf_new_path := str_trim p\<rparr>)\<rparr>)
                  | None \<Rightarrow>
                      if starts_with ''Binary files '' line \<or> line = ''GIT binary patch''
                      then Some (s\<lparr>sc_file := Some (f\<lparr>sf_binary := True\<rparr>)\<rparr>) else None)))))"

definition open_hunk :: "string \<Rightarrow> scan_state \<Rightarrow> scan_state lane_res" where
  "open_hunk line s = (case sc_file s of
      None \<Rightarrow> Inl (PatchConflict [] ''hunk appeared before file header'')
    | Some f \<Rightarrow> Inr (s\<lparr>sc_file := Some (case sc_hunk s of None \<Rightarrow> f | Some h \<Rightarrow> push_hunk h f),
                     sc_hunk := Some (parse_hunk_header line)\<rparr>))"

definition scan_row :: "string \<Rightarrow> string \<Rightarrow> scan_state \<Rightarrow> scan_state" where
  "scan_row raw line s = (case split_patch_line raw of
      None \<Rightarrow> s
    | Some row \<Rightarrow>
        if starts_with [CHR 0x5C] line then s
        else case (sc_hunk s, sc_file s) of
          (Some h, _) \<Rightarrow> s\<lparr>sc_hunk := Some (h\<lparr>sh_rows := sh_rows h @ [row]\<rparr>)\<rparr>
        | (None, None) \<Rightarrow> s
        | (None, Some _) \<Rightarrow> s\<lparr>sc_hunk := Some (default_hunk\<lparr>sh_old_start := 1, sh_new_start := 1,
                              sh_rows := [row]\<rparr>)\<rparr>)"

definition scan_line :: "string \<Rightarrow> scan_state \<Rightarrow> scan_state lane_res" where
  "scan_line raw s =
     (let line = line_text raw in
      case strip_prefix ''diff --git '' line of
        Some rest \<Rightarrow> open_section line rest s
      | None \<Rightarrow> (case (if sc_hunk s = None then file_header line s else None) of
          Some t \<Rightarrow> Inr t
        | None \<Rightarrow> if starts_with ''@@'' line then open_hunk line s else Inr (scan_row raw line s)))"

fun scan_lines :: "string list \<Rightarrow> scan_state \<Rightarrow> scan_state lane_res" where
  "scan_lines [] s = Inr s"
| "scan_lines (l # ls) s = try_then (scan_line l s) (scan_lines ls)"

definition scan_start :: scan_state where
  "scan_start = \<lparr>sc_files = [], sc_file = None, sc_hunk = None\<rparr>"

definition scan_unified_diff :: "string \<Rightarrow> scanned_file list lane_res" where
  "scan_unified_diff diff = try_then (scan_lines (split_inclusive diff) scan_start)
     (\<lambda>s. Inr (sc_files (finish_file (finish_patch_hunk s))))"

section \<open>The strict apply's view\<close>

record patch_hunk =
  ph_old_start :: u32
  ph_old_line_count :: u32
  ph_new_start :: u32
  ph_old_lines :: "string list"
  ph_new_lines :: "string list"

record patch_file =
  pf_old_path :: string
  pf_new_path :: string
  pf_binary :: bool
  pf_hunks :: "patch_hunk list"

definition side_lines :: "char \<Rightarrow> (char \<times> string) list \<Rightarrow> string list" where
  "side_lines marker rows = map snd (filter (\<lambda>r. fst r = CHR '' '' \<or> fst r = marker) rows)"

definition patch_hunk_of :: "scanned_hunk \<Rightarrow> patch_hunk" where
  "patch_hunk_of h = \<lparr>ph_old_start = sh_old_start h, ph_old_line_count = sh_old_lines h,
     ph_new_start = sh_new_start h, ph_old_lines = side_lines (CHR ''-'') (sh_rows h),
     ph_new_lines = side_lines (CHR ''+'') (sh_rows h)\<rparr>"

text \<open>A section without hunks is only kept when it is binary.\<close>

definition parse_unified_diff :: "string \<Rightarrow> patch_file list lane_res" where
  "parse_unified_diff diff = try_then (scan_unified_diff diff) (\<lambda>files. Inr
     (map (\<lambda>f. \<lparr>pf_old_path = sf_old_path f, pf_new_path = sf_new_path f, pf_binary = sf_binary f,
               pf_hunks = map patch_hunk_of (sf_hunks f)\<rparr>)
        (filter (\<lambda>f. sf_hunks f \<noteq> [] \<or> sf_binary f) files)))"

section \<open>The structured document\<close>

datatype change_kind = ChangeAdded | ChangeModified | ChangeDeleted | ChangeRenamed | ChangeUntracked

datatype line_kind = LineContext | LineAdded | LineRemoved

record diff_line =
  dl_kind :: line_kind
  dl_content :: string
  dl_old_line :: "u32 option"
  dl_new_line :: "u32 option"

record diff_hunk =
  dh_old_start :: u32
  dh_old_lines :: u32
  dh_new_start :: u32
  dh_new_lines :: u32
  dh_header :: "string option"
  dh_lines :: "diff_line list"

record diff_file =
  df_path :: string
  df_old_path :: "string option"
  df_kind :: change_kind
  df_binary :: bool
  df_omitted :: bool
  df_additions :: u32
  df_deletions :: u32
  df_hunks :: "diff_hunk list"

record diff_document =
  dd_files :: "diff_file list"
  dd_truncated :: bool
  dd_byte_limit :: u32

definition display_patch_path :: "string \<Rightarrow> string" where
  "display_patch_path raw = (case strip_prefix ''a/'' (str_trim raw) of
      Some p \<Rightarrow> p
    | None \<Rightarrow> (case strip_prefix ''b/'' (str_trim raw) of Some p \<Rightarrow> p | None \<Rightarrow> str_trim raw))"

definition path_missing :: "string \<Rightarrow> bool" where
  "path_missing p \<longleftrightarrow> p = ''/dev/null'' \<or> p = []"

definition classify_scanned_file :: "scanned_file \<Rightarrow> change_kind" where
  "classify_scanned_file f =
     (let old_missing = path_missing (sf_old_path f); new_missing = path_missing (sf_new_path f) in
      if old_missing \<and> \<not> new_missing then ChangeAdded
      else if new_missing \<and> \<not> old_missing then ChangeDeleted
      else if sf_renamed f \<or> (\<not> old_missing \<and> \<not> new_missing
                \<and> display_patch_path (sf_old_path f) \<noteq> display_patch_path (sf_new_path f))
        then ChangeRenamed
      else ChangeModified)"

text \<open>One row with the line numbers of the sides it exists on, and the cursors after it.\<close>

fun document_row :: "char \<times> string \<Rightarrow> u32 \<Rightarrow> u32 \<Rightarrow> diff_line \<times> u32 \<times> u32" where
  "document_row (marker, raw) old new =
     (let content = line_text raw in
      if marker = CHR ''-'' then
        (\<lparr>dl_kind = LineRemoved, dl_content = content, dl_old_line = Some old, dl_new_line = None\<rparr>,
         sat_add old 1, new)
      else if marker = CHR ''+'' then
        (\<lparr>dl_kind = LineAdded, dl_content = content, dl_old_line = None, dl_new_line = Some new\<rparr>,
         old, sat_add new 1)
      else
        (\<lparr>dl_kind = LineContext, dl_content = content, dl_old_line = Some old, dl_new_line = Some new\<rparr>,
         sat_add old 1, sat_add new 1))"

fun document_rows :: "(char \<times> string) list \<Rightarrow> u32 \<Rightarrow> u32 \<Rightarrow> diff_line list" where
  "document_rows [] old new = []"
| "document_rows (r # rs) old new =
     (let (l, old', new') = document_row r old new in l # document_rows rs old' new')"

definition document_hunk :: "scanned_hunk \<Rightarrow> diff_hunk" where
  "document_hunk h = \<lparr>dh_old_start = sh_old_start h, dh_old_lines = sh_old_lines h,
     dh_new_start = sh_new_start h, dh_new_lines = sh_new_lines h, dh_header = sh_header h,
     dh_lines = document_rows (sh_rows h) (max (sh_old_start h) 1) (max (sh_new_start h) 1)\<rparr>"

definition file_rows :: "scanned_file \<Rightarrow> (char \<times> string) list" where
  "file_rows f = concat (map sh_rows (sf_hunks f))"

definition count_rows :: "char \<Rightarrow> scanned_file \<Rightarrow> u32" where
  "count_rows marker f = fold (\<lambda>r n. if fst r = marker then sat_add n 1 else n) (file_rows f) 0"

definition row_bytes :: "scanned_file \<Rightarrow> u64" where
  "row_bytes f = fold (\<lambda>r n. sat_add n (of_nat (length (line_text (snd r))))) (file_rows f) 0"

definition document_file :: "bool \<Rightarrow> scanned_file \<Rightarrow> diff_file" where
  "document_file omitted f =
     (let kind = classify_scanned_file f;
          p = display_patch_path (if kind = ChangeDeleted then sf_old_path f else sf_new_path f);
          old = display_patch_path (sf_old_path f)
      in \<lparr>df_path = p, df_old_path = (if kind = ChangeRenamed \<and> old \<noteq> p then Some old else None),
          df_kind = kind, df_binary = sf_binary f, df_omitted = omitted,
          df_additions = count_rows (CHR ''+'') f, df_deletions = count_rows (CHR ''-'') f,
          df_hunks = (if omitted then [] else map document_hunk (sf_hunks f))\<rparr>)"

fun document_files :: "u32 \<Rightarrow> scanned_file list \<Rightarrow> u64 \<Rightarrow> diff_file list" where
  "document_files limit [] spent = []"
| "document_files limit (f # fs) spent =
     (let total = sat_add spent (row_bytes f); omitted = (total > ucast limit)
      in document_file omitted f # document_files limit fs (if omitted then spent else total))"

definition parse_diff_document :: "string \<Rightarrow> u32 \<Rightarrow> diff_document" where
  "parse_diff_document diff limit =
     (let scanned = (case scan_unified_diff diff of Inl _ \<Rightarrow> [] | Inr fs \<Rightarrow> fs);
          files = document_files limit scanned 0
      in \<lparr>dd_files = files, dd_truncated = list_ex df_omitted files, dd_byte_limit = limit\<rparr>)"

end
