(* ===== verification/Patch_Apply.thy ===== *)
theory Patch_Apply
  imports Unified_Diff
begin

text \<open>
  The strict application of a patch to the text of one file (\<open>apply_patch_file\<close> in
  \<open>crates/tools/src/patch.rs\<close>): every hunk is searched from the end of the hunk before it on and
  its old lines are replaced by its new ones. The specification it refines says where hunks may
  stand: in order, without overlap, each on exactly its old lines.
\<close>

section \<open>The code\<close>

definition split_preserving_newlines :: "string \<Rightarrow> string list" where
  "split_preserving_newlines s = split_inclusive s"

text \<open>\<open>lines[i..i + needle.len()] == needle\<close> for the first such \<open>i\<close> from \<open>start\<close> on.\<close>

definition occurs_at :: "'a list \<Rightarrow> 'a list \<Rightarrow> nat \<Rightarrow> bool" where
  "occurs_at lines needle i = prefix needle (drop i lines)"

definition find_line_sequence :: "'a list \<Rightarrow> 'a list \<Rightarrow> nat \<Rightarrow> nat option" where
  "find_line_sequence lines needle start =
     (if needle = [] then Some (min start (length lines))
      else if length lines < length needle then None
      else find (occurs_at lines needle) [start..<length lines - length needle + 1])"

record hunk_rejection =
  hr_index :: nat
  hr_reason :: hunk_reason

definition rejection_reason :: "patch_hunk \<Rightarrow> string list \<Rightarrow> nat \<Rightarrow> hunk_reason" where
  "rejection_reason h lines cursor =
     (if ph_new_lines h \<noteq> [] \<and> find_line_sequence lines (ph_new_lines h) cursor \<noteq> None
      then AlreadyApplied else ContextMismatch)"

definition splice :: "nat \<Rightarrow> nat \<Rightarrow> 'a list \<Rightarrow> 'a list \<Rightarrow> 'a list" where
  "splice i n new xs = take i xs @ new @ drop (i + n) xs"

fun apply_hunks :: "nat \<Rightarrow> patch_hunk list \<Rightarrow> string list \<Rightarrow> nat \<Rightarrow> hunk_rejection + string list" where
  "apply_hunks index [] lines cursor = Inr lines"
| "apply_hunks index (h # hs) lines cursor =
     (case find_line_sequence lines (ph_old_lines h) cursor of
        None \<Rightarrow> Inl \<lparr>hr_index = index, hr_reason = rejection_reason h lines cursor\<rparr>
      | Some found \<Rightarrow> apply_hunks (Suc index) hs
          (splice found (length (ph_old_lines h)) (ph_new_lines h) lines)
          (found + length (ph_new_lines h)))"

definition apply_patch_file :: "string \<Rightarrow> patch_file \<Rightarrow> hunk_rejection + string" where
  "apply_patch_file current p =
     try_then (apply_hunks 0 (pf_hunks p) (split_preserving_newlines current) 0) (\<lambda>ls. Inr (concat ls))"

section \<open>The specification\<close>

text \<open>The hunks \<open>hs\<close> fit on a text: they stand on it in order, and turn it into the second text.\<close>

inductive fits :: "patch_hunk list \<Rightarrow> string list \<Rightarrow> string list \<Rightarrow> bool" where
  none: "fits [] ls ls"
| next_hunk: "fits hs rest rest' \<Longrightarrow>
     fits (h # hs) (pre @ ph_old_lines h @ rest) (pre @ ph_new_lines h @ rest')"

inductive_cases fits_NilE: "fits [] ls ls'"
inductive_cases fits_ConsE: "fits (h # hs) ls ls'"

lemma fits_Nil_iff [simp]: "fits [] ls ls' \<longleftrightarrow> ls' = ls"
  by (auto elim: fits_NilE intro: fits.none)

text \<open>More text in front never hurts.\<close>

lemma fits_longer:
  assumes "fits hs ls ls'"
  shows "\<exists>ls''. fits hs (zs @ ls) ls''"
  using assms
proof cases
  case (next_hunk hs rest rest' h pre)
  then show ?thesis
    using fits.next_hunk [of hs rest rest' h "zs @ pre"] by auto
qed auto

section \<open>The search\<close>

lemma find_upt_Some: "find P [0..<b] = Some i \<longleftrightarrow> i < b \<and> P i \<and> (\<forall>j<i. \<not> P j)"
  by (auto simp: find_Some_iff)

lemma occurs_at_bound: "occurs_at ls needle i \<Longrightarrow> i \<le> length ls \<Longrightarrow> i + length needle \<le> length ls"
  by (auto simp: occurs_at_def dest!: prefix_length_le)

lemma find_sequence_upt:
  "needle \<noteq> [] \<Longrightarrow> find_line_sequence xs needle a = find (occurs_at xs needle) [a..<Suc (length xs) - length needle]"
  by (cases "length xs < length needle") (auto simp: find_line_sequence_def Suc_diff_le Suc_le_eq not_less)

lemma find_map: "find P (map f xs) = map_option f (find (P \<circ> f) xs)"
  by (induction xs) auto

lemma find_shift: "find P [a..<a + n] = map_option ((+) a) (find (\<lambda>i. P (a + i)) [0..<n])"
proof -
  have "[a..<a + n] = map ((+) a) [0..<n]"
    using map_add_upt [of a n] by (simp add: add.commute [of _ a])
  then show ?thesis
    by (simp add: find_map o_def)
qed

text \<open>Searching from the cursor on is searching the text behind it.\<close>

lemma find_behind:
  "find_line_sequence (front @ ls) needle (length front) =
   map_option ((+) (length front)) (find_line_sequence ls needle 0)"
proof (cases "needle = []")
  case False
  have same: "(\<lambda>i. occurs_at (front @ ls) needle (length front + i)) = occurs_at ls needle"
    by (simp add: occurs_at_def fun_eq_iff)
  show ?thesis
  proof (cases "length needle \<le> length ls")
    case True
    then have "Suc (length (front @ ls)) - length needle = length front + (Suc (length ls) - length needle)"
      by simp
    then show ?thesis
      using False find_shift [of "occurs_at (front @ ls) needle" "length front"]
      by (simp add: find_sequence_upt same)
  next
    case short: False
    then have "[length front..<Suc (length (front @ ls)) - length needle] = []" by simp
    with False short show ?thesis
      by (simp add: find_sequence_upt)
  qed
qed (simp add: find_line_sequence_def)

lemma find_first:
  "find_line_sequence ls needle 0 = Some i \<longleftrightarrow>
     i \<le> length ls \<and> occurs_at ls needle i \<and> (\<forall>j<i. \<not> occurs_at ls needle j)"
proof (cases "needle = []")
  case False
  then show ?thesis
    using occurs_at_bound [of ls needle i] by (auto simp: find_sequence_upt find_upt_Some)
qed (auto simp: find_line_sequence_def occurs_at_def)

lemma find_none: "find_line_sequence ls needle 0 = None \<longleftrightarrow> (\<forall>i\<le>length ls. \<not> occurs_at ls needle i)"
proof
  assume "\<forall>i\<le>length ls. \<not> occurs_at ls needle i"
  then show "find_line_sequence ls needle 0 = None"
    using find_first [of ls needle] by (cases "find_line_sequence ls needle 0") auto
next
  assume none: "find_line_sequence ls needle 0 = None"
  show "\<forall>i\<le>length ls. \<not> occurs_at ls needle i"
  proof (rule ccontr)
    assume "\<not> ?thesis"
    then obtain i where "i \<le> length ls" "occurs_at ls needle i" "\<forall>j<i. \<not> occurs_at ls needle j"
      using exists_least_iff [of "\<lambda>i. i \<le> length ls \<and> occurs_at ls needle i"] by (meson le_trans less_imp_le)
    with none show False
      using find_first [of ls needle i] by simp
  qed
qed

section \<open>Refinement\<close>

lemma fits_at:
  assumes "occurs_at ls (ph_old_lines h) i" "i \<le> length ls" "fits hs (drop (i + length (ph_old_lines h)) ls) ls'"
  shows "fits (h # hs) ls (take i ls @ ph_new_lines h @ ls')"
proof -
  obtain rest where "drop i ls = ph_old_lines h @ rest"
    using assms(1) by (auto simp: occurs_at_def prefix_def)
  moreover from this have "drop (i + length (ph_old_lines h)) ls = rest"
    by (metis add.commute append_eq_conv_conj drop_drop)
  ultimately show ?thesis
    using fits.next_hunk [of hs rest ls' h "take i ls"] assms(3) by (metis append_take_drop_id)
qed

text \<open>The first place is as good as any other.\<close>

lemma fits_first:
  assumes "fits (h # hs) ls ls'" "find_line_sequence ls (ph_old_lines h) 0 = Some i"
  shows "\<exists>ls''. fits hs (drop (i + length (ph_old_lines h)) ls) ls''"
proof -
  obtain rest rest' pre where split: "ls = pre @ ph_old_lines h @ rest" "fits hs rest rest'"
    using assms(1) by (auto elim: fits_ConsE)
  then have "occurs_at ls (ph_old_lines h) (length pre)"
    by (simp add: occurs_at_def)
  then have "i \<le> length pre"
    using assms(2) by (auto simp: find_first not_less [symmetric])
  then have "drop (i + length (ph_old_lines h)) ls
      = drop (i + length (ph_old_lines h)) (pre @ ph_old_lines h) @ rest"
    by (simp add: split(1))
  then show ?thesis
    using split(2) fits_longer by metis
qed

lemma fits_find: "fits (h # hs) ls ls' \<Longrightarrow> find_line_sequence ls (ph_old_lines h) 0 \<noteq> None"
proof (erule fits_ConsE)
  fix pre rest assume "ls = pre @ ph_old_lines h @ rest"
  then have "length pre \<le> length ls" "occurs_at ls (ph_old_lines h) (length pre)"
    by (simp_all add: occurs_at_def)
  then show ?thesis
    by (auto simp: find_none)
qed

lemma splice_behind:
  "splice (length front + i) n new (front @ ls) = (front @ take i ls @ new) @ drop (i + n) ls"
  by (simp add: splice_def add.assoc)

lemma apply_hunks_step:
  "apply_hunks k (h # hs) (front @ ls) (length front) =
     (case find_line_sequence ls (ph_old_lines h) 0 of
        None \<Rightarrow> Inl \<lparr>hr_index = k, hr_reason = rejection_reason h (front @ ls) (length front)\<rparr>
      | Some i \<Rightarrow> apply_hunks (Suc k) hs ((front @ take i ls @ ph_new_lines h) @ drop (i + length (ph_old_lines h)) ls)
          (length (front @ take i ls @ ph_new_lines h)))"
proof (cases "find_line_sequence ls (ph_old_lines h) 0")
  case (Some i)
  then have "i \<le> length ls"
    by (simp add: find_first)
  with Some show ?thesis
    using splice_behind [of front i "length (ph_old_lines h)" "ph_new_lines h" ls]
    by (simp add: find_behind min_absorb2 add.assoc)
qed (simp add: find_behind)

lemma apply_hunks_Inr:
  "apply_hunks k hs (front @ ls) (length front) = Inr out \<Longrightarrow> \<exists>ls'. out = front @ ls' \<and> fits hs ls ls'"
proof (induction hs arbitrary: k front ls)
  case (Cons h hs)
  from Cons.prems obtain i where i: "find_line_sequence ls (ph_old_lines h) 0 = Some i"
    unfolding apply_hunks_step by (auto split: option.splits)
  with Cons.IH [of "Suc k" "front @ take i ls @ ph_new_lines h"] Cons.prems obtain ls'
    where "out = (front @ take i ls @ ph_new_lines h) @ ls'" "fits hs (drop (i + length (ph_old_lines h)) ls) ls'"
    unfolding apply_hunks_step by auto
  with i fits_at show ?case
    by (metis append_assoc find_first)
qed simp

text \<open>A rejection names the first hunk up to which the patch does not fit.\<close>

lemma apply_hunks_Inl:
  "apply_hunks k hs (front @ ls) (length front) = Inl r \<Longrightarrow>
   \<exists>j<length hs. hr_index r = k + j \<and> (\<exists>ls'. fits (take j hs) ls ls') \<and> \<not> (\<exists>ls'. fits (take (Suc j) hs) ls ls')"
proof (induction hs arbitrary: k front ls)
  case (Cons h hs)
  show ?case
  proof (cases "find_line_sequence ls (ph_old_lines h) 0")
    case None
    with Cons.prems have "hr_index r = k"
      unfolding apply_hunks_step by auto
    with None fits_find [of h "[]" ls] show ?thesis
      by (intro exI [of _ 0]) auto
  next
    case (Some i)
    let ?front = "front @ take i ls @ ph_new_lines h" and ?rest = "drop (i + length (ph_old_lines h)) ls"
    have "apply_hunks (Suc k) hs (?front @ ?rest) (length ?front) = Inl r"
      using Cons.prems unfolding apply_hunks_step Some option.case .
    from Cons.IH [OF this] obtain j
      where j: "j < length hs" "hr_index r = Suc k + j"
        "\<exists>ls'. fits (take j hs) (drop (i + length (ph_old_lines h)) ls) ls'"
        "\<not> (\<exists>ls'. fits (take (Suc j) hs) (drop (i + length (ph_old_lines h)) ls) ls')"
      by auto
    have "\<exists>ls'. fits (take (Suc j) (h # hs)) ls ls'"
      using Some j(3) fits_at [of ls h i "take j hs"] by (auto simp: find_first)
    moreover have "\<not> (\<exists>ls'. fits (take (Suc (Suc j)) (h # hs)) ls ls')"
      using j(4) fits_first [OF _ Some, of "take (Suc j) hs"] by auto
    ultimately show ?thesis
      using j(1,2) by (intro exI [of _ "Suc j"]) auto
  qed
qed simp

lemma fits_take: "fits hs ls ls' \<Longrightarrow> \<exists>ls''. fits (take n hs) ls ls''"
proof (induction hs ls ls' arbitrary: n rule: fits.induct)
  case (next_hunk hs rest rest' h pre)
  then show ?case
    using fits.next_hunk [of "take (n - 1) hs" rest _ h pre] by (cases n) (auto intro: fits.none)
qed auto

lemma apply_hunks_iff:
  "is_ok (apply_hunks k hs (front @ ls) (length front)) \<longleftrightarrow> (\<exists>ls'. fits hs ls ls')"
proof (cases "apply_hunks k hs (front @ ls) (length front)")
  case (Inl r)
  with apply_hunks_Inl [OF Inl] fits_take show ?thesis
    by (metis is_ok_simps(2))
next
  case (Inr out)
  with apply_hunks_Inr [OF Inr] show ?thesis
    by auto
qed

end
