(* ===== verification/Work_Tree.thy ===== *)
theory Work_Tree
  imports Path_Scope Context_Store "HOL-Library.AList"
begin

text \<open>
  The working tree below the root that a patch is applied in, as the calls of \<open>std::fs\<close> see it. A
  path below the root is the list of its names. Every call that changes the tree can fail: a fault
  is an input of the call, and a failed write leaves any content in the file. Every file of the tree
  can be read, and an empty directory can be removed: these calls fail for what stands at a path, not
  for permissions. Messages of the operating system are the ones of Linux. The root is given, canonical
  and no link; other processes do not change the tree in between.
\<close>

type_synonym rel = "string list"

datatype node = FileNode string u32 | DirNode | LinkNode

record work_tree =
  wt_cwd :: string
  wt_root :: string
  wt_root_error :: "string option"
  wt_root_is_dir :: bool
  wt_nodes :: "(rel \<times> node) list"
  wt_new_mode :: u32

section \<open>Reading\<close>

definition node_at :: "work_tree \<Rightarrow> rel \<Rightarrow> node option" where
  "node_at d r = (if r = [] then Some DirNode else map_of (wt_nodes d) r)"

definition rel_text :: "rel \<Rightarrow> string" where
  "rel_text r = join ''/'' r"

text \<open>\<open>display\<close> of a path joined to the canonical root.\<close>

definition full_text :: "work_tree \<Rightarrow> rel \<Rightarrow> string" where
  "full_text d r = (if r = [] then wt_root d
     else if wt_root d \<noteq> [] \<and> last (wt_root d) = CHR ''/'' then wt_root d @ rel_text r
     else wt_root d @ ''/'' @ rel_text r)"

definition ancestors :: "rel \<Rightarrow> rel list" where
  "ancestors r = map (\<lambda>n. take n r) [1..<length r]"

fun is_file_node :: "node option \<Rightarrow> bool" where
  "is_file_node (Some (FileNode b m)) = True"
| "is_file_node _ = False"

definition blocked_by_file :: "work_tree \<Rightarrow> rel \<Rightarrow> bool" where
  "blocked_by_file d r = list_ex (\<lambda>a. is_file_node (node_at d a)) (ancestors r)"

datatype stat = StatNode node | StatMissing | StatError string

definition not_a_directory :: string where "not_a_directory = ''Not a directory (os error 20)''"
definition is_a_directory :: string where "is_a_directory = ''Is a directory (os error 21)''"
definition no_such_file :: string where "no_such_file = ''No such file or directory (os error 2)''"
definition not_utf8 :: string where "not_utf8 = ''stream did not contain valid UTF-8''"

definition symlink_metadata :: "work_tree \<Rightarrow> rel \<Rightarrow> stat" where
  "symlink_metadata d r = (case node_at d r of
      Some n \<Rightarrow> StatNode n
    | None \<Rightarrow> if blocked_by_file d r then StatError not_a_directory else StatMissing)"

text \<open>\<open>fs::read\<close> and \<open>fs::read_to_string\<close> of a path that is no link.\<close>

definition read_bytes :: "work_tree \<Rightarrow> rel \<Rightarrow> string + string" where
  "read_bytes d r = (case node_at d r of
      Some (FileNode b _) \<Rightarrow> Inr b
    | Some DirNode \<Rightarrow> Inl is_a_directory
    | Some LinkNode \<Rightarrow> Inl no_such_file
    | None \<Rightarrow> Inl (if blocked_by_file d r then not_a_directory else no_such_file))"

definition read_to_string :: "work_tree \<Rightarrow> rel \<Rightarrow> string + string" where
  "read_to_string d r = try_then (read_bytes d r) (\<lambda>b. if valid_utf8 b then Inr b else Inl not_utf8)"

section \<open>Writing\<close>

definition set_node :: "rel \<Rightarrow> node \<Rightarrow> work_tree \<Rightarrow> work_tree" where
  "set_node r n d = d\<lparr>wt_nodes := AList.update r n (wt_nodes d)\<rparr>"

definition del_node :: "rel \<Rightarrow> work_tree \<Rightarrow> work_tree" where
  "del_node r d = d\<lparr>wt_nodes := AList.delete r (wt_nodes d)\<rparr>"

definition ensure_dir :: "rel \<Rightarrow> work_tree \<Rightarrow> work_tree" where
  "ensure_dir r d = (if node_at d r = None then set_node r DirNode d else d)"

text \<open>\<open>fs::create_dir_all\<close>, \<open>fs::write\<close>, \<open>fs::remove_file\<close>, \<open>fs::set_permissions\<close>, \<open>fs::remove_dir\<close>.\<close>

definition create_dir_all :: "rel \<Rightarrow> work_tree \<Rightarrow> (string + unit) \<times> work_tree" where
  "create_dir_all r d =
     (let chain = ancestors r @ (if r = [] then [] else [r]) in
      if list_ex (\<lambda>a. node_at d a \<noteq> None \<and> node_at d a \<noteq> Some DirNode) chain
      then (Inl not_a_directory, d) else (Inr (), fold ensure_dir chain d))"

definition write_file :: "rel \<Rightarrow> string \<Rightarrow> work_tree \<Rightarrow> (string + unit) \<times> work_tree" where
  "write_file r b d = (case node_at d r of
      Some (FileNode _ m) \<Rightarrow> (Inr (), set_node r (FileNode b m) d)
    | None \<Rightarrow> if node_at d (butlast r) = Some DirNode then (Inr (), set_node r (FileNode b (wt_new_mode d)) d)
              else (Inl (if blocked_by_file d r then not_a_directory else no_such_file), d)
    | Some _ \<Rightarrow> (Inl is_a_directory, d))"

definition remove_file :: "rel \<Rightarrow> work_tree \<Rightarrow> (string + unit) \<times> work_tree" where
  "remove_file r d = (case node_at d r of
      Some DirNode \<Rightarrow> (Inl is_a_directory, d)
    | Some _ \<Rightarrow> (Inr (), del_node r d)
    | None \<Rightarrow> (Inl (if blocked_by_file d r then not_a_directory else no_such_file), d))"

definition set_permissions :: "rel \<Rightarrow> u32 \<Rightarrow> work_tree \<Rightarrow> (string + unit) \<times> work_tree" where
  "set_permissions r m d = (case node_at d r of
      Some (FileNode b _) \<Rightarrow> (Inr (), set_node r (FileNode b m) d)
    | Some _ \<Rightarrow> (Inr (), d)
    | None \<Rightarrow> (Inl no_such_file, d))"

definition has_entries :: "work_tree \<Rightarrow> rel \<Rightarrow> bool" where
  "has_entries d r = list_ex (\<lambda>(q, _). strict_prefix r q) (wt_nodes d)"

datatype remove_outcome = DirRemoved | DirKept | RemoveError string

text \<open>A missing directory and one with entries are kept without an error.\<close>

definition remove_dir :: "rel \<Rightarrow> work_tree \<Rightarrow> remove_outcome \<times> work_tree" where
  "remove_dir r d = (case node_at d r of
      Some DirNode \<Rightarrow> if has_entries d r then (DirKept, d) else (DirRemoved, del_node r d)
    | Some _ \<Rightarrow> (RemoveError not_a_directory, d)
    | None \<Rightarrow> if blocked_by_file d r then (RemoveError not_a_directory, d) else (DirKept, d))"

text \<open>
  Faults of the calls that change the tree: directories that are only made down to some depth, a file
  that cannot be opened, a write that leaves some content behind, permissions that cannot be set.
\<close>

datatype io_fault = NoFault | FaultDirs string nat | FaultOpen string | FaultWrite string string | FaultMode string

section \<open>Well-formed trees\<close>

text \<open>Every node stands below directories.\<close>

definition tree_ok :: "work_tree \<Rightarrow> bool" where
  "tree_ok d \<longleftrightarrow> distinct (map fst (wt_nodes d)) \<and> [] \<notin> fst ` set (wt_nodes d)
     \<and> (\<forall>r n. node_at d r = Some n \<longrightarrow> (\<forall>a. strict_prefix a r \<longrightarrow> node_at d a = Some DirNode))"

lemma node_at_Nil [simp]: "node_at d [] = Some DirNode"
  by (simp add: node_at_def)

lemma node_at_set [simp]:
  "r \<noteq> [] \<Longrightarrow> node_at (set_node r n d) q = (if q = r then Some n else node_at d q)"
  by (auto simp: node_at_def set_node_def update_conv')

lemma node_at_del [simp]:
  "r \<noteq> [] \<Longrightarrow> node_at (del_node r d) q = (if q = r then None else node_at d q)"
  by (auto simp: node_at_def del_node_def delete_conv')

lemma tree_frame [simp]:
  "wt_cwd (set_node r n d) = wt_cwd d" "wt_cwd (del_node r d) = wt_cwd d"
  "wt_root (set_node r n d) = wt_root d" "wt_root (del_node r d) = wt_root d"
  "wt_root_error (set_node r n d) = wt_root_error d" "wt_root_error (del_node r d) = wt_root_error d"
  "wt_root_is_dir (set_node r n d) = wt_root_is_dir d" "wt_root_is_dir (del_node r d) = wt_root_is_dir d"
  "wt_new_mode (set_node r n d) = wt_new_mode d" "wt_new_mode (del_node r d) = wt_new_mode d"
  by (simp_all add: set_node_def del_node_def)

lemma set_ancestors: "a \<in> set (ancestors r) \<longleftrightarrow> a \<noteq> [] \<and> strict_prefix a r"
proof
  assume "a \<noteq> [] \<and> strict_prefix a r"
  then obtain z zs where "r = a @ z # zs" "a \<noteq> []"
    by (auto elim: strict_prefixE')
  then have "a = take (length a) r" "length a \<in> {1..<length r}"
    by (simp_all add: Suc_le_eq)
  then show "a \<in> set (ancestors r)"
    unfolding ancestors_def by (metis imageI set_map set_upt)
next
  assume "a \<in> set (ancestors r)"
  then obtain n where "a = take n r" "1 \<le> n" "n < length r"
    by (auto simp: ancestors_def)
  then show "a \<noteq> [] \<and> strict_prefix a r"
    by (auto simp: strict_prefix_def take_is_prefix)
qed

lemma blocked_iff: "blocked_by_file d r \<longleftrightarrow> (\<exists>a. strict_prefix a r \<and> is_file_node (node_at d a))"
proof -
  have "a \<noteq> []" if "is_file_node (node_at d a)" for a
    using that by auto
  then show ?thesis
    unfolding blocked_by_file_def list_ex_iff Bex_def set_ancestors by blast
qed

lemma tree_okD: "tree_ok d \<Longrightarrow> node_at d r = Some n \<Longrightarrow> strict_prefix a r \<Longrightarrow> node_at d a = Some DirNode"
  by (auto simp: tree_ok_def)

lemma node_in_nodes: "tree_ok d \<Longrightarrow> (r, n) \<in> set (wt_nodes d) \<Longrightarrow> node_at d r = Some n"
  by (force simp: tree_ok_def node_at_def)

lemma has_entries_iff:
  assumes "tree_ok d"
  shows "has_entries d r \<longleftrightarrow> (\<exists>q. strict_prefix r q \<and> node_at d q \<noteq> None)"
proof
  assume "has_entries d r"
  then show "\<exists>q. strict_prefix r q \<and> node_at d q \<noteq> None"
    using node_in_nodes [OF assms] by (fastforce simp: has_entries_def list_ex_iff)
next
  assume "\<exists>q. strict_prefix r q \<and> node_at d q \<noteq> None"
  then obtain q n where "strict_prefix r q" "node_at d q = Some n" by auto
  moreover from this have "(q, n) \<in> set (wt_nodes d)"
    by (auto simp: node_at_def split: if_splits dest: map_of_SomeD)
  ultimately show "has_entries d r"
    by (force simp: has_entries_def list_ex_iff)
qed

text \<open>A node may be set where its ancestors are directories, and removed where nothing is below.\<close>

lemma tree_ok_set:
  assumes "tree_ok d" "r \<noteq> []" "\<forall>a. strict_prefix a r \<longrightarrow> node_at d a = Some DirNode"
    and "n = DirNode \<or> (\<forall>q. strict_prefix r q \<longrightarrow> node_at d q = None)"
  shows "tree_ok (set_node r n d)"
proof -
  have "distinct (map fst (wt_nodes (set_node r n d)))" "[] \<notin> fst ` set (wt_nodes (set_node r n d))"
    using assms(1,2) by (auto simp: set_node_def tree_ok_def distinct_update dom_update)
  moreover have "node_at (set_node r n d) a = Some DirNode"
    if "node_at (set_node r n d) q = Some m" "strict_prefix a q" for q m a
    using that assms tree_okD [OF assms(1)] by (auto split: if_splits)
  ultimately show ?thesis
    by (auto simp: tree_ok_def)
qed

lemma tree_ok_del:
  assumes "tree_ok d" "r \<noteq> []" "\<forall>q. strict_prefix r q \<longrightarrow> node_at d q = None"
  shows "tree_ok (del_node r d)"
proof -
  have "distinct (map fst (wt_nodes (del_node r d)))" "[] \<notin> fst ` set (wt_nodes (del_node r d))"
    using assms(1) by (auto simp: del_node_def tree_ok_def AList.delete_eq distinct_map_filter)
  moreover have "node_at (del_node r d) a = Some DirNode"
    if "node_at (del_node r d) q = Some m" "strict_prefix a q" for q m a
    using that assms tree_okD [OF assms(1)] by (auto split: if_splits)
  ultimately show ?thesis
    by (auto simp: tree_ok_def)
qed

end
