(* ===== verification/Patch_Files.thy ===== *)
theory Patch_Files
  imports Patch_Apply Work_Tree
begin

text \<open>
  The local patch backend (\<open>crates/tools/src/patch.rs\<close>): paths of a patch are validated and
  resolved below the root, all changes are prepared before any is written, and a rollback taken
  before the first write restores what a failed write or a failed commit leaves. The structured
  conflict is computed by the same preparation.
\<close>

section \<open>Paths\<close>

function trim_start_str :: "string \<Rightarrow> string \<Rightarrow> string" where
  "trim_start_str p s = (if p \<noteq> [] \<and> prefix p s then trim_start_str p (drop (length p) s) else s)"
  by pat_completeness auto
termination
  by (relation "measure (length \<circ> snd)") (auto simp: prefix_def)

declare trim_start_str.simps [simp del]

text \<open>\<open>trim_start_matches\<close> strips a prefix as often as it stands there.\<close>

definition validate_patch_path :: "string \<Rightarrow> string lane_res" where
  "validate_patch_path p =
     (let normalized = trim_start_str ''b/'' (trim_start_str ''a/'' (str_trim p)) in
      if normalized = [] \<or> normalized = ''/dev/null''
        then Inl (PatchConflict [] ''patch path is empty or unsupported'')
      else if is_absolute normalized then Inl (UnsafePath normalized)
      else if list_ex (\<lambda>c. c = ParentDir \<or> c = RootDir) (components normalized) then Inl (UnsafePath normalized)
      else Inr normalized)"

text \<open>Walks down component by component; a link on the way refuses the path.\<close>

fun resolve_components :: "work_tree \<Rightarrow> string \<Rightarrow> path \<Rightarrow> rel \<Rightarrow> rel lane_res" where
  "resolve_components d shown [] target = Inr target"
| "resolve_components d shown (CurDir # cs) target = resolve_components d shown cs target"
| "resolve_components d shown (Normal g # cs) target =
     (case symlink_metadata d (target @ [g]) of
        StatNode LinkNode \<Rightarrow> Inl (UnsafePath shown)
      | StatError e \<Rightarrow> Inl (IoError (shown @ '': '' @ e))
      | _ \<Rightarrow> resolve_components d shown cs (target @ [g]))"
| "resolve_components d shown (_ # cs) target = Inl (UnsafePath shown)"

definition resolve_patch_target :: "work_tree \<Rightarrow> string \<Rightarrow> rel lane_res" where
  "resolve_patch_target d relative = resolve_components d relative (components relative) []"

text \<open>The target is below the root here, so that stripping the root cannot fail.\<close>

definition ensure_target_still_safe :: "work_tree \<Rightarrow> rel \<Rightarrow> unit lane_res" where
  "ensure_target_still_safe d r = try_then (resolve_components d (rel_text r) (map Normal r) []) (\<lambda>t.
     if t = r then Inr () else Inl (UnsafePath (rel_text r)))"

section \<open>Conflicts\<close>

definition conflict_path :: "string \<Rightarrow> string" where
  "conflict_path relative = join ''/'' (List.map_filter
     (\<lambda>c. case c of Normal g \<Rightarrow> Some g | _ \<Rightarrow> None) (components relative))"

definition ours_at :: "string \<Rightarrow> u32 \<Rightarrow> u32 \<Rightarrow> string list" where
  "ours_at current old_start old_count =
     (if old_start = 0 \<or> old_count = 0 then []
      else (let lines = split_preserving_newlines current;
                start = min (unat old_start - 1) (length lines);
                stop = min (start + unat old_count) (length lines)
            in drop start (take stop lines)))"

definition conflict_hunk_of :: "string \<Rightarrow> patch_hunk \<Rightarrow> hunk_reason \<Rightarrow> conflict_hunk" where
  "conflict_hunk_of current h reason = \<lparr>hk_ours_start = ph_old_start h,
     hk_ours = ours_at current (ph_old_start h) (ph_old_line_count h),
     hk_theirs_start = ph_new_start h, hk_theirs = ph_new_lines h,
     hk_base = Some (ph_old_lines h), hk_reason = reason\<rparr>"

definition whole_file :: "string \<Rightarrow> conflict_hunk list \<Rightarrow> conflict_file" where
  "whole_file relative hunks = \<lparr>cf_path = conflict_path relative, cf_hunks = hunks, cf_omitted = False\<rparr>"

record prepare_failure =
  fa_error :: lane_error
  fa_file :: "conflict_file option"

definition plain_failure :: "lane_error \<Rightarrow> prepare_failure" where
  "plain_failure e = \<lparr>fa_error = e, fa_file = None\<rparr>"

definition rejection_failure ::
  "string \<Rightarrow> string \<Rightarrow> patch_file \<Rightarrow> hunk_rejection \<Rightarrow> prepare_failure" where
  "rejection_failure relative current p r = \<lparr>
     fa_error = PatchConflict relative ''patch conflict: expected hunk context was not found'',
     fa_file = (if hr_index r < length (pf_hunks p)
       then Some (whole_file relative [conflict_hunk_of current (pf_hunks p ! hr_index r) (hr_reason r)])
       else None)\<rparr>"

definition missing_hunk :: "patch_hunk \<Rightarrow> conflict_hunk" where
  "missing_hunk h = \<lparr>hk_ours_start = ph_old_start h, hk_ours = [], hk_theirs_start = ph_new_start h,
     hk_theirs = ph_new_lines h, hk_base = Some (ph_old_lines h), hk_reason = FileMissing\<rparr>"

definition unreadable_target_failure ::
  "work_tree \<Rightarrow> string \<Rightarrow> rel \<Rightarrow> patch_file \<Rightarrow> lane_error \<Rightarrow> prepare_failure" where
  "unreadable_target_failure d relative full p e = (case symlink_metadata d full of
      StatNode _ \<Rightarrow> plain_failure e
    | _ \<Rightarrow> \<lparr>fa_error = e, fa_file = Some (whole_file relative (map missing_hunk (pf_hunks p)))\<rparr>)"

section \<open>Preparing\<close>

datatype patch_change = PatchWrite rel string | PatchDelete rel

fun change_path :: "patch_change \<Rightarrow> rel" where
  "change_path (PatchWrite r b) = r"
| "change_path (PatchDelete r) = r"

fun postimage :: "patch_change \<Rightarrow> string option" where
  "postimage (PatchWrite r b) = Some b"
| "postimage (PatchDelete r) = None"

text \<open>\<open>?\<close> on a lane error, and \<open>map_err\<close> of a rejected hunk.\<close>

definition lane_then :: "'a lane_res \<Rightarrow> ('a \<Rightarrow> prepare_failure + 'b) \<Rightarrow> prepare_failure + 'b" where
  "lane_then r f = try_then (map_err plain_failure r) f"

definition read_target :: "work_tree \<Rightarrow> string \<Rightarrow> rel \<Rightarrow> patch_file \<Rightarrow> prepare_failure + string" where
  "read_target d relative full p = map_err
     (\<lambda>e. unreadable_target_failure d relative full p (IoError (relative @ '': '' @ e))) (read_to_string d full)"

definition applied_text :: "string \<Rightarrow> string \<Rightarrow> patch_file \<Rightarrow> prepare_failure + string" where
  "applied_text relative current p = map_err (rejection_failure relative current p) (apply_patch_file current p)"

definition taken_file :: "work_tree \<Rightarrow> string \<Rightarrow> rel \<Rightarrow> patch_file \<Rightarrow> conflict_file" where
  "taken_file d relative full p =
     (let current = (case read_to_string d full of Inl _ \<Rightarrow> [] | Inr t \<Rightarrow> t);
          ours = split_preserving_newlines current;
          theirs = concat (map ph_new_lines (pf_hunks p))
      in whole_file relative [\<lparr>hk_ours_start = 1, hk_ours = ours, hk_theirs_start = 1, hk_theirs = theirs,
           hk_base = Some [], hk_reason = (if ours = theirs then AlreadyApplied else ContextMismatch)\<rparr>])"

definition prepare_creation :: "work_tree \<Rightarrow> patch_file \<Rightarrow> prepare_failure + patch_change" where
  "prepare_creation d p =
     lane_then (validate_patch_path (pf_new_path p)) (\<lambda>relative.
     lane_then (resolve_patch_target d relative) (\<lambda>full.
       case symlink_metadata d full of
         StatNode _ \<Rightarrow> Inl \<lparr>fa_error = PatchConflict relative ''new-file patch target already exists'',
                          fa_file = Some (taken_file d relative full p)\<rparr>
       | _ \<Rightarrow> try_then (applied_text relative [] p) (\<lambda>text. Inr (PatchWrite full text))))"

definition prepare_deletion :: "work_tree \<Rightarrow> patch_file \<Rightarrow> prepare_failure + patch_change" where
  "prepare_deletion d p =
     lane_then (validate_patch_path (pf_old_path p)) (\<lambda>relative.
     lane_then (resolve_patch_target d relative) (\<lambda>full.
     try_then (read_target d relative full p) (\<lambda>current.
     try_then (applied_text relative current p) (\<lambda>remaining.
       if remaining \<noteq> [] then Inl \<lparr>
         fa_error = PatchConflict relative ''deleted-file patch did not remove the complete file'',
         fa_file = Some (whole_file relative (map (\<lambda>h. conflict_hunk_of current h FileDeleted) (pf_hunks p)))\<rparr>
       else Inr (PatchDelete full)))))"

definition prepare_modification :: "work_tree \<Rightarrow> patch_file \<Rightarrow> prepare_failure + patch_change" where
  "prepare_modification d p =
     lane_then (validate_patch_path (pf_old_path p)) (\<lambda>old.
     lane_then (validate_patch_path (pf_new_path p)) (\<lambda>new.
       if components old \<noteq> components new
       then Inl (plain_failure (PatchConflict new ''rename patches are not supported by this adapter''))
       else
     lane_then (resolve_patch_target d new) (\<lambda>full.
     try_then (read_target d new full p) (\<lambda>current.
     try_then (applied_text new current p) (\<lambda>text. Inr (PatchWrite full text))))))"

definition prepare_patch_file :: "work_tree \<Rightarrow> patch_file \<Rightarrow> prepare_failure + patch_change" where
  "prepare_patch_file d p =
     (let old_null = (pf_old_path p = ''/dev/null''); new_null = (pf_new_path p = ''/dev/null'') in
      if old_null \<and> new_null
      then Inl (plain_failure (PatchConflict [] ''patch cannot create and delete /dev/null''))
      else if old_null then prepare_creation d p
      else if new_null then prepare_deletion d p
      else prepare_modification d p)"

record conflict_report =
  rep_path :: string
  rep_message :: string

record patch_application =
  pa_changes :: "patch_change list"
  pa_refusals :: "conflict_report list"

definition binary_patch_path :: "patch_file \<Rightarrow> string" where
  "binary_patch_path p = (if str_trim (pf_new_path p) = ''/dev/null'' \<or> str_trim (pf_new_path p) = []
     then pf_old_path p else pf_new_path p)"

definition binary_refusal :: string where
  "binary_refusal = ''patch reports binary content, which the strict line-based apply cannot write''"

fun prepare_files :: "work_tree \<Rightarrow> patch_file list \<Rightarrow> patch_application lane_res" where
  "prepare_files d [] = Inr \<lparr>pa_changes = [], pa_refusals = []\<rparr>"
| "prepare_files d (p # ps) =
     (if pf_binary p
      then try_then (validate_patch_path (binary_patch_path p)) (\<lambda>relative.
           try_then (prepare_files d ps) (\<lambda>a.
             Inr (a\<lparr>pa_refusals := \<lparr>rep_path = relative, rep_message = binary_refusal\<rparr> # pa_refusals a\<rparr>)))
      else try_then (map_err fa_error (prepare_patch_file d p)) (\<lambda>c.
           try_then (prepare_files d ps) (\<lambda>a. Inr (a\<lparr>pa_changes := c # pa_changes a\<rparr>))))"

definition canonical_root :: "work_tree \<Rightarrow> unit lane_res" where
  "canonical_root d = (case wt_root_error d of
      Some e \<Rightarrow> Inl (IoError (wt_cwd d @ '': '' @ e))
    | None \<Rightarrow> if wt_root_is_dir d then Inr () else Inl (IoError (wt_cwd d @ '' is not a directory'')))"

definition prepare_patch :: "work_tree \<Rightarrow> string \<Rightarrow> patch_application lane_res" where
  "prepare_patch d diff = try_then (canonical_root d) (\<lambda>_.
     try_then (parse_unified_diff diff) (\<lambda>files.
       if files = [] then Inl (PatchConflict [] ''no unified diff patch found'')
       else prepare_files d files))"

section \<open>Writing and rolling back\<close>

definition lift_io :: "rel \<Rightarrow> (string + unit) \<times> work_tree \<Rightarrow> unit lane_res \<times> work_tree" where
  "lift_io shown r = (map_err (\<lambda>e. IoError (full_text (snd r) shown @ '': '' @ e)) (fst r), snd r)"

text \<open>One call after another on the tree, stopping at the first error.\<close>

definition tree_then ::
  "unit lane_res \<times> work_tree \<Rightarrow> (work_tree \<Rightarrow> unit lane_res \<times> work_tree) \<Rightarrow> unit lane_res \<times> work_tree" where
  "tree_then r f = (case r of (Inl e, d) \<Rightarrow> (Inl e, d) | (Inr _, d) \<Rightarrow> f d)"

text \<open>A fault in the middle leaves the upper directories, which are made first.\<close>

definition make_parent :: "io_fault \<Rightarrow> rel \<Rightarrow> work_tree \<Rightarrow> unit lane_res \<times> work_tree" where
  "make_parent fault r d = (case fault of
      FaultDirs e n \<Rightarrow> (Inl (IoError (full_text d (butlast r) @ '': '' @ e)), snd (create_dir_all (take n (butlast r)) d))
    | _ \<Rightarrow> lift_io (butlast r) (create_dir_all (butlast r) d))"

text \<open>A write that fails after it opened the file leaves some content; one that cannot open it leaves it alone.\<close>

definition faulty_write :: "io_fault \<Rightarrow> rel \<Rightarrow> string \<Rightarrow> work_tree \<Rightarrow> unit lane_res \<times> work_tree" where
  "faulty_write fault r b d = (case fault of
      FaultOpen e \<Rightarrow> (Inl (IoError (full_text d r @ '': '' @ e)), d)
    | FaultWrite e left \<Rightarrow> (Inl (IoError (full_text d r @ '': '' @ e)), snd (write_file r left d))
    | _ \<Rightarrow> lift_io r (write_file r b d))"

definition faulty_remove :: "io_fault \<Rightarrow> rel \<Rightarrow> work_tree \<Rightarrow> unit lane_res \<times> work_tree" where
  "faulty_remove fault r d = (case fault of
      FaultOpen e \<Rightarrow> (Inl (IoError (full_text d r @ '': '' @ e)), d)
    | FaultWrite e _ \<Rightarrow> (Inl (IoError (full_text d r @ '': '' @ e)), d)
    | _ \<Rightarrow> lift_io r (remove_file r d))"

definition faulty_mode :: "io_fault \<Rightarrow> rel \<Rightarrow> u32 \<Rightarrow> work_tree \<Rightarrow> unit lane_res \<times> work_tree" where
  "faulty_mode fault r m d = (case fault of
      FaultMode e \<Rightarrow> (Inl (IoError (full_text d r @ '': '' @ e)), d)
    | _ \<Rightarrow> lift_io r (set_permissions r m d))"

fun write_change :: "io_fault \<Rightarrow> patch_change \<Rightarrow> work_tree \<Rightarrow> unit lane_res \<times> work_tree" where
  "write_change fault (PatchWrite r b) d =
     tree_then (ensure_target_still_safe d r, d) (\<lambda>d.
     tree_then (make_parent fault r d) (faulty_write fault r b))"
| "write_change fault (PatchDelete r) d =
     tree_then (ensure_target_still_safe d r, d) (faulty_remove fault r)"

text \<open>\<open>write_patch_application\<close>; the fault of the \<open>k\<close>-th change is given.\<close>

fun write_changes :: "(nat \<Rightarrow> io_fault) \<Rightarrow> patch_change list \<Rightarrow> work_tree \<Rightarrow> unit lane_res \<times> work_tree" where
  "write_changes faults [] d = (Inr (), d)"
| "write_changes faults (c # cs) d =
     tree_then (write_change (faults 0) c d) (write_changes (faults \<circ> Suc) cs)"

record file_rollback =
  fr_path :: rel
  fr_contents :: "string option"
  fr_mode :: "u32 option"
  fr_created :: "rel list"

text \<open>The missing directories above a path, deepest first; the argument is a reversed path.\<close>

fun missing_up :: "work_tree \<Rightarrow> string list \<Rightarrow> rel list lane_res" where
  "missing_up d [] = Inr []"
| "missing_up d (g # up) =
     (let dir = rev (g # up) in
      try_then (ensure_target_still_safe d dir) (\<lambda>_. case symlink_metadata d dir of
         StatNode _ \<Rightarrow> Inr []
       | StatMissing \<Rightarrow> try_then (missing_up d up) (\<lambda>ds. Inr (dir # ds))
       | StatError e \<Rightarrow> Inl (IoError (full_text d dir @ '': '' @ e))))"

definition missing_parent_dirs :: "work_tree \<Rightarrow> rel \<Rightarrow> rel list lane_res" where
  "missing_parent_dirs d r = missing_up d (tl (rev r))"

fun node_mode :: "node option \<Rightarrow> u32 option" where
  "node_mode (Some (FileNode b m)) = Some m"
| "node_mode _ = None"

definition rollback_of :: "work_tree \<Rightarrow> rel \<Rightarrow> file_rollback lane_res" where
  "rollback_of d r = try_then (ensure_target_still_safe d r) (\<lambda>_.
     try_then (missing_parent_dirs d r) (\<lambda>created. Inr \<lparr>fr_path = r,
       fr_contents = (case read_bytes d r of Inl _ \<Rightarrow> None | Inr b \<Rightarrow> Some b),
       fr_mode = node_mode (node_at d r), fr_created = created\<rparr>))"

fun stage_rollback :: "work_tree \<Rightarrow> rel list \<Rightarrow> file_rollback list lane_res" where
  "stage_rollback d [] = Inr []"
| "stage_rollback d (r # rs) = try_then (rollback_of d r) (\<lambda>f.
     try_then (stage_rollback d rs) (\<lambda>fs. Inr (f # fs)))"

definition restore_contents :: "io_fault \<Rightarrow> file_rollback \<Rightarrow> work_tree \<Rightarrow> unit lane_res \<times> work_tree" where
  "restore_contents fault f d = (case fr_contents f of
       Some b \<Rightarrow> tree_then (make_parent fault (fr_path f) d) (\<lambda>d.
           tree_then (faulty_write fault (fr_path f) b d) (\<lambda>d. case fr_mode f of
             None \<Rightarrow> (Inr (), d)
           | Some m \<Rightarrow> faulty_mode fault (fr_path f) m d))
     | None \<Rightarrow> if node_at d (fr_path f) = None then (Inr (), d) else faulty_remove fault (fr_path f) d)"

definition restore_file :: "io_fault \<Rightarrow> file_rollback \<Rightarrow> work_tree \<Rightarrow> unit lane_res \<times> work_tree" where
  "restore_file fault f d = tree_then (ensure_target_still_safe d (fr_path f), d) (restore_contents fault f)"

fun restore_files :: "(nat \<Rightarrow> io_fault) \<Rightarrow> file_rollback list \<Rightarrow> work_tree \<Rightarrow> unit lane_res \<times> work_tree" where
  "restore_files faults [] d = (Inr (), d)"
| "restore_files faults (f # fs) d = tree_then (restore_file (faults 0) f d) (restore_files (faults \<circ> Suc) fs)"

definition drop_dir :: "rel \<Rightarrow> work_tree \<Rightarrow> unit lane_res \<times> work_tree" where
  "drop_dir r d = tree_then (ensure_target_still_safe d r, d) (\<lambda>d. case remove_dir r d of
       (RemoveError e, d') \<Rightarrow> (Inl (IoError (full_text d r @ '': '' @ e)), d')
     | (_, d') \<Rightarrow> (Inr (), d'))"

fun drop_dirs :: "rel list \<Rightarrow> work_tree \<Rightarrow> unit lane_res \<times> work_tree" where
  "drop_dirs [] d = (Inr (), d)"
| "drop_dirs (r # rs) d = tree_then (drop_dir r d) (drop_dirs rs)"

text \<open>\<open>restore_rollback\<close>: all files first, last one first, then the directories made for them.\<close>

definition restore_rollback ::
  "(nat \<Rightarrow> io_fault) \<Rightarrow> file_rollback list \<Rightarrow> work_tree \<Rightarrow> unit lane_res \<times> work_tree" where
  "restore_rollback faults fs d = tree_then (restore_files faults (rev fs) d)
     (drop_dirs (concat (map fr_created (rev fs))))"

section \<open>The backend\<close>

record patch_outcome =
  po_applied :: bool
  po_writes :: "rel list"
  po_conflicts :: "conflict_report list"

definition success_outcome :: "patch_application \<Rightarrow> patch_outcome" where
  "success_outcome a = \<lparr>po_applied = (pa_changes a \<noteq> []), po_writes = map change_path (pa_changes a),
     po_conflicts = pa_refusals a\<rparr>"

definition conflict_outcome :: "string \<Rightarrow> string \<Rightarrow> patch_outcome" where
  "conflict_outcome p m = \<lparr>po_applied = False, po_writes = [],
     po_conflicts = [\<lparr>rep_path = p, rep_message = m\<rparr>]\<rparr>"

text \<open>The faults of the write and of the rollback, and the outcome of the commit.\<close>

record patch_env =
  px_write_faults :: "nat \<Rightarrow> io_fault"
  px_restore_faults :: "nat \<Rightarrow> io_fault"
  px_persist :: "string option"

definition write_application ::
  "patch_env \<Rightarrow> patch_application \<Rightarrow> work_tree \<Rightarrow> patch_outcome lane_res \<times> work_tree" where
  "write_application env a d = (case stage_rollback d (map change_path (pa_changes a)) of
      Inl e \<Rightarrow> (Inl e, d)
    | Inr rollback \<Rightarrow> (case write_changes (px_write_faults env) (pa_changes a) d of
        (Inr _, t) \<Rightarrow> (Inr (success_outcome a), t)
      | (Inl e, t) \<Rightarrow> (case restore_rollback (px_restore_faults env) rollback t of
          (Inl e', u) \<Rightarrow> (Inl e', u)
        | (Inr _, u) \<Rightarrow> (Inl e, u))))"

text \<open>A conflict found while preparing is an outcome, every other error is one of the backend.\<close>

definition prepared :: "patch_application lane_res \<Rightarrow> (patch_outcome, patch_application) sum lane_res" where
  "prepared r = (case r of
      Inr a \<Rightarrow> Inr (Inr a)
    | Inl (PatchConflict p m) \<Rightarrow> Inr (Inl (conflict_outcome p m))
    | Inl e \<Rightarrow> Inl e)"

definition check_patch :: "work_tree \<Rightarrow> string \<Rightarrow> patch_outcome lane_res" where
  "check_patch d diff = try_then (prepared (prepare_patch d diff)) (\<lambda>r. Inr (case r of
      Inl out \<Rightarrow> out
    | Inr a \<Rightarrow> (success_outcome a)\<lparr>po_applied := False\<rparr>))"

definition apply_patch :: "patch_env \<Rightarrow> string \<Rightarrow> work_tree \<Rightarrow> patch_outcome lane_res \<times> work_tree" where
  "apply_patch env diff d = (case prepared (prepare_patch d diff) of
      Inl e \<Rightarrow> (Inl e, d)
    | Inr (Inl out) \<Rightarrow> (Inr out, d)
    | Inr (Inr a) \<Rightarrow> write_application env a d)"

definition apply_transactionally ::
  "patch_env \<Rightarrow> string \<Rightarrow> work_tree \<Rightarrow> patch_outcome lane_res \<times> work_tree" where
  "apply_transactionally env diff d = (case prepared (prepare_patch d diff) of
      Inl e \<Rightarrow> (Inl e, d)
    | Inr (Inl out) \<Rightarrow> (Inr out, d)
    | Inr (Inr a) \<Rightarrow> (case stage_rollback d (map change_path (pa_changes a)) of
        Inl e \<Rightarrow> (Inl e, d)
      | Inr rollback \<Rightarrow>
          (let undo = (\<lambda>e t. case restore_rollback (px_restore_faults env) rollback t of
               (Inl e', u) \<Rightarrow> (Inl e', u) | (Inr _, u) \<Rightarrow> (Inl e, u))
           in case write_changes (px_write_faults env) (pa_changes a) d of
                (Inl e, t) \<Rightarrow> undo e t
              | (Inr _, t) \<Rightarrow> (case px_persist env of
                  Some e \<Rightarrow> undo (IoError e) t
                | None \<Rightarrow> (Inr (success_outcome a), t)))))"

section \<open>What a refused patch collided with\<close>

definition max_conflict_content_bytes :: u64 where "max_conflict_content_bytes = 256 * 1024"

definition hunk_bytes :: "conflict_hunk \<Rightarrow> nat" where
  "hunk_bytes h = sum_list (map length (hk_ours h @ hk_theirs h @ concat (case hk_base h of None \<Rightarrow> [] | Some b \<Rightarrow> [b])))"

definition conflict_file_bytes :: "conflict_file \<Rightarrow> u64" where
  "conflict_file_bytes f = sat_add (of_nat (sum_list (map hunk_bytes (cf_hunks f)))) (of_nat (length (cf_path f)))"

definition binary_conflict :: "string \<Rightarrow> conflict_file" where
  "binary_conflict relative = whole_file relative [\<lparr>hk_ours_start = 1, hk_ours = [], hk_theirs_start = 1,
     hk_theirs = [], hk_base = None, hk_reason = BinaryHunk\<rparr>]"

definition file_conflict :: "work_tree \<Rightarrow> patch_file \<Rightarrow> conflict_file option" where
  "file_conflict d p = (if pf_binary p
     then (case validate_patch_path (binary_patch_path p) of Inl _ \<Rightarrow> None | Inr r \<Rightarrow> Some (binary_conflict r))
     else (case prepare_patch_file d p of Inl failure \<Rightarrow> fa_file failure | Inr _ \<Rightarrow> None))"

text \<open>A file beyond the bound keeps its entry without its lines.\<close>

fun bound_conflicts :: "conflict_file list \<Rightarrow> u64 \<Rightarrow> conflict_file list" where
  "bound_conflicts [] spent = []"
| "bound_conflicts (f # fs) spent =
     (let total = sat_add spent (conflict_file_bytes f) in
      if total > max_conflict_content_bytes
      then f\<lparr>cf_hunks := [], cf_omitted := True\<rparr> # bound_conflicts fs spent
      else f # bound_conflicts fs total)"

definition conflict_content_of :: "work_tree \<Rightarrow> string \<Rightarrow> conflict_baseline \<Rightarrow> conflict_content option" where
  "conflict_content_of d diff baseline =
     (case (canonical_root d, parse_unified_diff diff) of
        (Inr _, Inr patch_files) \<Rightarrow>
          (let files = bound_conflicts (List.map_filter (file_conflict d) patch_files) 0 in
           if files = [] then None
           else Some \<lparr>cc_baseline = baseline, cc_files = files, cc_truncated = list_ex cf_omitted files\<rparr>)
      | _ \<Rightarrow> None)"

end
