(* ===== verification/Patch_Midway.thy ===== *)
theory Patch_Midway
  imports Patch_Files
begin

text \<open>
  Which paths the patch backend agrees to touch, and what a tree may look like in the middle of
  writing a patch: only the paths of the patch differ, as files or missing, and directories above
  them may be new. Every call of the backend keeps a tree in that shape, a failed one included.
\<close>

section \<open>Paths the backend agrees to touch\<close>

text \<open>No link on the way, the last component included, and no file above it.\<close>

definition clear_path :: "work_tree \<Rightarrow> rel \<Rightarrow> bool" where
  "clear_path d r \<longleftrightarrow> (\<forall>a. prefix a r \<longrightarrow> node_at d a \<noteq> Some LinkNode)
     \<and> (\<forall>a. strict_prefix a r \<longrightarrow> \<not> is_file_node (node_at d a))"

lemma metadata_missing: "node_at d r = None \<Longrightarrow> \<not> blocked_by_file d r \<Longrightarrow> symlink_metadata d r = StatMissing"
  by (simp add: symlink_metadata_def)

lemma resolve_names:
  assumes "tree_ok d" "\<forall>a. prefix a t \<longrightarrow> node_at d a \<noteq> Some LinkNode"
    and "\<forall>a. strict_prefix a t \<longrightarrow> \<not> is_file_node (node_at d a)"
  shows "resolve_components d shown (map Normal r) t = Inr u \<longleftrightarrow> u = t @ r \<and> (r = [] \<or> clear_path d (t @ r))"
  using assms(2,3)
proof (induction r arbitrary: t)
  case (Cons g r)
  have step: "prefix a (t @ [g]) \<longleftrightarrow> prefix a t \<or> a = t @ [g]" "strict_prefix a (t @ [g]) \<longleftrightarrow> prefix a t" for a
    by (auto simp: strict_prefix_def)
  consider (link) "node_at d (t @ [g]) = Some LinkNode"
    | (blocked) "node_at d (t @ [g]) = None" "blocked_by_file d (t @ [g])"
    | (fine) "node_at d (t @ [g]) \<noteq> Some LinkNode" "node_at d (t @ [g]) \<noteq> None \<or> \<not> blocked_by_file d (t @ [g])"
    by blast
  then show ?case
  proof cases
    case link
    moreover have "prefix (t @ [g]) (t @ g # r)" by simp
    ultimately show ?thesis
      unfolding clear_path_def by (auto simp: symlink_metadata_def)
  next
    case blocked
    then obtain a where "strict_prefix a (t @ [g])" "is_file_node (node_at d a)"
      by (auto simp: blocked_iff)
    moreover from this have "strict_prefix a (t @ g # r)"
      using prefix_order.less_le_trans [of a "t @ [g]" "t @ g # r"] by simp
    ultimately have "\<not> clear_path d (t @ g # r)"
      by (auto simp: clear_path_def)
    with blocked show ?thesis
      by (auto simp: symlink_metadata_def)
  next
    case fine
    have "\<not> is_file_node (node_at d t)"
      if "resolve_components d shown (map Normal (g # r)) t = Inr u \<or> clear_path d (t @ g # r)"
    proof
      assume at: "is_file_node (node_at d t)"
      then have "node_at d t \<noteq> Some DirNode" by auto
      then have "node_at d (t @ [g]) = None"
        using tree_okD [OF assms(1), of "t @ [g]" _ t] by (cases "node_at d (t @ [g])") (auto simp: strict_prefix_def)
      moreover have "blocked_by_file d (t @ [g])"
        using at by (auto simp: blocked_iff strict_prefix_def)
      ultimately show False using fine by simp
    qed
    moreover have "resolve_components d shown (map Normal (g # r)) t
        = resolve_components d shown (map Normal r) (t @ [g])"
      using fine by (auto simp: symlink_metadata_def split: node.splits option.splits)
    moreover have "clear_path d (t @ [g])" if "\<not> is_file_node (node_at d t)"
      using that Cons.prems fine(1) by (auto simp: clear_path_def step strict_prefix_def)
    ultimately show ?thesis
      using Cons.IH [of "t @ [g]"] Cons.prems fine(1)
      by (cases "is_file_node (node_at d t)"; cases r) (auto simp: step strict_prefix_def)
  qed
qed auto

lemma ensure_safe_iff: "tree_ok d \<Longrightarrow> ensure_target_still_safe d r = Inr () \<longleftrightarrow> clear_path d r"
  using resolve_names [of d "[]" "rel_text r" r]
  by (cases "r = []") (auto simp: ensure_target_still_safe_def try_then_Inr clear_path_def)

section \<open>Trees in the middle of writing\<close>

text \<open>Paths that may all be files at once.\<close>

definition antichain :: "rel set \<Rightarrow> bool" where
  "antichain P \<longleftrightarrow> [] \<notin> P \<and> (\<forall>p\<in>P. \<forall>q\<in>P. \<not> strict_prefix p q)"

definition file_place :: "node option \<Rightarrow> bool" where
  "file_place n \<longleftrightarrow> n = None \<or> is_file_node n"

definition targets_ok :: "work_tree \<Rightarrow> rel set \<Rightarrow> bool" where
  "targets_ok d P \<longleftrightarrow> antichain P \<and> (\<forall>p\<in>P. clear_path d p \<and> file_place (node_at d p))"

text \<open>
  A tree \<open>e\<close> on the way from \<open>d\<close>: only the paths \<open>P\<close> differ, as files or missing, and directories
  above them may be new.
\<close>

definition new_dir :: "work_tree \<Rightarrow> rel set \<Rightarrow> work_tree \<Rightarrow> rel \<Rightarrow> bool" where
  "new_dir d P e r \<longleftrightarrow> node_at d r = None \<and> node_at e r = Some DirNode \<and> (\<exists>p\<in>P. strict_prefix r p)"

definition midway :: "work_tree \<Rightarrow> rel set \<Rightarrow> work_tree \<Rightarrow> bool" where
  "midway d P e \<longleftrightarrow> tree_ok e \<and> (\<forall>p\<in>P. file_place (node_at e p))
     \<and> (\<forall>r. r \<notin> P \<longrightarrow> node_at e r = node_at d r \<or> new_dir d P e r)"

lemma midway_refl: "tree_ok d \<Longrightarrow> targets_ok d P \<Longrightarrow> midway d P d"
  by (simp add: midway_def targets_ok_def)

lemma midway_above:
  assumes "targets_ok d P" "midway d P e" "p \<in> P" "strict_prefix a p"
  shows "node_at e a = None \<or> node_at e a = Some DirNode"
proof -
  have "a \<notin> P"
    using assms(1,3,4) by (auto simp: targets_ok_def antichain_def)
  then have "node_at e a = node_at d a \<or> node_at e a = Some DirNode"
    using assms(2) by (auto simp: midway_def new_dir_def)
  moreover have "node_at d a \<noteq> Some LinkNode" "\<not> is_file_node (node_at d a)"
    using assms(1,3,4) by (auto simp: targets_ok_def clear_path_def strict_prefix_def)
  ultimately show ?thesis
    by (cases "node_at d a" rule: is_file_node.cases) auto
qed

lemma midway_clear:
  assumes "targets_ok d P" "midway d P e" "p \<in> P"
  shows "clear_path e p"
proof -
  have "node_at e p \<noteq> Some LinkNode"
    using assms(2,3) by (auto simp: midway_def file_place_def)
  moreover have "node_at e a \<noteq> Some LinkNode \<and> \<not> is_file_node (node_at e a)" if "strict_prefix a p" for a
    using midway_above [OF assms that] by auto
  ultimately show ?thesis
    unfolding clear_path_def by (metis prefix_order.order_iff_strict)
qed

lemma not_blocked:
  assumes "targets_ok d P" "midway d P e" "p \<in> P"
  shows "\<not> blocked_by_file e p"
  using midway_clear [OF assms] by (simp add: blocked_iff clear_path_def)

lemma below_file:
  assumes "tree_ok e" "file_place (node_at e p)" "strict_prefix p q"
  shows "node_at e q = None"
proof (cases "node_at e q")
  case (Some n)
  then have "node_at e p = Some DirNode"
    using tree_okD assms(1,3) by blast
  with assms(2) show ?thesis
    by (simp add: file_place_def)
qed

text \<open>Setting or removing a file at one of the paths.\<close>

lemma midway_set:
  assumes "targets_ok d P" "midway d P e" "p \<in> P" "\<forall>a. strict_prefix a p \<longrightarrow> node_at e a = Some DirNode"
  shows "midway d P (set_node p (FileNode b m) e)"
proof -
  have p: "p \<noteq> []" "tree_ok e" "file_place (node_at e p)"
    using assms by (auto simp: targets_ok_def antichain_def midway_def)
  have "tree_ok (set_node p (FileNode b m) e)"
    using p assms(4) below_file by (intro tree_ok_set) auto
  then show ?thesis
    using assms p by (auto simp: midway_def file_place_def new_dir_def)
qed

lemma midway_del:
  assumes "targets_ok d P" "midway d P e" "p \<in> P"
  shows "midway d P (del_node p e)"
proof -
  have p: "p \<noteq> []" "tree_ok e" "file_place (node_at e p)"
    using assms by (auto simp: targets_ok_def antichain_def midway_def)
  have "tree_ok (del_node p e)"
    using p below_file by (intro tree_ok_del) auto
  then show ?thesis
    using assms p by (auto simp: midway_def file_place_def new_dir_def)
qed

text \<open>Making the directories above a path.\<close>

lemma ensure_dir_node: "r \<noteq> [] \<Longrightarrow> node_at (ensure_dir r d) q =
    (if q = r \<and> node_at d r = None then Some DirNode else node_at d q)"
  by (auto simp: ensure_dir_def)

lemma fold_ensure_dir:
  "[] \<notin> set rs \<Longrightarrow> node_at (fold ensure_dir rs d) q =
     (if q \<in> set rs \<and> node_at d q = None then Some DirNode else node_at d q)"
proof (induction rs arbitrary: d)
  case (Cons r rs)
  then show ?case
    by (cases "q = r") (auto simp: ensure_dir_node)
qed simp

lemma strict_prefix_butlast: "r \<noteq> [] \<Longrightarrow> strict_prefix a r \<longleftrightarrow> prefix a (butlast r)"
  by (cases r rule: rev_cases) (auto simp: strict_prefix_def)

lemma ancestors_butlast:
  assumes "r \<noteq> []"
  shows "a \<in> set (ancestors (butlast r) @ (if butlast r = [] then [] else [butlast r])) \<longleftrightarrow> a \<noteq> [] \<and> strict_prefix a r"
  unfolding strict_prefix_butlast [OF assms] by (auto simp: set_ancestors prefix_order.le_less)

definition nodes_ok :: "work_tree \<Rightarrow> bool" where
  "nodes_ok d \<longleftrightarrow> distinct (map fst (wt_nodes d)) \<and> [] \<notin> fst ` set (wt_nodes d)"

lemma nodes_ok_dirs: "[] \<notin> set rs \<Longrightarrow> nodes_ok d \<Longrightarrow> nodes_ok (fold ensure_dir rs d)"
proof (induction rs arbitrary: d)
  case (Cons r rs)
  then have "nodes_ok (ensure_dir r d)"
    by (auto simp: nodes_ok_def ensure_dir_def set_node_def distinct_update dom_update)
  with Cons show ?case by simp
qed simp

lemma ensure_dirs_ok:
  assumes "tree_ok d" "\<forall>a\<in>set rs. node_at d a = None \<or> node_at d a = Some DirNode"
    and "\<forall>r\<in>set rs. \<forall>a. a \<noteq> [] \<and> strict_prefix a r \<longrightarrow> a \<in> set rs" "[] \<notin> set rs"
  shows "tree_ok (fold ensure_dir rs d)"
proof -
  let ?e = "fold ensure_dir rs d"
  have "nodes_ok ?e"
    using assms(1,4) nodes_ok_dirs by (simp add: nodes_ok_def tree_ok_def)
  moreover have "node_at ?e a = Some DirNode" if "node_at ?e q = Some n" "strict_prefix a q" for q n a
  proof (cases "a = []")
    case False
    note node = fold_ensure_dir [OF assms(4), of d]
    show ?thesis
    proof (cases "q \<in> set rs")
      case True
      then have "a \<in> set rs"
        using assms(3) False that(2) by blast
      then show ?thesis
        using assms(2) node by auto
    next
      case False
      then have "node_at d q = Some n"
        using that(1) node by simp
      then show ?thesis
        using tree_okD [OF assms(1) _ that(2)] node by auto
    qed
  qed simp
  ultimately show ?thesis
    by (simp add: tree_ok_def nodes_ok_def)
qed

lemma midway_dirs:
  assumes "targets_ok d P" "midway d P e" "p \<in> P"
  obtains u where "create_dir_all (butlast p) e = (Inr (), u)" "midway d P u"
    "\<forall>a. strict_prefix a p \<longrightarrow> node_at u a = Some DirNode" "\<forall>q\<in>P. node_at u q = node_at e q"
    "\<forall>q. \<not> strict_prefix q p \<longrightarrow> node_at u q = node_at e q"
proof -
  define chain where "chain = ancestors (butlast p) @ (if butlast p = [] then [] else [butlast p])"
  define u where "u = fold ensure_dir chain e"
  have p: "p \<noteq> []" "tree_ok e"
    using assms by (auto simp: targets_ok_def antichain_def midway_def)
  have chain: "a \<in> set chain \<longleftrightarrow> a \<noteq> [] \<and> strict_prefix a p" for a
    unfolding chain_def by (rule ancestors_butlast [OF p(1)])
  have dirs: "\<forall>a\<in>set chain. node_at e a = None \<or> node_at e a = Some DirNode"
    using midway_above [OF assms] by (metis chain)
  have node: "node_at u q = (if q \<noteq> [] \<and> strict_prefix q p \<and> node_at e q = None then Some DirNode else node_at e q)" for q
    using fold_ensure_dir [of chain e q] chain by (auto simp: u_def)
  have ok: "tree_ok u"
    unfolding u_def
  proof (rule ensure_dirs_ok [OF p(2) dirs])
    show "\<forall>r\<in>set chain. \<forall>a. a \<noteq> [] \<and> strict_prefix a r \<longrightarrow> a \<in> set chain"
      using prefix_order.less_trans by (metis chain)
    show "[] \<notin> set chain"
      by (simp add: chain)
  qed
  have above: "\<forall>a. strict_prefix a p \<longrightarrow> node_at u a = Some DirNode"
  proof (intro allI impI)
    fix a assume "strict_prefix a p"
    then show "node_at u a = Some DirNode"
      using midway_above [OF assms, of a] unfolding node by (cases "a = []") auto
  qed
  have same: "\<forall>q\<in>P. node_at u q = node_at e q"
    using assms(1,3) by (auto simp: node targets_ok_def antichain_def)
  have "midway d P u"
    using assms(2,3) ok same by (auto simp: midway_def node new_dir_def)
  moreover have "create_dir_all (butlast p) e = (Inr (), u)"
    using dirs unfolding create_dir_all_def Let_def list_ex_iff chain_def [symmetric] u_def by auto
  ultimately show ?thesis
    using above same node by (intro that [of u]) auto
qed

text \<open>A creation that stops half way made the upper ones of them.\<close>

lemma midway_some_dirs:
  assumes "targets_ok d P" "midway d P e" "p \<in> P" "prefix r (butlast p)"
  shows "midway d P (snd (create_dir_all r e))"
proof -
  define chain where "chain = ancestors r @ (if r = [] then [] else [r])"
  have p: "p \<noteq> []" "tree_ok e"
    using assms by (auto simp: targets_ok_def antichain_def midway_def)
  have chain: "a \<in> set chain \<longleftrightarrow> a \<noteq> [] \<and> prefix a r" for a
    by (auto simp: chain_def set_ancestors prefix_order.le_less)
  then have above: "a \<in> set chain \<Longrightarrow> a \<noteq> [] \<and> strict_prefix a p" for a
    using assms(4) strict_prefix_butlast [OF p(1)] prefix_order.order_trans by metis
  then have dirs: "\<forall>a\<in>set chain. node_at e a = None \<or> node_at e a = Some DirNode"
    using midway_above [OF assms(1-3)] by blast
  have node: "node_at (fold ensure_dir chain e) q
      = (if q \<in> set chain \<and> node_at e q = None then Some DirNode else node_at e q)" for q
    using fold_ensure_dir [of chain e q] chain by simp
  have "tree_ok (fold ensure_dir chain e)"
  proof (rule ensure_dirs_ok [OF p(2) dirs])
    show "\<forall>q\<in>set chain. \<forall>a. a \<noteq> [] \<and> strict_prefix a q \<longrightarrow> a \<in> set chain"
      by (metis chain prefix_order.less_imp_le prefix_order.order_trans)
    show "[] \<notin> set chain"
      by (simp add: chain)
  qed
  moreover have "q \<notin> set chain" if "q \<in> P" for q
    using above assms(1,3) that by (auto simp: targets_ok_def antichain_def)
  ultimately have "midway d P (fold ensure_dir chain e)"
    using assms(2,3) above by (auto simp: midway_def node new_dir_def)
  with assms(2) show ?thesis
    by (simp add: create_dir_all_def Let_def chain_def)
qed

lemma midway_write_change:
  assumes "targets_ok d P" "midway d P e" "change_path c \<in> P"
  shows "midway d P (snd (write_change fault c e))"
proof -
  obtain r b where c: "c = PatchWrite r b \<or> c = PatchDelete r" and r: "change_path c = r"
    by (cases c) auto
  have safe: "ensure_target_still_safe e r = Inr ()"
    using midway_clear [OF assms] ensure_safe_iff assms(2) r by (auto simp: midway_def)
  have place: "file_place (node_at e r)"
    using assms(2,3) r by (auto simp: midway_def)
  from midway_dirs [OF assms] r obtain u where u: "create_dir_all (butlast r) e = (Inr (), u)" "midway d P u"
      "\<forall>a. strict_prefix a r \<longrightarrow> node_at u a = Some DirNode" "node_at u r = node_at e r"
    using assms(3) by metis
  have written: "midway d P (snd (write_file r x u))" for x
    using u(2-4) place assms(1,3) r midway_set [OF assms(1) u(2), of r]
    by (auto simp: write_file_def file_place_def split: option.splits node.splits)
  have partly: "midway d P (snd (create_dir_all (take n (butlast r)) e))" for n
    using midway_some_dirs [OF assms] r by (simp add: take_is_prefix)
  have removed: "midway d P (snd (remove_file r e))"
    using assms r midway_del [OF assms(1,2), of r] by (auto simp: remove_file_def split: option.splits node.splits)
  show ?thesis
    using c u(1,2) safe written removed partly assms(2)
    by (cases fault) (auto simp: tree_then_def make_parent_def faulty_write_def faulty_remove_def lift_io_def map_err_def)
qed

lemma midway_write_changes:
  assumes "targets_ok d P" "midway d P e" "change_path ` set cs \<subseteq> P"
  shows "midway d P (snd (write_changes faults cs e))"
  using assms(2,3)
proof (induction faults cs e rule: write_changes.induct)
  case (2 faults c cs e)
  have "midway d P (snd (write_change (faults 0) c e))"
    using midway_write_change [OF assms(1) 2(2)] 2(3) by simp
  with 2 show ?case
    by (cases "write_change (faults 0) c e"; cases "fst (write_change (faults 0) c e)")
      (simp_all add: tree_then_def o_def)
qed simp

end
