(* ===== verification/Patch_Rollback.thy ===== *)
theory Patch_Rollback
  imports Patch_Midway
begin

text \<open>
  Why the rollback of a patch works: restoring the files and then dropping the directories made for
  them gives every node back. The one thing it needs of the patch is that no path it changes lies
  below another one.
\<close>

section \<open>Restoring the files\<close>

definition restored :: "work_tree \<Rightarrow> rel \<Rightarrow> work_tree \<Rightarrow> bool" where
  "restored d p e \<longleftrightarrow> node_at e p = node_at d p"

text \<open>What the rollback of a path remembers.\<close>

lemma rollback_of_Inr:
  assumes "rollback_of d p = Inr f" "file_place (node_at d p)"
  shows "fr_path f = p \<and> (case fr_contents f of
      None \<Rightarrow> node_at d p = None
    | Some b \<Rightarrow> (\<exists>m. fr_mode f = Some m \<and> node_at d p = Some (FileNode b m)))
    \<and> missing_parent_dirs d p = Inr (fr_created f)"
proof (cases "node_at d p")
  case None
  then show ?thesis
    using assms(1) by (auto simp: rollback_of_def try_then_Inr read_bytes_def)
next
  case (Some n)
  then obtain b m where "n = FileNode b m"
    using assms(2) by (cases n) (auto simp: file_place_def)
  with Some show ?thesis
    using assms(1) by (auto simp: rollback_of_def try_then_Inr read_bytes_def)
qed

lemma restore_contents_back:
  assumes "targets_ok d P" "tree_ok d" "midway d P e" "fr_path f \<in> P"
    and remembered: "case fr_contents f of None \<Rightarrow> node_at d (fr_path f) = None
      | Some b \<Rightarrow> (\<exists>m. fr_mode f = Some m \<and> node_at d (fr_path f) = Some (FileNode b m))"
  obtains u where "restore_contents NoFault f e = (Inr (), u)" "midway d P u" "restored d (fr_path f) u"
    "\<forall>q. q \<noteq> fr_path f \<longrightarrow> node_at u q = node_at e q"
proof -
  let ?p = "fr_path f"
  have p: "?p \<noteq> []" "file_place (node_at e ?p)"
    using assms(1,3,4) by (auto simp: targets_ok_def antichain_def midway_def)
  show thesis
  proof (cases "fr_contents f")
    case None
    then have gone: "node_at d ?p = None"
      using remembered by simp
    show thesis
    proof (cases "node_at e ?p")
      case None
      with \<open>fr_contents f = None\<close> gone assms(3) show thesis
        by (intro that [of e]) (simp_all add: restore_contents_def tree_then_def restored_def)
    next
      case (Some n)
      then have "remove_file ?p e = (Inr (), del_node ?p e)"
        using p(2) by (cases n) (simp_all add: remove_file_def file_place_def)
      with \<open>fr_contents f = None\<close> gone Some p(1) show thesis
        by (intro that [of "del_node ?p e"])
          (simp_all add: restore_contents_def tree_then_def restored_def faulty_remove_def lift_io_def map_err_def
            midway_del [OF assms(1,3,4)])
    qed
  next
    case (Some b)
    then obtain m where held: "fr_mode f = Some m" "node_at d ?p = Some (FileNode b m)"
      using remembered by auto
    have dirs: "node_at e a = Some DirNode" if "strict_prefix a ?p" for a
    proof -
      have "a \<notin> P"
        using assms(1,4) that by (auto simp: targets_ok_def antichain_def)
      then show ?thesis
        using tree_okD [OF assms(2) held(2) that] assms(3) unfolding midway_def new_dir_def by metis
    qed
    obtain u where u: "create_dir_all (butlast ?p) e = (Inr (), u)" "midway d P u"
        "\<forall>a. strict_prefix a ?p \<longrightarrow> node_at u a = Some DirNode" "node_at u ?p = node_at e ?p"
        "\<forall>q. \<not> strict_prefix q ?p \<longrightarrow> node_at u q = node_at e q"
      using midway_dirs [OF assms(1,3,4)] assms(4) by metis
    have same: "node_at u q = node_at e q" for q
      using u(3,5) dirs by metis
    have "strict_prefix (butlast ?p) ?p"
      using p(1) by (simp add: strict_prefix_butlast)
    then obtain m' where w: "write_file ?p b u = (Inr (), set_node ?p (FileNode b m') u)"
      using p(2) u(3,4) by (cases "node_at e ?p" rule: is_file_node.cases)
        (auto simp: write_file_def file_place_def)
    have "set_permissions ?p m (set_node ?p (FileNode b m') u) = (Inr (), set_node ?p (FileNode b m) (set_node ?p (FileNode b m') u))"
      using p(1) by (simp add: set_permissions_def)
    moreover have "midway d P (set_node ?p (FileNode b m) (set_node ?p (FileNode b m') u))"
    proof (rule midway_set [OF assms(1) midway_set [OF assms(1) u(2) assms(4) u(3)] assms(4)])
      show "\<forall>a. strict_prefix a ?p \<longrightarrow> node_at (set_node ?p (FileNode b m') u) a = Some DirNode"
        using u(3) p(1) by auto
    qed
    ultimately show thesis
      using Some held w u(1) p(1) same
      by (intro that [of "set_node ?p (FileNode b m) (set_node ?p (FileNode b m') u)"])
        (simp_all add: restore_contents_def tree_then_def restored_def make_parent_def faulty_write_def faulty_mode_def
          lift_io_def map_err_def)
  qed
qed

lemma restore_file_back:
  assumes "targets_ok d P" "tree_ok d" "midway d P e" "fr_path f \<in> P"
    and "rollback_of d (fr_path f) = Inr f"
  obtains u where "restore_file NoFault f e = (Inr (), u)" "midway d P u" "restored d (fr_path f) u"
    "\<forall>q. q \<noteq> fr_path f \<longrightarrow> node_at u q = node_at e q"
proof -
  have "ensure_target_still_safe e (fr_path f) = Inr ()"
    using midway_clear [OF assms(1,3,4)] ensure_safe_iff assms(3) by (auto simp: midway_def)
  moreover have "case fr_contents f of None \<Rightarrow> node_at d (fr_path f) = None
      | Some b \<Rightarrow> (\<exists>m. fr_mode f = Some m \<and> node_at d (fr_path f) = Some (FileNode b m))"
    using rollback_of_Inr [OF assms(5)] assms(1,4) by (simp add: targets_ok_def)
  ultimately show thesis
    by (elim restore_contents_back [OF assms(1-4)]) (auto simp: restore_file_def tree_then_def intro: that)
qed

lemma restore_files_back:
  assumes "targets_ok d P" "tree_ok d" "midway d P e"
    and "\<forall>f\<in>set fs. fr_path f \<in> P \<and> rollback_of d (fr_path f) = Inr f"
  shows "\<exists>u. restore_files (\<lambda>_. NoFault) fs e = (Inr (), u) \<and> midway d P u
    \<and> (\<forall>q. node_at u q = (if q \<in> fr_path ` set fs then node_at d q else node_at e q))"
  using assms(3,4)
proof (induction fs arbitrary: e)
  case (Cons f fs)
  then obtain u where u: "restore_file NoFault f e = (Inr (), u)" "midway d P u" "restored d (fr_path f) u"
      "\<forall>q. q \<noteq> fr_path f \<longrightarrow> node_at u q = node_at e q"
    using restore_file_back [OF assms(1,2), of e f] by auto
  from Cons.IH [OF u(2)] Cons.prems(2) obtain v where v: "restore_files (\<lambda>_. NoFault) fs u = (Inr (), v)" "midway d P v"
      "\<forall>q. node_at v q = (if q \<in> fr_path ` set fs then node_at d q else node_at u q)"
    by auto
  with u show ?case
    by (intro exI [of _ v]) (auto simp: tree_then_def o_def restored_def)
qed auto

section \<open>Dropping the directories\<close>

text \<open>The directories that are missing above a path, deepest first.\<close>

lemma missing_up_Inr:
  assumes "tree_ok d" "missing_up d up = Inr ds"
  shows "set ds = {a. a \<noteq> [] \<and> prefix a (rev up) \<and> node_at d a = None}
    \<and> sorted_wrt (\<lambda>x y. strict_prefix y x) ds"
  using assms(2)
proof (induction up arbitrary: ds)
  case (Cons g up)
  define dir where "dir = rev (g # up)"
  have above: "prefix a dir \<longleftrightarrow> a = dir \<or> prefix a (rev up)" and dir: "dir \<noteq> []" for a
    by (auto simp: dir_def)
  from Cons.prems consider (here) n where "symlink_metadata d dir = StatNode n" "ds = []"
    | (missing) rest where "symlink_metadata d dir = StatMissing" "missing_up d up = Inr rest" "ds = dir # rest"
    by (auto simp: try_then_Inr Let_def dir_def split: stat.splits)
  then show ?case
  proof cases
    case here
    then obtain m where m: "node_at d dir = Some m"
      by (auto simp: symlink_metadata_def split: option.splits if_splits)
    have "node_at d a \<noteq> None" if "prefix a dir" for a
    proof (cases "a = dir")
      case False
      with that have "strict_prefix a dir" by (simp add: strict_prefix_def)
      from tree_okD [OF assms(1) m this] show ?thesis by simp
    qed (simp add: m)
    with here(2) show ?thesis
      by (auto simp: dir_def)
  next
    case missing
    then have gone: "node_at d dir = None"
      by (auto simp: symlink_metadata_def split: option.splits if_splits)
    note ih = Cons.IH [OF missing(2)]
    have shorter: "strict_prefix a dir" if "a \<in> set rest" for a
    proof -
      have "prefix a (rev up)" using ih that by blast
      then show ?thesis by (auto simp: dir_def strict_prefix_def)
    qed
    have "set ds = {a. a \<noteq> [] \<and> prefix a dir \<and> node_at d a = None}"
    proof (rule set_eqI)
      fix a
      have "a \<in> set rest \<longleftrightarrow> a \<noteq> [] \<and> prefix a (rev up) \<and> node_at d a = None"
        using ih by simp
      then show "a \<in> set ds \<longleftrightarrow> a \<in> {a. a \<noteq> [] \<and> prefix a dir \<and> node_at d a = None}"
        unfolding missing(3) mem_Collect_eq above using gone dir by auto
    qed
    moreover have "sorted_wrt (\<lambda>x y. strict_prefix y x) ds"
      unfolding missing(3) using conjunct2 [OF ih] shorter by simp
    ultimately show ?thesis
      unfolding dir_def by blast
  qed
qed simp

lemma missing_parents_Inr:
  assumes "tree_ok d" "missing_parent_dirs d p = Inr ds" "p \<noteq> []"
  shows "set ds = {a. a \<noteq> [] \<and> strict_prefix a p \<and> node_at d a = None}
    \<and> sorted_wrt (\<lambda>x y. strict_prefix y x) ds"
  using missing_up_Inr [OF assms(1), of "tl (rev p)" ds] assms(2,3)
  by (simp add: missing_parent_dirs_def strict_prefix_butlast butlast_rev [symmetric])

text \<open>A tree that differs from \<open>d\<close> in new directories only.\<close>

definition only_dirs :: "work_tree \<Rightarrow> rel set \<Rightarrow> work_tree \<Rightarrow> bool" where
  "only_dirs d D e \<longleftrightarrow> tree_ok e \<and> (\<forall>r. node_at e r = node_at d r
     \<or> (r \<in> D \<and> node_at d r = None \<and> node_at e r = Some DirNode))"

definition droppable :: "work_tree \<Rightarrow> rel \<Rightarrow> bool" where
  "droppable d r \<longleftrightarrow> r \<noteq> [] \<and> node_at d r = None
     \<and> (\<forall>a. strict_prefix a r \<longrightarrow> node_at d a = None \<or> node_at d a = Some DirNode)"

lemma drop_dir_step:
  assumes "only_dirs d D e" "droppable d r"
  obtains u where "drop_dir r e = (Inr (), u)" "only_dirs d D u"
    "node_at u r = None \<or> (\<exists>q. strict_prefix r q \<and> node_at u q \<noteq> None)"
    "\<forall>q. node_at u q = (if q = r then node_at u r else node_at e q)"
    "node_at e r = None \<longrightarrow> node_at u r = None"
proof -
  have e: "tree_ok e" "r \<noteq> []"
    using assms by (auto simp: only_dirs_def droppable_def)
  have at: "node_at e r = None \<or> node_at e r = Some DirNode"
    using assms by (auto simp: only_dirs_def droppable_def) metis
  have above: "node_at e a = None \<or> node_at e a = Some DirNode" if "strict_prefix a r" for a
    using assms that unfolding only_dirs_def droppable_def by metis
  have clear: "clear_path e r"
    unfolding clear_path_def using at above by (metis is_file_node.simps(2,3) node.distinct(5) option.inject
        option.distinct(1) prefix_order.le_less)
  then have safe: "ensure_target_still_safe e r = Inr ()"
    using ensure_safe_iff [OF e(1)] by simp
  have "\<not> blocked_by_file e r"
    using clear by (simp add: blocked_iff clear_path_def)
  show thesis
  proof (cases "node_at e r = Some DirNode \<and> \<not> has_entries e r")
    case True
    then have "\<forall>q. strict_prefix r q \<longrightarrow> node_at e q = None"
      using has_entries_iff [OF e(1)] by auto
    then have "tree_ok (del_node r e)"
      using tree_ok_del e by blast
    then have "only_dirs d D (del_node r e)"
      using assms e(2) unfolding only_dirs_def droppable_def by (metis node_at_del)
    moreover have "drop_dir r e = (Inr (), del_node r e)"
      using True safe by (simp add: drop_dir_def tree_then_def remove_dir_def)
    ultimately show thesis
      using e(2) by (intro that [of "del_node r e"]) auto
  next
    case False
    have "drop_dir r e = (Inr (), e)"
      using False at safe \<open>\<not> blocked_by_file e r\<close> by (auto simp: drop_dir_def tree_then_def remove_dir_def)
    moreover have "node_at e r = None \<or> (\<exists>q. strict_prefix r q \<and> node_at e q \<noteq> None)"
      using False at has_entries_iff [OF e(1)] by auto
    ultimately show thesis
      using assms(1) by (intro that [of e]) auto
  qed
qed

text \<open>After a chain of directories each is gone or keeps something below that is not of the chain.\<close>

lemma drop_chain:
  assumes "only_dirs d D e" "\<forall>r\<in>set ds. droppable d r" "sorted_wrt (\<lambda>x y. strict_prefix y x) ds"
  shows "\<exists>u. drop_dirs ds e = (Inr (), u) \<and> only_dirs d D u
    \<and> (\<forall>q. q \<notin> set ds \<longrightarrow> node_at u q = node_at e q)
    \<and> (\<forall>q. node_at e q = None \<longrightarrow> node_at u q = None)
    \<and> (\<forall>r\<in>set ds. node_at u r = None \<or> (\<exists>q. strict_prefix r q \<and> q \<notin> set ds \<and> node_at u q \<noteq> None))"
  using assms
proof (induction ds arbitrary: e)
  case (Cons r ds)
  obtain u where u: "drop_dir r e = (Inr (), u)" "only_dirs d D u"
      "node_at u r = None \<or> (\<exists>q. strict_prefix r q \<and> node_at u q \<noteq> None)"
      "\<forall>q. node_at u q = (if q = r then node_at u r else node_at e q)"
      "node_at e r = None \<longrightarrow> node_at u r = None"
  proof -
    have "droppable d r" using Cons.prems(2) by simp
    from Cons.prems(1) this that show thesis by (rule drop_dir_step)
  qed
  obtain v where v: "drop_dirs ds u = (Inr (), v)" "only_dirs d D v"
      "\<forall>q. q \<notin> set ds \<longrightarrow> node_at v q = node_at u q" "\<forall>q. node_at u q = None \<longrightarrow> node_at v q = None"
      "\<forall>r\<in>set ds. node_at v r = None \<or> (\<exists>q. strict_prefix r q \<and> q \<notin> set ds \<and> node_at v q \<noteq> None)"
  proof -
    have "\<forall>r\<in>set ds. droppable d r" "sorted_wrt (\<lambda>x y. strict_prefix y x) ds"
      using Cons.prems by simp_all
    from Cons.IH [OF u(2) this] that show thesis by (elim exE conjE) (rule that)
  qed
  have shorter: "strict_prefix q r" if "q \<in> set ds" for q
    using Cons.prems(3) that by auto
  have below: "q \<notin> set (r # ds)" if "strict_prefix r q" for q
    using that shorter by (metis prefix_order.less_asym prefix_order.less_irrefl set_ConsD)
  have first: "node_at v r = None \<or> (\<exists>q. strict_prefix r q \<and> q \<notin> set (r # ds) \<and> node_at v q \<noteq> None)"
    using u(3) v(3,4) below by (metis list.set_intros(2))
  have "node_at v x = None \<or> (\<exists>q. strict_prefix x q \<and> q \<notin> set (r # ds) \<and> node_at v q \<noteq> None)" if "x \<in> set ds" for x
  proof (cases "node_at v x = None")
    case False
    then obtain q where q: "strict_prefix x q" "q \<notin> set ds" "node_at v q \<noteq> None"
      using bspec [OF v(5) \<open>x \<in> set ds\<close>] by metis
    show ?thesis
    proof (cases "q = r")
      case True
      then obtain q' where "strict_prefix r q'" "q' \<notin> set (r # ds)" "node_at v q' \<noteq> None"
        using first q(3) by metis
      then show ?thesis
        using shorter [OF \<open>x \<in> set ds\<close>] prefix_order.less_trans by metis
    next
      case False
      with q show ?thesis by auto
    qed
  qed simp
  moreover have "\<forall>q. q \<notin> set (r # ds) \<longrightarrow> node_at v q = node_at e q"
    using u(4) v(3) by (metis list.set_intros)
  moreover have "\<forall>q. node_at e q = None \<longrightarrow> node_at v q = None"
    using u(4,5) v(4) by metis
  ultimately show ?case
    using first u(1) v(1,2) by (intro exI [of _ v]) (simp add: tree_then_def)
qed auto

lemma drop_dirs_append:
  "drop_dirs (xs @ ys) d = tree_then (drop_dirs xs d) (drop_dirs ys)"
  by (induction xs arbitrary: d) (auto simp: tree_then_def split: prod.splits sum.splits)

text \<open>The lists of all paths leave nothing: what one keeps is above something another one drops.\<close>

lemma drop_all:
  assumes "only_dirs d (\<Union> (set ` set Ms)) e"
    and "\<forall>M\<in>set Ms. (\<forall>r\<in>set M. droppable d r) \<and> sorted_wrt (\<lambda>x y. strict_prefix y x) M
      \<and> (\<forall>q\<in>set M. \<forall>r. r \<noteq> [] \<and> strict_prefix r q \<and> node_at d r = None \<longrightarrow> r \<in> set M)"
    and "tree_ok d"
  shows "\<exists>u. drop_dirs (concat Ms) e = (Inr (), u) \<and> (\<forall>q. node_at u q = node_at d q)"
  using assms
proof (induction Ms arbitrary: e)
  case Nil
  then show ?case
    by (auto simp: only_dirs_def)
next
  case (Cons M Ms)
  let ?D = "\<Union> (set ` set (M # Ms))"
  have M: "\<forall>r\<in>set M. droppable d r" "sorted_wrt (\<lambda>x y. strict_prefix y x) M"
    using Cons.prems(2) by auto
  from drop_chain [OF Cons.prems(1) M] obtain u where u: "drop_dirs M e = (Inr (), u)" "only_dirs d ?D u"
      "\<forall>r\<in>set M. node_at u r = None \<or> (\<exists>q. strict_prefix r q \<and> q \<notin> set M \<and> node_at u q \<noteq> None)"
    by (elim exE conjE) (rule that)
  have "r \<in> \<Union> (set ` set Ms)" if r: "r \<in> ?D" "node_at d r = None" "node_at u r = Some DirNode" for r
  proof (cases "r \<in> set M")
    case True
    then obtain q where q: "strict_prefix r q" "q \<notin> set M" "node_at u q \<noteq> None"
      using bspec [OF u(3), of r] r(3) by auto
    have "node_at d q = None"
      using tree_okD [OF Cons.prems(3) _ q(1)] r(2) by (cases "node_at d q") auto
    moreover have "node_at u q = node_at d q \<or> q \<in> ?D"
      using u(2) unfolding only_dirs_def by blast
    ultimately have "q \<in> ?D"
      using q(3) by simp
    with q(2) have "q \<in> \<Union> (set ` set Ms)"
      by simp
    then obtain N where "N \<in> set Ms" "q \<in> set N" by auto
    moreover have "r \<noteq> []"
      using M(1) True by (auto simp: droppable_def)
    ultimately show ?thesis
      using Cons.prems(2) q(1) r(2) by (intro UN_I [of N]) auto
  qed (use r in auto)
  then have "only_dirs d (\<Union> (set ` set Ms)) u"
    using u(2) unfolding only_dirs_def by blast
  from Cons.IH [OF this _ Cons.prems(3)] Cons.prems(2) obtain v where v:
      "drop_dirs (concat Ms) u = (Inr (), v)" "\<forall>q. node_at v q = node_at d q"
    by (metis list.set_intros(2))
  have "drop_dirs (concat (M # Ms)) e = (Inr (), v)"
    using u(1) v(1) by (simp add: drop_dirs_append tree_then_def)
  with v(2) show ?case by blast
qed

section \<open>The rollback\<close>

lemma stage_rollback_Inr:
  "stage_rollback d ps = Inr fs \<longleftrightarrow> list_all2 (\<lambda>p f. rollback_of d p = Inr f) ps fs"
  by (induction ps arbitrary: fs) (auto simp: try_then_Inr list_all2_Cons1)

lemma stage_rollback_targets:
  assumes "stage_rollback d ps = Inr fs" "targets_ok d (set ps)"
  shows "\<forall>f\<in>set fs. fr_path f \<in> set ps \<and> rollback_of d (fr_path f) = Inr f" "fr_path ` set fs = set ps"
proof -
  have eq: "list_all2 (\<lambda>p f. rollback_of d p = Inr f \<and> fr_path f = p) ps fs"
    using assms(1) unfolding stage_rollback_Inr
  proof (rule list.rel_mono_strong)
    fix p f assume "p \<in> set ps" "rollback_of d p = Inr f"
    then show "rollback_of d p = Inr f \<and> fr_path f = p"
      using assms(2) rollback_of_Inr [of d p f] by (auto simp: targets_ok_def)
  qed
  then show "fr_path ` set fs = set ps"
    by (induction ps fs rule: list_all2_induct) auto
  show "\<forall>f\<in>set fs. fr_path f \<in> set ps \<and> rollback_of d (fr_path f) = Inr f"
    using eq by (induction ps fs rule: list_all2_induct) auto
qed

lemma stage_rollback_ok:
  assumes "tree_ok d" "targets_ok d (set ps)"
  shows "\<exists>fs. stage_rollback d ps = Inr fs"
proof -
  have up: "\<exists>ds. missing_up d up = Inr ds" if "clear_path d (rev up)" "\<forall>a. prefix a (rev up) \<longrightarrow> \<not> is_file_node (node_at d a)" for up
    using that
  proof (induction up)
    case (Cons g up)
    have "clear_path d (rev up)" "\<forall>a. prefix a (rev up) \<longrightarrow> \<not> is_file_node (node_at d a)"
      using Cons.prems by (auto simp: clear_path_def strict_prefix_def)
    from Cons.IH [OF this] obtain ds where "missing_up d up = Inr ds" by blast
    moreover have "\<not> blocked_by_file d (rev (g # up))"
      using Cons.prems by (auto simp: blocked_iff clear_path_def)
    moreover have "ensure_target_still_safe d (rev (g # up)) = Inr ()"
      using ensure_safe_iff [OF assms(1)] Cons.prems(1) by blast
    ultimately show ?case
      by (auto simp: symlink_metadata_def Let_def split: option.splits)
  qed simp
  have "\<exists>f. rollback_of d p = Inr f" if "p \<in> set ps" for p
  proof -
    have clear: "clear_path d p" "p \<noteq> []"
      using assms(2) that by (auto simp: targets_ok_def antichain_def)
    have "rev (tl (rev p)) = butlast p"
      by (metis butlast_rev rev_rev_ident)
    then obtain ds where "missing_parent_dirs d p = Inr ds"
      using up [of "tl (rev p)"] clear unfolding missing_parent_dirs_def
      by (auto simp: clear_path_def strict_prefix_butlast dest: prefix_order.less_imp_le)
        (metis prefix_order.less_imp_le prefix_order.le_less_trans strict_prefix_butlast prefix_order.order_refl)
    moreover have "ensure_target_still_safe d p = Inr ()"
      using ensure_safe_iff [OF assms(1)] clear(1) by simp
    ultimately show ?thesis
      by (simp add: rollback_of_def)
  qed
  then show ?thesis
  proof (induction ps)
    case (Cons p ps)
    then obtain f fs where "rollback_of d p = Inr f" "stage_rollback d ps = Inr fs"
      by (metis list.set_intros)
    then show ?case by simp
  qed simp
qed

lemma rollback_restores:
  assumes "tree_ok d" "targets_ok d (set ps)" "stage_rollback d ps = Inr fs" "midway d (set ps) e"
  shows "\<exists>u. restore_rollback (\<lambda>_. NoFault) fs e = (Inr (), u) \<and> (\<forall>q. node_at u q = node_at d q)"
proof -
  note held = stage_rollback_targets [OF assms(3,2)]
  have "\<forall>f\<in>set (rev fs). fr_path f \<in> set ps \<and> rollback_of d (fr_path f) = Inr f"
    using held(1) by simp
  from restore_files_back [OF assms(2,1,4) this] held(2) obtain u where u:
      "restore_files (\<lambda>_. NoFault) (rev fs) e = (Inr (), u)" "midway d (set ps) u"
      "\<forall>q. node_at u q = (if q \<in> set ps then node_at d q else node_at e q)"
    by auto
  define Ms where "Ms = map fr_created (rev fs)"
  have created: "set (fr_created f) = {a. a \<noteq> [] \<and> strict_prefix a (fr_path f) \<and> node_at d a = None}
      \<and> sorted_wrt (\<lambda>x y. strict_prefix y x) (fr_created f)" if "f \<in> set fs" for f
  proof -
    have f: "fr_path f \<in> set ps" "rollback_of d (fr_path f) = Inr f"
      using held(1) that by auto
    then have "file_place (node_at d (fr_path f))" "fr_path f \<noteq> []"
      using assms(2) by (auto simp: targets_ok_def antichain_def)
    with rollback_of_Inr [OF f(2)] missing_parents_Inr [OF assms(1)] show ?thesis
      by blast
  qed
  have "only_dirs d (\<Union> (set ` set Ms)) u"
    unfolding only_dirs_def
  proof (intro conjI allI)
    show "tree_ok u"
      using u(2) by (simp add: midway_def)
    fix r
    show "node_at u r = node_at d r
        \<or> r \<in> \<Union> (set ` set Ms) \<and> node_at d r = None \<and> node_at u r = Some DirNode"
    proof (cases "r \<in> set ps \<or> node_at u r = node_at d r")
      case False
      then have "new_dir d (set ps) u r"
        using u(2) unfolding midway_def by blast
      then obtain p where p: "node_at d r = None" "node_at u r = Some DirNode" "p \<in> set ps" "strict_prefix r p"
        unfolding new_dir_def by blast
      then obtain f where f: "f \<in> set fs" "fr_path f = p"
        using held(2) by (metis imageE)
      have "r \<noteq> []" using p(1) by auto
      then have "r \<in> set (fr_created f)"
        using created [OF f(1)] p f(2) by auto
      then show ?thesis
        using f(1) p by (auto simp: Ms_def)
    qed (use u(3) in auto)
  qed
  moreover have "\<forall>M\<in>set Ms. (\<forall>r\<in>set M. droppable d r) \<and> sorted_wrt (\<lambda>x y. strict_prefix y x) M
      \<and> (\<forall>q\<in>set M. \<forall>r. r \<noteq> [] \<and> strict_prefix r q \<and> node_at d r = None \<longrightarrow> r \<in> set M)"
  proof
    fix M assume "M \<in> set Ms"
    then obtain f where f: "f \<in> set fs" "M = fr_created f"
      by (auto simp: Ms_def)
    then have target: "fr_path f \<in> set ps"
      using held(1) by blast
    have "droppable d r" if "r \<in> set M" for r
    proof -
      have r: "r \<noteq> []" "strict_prefix r (fr_path f)" "node_at d r = None"
        using created [OF f(1)] that f(2) by auto
      have "node_at d a = None \<or> node_at d a = Some DirNode" if "strict_prefix a r" for a
        using midway_above [OF assms(2) midway_refl [OF assms(1,2)] target, of a] that r(2) prefix_order.less_trans
        by blast
      with r show ?thesis
        by (simp add: droppable_def)
    qed
    moreover have "r \<in> set M" if "q \<in> set M" "r \<noteq> []" "strict_prefix r q" "node_at d r = None" for q r
      using created [OF f(1)] that f(2) prefix_order.less_trans by auto
    ultimately show "(\<forall>r\<in>set M. droppable d r) \<and> sorted_wrt (\<lambda>x y. strict_prefix y x) M
      \<and> (\<forall>q\<in>set M. \<forall>r. r \<noteq> [] \<and> strict_prefix r q \<and> node_at d r = None \<longrightarrow> r \<in> set M)"
      using created [OF f(1)] f(2) by auto
  qed
  ultimately obtain v where "drop_dirs (concat Ms) u = (Inr (), v)" "\<forall>q. node_at v q = node_at d q"
    using drop_all [OF _ _ assms(1)] by blast
  with u(1) show ?thesis
    by (auto simp: restore_rollback_def tree_then_def Ms_def)
qed

end
