(* ===== verification/Patch_Targets.thy ===== *)
theory Patch_Targets
  imports Patch_Rollback
begin

text \<open>
  What preparing a patch guarantees about the paths it is going to write, and what the write does
  with them when nothing fails.
\<close>

section \<open>Prepared changes\<close>

definition names_of :: "path \<Rightarrow> rel" where
  "names_of cs = List.map_filter (\<lambda>c. case c of Normal g \<Rightarrow> Some g | _ \<Rightarrow> None) cs"

lemma names_of_simps [simp]:
  "names_of [] = []" "names_of (Normal g # cs) = g # names_of cs" "names_of (CurDir # cs) = names_of cs"
  "names_of (ParentDir # cs) = names_of cs" "names_of (RootDir # cs) = names_of cs"
  by (simp_all add: names_of_def List.map_filter_simps)

lemma resolve_skips_dots:
  "resolve_components d shown cs t = Inr u \<Longrightarrow> resolve_components d shown (map Normal (names_of cs)) t = Inr u"
proof (induction d shown cs t rule: resolve_components.induct)
  case (3 d shown g cs t)
  then show ?case
    by (auto split: stat.splits node.splits)
qed auto

lemma resolve_target:
  assumes "tree_ok d" "resolve_components d shown cs [] = Inr u"
  shows "u = names_of cs \<and> clear_path d u"
proof -
  have "u = names_of cs \<and> (names_of cs = [] \<or> clear_path d (names_of cs))"
    using resolve_names [OF assms(1), of "[]" shown "names_of cs" u] resolve_skips_dots [OF assms(2)] by simp
  then show ?thesis
    by (auto simp: clear_path_def)
qed

lemma read_to_string_file: "read_to_string d r = Inr b \<Longrightarrow> is_file_node (node_at d r)"
  by (auto simp: read_to_string_def read_bytes_def try_then_Inr split: option.splits node.splits)

lemma missing_metadata: "\<forall>n. symlink_metadata d r \<noteq> StatNode n \<Longrightarrow> node_at d r = None"
  by (auto simp: symlink_metadata_def split: option.splits)

text \<open>What preparing one file of a patch agrees to.\<close>

definition change_ok :: "work_tree \<Rightarrow> patch_change \<Rightarrow> bool" where
  "change_ok d c \<longleftrightarrow> change_path c \<noteq> [] \<and> clear_path d (change_path c) \<and> file_place (node_at d (change_path c))
     \<and> list_all plain_segment (change_path c)
     \<and> (postimage c = None \<longrightarrow> is_file_node (node_at d (change_path c)))"

lemma names_of_plain: "list_all pushable cs \<Longrightarrow> list_all plain_segment (names_of cs)"
proof (induction cs)
  case (Cons c cs)
  then show ?case by (cases c) auto
qed simp

lemma resolved_patch_target:
  assumes "tree_ok d" "resolve_patch_target d relative = Inr r"
  shows "clear_path d r" "list_all plain_segment r" "r = names_of (components relative)"
  using resolve_target [OF assms(1)] assms(2) names_of_plain [OF components_pushable]
  unfolding resolve_patch_target_def by blast+

lemma root_is_dir: "is_file_node (node_at d r) \<Longrightarrow> r \<noteq> []" "node_at d r = None \<Longrightarrow> r \<noteq> []"
  by auto

lemma change_okI:
  assumes "tree_ok d" "resolve_patch_target d relative = Inr (change_path c)"
    and "node_at d (change_path c) = None \<and> postimage c \<noteq> None \<or> is_file_node (node_at d (change_path c))"
  shows "change_ok d c"
  using resolved_patch_target [OF assms(1,2)] root_is_dir [of d "change_path c"] assms(3)
  by (auto simp: change_ok_def file_place_def)

lemma prepare_patch_file_ok:
  assumes "tree_ok d" "prepare_patch_file d p = Inr c"
  shows "change_ok d c"
proof -
  consider "prepare_creation d p = Inr c" | "prepare_deletion d p = Inr c" | "prepare_modification d p = Inr c"
    using assms(2) by (auto simp: prepare_patch_file_def Let_def split: if_splits)
  then show ?thesis
  proof cases
    case 1
    then obtain relative full out where "resolve_patch_target d relative = Inr full"
        "\<forall>n. symlink_metadata d full \<noteq> StatNode n" "c = PatchWrite full out"
      by (auto simp: prepare_creation_def lane_then_def try_then_Inr map_err_Inr split: stat.splits) (metis stat.exhaust)
    then show ?thesis
      using missing_metadata by (intro change_okI [OF assms(1)]) simp_all
  next
    case 2
    then obtain relative full current where "resolve_patch_target d relative = Inr full"
        "read_to_string d full = Inr current" "c = PatchDelete full"
      by (auto simp: prepare_deletion_def read_target_def lane_then_def try_then_Inr map_err_Inr split: if_splits)
    then show ?thesis
      using read_to_string_file by (intro change_okI [OF assms(1)]) simp_all
  next
    case 3
    then obtain relative full current out where "resolve_patch_target d relative = Inr full"
        "read_to_string d full = Inr current" "c = PatchWrite full out"
      by (auto simp: prepare_modification_def read_target_def lane_then_def try_then_Inr map_err_Inr split: if_splits)
    then show ?thesis
      using read_to_string_file by (intro change_okI [OF assms(1)]) simp_all
  qed
qed

lemma prepare_files_ok:
  "tree_ok d \<Longrightarrow> prepare_files d ps = Inr a \<Longrightarrow> c \<in> set (pa_changes a) \<Longrightarrow> change_ok d c"
proof (induction ps arbitrary: a)
  case (Cons p ps)
  then show ?case
    by (auto simp: try_then_Inr map_err_Inr split: if_splits dest: prepare_patch_file_ok)
qed auto

lemma prepare_patch_ok:
  "tree_ok d \<Longrightarrow> prepare_patch d diff = Inr a \<Longrightarrow> c \<in> set (pa_changes a) \<Longrightarrow> change_ok d c"
  by (auto simp: prepare_patch_def try_then_Inr prepare_files_ok split: if_splits)

text \<open>The changes are the ones of the text sections, in their order; binary sections give none.\<close>

lemma prepare_files_sections:
  "prepare_files d ps = Inr a \<Longrightarrow> map (prepare_patch_file d) (filter (\<lambda>p. \<not> pf_binary p) ps) = map Inr (pa_changes a)
     \<and> length (pa_refusals a) = length (filter pf_binary ps)"
proof (induction ps arbitrary: a)
  case (Cons p ps)
  then show ?case
    by (cases "pf_binary p") (auto simp: try_then_Inr map_err_Inr)
qed simp

lemma prepared_sections:
  assumes "prepare_patch d diff = Inr a"
  obtains files where "parse_unified_diff diff = Inr files"
    "map (prepare_patch_file d) (filter (\<lambda>p. \<not> pf_binary p) files) = map Inr (pa_changes a)"
  using assms prepare_files_sections by (auto simp: prepare_patch_def try_then_Inr split: if_splits)

definition changed_paths :: "patch_application \<Rightarrow> rel set" where
  "changed_paths a = set (map change_path (pa_changes a))"

lemma prepared_targets:
  assumes "tree_ok d" "prepare_patch d diff = Inr a" "antichain (changed_paths a)"
  shows "targets_ok d (changed_paths a)"
  using assms prepare_patch_ok [OF assms(1,2)] by (auto simp: targets_ok_def changed_paths_def change_ok_def)

end
