(* ===== verification/Patch_Outcome.thy ===== *)
theory Patch_Outcome
  imports Patch_Targets
begin

text \<open>
  What the backend leaves in the tree: with any faults it changes nothing but the files of the patch
  and the new directories above them, and without faults it publishes what was prepared.
\<close>

section \<open>Every call keeps to the paths of the patch\<close>

lemma midway_facts:
  assumes "targets_ok d P" "midway d P e" "p \<in> P"
  shows "p \<noteq> []" "tree_ok e" "file_place (node_at e p)" "ensure_target_still_safe e p = Inr ()"
  using assms midway_clear [OF assms] ensure_safe_iff [of e p]
  by (auto simp: targets_ok_def antichain_def midway_def)

lemma midway_write_file:
  assumes "targets_ok d P" "midway d P e" "p \<in> P"
  shows "midway d P (snd (write_file p b e))"
proof -
  note p = midway_facts [OF assms]
  show ?thesis
  proof (cases "node_at e p" rule: is_file_node.cases)
    case (1 b' m)
    then have "\<forall>a. strict_prefix a p \<longrightarrow> node_at e a = Some DirNode"
      using tree_okD [OF p(2)] by blast
    then show ?thesis
      using midway_set [OF assms] 1 by (simp add: write_file_def)
  next
    case "2_1"
    show ?thesis
    proof (cases "node_at e (butlast p) = Some DirNode")
      case True
      then have "\<forall>a. strict_prefix a p \<longrightarrow> node_at e a = Some DirNode"
        using tree_okD [OF p(2) True] by (metis p(1) prefix_order.le_less strict_prefix_butlast)
      then show ?thesis
        using midway_set [OF assms] "2_1" True by (simp add: write_file_def)
    qed (use assms(2) "2_1" in \<open>simp add: write_file_def\<close>)
  qed (use p(3) in \<open>auto simp: file_place_def\<close>)
qed

lemma midway_set_permissions:
  assumes "targets_ok d P" "midway d P e" "p \<in> P"
  shows "midway d P (snd (set_permissions p m e))"
proof (cases "node_at e p" rule: is_file_node.cases)
  case (1 b m')
  then have "\<forall>a. strict_prefix a p \<longrightarrow> node_at e a = Some DirNode"
    using tree_okD [OF midway_facts(2) [OF assms]] by blast
  then show ?thesis
    using midway_set [OF assms] 1 by (simp add: set_permissions_def)
qed (use assms(2) in \<open>auto simp: set_permissions_def\<close>)

lemma midway_remove_file:
  assumes "targets_ok d P" "midway d P e" "p \<in> P"
  shows "midway d P (snd (remove_file p e))"
  using midway_del [OF assms] assms(2) by (auto simp: remove_file_def split: option.splits node.splits)

lemma midway_make_parent:
  assumes "targets_ok d P" "midway d P e" "p \<in> P"
  shows "midway d P (snd (make_parent fault p e))"
proof -
  obtain u where "create_dir_all (butlast p) e = (Inr (), u)" "midway d P u"
    using midway_dirs [OF assms] by metis
  with assms(2) midway_some_dirs [OF assms] show ?thesis
    by (cases fault) (simp_all add: make_parent_def lift_io_def take_is_prefix)
qed

lemma midway_faulty:
  assumes "targets_ok d P" "midway d P e" "p \<in> P"
  shows "midway d P (snd (faulty_write fault p b e)) \<and> midway d P (snd (faulty_remove fault p e))"
  using midway_write_file [OF assms] midway_remove_file [OF assms] assms(2)
  by (cases fault) (simp_all add: faulty_write_def faulty_remove_def lift_io_def)

lemma midway_faulty_mode:
  "targets_ok d P \<Longrightarrow> midway d P e \<Longrightarrow> p \<in> P \<Longrightarrow> midway d P (snd (faulty_mode fault p m e))"
  using midway_set_permissions by (auto simp: faulty_mode_def lift_io_def split: io_fault.splits)

lemma tree_then_keeps:
  assumes "I (snd r)" "\<And>d. fst r = Inr () \<Longrightarrow> I d \<Longrightarrow> d = snd r \<Longrightarrow> I (snd (f d))"
  shows "I (snd (tree_then r f))"
  using assms by (cases r; cases "fst r") (auto simp: tree_then_def)

lemma midway_restore_file:
  assumes "targets_ok d P" "midway d P e" "fr_path f \<in> P"
  shows "midway d P (snd (restore_file fault f e))"
  unfolding restore_file_def restore_contents_def
proof (rule tree_then_keeps)
  show "midway d P (snd (ensure_target_still_safe e (fr_path f), e))"
    using assms(2) by simp
  fix t assume t: "midway d P t"
  note keeps = midway_make_parent [OF assms(1) _ assms(3)] conjunct1 [OF midway_faulty [OF assms(1) _ assms(3)]]
    conjunct2 [OF midway_faulty [OF assms(1) _ assms(3)]]
    midway_faulty_mode [OF assms(1) _ assms(3)]
  show "midway d P (snd (case fr_contents f of
       Some b \<Rightarrow> tree_then (make_parent fault (fr_path f) t) (\<lambda>d.
           tree_then (faulty_write fault (fr_path f) b d) (\<lambda>d. case fr_mode f of
             None \<Rightarrow> (Inr (), d)
           | Some m \<Rightarrow> faulty_mode fault (fr_path f) m d))
     | None \<Rightarrow> if node_at t (fr_path f) = None then (Inr (), t) else faulty_remove fault (fr_path f) t))"
    using t keeps
    by (auto split: option.splits intro!: tree_then_keeps [where I = "midway d P"])
qed

lemma midway_restore_files:
  assumes "targets_ok d P" "midway d P e" "\<forall>f\<in>set fs. fr_path f \<in> P"
  shows "midway d P (snd (restore_files faults fs e))"
  using assms(2,3)
proof (induction faults fs e rule: restore_files.induct)
  case (2 faults f fs e)
  then show ?case
    using midway_restore_file [OF assms(1)] by (auto simp: o_def intro!: tree_then_keeps [where I = "midway d P"])
qed simp

text \<open>A directory that was missing at the start may go again.\<close>

lemma midway_drop_dir:
  assumes "targets_ok d P" "midway d P e" "r \<noteq> []" "node_at d r = None" "\<exists>p\<in>P. strict_prefix r p"
  shows "midway d P (snd (drop_dir r e))"
proof -
  have r: "r \<notin> P" "tree_ok e"
    using assms by (auto simp: targets_ok_def antichain_def midway_def)
  have "midway d P (snd (remove_dir r e))"
  proof (cases "node_at e r = Some DirNode \<and> \<not> has_entries e r")
    case True
    then have "\<forall>q. strict_prefix r q \<longrightarrow> node_at e q = None"
      using has_entries_iff [OF r(2)] by auto
    then have "tree_ok (del_node r e)"
      using tree_ok_del r(2) assms(3) by blast
    then have "midway d P (del_node r e)"
      using assms r(1) by (auto simp: midway_def new_dir_def)
    then show ?thesis
      using True by (simp add: remove_dir_def)
  qed (use assms(2) in \<open>auto simp: remove_dir_def split: option.splits node.splits\<close>)
  then show ?thesis
    using assms(2) unfolding drop_dir_def
    by (intro tree_then_keeps [where I = "midway d P"]) (auto split: prod.splits remove_outcome.splits)
qed

lemma midway_drop_dirs:
  assumes "targets_ok d P" "midway d P e"
    and "\<forall>r\<in>set rs. r \<noteq> [] \<and> node_at d r = None \<and> (\<exists>p\<in>P. strict_prefix r p)"
  shows "midway d P (snd (drop_dirs rs e))"
  using assms(2,3)
proof (induction rs arbitrary: e)
  case (Cons r rs)
  then have "midway d P (snd (drop_dir r e))"
    using midway_drop_dir [OF assms(1)] by simp
  with Cons show ?case
    by (auto intro!: tree_then_keeps [where I = "midway d P"])
qed simp

lemma midway_restore_rollback:
  assumes "tree_ok d" "targets_ok d (set ps)" "stage_rollback d ps = Inr fs" "midway d (set ps) e"
  shows "midway d (set ps) (snd (restore_rollback faults fs e))"
  unfolding restore_rollback_def
proof (rule tree_then_keeps)
  note held = stage_rollback_targets [OF assms(3,2)]
  show "midway d (set ps) (snd (restore_files faults (rev fs) e))"
    using midway_restore_files [OF assms(2,4)] held(1) by simp
  have "r \<noteq> [] \<and> node_at d r = None \<and> (\<exists>p\<in>set ps. strict_prefix r p)" if "f \<in> set fs" "r \<in> set (fr_created f)" for f r
  proof -
    have f: "fr_path f \<in> set ps" "rollback_of d (fr_path f) = Inr f"
      using held(1) that(1) by auto
    then have "file_place (node_at d (fr_path f))" "fr_path f \<noteq> []"
      using assms(2) by (auto simp: targets_ok_def antichain_def)
    with rollback_of_Inr [OF f(2)] missing_parents_Inr [OF assms(1)] that(2) f(1) show ?thesis
      by blast
  qed
  then show "midway d (set ps) (snd (drop_dirs (concat (map fr_created (rev fs))) t))" if "midway d (set ps) t" for t
    using that by (intro midway_drop_dirs [OF assms(2)]) auto
qed

section \<open>A write without faults\<close>

definition mode_for :: "work_tree \<Rightarrow> rel \<Rightarrow> u32" where
  "mode_for d r = (case node_at d r of Some (FileNode _ m) \<Rightarrow> m | _ \<Rightarrow> wt_new_mode d)"

definition published :: "work_tree \<Rightarrow> patch_change \<Rightarrow> node option" where
  "published d c = map_option (\<lambda>b. FileNode b (mode_for d (change_path c))) (postimage c)"

lemma new_mode_dirs [simp]: "wt_new_mode (fold ensure_dir rs d) = wt_new_mode d"
  by (induction rs arbitrary: d) (simp_all add: ensure_dir_def)

lemma new_mode_create [simp]: "wt_new_mode (snd (create_dir_all r d)) = wt_new_mode d"
  by (simp add: create_dir_all_def Let_def)

lemma write_change_published:
  assumes "targets_ok d P" "midway d P e" "change_path c \<in> P"
    and "postimage c = None \<Longrightarrow> is_file_node (node_at e (change_path c))"
  obtains u where "write_change NoFault c e = (Inr (), u)" "midway d P u" "wt_new_mode u = wt_new_mode e"
    "node_at u (change_path c) = published e c" "\<forall>q\<in>P. q \<noteq> change_path c \<longrightarrow> node_at u q = node_at e q"
proof -
  let ?p = "change_path c"
  note p = midway_facts [OF assms(1-3)]
  show thesis
  proof (cases c)
    case (PatchDelete r)
    then have "is_file_node (node_at e r)"
      using assms(4) by simp
    then obtain b m where "node_at e r = Some (FileNode b m)"
      by (cases "node_at e r" rule: is_file_node.cases) auto
    then have "write_change NoFault c e = (Inr (), del_node r e)"
      using PatchDelete p(4) by (simp add: tree_then_def faulty_remove_def lift_io_def map_err_def remove_file_def)
    with PatchDelete p(1) midway_del [OF assms(1-3)] show thesis
      by (intro that [of "del_node r e"]) (simp_all add: published_def)
  next
    case (PatchWrite r b)
    have "r \<in> P" using PatchWrite assms(3) by simp
    obtain u where u: "create_dir_all (butlast r) e = (Inr (), u)" "midway d P u"
        "\<forall>a. strict_prefix a r \<longrightarrow> node_at u a = Some DirNode" "\<forall>q\<in>P. node_at u q = node_at e q"
      using midway_dirs [OF assms(1,2) \<open>r \<in> P\<close>] by metis
    have mode: "wt_new_mode u = wt_new_mode e"
      using new_mode_create [of "butlast r" e] u(1) by simp
    have r: "r \<noteq> []" "node_at u r = node_at e r" "strict_prefix (butlast r) r"
      using p(1) PatchWrite u(4) \<open>r \<in> P\<close> by (simp_all add: strict_prefix_butlast)
    have "write_file r b u = (Inr (), set_node r (FileNode b (mode_for e r)) u)"
      using p(3) PatchWrite r u(3) mode
      by (cases "node_at e r" rule: is_file_node.cases) (auto simp: write_file_def file_place_def mode_for_def)
    then have "write_change NoFault c e = (Inr (), set_node r (FileNode b (mode_for e r)) u)"
      using PatchWrite p(4) u(1)
      by (simp add: tree_then_def make_parent_def faulty_write_def lift_io_def map_err_def)
    moreover have "midway d P (set_node r (FileNode b (mode_for e r)) u)"
      by (rule midway_set [OF assms(1) u(2) \<open>r \<in> P\<close> u(3)])
    ultimately show thesis
      using PatchWrite r(1) u(4) mode
      by (intro that [of "set_node r (FileNode b (mode_for e r)) u"]) (simp_all add: published_def)
  qed
qed

lemma published_cong:
  "node_at e (change_path c) = node_at d (change_path c) \<Longrightarrow> wt_new_mode e = wt_new_mode d \<Longrightarrow>
   published e c = published d c"
  by (cases "node_at d (change_path c)" rule: is_file_node.cases) (simp_all add: published_def mode_for_def)

lemma write_changes_published:
  assumes "targets_ok d P" "midway d P e" "change_path ` set cs \<subseteq> P" "distinct (map change_path cs)"
    and "\<forall>c\<in>set cs. postimage c = None \<longrightarrow> is_file_node (node_at e (change_path c))"
  shows "\<exists>u. write_changes (\<lambda>_. NoFault) cs e = (Inr (), u) \<and> midway d P u
    \<and> (\<forall>c\<in>set cs. node_at u (change_path c) = published e c)
    \<and> (\<forall>q\<in>P. q \<notin> change_path ` set cs \<longrightarrow> node_at u q = node_at e q)"
  using assms(2-5)
proof (induction cs arbitrary: e)
  case (Cons c cs)
  have c: "change_path c \<in> P" "postimage c = None \<Longrightarrow> is_file_node (node_at e (change_path c))"
    using Cons.prems by auto
  obtain t where t: "write_change NoFault c e = (Inr (), t)" "midway d P t" "wt_new_mode t = wt_new_mode e"
      "node_at t (change_path c) = published e c" "\<forall>q\<in>P. q \<noteq> change_path c \<longrightarrow> node_at t q = node_at e q"
    using write_change_published [OF assms(1) Cons.prems(1) c] by blast
  have kept: "node_at t (change_path x) = node_at e (change_path x)" if "x \<in> set cs" for x
  proof -
    have "change_path x \<in> P" "change_path x \<noteq> change_path c"
      using that Cons.prems(2,3) by (auto simp: image_iff)
    with t(5) show ?thesis by simp
  qed
  have "change_path ` set cs \<subseteq> P" "distinct (map change_path cs)"
    "\<forall>x\<in>set cs. postimage x = None \<longrightarrow> is_file_node (node_at t (change_path x))"
    using Cons.prems kept by auto
  from Cons.IH [OF t(2) this] obtain u where u: "write_changes (\<lambda>_. NoFault) cs t = (Inr (), u)" "midway d P u"
      "\<forall>x\<in>set cs. node_at u (change_path x) = published t x"
      "\<forall>q\<in>P. q \<notin> change_path ` set cs \<longrightarrow> node_at u q = node_at t q"
    by blast
  have "write_changes (\<lambda>_. NoFault) (c # cs) e = (Inr (), u)"
    using t(1) u(1) by (simp add: tree_then_def o_def)
  moreover have "node_at u (change_path x) = published e x" if "x \<in> set (c # cs)" for x
  proof (cases "x \<in> set cs")
    case True
    then show ?thesis
      using u(3) published_cong [of t x e] kept t(3) by simp
  next
    case False
    with that have "x = c" by simp
    moreover have "change_path c \<notin> change_path ` set cs"
      using Cons.prems(3) by simp
    ultimately show ?thesis
      using u(4) c(1) t(4) by simp
  qed
  moreover have "\<forall>q\<in>P. q \<notin> change_path ` set (c # cs) \<longrightarrow> node_at u q = node_at e q"
    using u(4) t(5) by simp
  ultimately show ?case
    using u(2) by blast
qed simp

end
