(* ===== verification/Patch_Safety.thy ===== *)
theory Patch_Safety
  imports Patch_Outcome "HOL-Library.Code_Target_Nat"
begin

text \<open>
  What an operator can rely on when a patch is applied below the root: where it may write, what a
  failure leaves, and what success means; and the inputs on which the backend does less than its
  comments say. The witnesses run the code on a small tree.
\<close>

section \<open>A small tree and its patches\<close>

definition unlines :: "string list \<Rightarrow> string" where
  "unlines ls = concat (map (\<lambda>l. l @ [LF]) ls)"

definition demo_tree :: work_tree where
  "demo_tree = \<lparr>wt_cwd = ''/w'', wt_root = ''/w'', wt_root_error = None, wt_root_is_dir = True,
     wt_nodes = [([''a''], FileNode (unlines [''x'', ''y'']) 420)], wt_new_mode = 384\<rparr>"

text \<open>A modified file and one in a new directory.\<close>

definition demo_diff :: string where
  "demo_diff = unlines [''--- a/a'', ''+++ b/a'', ''@@ -1,2 +1,2 @@'', '' x'', ''-y'', ''+z'',
     ''diff --git a/d/n b/d/n'', ''--- /dev/null'', ''+++ b/d/n'', ''@@ -0,0 +1 @@'', ''+w'']"

definition demo_changes :: patch_application where
  "demo_changes = \<lparr>pa_changes =
     [PatchWrite [''a''] (unlines [''x'', ''z'']), PatchWrite [''d'', ''n''] (unlines [''w''])],
     pa_refusals = []\<rparr>"

definition calm :: patch_env where
  "calm = \<lparr>px_write_faults = (\<lambda>_. NoFault), px_restore_faults = (\<lambda>_. NoFault), px_persist = None\<rparr>"

text \<open>The second write fills the disk after one byte.\<close>

definition disk_full :: patch_env where
  "disk_full = calm\<lparr>px_write_faults := (\<lambda>k. if k = 1 then FaultWrite ''No space left'' ''w'' else NoFault)\<rparr>"

lemma demo_prepared: "prepare_patch demo_tree demo_diff = Inr demo_changes"
  by code_simp

lemma demo_tree_ok: "tree_ok demo_tree"
proof -
  have "strict_prefix a [''a''] \<Longrightarrow> a = []" for a
    by (cases a) (auto simp: strict_prefix_def)
  then show ?thesis
    by (auto simp: tree_ok_def demo_tree_def node_at_def split: if_splits)
qed

lemma demo_antichain: "antichain (changed_paths demo_changes)"
  by (auto simp: antichain_def changed_paths_def demo_changes_def strict_prefix_def)

lemmas demo_facts = demo_tree_ok demo_prepared demo_antichain

section \<open>Where a patch may write\<close>

text \<open>C31: Every change a prepared patch carries is about a named path below the root: a non-empty
  list of plain names (no dot, no dot dot, no separator) with no symbolic link at it or above it and
  no file above it; what stands there is a file or nothing, and a deletion finds a file.\<close>

theorem prepared_patch_stays_below_root:
  assumes "tree_ok d" "prepare_patch d diff = Inr a" "c \<in> set (pa_changes a)"
  shows "change_path c \<noteq> [] \<and> list_all plain_segment (change_path c)
    \<and> (\<forall>q. prefix q (change_path c) \<longrightarrow> node_at d q \<noteq> Some LinkNode)
    \<and> (\<forall>q. strict_prefix q (change_path c) \<longrightarrow> \<not> is_file_node (node_at d q))
    \<and> (node_at d (change_path c) = None \<or> is_file_node (node_at d (change_path c)))
    \<and> (postimage c = None \<longrightarrow> is_file_node (node_at d (change_path c)))"
  using prepare_patch_ok [OF assms] unfolding change_ok_def clear_path_def file_place_def by blast

lemma prepared_patch_stays_below_root_witness:
  "list_all plain_segment (change_path (PatchWrite [''d'', ''n''] (unlines [''w''])))"
proof -
  have "PatchWrite [''d'', ''n''] (unlines [''w'']) \<in> set (pa_changes demo_changes)"
    by (simp add: demo_changes_def)
  from prepared_patch_stays_below_root [OF demo_tree_ok demo_prepared this] show ?thesis by blast
qed

lemma transaction_cases:
  assumes "tree_ok d" "prepare_patch d diff = Inr a" "antichain (changed_paths a)"
  obtains fs r t where "stage_rollback d (map change_path (pa_changes a)) = Inr fs"
    "write_changes (px_write_faults env) (pa_changes a) d = (r, t)" "midway d (changed_paths a) t"
    "targets_ok d (set (map change_path (pa_changes a)))"
proof -
  have ok: "targets_ok d (changed_paths a)"
    using prepared_targets [OF assms] .
  then obtain fs where fs: "stage_rollback d (map change_path (pa_changes a)) = Inr fs"
    using stage_rollback_ok [OF assms(1)] unfolding changed_paths_def by blast
  obtain r t where t: "write_changes (px_write_faults env) (pa_changes a) d = (r, t)"
    by fastforce
  then have "midway d (changed_paths a) t"
    using midway_write_changes [OF ok midway_refl [OF assms(1) ok], of "pa_changes a" "px_write_faults env"]
    by (simp add: changed_paths_def)
  with fs t ok that show thesis
    unfolding changed_paths_def by blast
qed

text \<open>Whatever fails, in the write, in the commit or in the rollback itself, applying a patch
  changes nothing but the paths of the patch: every other node is as it was, or is a new directory
  above one of those paths. No link is ever made.\<close>

theorem patch_confined:
  assumes "tree_ok d" "prepare_patch d diff = Inr a" "antichain (changed_paths a)"
    and "q \<notin> changed_paths a"
  shows "node_at (snd (apply_transactionally env diff d)) q = node_at d q
    \<or> (node_at d q = None \<and> node_at (snd (apply_transactionally env diff d)) q = Some DirNode
        \<and> (\<exists>p\<in>changed_paths a. strict_prefix q p))"
proof -
  obtain fs r t where run: "stage_rollback d (map change_path (pa_changes a)) = Inr fs"
      "write_changes (px_write_faults env) (pa_changes a) d = (r, t)" "midway d (changed_paths a) t"
      "targets_ok d (set (map change_path (pa_changes a)))"
    using transaction_cases [OF assms(1-3)] by blast
  have undone: "midway d (changed_paths a) (snd (restore_rollback (px_restore_faults env) fs t))"
    using midway_restore_rollback [OF assms(1) run(4,1)] run(3) by (simp add: changed_paths_def)
  have "midway d (changed_paths a) (snd (apply_transactionally env diff d))"
    using run(1-3) undone assms(2)
    by (auto simp: apply_transactionally_def prepared_def Let_def split: prod.splits sum.splits option.splits)
  with assms(4) show ?thesis
    unfolding midway_def new_dir_def by blast
qed

lemma patch_confined_witness: "node_at (snd (apply_transactionally disk_full demo_diff demo_tree)) [''b''] = None"
  using patch_confined [OF demo_facts, of "[''b'']" disk_full]
  by (auto simp: changed_paths_def demo_changes_def demo_tree_def node_at_def strict_prefix_def)

section \<open>All or nothing\<close>

text \<open>C30: When no path of a prepared patch lies below another one and the rollback meets no fault, a patch
  whose application fails is undone: every node of the tree, contents, permissions and directories alike,
  is as it was before, whichever write or commit failed and whatever it left half done; and the error
  reported is the one of that write or of the commit. Without the first condition it is not so (lemma
  nested_creation_is_left_behind).\<close>

theorem failed_patch_is_undone:
  assumes "tree_ok d" "prepare_patch d diff = Inr a" "antichain (changed_paths a)"
    and "px_restore_faults env = (\<lambda>_. NoFault)" "apply_transactionally env diff d = (Inl e, u)"
  shows "(\<forall>q. node_at u q = node_at d q)
    \<and> (fst (write_changes (px_write_faults env) (pa_changes a) d) = Inl e
        \<or> fst (write_changes (px_write_faults env) (pa_changes a) d) = Inr ()
           \<and> (\<exists>m. px_persist env = Some m \<and> e = IoError m))"
proof -
  obtain fs r t where run: "stage_rollback d (map change_path (pa_changes a)) = Inr fs"
      "write_changes (px_write_faults env) (pa_changes a) d = (r, t)" "midway d (changed_paths a) t"
      "targets_ok d (set (map change_path (pa_changes a)))"
    using transaction_cases [OF assms(1-3)] by blast
  obtain v where v: "restore_rollback (\<lambda>_. NoFault) fs t = (Inr (), v)" "\<forall>q. node_at v q = node_at d q"
    using rollback_restores [OF assms(1) run(4,1)] run(3) unfolding changed_paths_def by blast
  have "u = v \<and> (r = Inl e \<or> r = Inr () \<and> (\<exists>m. px_persist env = Some m \<and> e = IoError m))"
    using assms(2,4,5) run(1,2) v(1)
    by (auto simp: apply_transactionally_def prepared_def Let_def split: sum.splits option.splits)
  with v(2) run(2) show ?thesis by simp
qed

lemma disk_full_fails: "\<exists>u. apply_transactionally disk_full demo_diff demo_tree =
    (Inl (IoError ''/w/d/n: No space left''), u)"
proof -
  have "fst (apply_transactionally disk_full demo_diff demo_tree) = Inl (IoError ''/w/d/n: No space left'')"
    by code_simp
  then show ?thesis
    by (cases "apply_transactionally disk_full demo_diff demo_tree") simp
qed

lemma failed_patch_is_undone_witness:
  "\<exists>u. apply_transactionally disk_full demo_diff demo_tree = (Inl (IoError ''/w/d/n: No space left''), u)
    \<and> (\<forall>q. node_at u q = node_at demo_tree q)"
proof -
  obtain u where u: "apply_transactionally disk_full demo_diff demo_tree = (Inl (IoError ''/w/d/n: No space left''), u)"
    using disk_full_fails by blast
  have "px_restore_faults disk_full = (\<lambda>_. NoFault)"
    by (simp add: disk_full_def calm_def)
  from failed_patch_is_undone [OF demo_facts this u] u show ?thesis by blast
qed

text \<open>C32: When a prepared patch has distinct paths, none below another, and no write and no commit fails, it is
  applied: the call returns the success outcome, every changed path then holds exactly the prepared
  contents (with the permissions the file had) or nothing for a deletion. Both conditions are needed
  (lemmas second_section_overwrites_first and nested_creation_is_left_behind).\<close>

theorem calm_patch_is_published:
  assumes "tree_ok d" "prepare_patch d diff = Inr a" "antichain (changed_paths a)"
    and "distinct (map change_path (pa_changes a))"
    and "px_write_faults env = (\<lambda>_. NoFault)" "px_persist env = None"
  shows "\<exists>u. apply_transactionally env diff d = (Inr (success_outcome a), u)
    \<and> (\<forall>c\<in>set (pa_changes a). node_at u (change_path c) =
         map_option (\<lambda>b. FileNode b (mode_for d (change_path c))) (postimage c))"
proof -
  have ok: "targets_ok d (changed_paths a)"
    using prepared_targets [OF assms(1-3)] .
  have files: "\<forall>c\<in>set (pa_changes a). postimage c = None \<longrightarrow> is_file_node (node_at d (change_path c))"
    using prepare_patch_ok [OF assms(1,2)] by (simp add: change_ok_def)
  obtain u where u: "write_changes (\<lambda>_. NoFault) (pa_changes a) d = (Inr (), u)"
      "\<forall>c\<in>set (pa_changes a). node_at u (change_path c) = published d c"
    using write_changes_published [OF ok midway_refl [OF assms(1) ok] _ assms(4) files]
    unfolding changed_paths_def by auto
  obtain fs where "stage_rollback d (map change_path (pa_changes a)) = Inr fs"
    using stage_rollback_ok [OF assms(1)] ok unfolding changed_paths_def by blast
  then have "apply_transactionally env diff d = (Inr (success_outcome a), u)"
    using assms(2,5,6) u(1) by (simp add: apply_transactionally_def prepared_def)
  with u(2) show ?thesis
    unfolding published_def by blast
qed

lemma calm_patch_is_published_witness:
  "\<exists>u. apply_transactionally calm demo_diff demo_tree = (Inr (success_outcome demo_changes), u)
    \<and> node_at u [''a''] = Some (FileNode (unlines [''x'', ''z'']) 420)"
proof -
  have "distinct (map change_path (pa_changes demo_changes))" "px_write_faults calm = (\<lambda>_. NoFault)"
    "px_persist calm = None"
    by (simp_all add: demo_changes_def calm_def)
  moreover have "PatchWrite [''a''] (unlines [''x'', ''z'']) \<in> set (pa_changes demo_changes)"
    "mode_for demo_tree [''a''] = 420"
    by (simp_all add: demo_changes_def mode_for_def node_at_def demo_tree_def)
  ultimately show ?thesis
    using calm_patch_is_published [OF demo_facts, of calm] by fastforce
qed

section \<open>Where the comments promise more\<close>

text \<open>One patch that creates a file and, in a later section, a file below it.\<close>

definition nested_diff :: string where
  "nested_diff = unlines [''--- /dev/null'', ''+++ b/p'', ''@@ -0,0 +1 @@'', ''+w'',
     ''diff --git a/p/q b/p/q'', ''--- /dev/null'', ''+++ b/p/q'', ''@@ -0,0 +1 @@'', ''+v'']"

text \<open>The rollback stops at the first path it cannot check. A patch that creates a file and then a
  file below that name fails on the second write, its rollback fails on the same path, and the first
  file stays in the tree although the call reports an error.\<close>

theorem nested_creation_is_left_behind:
  "node_at demo_tree [''p''] = None
    \<and> fst (apply_transactionally calm nested_diff demo_tree) = Inl (IoError (''p/q: '' @ not_a_directory))
    \<and> node_at (snd (apply_transactionally calm nested_diff demo_tree)) [''p'']
        = Some (FileNode (unlines [''w'']) 384)"
  by code_simp

text \<open>Two sections about one file, each fitting the text the file had.\<close>

definition twice_diff :: string where
  "twice_diff = unlines [''--- a/a'', ''+++ b/a'', ''@@ -1 +1 @@'', ''-x'', ''+one'',
     ''diff --git a/a b/a'', ''--- a/a'', ''+++ b/a'', ''@@ -2 +2 @@'', ''-y'', ''+two'']"

text \<open>Every file of a patch is prepared against the tree before the patch, so of two sections about
  one file only the last is in the result; the outcome still reports the patch as applied and names
  the file twice, and reports no conflict.\<close>

lemma second_section_overwrites_first:
  "fst (apply_transactionally calm twice_diff demo_tree)
      = Inr \<lparr>po_applied = True, po_writes = [[''a''], [''a'']], po_conflicts = []\<rparr>
    \<and> node_at (snd (apply_transactionally calm twice_diff demo_tree)) [''a'']
      = Some (FileNode (unlines [''x'', ''two'']) 420)"
  by code_simp

text \<open>The marker of a missing newline is skipped, so the newline is written.\<close>

definition unended_diff :: string where
  "unended_diff = unlines [''--- /dev/null'', ''+++ b/u'', ''@@ -0,0 +1 @@'', ''+w'',
     [CHR 0x5C] @ '' No newline at end of file'']"

lemma newline_marker_is_ignored:
  "node_at (snd (apply_transactionally calm unended_diff demo_tree)) [''u''] = Some (FileNode (''w'' @ [LF]) 384)"
  by code_simp

text \<open>A path is written elsewhere than it is shown.\<close>

lemma repeated_prefix_is_lost:
  "validate_patch_path ''b/b/foo'' = Inr ''foo''" "display_patch_path ''b/b/foo'' = ''b/foo''"
  by code_simp+

text \<open>The tab git writes after a name with spaces is trimmed before it is looked for.\<close>

lemma spaced_name_is_cut: "header_path (''b/my file'' @ [CHR 0x09]) = ''b/my''"
  by code_simp

end
