(* ===== verification/Patch_Conflict.thy ===== *)
theory Patch_Conflict
  imports Patch_Safety
begin

text \<open>
  The published conflict of a refused patch: it is computed by the preparation that refused the
  patch, names what that preparation refused, and is bounded.
\<close>

section \<open>Bounds\<close>

lemma bound_conflicts_spent:
  "unat spent \<le> unat max_conflict_content_bytes \<Longrightarrow>
   unat spent + sum_list (map (unat \<circ> conflict_file_bytes) (filter (\<lambda>f. \<not> cf_omitted f) (bound_conflicts fs spent)))
     \<le> unat max_conflict_content_bytes"
proof (induction fs arbitrary: spent)
  case (Cons f fs)
  define total where "total = sat_add spent (conflict_file_bytes f)"
  have limit: "unat max_conflict_content_bytes < 2 ^ 64 - 1"
    by (simp add: max_conflict_content_bytes_def)
  show ?case
  proof (cases "total > max_conflict_content_bytes")
    case True
    then show ?thesis
      using Cons by (simp add: Let_def total_def [symmetric])
  next
    case False
    then have le: "unat total \<le> unat max_conflict_content_bytes"
      by (simp add: word_le_nat_alt not_less)
    with limit have "unat total = unat spent + unat (conflict_file_bytes f)"
      by (auto simp: total_def unat_sat_add min_def split: if_splits)
    with False le Cons.IH [of total] show ?thesis
      by (simp add: Let_def total_def [symmetric])
  qed
qed simp

lemma bound_conflicts_keep:
  "map cf_path (bound_conflicts fs spent) = map cf_path fs"
  "f \<in> set (bound_conflicts fs spent) \<Longrightarrow> f \<in> set fs \<or> cf_omitted f \<and> cf_hunks f = []"
  by (induction fs arbitrary: spent) (auto simp: Let_def split: if_splits)

lemma bound_conflicts_Nil [simp]: "bound_conflicts fs spent = [] \<longleftrightarrow> fs = []"
  by (cases fs) (simp_all add: Let_def)

text \<open>The published conflict shows at most 256 KiB of lines and paths; a file beyond the bound keeps
  its entry with no lines and is marked, and the content says that it is truncated exactly when one
  is marked. No refused file is missing from it.\<close>

theorem conflict_content_is_bounded:
  assumes "conflict_content_of d diff baseline = Some c" "parse_unified_diff diff = Inr files"
  shows "sum_list (map (unat \<circ> conflict_file_bytes) (filter (\<lambda>f. \<not> cf_omitted f) (cc_files c))) \<le> 256 * 1024
    \<and> map cf_path (cc_files c) = map cf_path (List.map_filter (file_conflict d) files)
    \<and> (cc_truncated c \<longleftrightarrow> (\<exists>f\<in>set (cc_files c). cf_omitted f)) \<and> cc_baseline c = baseline"
proof -
  let ?fs = "bound_conflicts (List.map_filter (file_conflict d) files) 0"
  have c: "c = \<lparr>cc_baseline = baseline, cc_files = ?fs, cc_truncated = list_ex cf_omitted ?fs\<rparr>"
    using assms by (auto simp: conflict_content_of_def Let_def split: sum.splits if_splits)
  have "unat max_conflict_content_bytes = 256 * 1024"
    by (simp add: max_conflict_content_bytes_def)
  with bound_conflicts_spent [of 0 "List.map_filter (file_conflict d) files"] show ?thesis
    by (simp add: c bound_conflicts_keep list_ex_iff)
qed

section \<open>What is published\<close>

lemma parsed_nonempty: "prepare_patch d diff = Inr a \<Longrightarrow> \<exists>files. canonical_root d = Inr () \<and>
    parse_unified_diff diff = Inr files \<and> prepare_files d files = Inr a"
  by (auto simp: prepare_patch_def try_then_Inr split: if_splits)

lemma prepared_refusals:
  "prepare_files d ps = Inr a \<Longrightarrow>
   List.map_filter (file_conflict d) ps = map (\<lambda>r. binary_conflict (rep_path r)) (pa_refusals a)"
proof (induction ps arbitrary: a)
  case (Cons p ps)
  then show ?case
    by (cases "pf_binary p") (auto simp: try_then_Inr file_conflict_def List.map_filter_simps split: sum.splits)
qed (auto simp: List.map_filter_simps)

text \<open>For a patch that prepares, the published conflict is about its refused binary files and nothing
  else: there is none when no file was refused, and otherwise it names exactly their paths.\<close>

theorem conflict_content_of_a_prepared_patch:
  assumes "prepare_patch d diff = Inr a"
  shows "(conflict_content_of d diff baseline = None \<longleftrightarrow> pa_refusals a = [])
    \<and> (\<forall>c. conflict_content_of d diff baseline = Some c \<longrightarrow>
         map cf_path (cc_files c) = map (conflict_path \<circ> rep_path) (pa_refusals a)
         \<and> (\<forall>f\<in>set (cc_files c). \<forall>h\<in>set (cf_hunks f). hk_reason h = BinaryHunk))"
proof -
  obtain files where files: "canonical_root d = Inr ()" "parse_unified_diff diff = Inr files"
      "prepare_files d files = Inr a"
    using parsed_nonempty [OF assms] by blast
  let ?cs = "map (\<lambda>r. binary_conflict (rep_path r)) (pa_refusals a)"
  have all: "List.map_filter (file_conflict d) files = ?cs"
    using prepared_refusals [OF files(3)] .
  have "hk_reason h = BinaryHunk" if "f \<in> set (bound_conflicts ?cs 0)" "h \<in> set (cf_hunks f)" for f h
    using bound_conflicts_keep(2) [OF that(1)] that(2) by (auto simp: binary_conflict_def whole_file_def)
  with files(1,2) all show ?thesis
    by (auto simp: conflict_content_of_def Let_def bound_conflicts_keep(1) binary_conflict_def whole_file_def)
qed

text \<open>The refusals that come with a file.\<close>

definition shown_refusals :: "string set" where
  "shown_refusals = {''patch conflict: expected hunk context was not found'',
     ''new-file patch target already exists'', ''deleted-file patch did not remove the complete file''}"

definition shows_refusal :: "prepare_failure \<Rightarrow> bool" where
  "shows_refusal failure \<longleftrightarrow> (\<forall>r m. fa_error failure = PatchConflict r m \<and> m \<in> shown_refusals
     \<longrightarrow> (\<exists>f. fa_file failure = Some f \<and> cf_path f = conflict_path r))"

lemma validate_refusal: "validate_patch_path p = Inl e \<Longrightarrow> shows_refusal (plain_failure e)"
  by (auto simp: validate_patch_path_def Let_def shows_refusal_def plain_failure_def shown_refusals_def split: if_splits)

lemma resolve_refusal: "resolve_components d shown cs t = Inl e \<Longrightarrow> shows_refusal (plain_failure e)"
  by (induction d shown cs t rule: resolve_components.induct)
    (auto simp: shows_refusal_def plain_failure_def split: stat.splits node.splits)

lemma read_refusal: "read_target d relative full p = Inl failure \<Longrightarrow> shows_refusal failure"
  by (auto simp: read_target_def map_err_def unreadable_target_failure_def shows_refusal_def plain_failure_def
      split: sum.splits stat.splits)

lemma applied_refusal:
  assumes "applied_text relative current p = Inl failure"
  shows "shows_refusal failure"
proof -
  obtain r where r: "apply_patch_file current p = Inl r" "failure = rejection_failure relative current p r"
    using assms by (auto simp: applied_text_def map_err_def split: sum.splits)
  then have "apply_hunks 0 (pf_hunks p) ([] @ split_preserving_newlines current) (length ([] :: string list)) = Inl r"
    by (auto simp: apply_patch_file_def try_then_def split: sum.splits)
  from apply_hunks_Inl [OF this] have "hr_index r < length (pf_hunks p)"
    by auto
  then show ?thesis
    by (simp add: r(2) rejection_failure_def shows_refusal_def whole_file_def)
qed

lemma lane_then_Inl: "lane_then r f = Inl failure \<longleftrightarrow>
    (\<exists>e. r = Inl e \<and> failure = plain_failure e) \<or> (\<exists>x. r = Inr x \<and> f x = Inl failure)"
  by (cases r) (auto simp: lane_then_def map_err_def)

lemma target_refusal: "resolve_patch_target d relative = Inl e \<Longrightarrow> shows_refusal (plain_failure e)"
  unfolding resolve_patch_target_def by (rule resolve_refusal)

lemmas refusals = validate_refusal target_refusal read_refusal applied_refusal

lemma creation_refusal: "prepare_creation d p = Inl failure \<Longrightarrow> shows_refusal failure"
  unfolding prepare_creation_def lane_then_Inl try_then_Inl
  by (auto split: stat.splits simp: try_then_Inl intro: refusals)
    (auto simp: shows_refusal_def taken_file_def Let_def whole_file_def, metis stat.exhaust)

lemma deletion_refusal: "prepare_deletion d p = Inl failure \<Longrightarrow> shows_refusal failure"
  unfolding prepare_deletion_def lane_then_Inl try_then_Inl
  by (auto split: if_splits intro: refusals) (auto simp: shows_refusal_def whole_file_def)

lemma rename_refusal:
  "shows_refusal (plain_failure (PatchConflict new ''rename patches are not supported by this adapter''))"
  by (simp add: shows_refusal_def plain_failure_def shown_refusals_def)

lemma modification_refusal: "prepare_modification d p = Inl failure \<Longrightarrow> shows_refusal failure"
  unfolding prepare_modification_def lane_then_Inl
  by (auto simp: lane_then_Inl try_then_Inl split: if_splits intro: refusals rename_refusal)

lemma prepare_refusal: "prepare_patch_file d p = Inl failure \<Longrightarrow> shows_refusal failure"
  using creation_refusal deletion_refusal modification_refusal
  by (auto simp: prepare_patch_file_def Let_def split: if_splits)
    (simp add: shows_refusal_def plain_failure_def shown_refusals_def)

lemma map_filter_member: "p \<in> set ps \<Longrightarrow> f p = Some y \<Longrightarrow> y \<in> set (List.map_filter f ps)"
  by (force simp: List.map_filter_def)

lemma prepare_files_refusal:
  assumes "prepare_files d ps = Inl (PatchConflict r m)" "m \<in> shown_refusals"
  shows "\<exists>p\<in>set ps. \<exists>f. file_conflict d p = Some f \<and> cf_path f = conflict_path r"
  using assms(1)
proof (induction ps)
  case (Cons p ps)
  show ?case
  proof (cases "pf_binary p")
    case True
    have "validate_patch_path q \<noteq> Inl (PatchConflict r m)" for q
      using assms(2) by (auto simp: validate_patch_path_def Let_def shown_refusals_def)
    with True Cons show ?thesis
      by (auto simp: try_then_Inl)
  next
    case False
    show ?thesis
    proof (cases "prepare_patch_file d p")
      case (Inl failure)
      then have "fa_error failure = PatchConflict r m"
        using False Cons.prems by (simp add: map_err_def)
      then obtain f where "fa_file failure = Some f" "cf_path f = conflict_path r"
        using prepare_refusal [OF Inl] assms(2) by (auto simp: shows_refusal_def)
      with Inl False show ?thesis
        by (auto simp: file_conflict_def)
    next
      case (Inr c)
      with False Cons show ?thesis
        by (auto simp: try_then_Inl map_err_def)
    qed
  qed
qed simp

lemma scan_lines_error: "scan_lines ls s = Inl (PatchConflict x m) \<Longrightarrow> m \<notin> shown_refusals"
proof (induction ls arbitrary: s)
  case (Cons l ls)
  have "m \<notin> shown_refusals" if "scan_line l s = Inl (PatchConflict x m)"
    using that by (auto simp: scan_line_def Let_def open_section_def open_hunk_def shown_refusals_def
        split: option.splits list.splits if_splits)
  with Cons show ?case
    by (auto simp: try_then_Inl)
qed simp

lemma parse_error: "parse_unified_diff diff = Inl (PatchConflict x m) \<Longrightarrow> m \<notin> shown_refusals"
  by (auto simp: parse_unified_diff_def scan_unified_diff_def try_then_Inl dest: scan_lines_error)

text \<open>A patch that the strict apply refuses because a hunk does not fit, because a file it creates is
  there, or because a file it deletes outlives its hunks, has a published conflict, and the refused
  path is in it.\<close>

theorem refused_patch_is_published:
  assumes "prepare_patch d diff = Inl (PatchConflict r m)" "m \<in> shown_refusals"
  shows "\<exists>c. conflict_content_of d diff baseline = Some c \<and> conflict_path r \<in> cf_path ` set (cc_files c)"
proof -
  have root: "\<forall>e. canonical_root d \<noteq> Inl e \<or> (\<forall>x y. e \<noteq> PatchConflict x y)"
    by (auto simp: canonical_root_def split: option.splits)
  have parse: "\<forall>e. parse_unified_diff diff = Inl e \<longrightarrow> (\<forall>x. e \<noteq> PatchConflict x m)"
    using parse_error assms(2) by blast
  obtain files where files: "canonical_root d = Inr ()" "parse_unified_diff diff = Inr files"
      "prepare_files d files = Inl (PatchConflict r m)"
    using assms root parse by (auto simp: prepare_patch_def try_then_Inl shown_refusals_def split: if_splits)
  obtain f where f: "f \<in> set (List.map_filter (file_conflict d) files)" "cf_path f = conflict_path r"
    using prepare_files_refusal [OF files(3) assms(2)] map_filter_member by metis
  let ?fs = "bound_conflicts (List.map_filter (file_conflict d) files) 0"
  have "conflict_content_of d diff baseline
      = Some \<lparr>cc_baseline = baseline, cc_files = ?fs, cc_truncated = list_ex cf_omitted ?fs\<rparr>"
    using files f(1) by (auto simp: conflict_content_of_def Let_def)
  moreover have "conflict_path r \<in> set (map cf_path ?fs)"
    unfolding bound_conflicts_keep(1) set_map using imageI [OF f(1), of cf_path] f(2) by simp
  ultimately show ?thesis by auto
qed

section \<open>Witnesses\<close>

text \<open>A patch whose second line is no longer in the file, and one with a binary file.\<close>

definition stale_diff :: string where
  "stale_diff = unlines [''--- a/a'', ''+++ b/a'', ''@@ -1,2 +1,2 @@'', '' x'', ''-old'', ''+new'']"

definition image_diff :: string where
  "image_diff = unlines [''diff --git a/i b/i'', ''Binary files a/i and b/i differ'']"

lemma stale_refused: "prepare_patch demo_tree stale_diff =
    Inl (PatchConflict ''a'' ''patch conflict: expected hunk context was not found'')"
  by code_simp

lemma refused_patch_is_published_witness:
  "\<exists>c. conflict_content_of demo_tree stale_diff BaseUnknown = Some c \<and> conflict_path ''a'' \<in> cf_path ` set (cc_files c)"
  using refused_patch_is_published [OF stale_refused] by (simp add: shown_refusals_def)

lemma image_prepared: "prepare_patch demo_tree image_diff =
    Inr \<lparr>pa_changes = [], pa_refusals = [\<lparr>rep_path = ''i'', rep_message = binary_refusal\<rparr>]\<rparr>"
  by code_simp

lemma conflict_content_of_a_prepared_patch_witness:
  "\<exists>c. conflict_content_of demo_tree image_diff BaseUnknown = Some c \<and> map cf_path (cc_files c) = [conflict_path ''i'']"
  using conflict_content_of_a_prepared_patch [OF image_prepared, of BaseUnknown] by auto

lemma conflict_content_is_bounded_witness:
  "\<exists>c. conflict_content_of demo_tree stale_diff BaseUnknown = Some c
    \<and> sum_list (map (unat \<circ> conflict_file_bytes) (filter (\<lambda>f. \<not> cf_omitted f) (cc_files c))) \<le> 256 * 1024"
proof -
  have "is_ok (parse_unified_diff stale_diff)" "conflict_content_of demo_tree stale_diff BaseUnknown \<noteq> None"
    by code_simp+
  then obtain c files where "conflict_content_of demo_tree stale_diff BaseUnknown = Some c"
      "parse_unified_diff stale_diff = Inr files"
    by (auto simp: is_ok_iff)
  with conflict_content_is_bounded show ?thesis by blast
qed

end
