(* ===== verification/Diff_Safety.thy ===== *)
theory Diff_Safety
  imports Patch_Files "HOL-Library.Code_Target_Nat"
begin

text \<open>
  The text half of the patch backend: the strict apply against its specification, the structured
  document against the patch the apply reads, and the bounds of what is published.
\<close>

section \<open>The strict apply\<close>

text \<open>C33: Applying a patch to a text succeeds exactly when its hunks can be placed on it in order,
  without overlap, each on exactly its old lines; the result is such a placement with the old lines
  replaced by the new ones. A rejection names the first hunk that cannot be placed after the ones
  before it.\<close>

theorem strict_apply_refines_placement:
  "case apply_patch_file current p of
     Inr out \<Rightarrow> \<exists>ls. fits (pf_hunks p) (split_preserving_newlines current) ls \<and> out = concat ls
   | Inl r \<Rightarrow> hr_index r < length (pf_hunks p)
      \<and> (\<exists>ls. fits (take (hr_index r) (pf_hunks p)) (split_preserving_newlines current) ls)
      \<and> \<not> (\<exists>ls. fits (take (Suc (hr_index r)) (pf_hunks p)) (split_preserving_newlines current) ls)"
proof (cases "apply_hunks 0 (pf_hunks p) (split_preserving_newlines current) 0")
  case (Inl r)
  then show ?thesis
    using apply_hunks_Inl [of 0 "pf_hunks p" "[]" "split_preserving_newlines current" r]
    by (auto simp: apply_patch_file_def)
next
  case (Inr out)
  then show ?thesis
    using apply_hunks_Inr [of 0 "pf_hunks p" "[]" "split_preserving_newlines current" out]
    by (auto simp: apply_patch_file_def)
qed

section \<open>Rows of a scan\<close>

definition row_ok :: "nat \<Rightarrow> char \<times> string \<Rightarrow> bool" where
  "row_ok n r \<longleftrightarrow> fst r \<in> {CHR '' '', CHR ''-'', CHR ''+''} \<and> length (snd r) < n"

definition hunk_ok :: "nat \<Rightarrow> scanned_hunk \<Rightarrow> bool" where
  "hunk_ok n h \<longleftrightarrow> list_all (row_ok n) (sh_rows h)"

definition scan_ok :: "nat \<Rightarrow> scan_state \<Rightarrow> bool" where
  "scan_ok n s \<longleftrightarrow> (\<forall>f\<in>set (sc_files s) \<union> set_option (sc_file s). list_all (hunk_ok n) (sf_hunks f))
     \<and> (\<forall>h\<in>set_option (sc_hunk s). hunk_ok n h)"

lemma hunk_ok_parsed [simp]: "hunk_ok n (parse_hunk_header line)"
proof -
  have "sh_rows (fold hunk_token ts h) = sh_rows h" for ts h
  proof (induction ts arbitrary: h)
    case (Cons t ts)
    then show ?case by (cases t) (simp_all add: Let_def split: prod.splits)
  qed simp
  then show ?thesis
    by (simp add: hunk_ok_def parse_hunk_header_def default_hunk_def Let_def split: option.splits)
qed

lemma hunk_ok_counted [simp]: "hunk_ok n (counted_hunk h) = hunk_ok n h"
  by (simp add: hunk_ok_def counted_hunk_def)

lemma scan_ok_finish_hunk: "scan_ok n s \<Longrightarrow> scan_ok n (finish_patch_hunk s)"
  by (auto simp: scan_ok_def finish_patch_hunk_def push_hunk_def split: option.splits)

lemma scan_ok_finish_file: "scan_ok n s \<Longrightarrow> scan_ok n (finish_file s)"
  by (auto simp: scan_ok_def finish_file_def split: option.splits)

lemma scan_ok_header: "scan_ok n s \<Longrightarrow> file_header line s = Some t \<Longrightarrow> scan_ok n t"
  by (auto simp: scan_ok_def file_header_def default_file_def split: option.splits if_splits)

lemma scan_ok_row: "scan_ok n s \<Longrightarrow> length raw \<le> n \<Longrightarrow> scan_ok n (scan_row raw line s)"
  by (auto simp: scan_ok_def scan_row_def split_patch_line_def hunk_ok_def row_ok_def default_hunk_def
      split: option.splits list.splits if_splits)

lemma scan_ok_line:
  assumes "scan_ok n s" "length raw \<le> n" "scan_line raw s = Inr t"
  shows "scan_ok n t"
proof -
  have "scan_ok n t" if "open_section line rest s = Inr t" for line rest
    using that scan_ok_finish_file [OF scan_ok_finish_hunk [OF assms(1)]]
    by (auto simp: open_section_def scan_ok_def default_file_def split: list.splits)
  moreover have "scan_ok n t" if "open_hunk line s = Inr t" for line
    using that assms(1) by (auto simp: open_hunk_def scan_ok_def push_hunk_def split: option.splits)
  ultimately show ?thesis
    using assms scan_ok_header [OF assms(1)] scan_ok_row [OF assms(1,2)]
    by (auto simp: scan_line_def Let_def split: option.splits if_splits)
qed

lemma scan_ok_lines:
  "scan_ok n s \<Longrightarrow> \<forall>l\<in>set ls. length l \<le> n \<Longrightarrow> scan_lines ls s = Inr t \<Longrightarrow> scan_ok n t"
  by (induction ls arbitrary: s) (auto simp: try_then_Inr dest: scan_ok_line)

lemma split_inclusive_length: "l \<in> set (split_inclusive s) \<Longrightarrow> length l \<le> length s"
proof (induction s arbitrary: l)
  case (Cons c s)
  then show ?case
    by (cases "split_inclusive s") (fastforce split: if_splits)+
qed simp

lemma scanned_rows:
  assumes "scan_unified_diff diff = Inr files" "f \<in> set files" "h \<in> set (sf_hunks f)"
  shows "hunk_ok (length diff) h"
proof -
  obtain t where t: "scan_lines (split_inclusive diff) scan_start = Inr t"
      "files = sc_files (finish_file (finish_patch_hunk t))"
    using assms(1) by (auto simp: scan_unified_diff_def try_then_Inr)
  have "scan_ok (length diff) scan_start"
    by (simp add: scan_ok_def scan_start_def)
  then have "scan_ok (length diff) t"
    using scan_ok_lines split_inclusive_length t(1) by blast
  then have "scan_ok (length diff) (finish_file (finish_patch_hunk t))"
    by (intro scan_ok_finish_file scan_ok_finish_hunk)
  with assms(2,3) t(2) show ?thesis
    by (auto simp: scan_ok_def list_all_iff)
qed

section \<open>The document shows the patch\<close>

definition on_old :: "diff_line \<Rightarrow> bool" where "on_old l \<longleftrightarrow> dl_kind l \<noteq> LineAdded"
definition on_new :: "diff_line \<Rightarrow> bool" where "on_new l \<longleftrightarrow> dl_kind l \<noteq> LineRemoved"

text \<open>The \<open>k\<close>-th line of a side, numbered from a start, at most the last number of the type.\<close>

definition numbered :: "u32 \<Rightarrow> nat \<Rightarrow> nat option" where
  "numbered start k = Some (min (unat start + k) (2 ^ 32 - 1))"

lemma numbered_sat: "numbered (sat_add start 1) k = numbered start (Suc k)"
  by (auto simp: numbered_def unat_sat_add min_def)

lemma document_rows_old:
  "list_all (row_ok n) rs \<Longrightarrow> (let ls = filter on_old (document_rows rs old new) in
     map dl_content ls = map line_text (side_lines (CHR ''-'') rs)
     \<and> map (map_option unat \<circ> dl_old_line) ls = map (numbered old) [0..<length ls])"
proof (induction rs arbitrary: old new)
  case (Cons r rs)
  obtain m raw where r: "r = (m, raw)" by fastforce
  from Cons.prems have m: "m = CHR '' '' \<or> m = CHR ''-'' \<or> m = CHR ''+''"
    by (auto simp: r row_ok_def)
  have first: "map_option unat (Some old) = numbered old 0"
    using unsigned_less [of old, where ?'a = nat] by (simp add: numbered_def)
  have later: "map (numbered (sat_add old 1)) [0..<k] = map (numbered old) [Suc 0..<Suc k]" for k
    by (simp add: numbered_sat map_Suc_upt [symmetric] comp_def del: upt_Suc)
  have "list_all (row_ok n) rs" using Cons.prems by simp
  from m Cons.IH [OF this, of "sat_add old 1" "sat_add new 1"] Cons.IH [OF this, of "sat_add old 1" new]
    Cons.IH [OF this, of old "sat_add new 1"] show ?case
    using first later
    by (elim disjE) (simp_all add: r side_lines_def on_old_def Let_def upt_conv_Cons del: upt_Suc)
qed (simp add: side_lines_def)

lemma document_rows_new:
  "list_all (row_ok n) rs \<Longrightarrow> (let ls = filter on_new (document_rows rs old new) in
     map dl_content ls = map line_text (side_lines (CHR ''+'') rs)
     \<and> map (map_option unat \<circ> dl_new_line) ls = map (numbered new) [0..<length ls])"
proof (induction rs arbitrary: old new)
  case (Cons r rs)
  obtain m raw where r: "r = (m, raw)" by fastforce
  from Cons.prems have m: "m = CHR '' '' \<or> m = CHR ''-'' \<or> m = CHR ''+''"
    by (auto simp: r row_ok_def)
  have first: "map_option unat (Some new) = numbered new 0"
    using unsigned_less [of new, where ?'a = nat] by (simp add: numbered_def)
  have later: "map (numbered (sat_add new 1)) [0..<k] = map (numbered new) [Suc 0..<Suc k]" for k
    by (simp add: numbered_sat map_Suc_upt [symmetric] comp_def del: upt_Suc)
  have "list_all (row_ok n) rs" using Cons.prems by simp
  from m Cons.IH [OF this, of "sat_add old 1" "sat_add new 1"] Cons.IH [OF this, of "sat_add old 1" new]
    Cons.IH [OF this, of old "sat_add new 1"] show ?case
    using first later
    by (elim disjE) (simp_all add: r side_lines_def on_new_def Let_def upt_conv_Cons del: upt_Suc)
qed (simp add: side_lines_def)

text \<open>C34: The structured document of a patch and the patch the strict apply reads show the same hunk:
  the rows of the document that exist on the old side are the old lines the apply searches for, those
  on the new side are the lines it writes, in order, and they carry consecutive line numbers from the
  header's start (from 1 where the header has 0), saturating at the largest number.\<close>

theorem document_shows_the_patch:
  assumes "scan_unified_diff diff = Inr files" "f \<in> set files" "h \<in> set (sf_hunks f)"
  shows "map dl_content (filter on_old (dh_lines (document_hunk h))) = map line_text (ph_old_lines (patch_hunk_of h))
    \<and> map dl_content (filter on_new (dh_lines (document_hunk h))) = map line_text (ph_new_lines (patch_hunk_of h))
    \<and> map (map_option unat \<circ> dl_old_line) (filter on_old (dh_lines (document_hunk h)))
       = map (numbered (max (sh_old_start h) 1)) [0..<length (ph_old_lines (patch_hunk_of h))]
    \<and> map (map_option unat \<circ> dl_new_line) (filter on_new (dh_lines (document_hunk h)))
       = map (numbered (max (sh_new_start h) 1)) [0..<length (ph_new_lines (patch_hunk_of h))]"
proof -
  have rows: "list_all (row_ok (length diff)) (sh_rows h)"
    using scanned_rows [OF assms] by (simp add: hunk_ok_def)
  let ?old = "max (sh_old_start h) 1" and ?new = "max (sh_new_start h) 1"
  have lines: "dh_lines (document_hunk h) = document_rows (sh_rows h) ?old ?new"
      "ph_old_lines (patch_hunk_of h) = side_lines (CHR ''-'') (sh_rows h)"
      "ph_new_lines (patch_hunk_of h) = side_lines (CHR ''+'') (sh_rows h)"
    by (simp_all add: document_hunk_def patch_hunk_of_def)
  have old: "map dl_content (filter on_old (document_rows (sh_rows h) ?old ?new)) = map line_text (side_lines (CHR ''-'') (sh_rows h))"
      "map (map_option unat \<circ> dl_old_line) (filter on_old (document_rows (sh_rows h) ?old ?new))
        = map (numbered ?old) [0..<length (filter on_old (document_rows (sh_rows h) ?old ?new))]"
    using document_rows_old [OF rows, of ?old ?new] by (auto simp only: Let_def)
  have new: "map dl_content (filter on_new (document_rows (sh_rows h) ?old ?new)) = map line_text (side_lines (CHR ''+'') (sh_rows h))"
      "map (map_option unat \<circ> dl_new_line) (filter on_new (document_rows (sh_rows h) ?old ?new))
        = map (numbered ?new) [0..<length (filter on_new (document_rows (sh_rows h) ?old ?new))]"
    using document_rows_new [OF rows, of ?old ?new] by (auto simp only: Let_def)
  have "length (filter on_old (document_rows (sh_rows h) ?old ?new)) = length (side_lines (CHR ''-'') (sh_rows h))"
      "length (filter on_new (document_rows (sh_rows h) ?old ?new)) = length (side_lines (CHR ''+'') (sh_rows h))"
    using arg_cong [OF old(1), of length] arg_cong [OF new(1), of length] by simp_all
  with old new show ?thesis
    unfolding lines by simp
qed

definition one_hunk :: string where
  "one_hunk = ''--- a/f'' @ [LF] @ ''+++ b/f'' @ [LF] @ ''@@ -3 +3,2 @@'' @ [LF] @ ''-x'' @ [LF] @ ''+y'' @ [LF] @ ''+z'' @ [LF]"

definition the_hunk :: scanned_hunk where
  "the_hunk = \<lparr>sh_old_start = 3, sh_old_lines = 1, sh_new_start = 3, sh_new_lines = 2, sh_header = None,
     sh_declared = True, sh_rows = [(CHR ''-'', ''x'' @ [LF]), (CHR ''+'', ''y'' @ [LF]), (CHR ''+'', ''z'' @ [LF])]\<rparr>"

lemma one_hunk_scanned: "scan_unified_diff one_hunk = Inr [default_file\<lparr>sf_old_path := ''a/f'',
    sf_new_path := ''b/f'', sf_hunks := [the_hunk]\<rparr>]"
  by code_simp

lemma document_shows_the_patch_witness:
  "map dl_content (filter on_new (dh_lines (document_hunk the_hunk))) = [''y'', ''z'']"
proof -
  have "map line_text (ph_new_lines (patch_hunk_of the_hunk)) = [''y'', ''z'']"
    by code_simp
  then show ?thesis
    using document_shows_the_patch [OF one_hunk_scanned, of _ the_hunk] by simp
qed

section \<open>Bounds\<close>

lemma line_text_length: "length (line_text s) \<le> length s"
proof -
  have "length (trim_end_char c t) \<le> length t" for c t
    using length_dropWhile_le [of _ "rev t"] by (simp add: trim_end_char_def)
  then show ?thesis
    unfolding line_text_def using order_trans by blast
qed

definition shown_bytes :: "diff_file \<Rightarrow> nat" where
  "shown_bytes f = sum_list (map (\<lambda>h. sum_list (map (length \<circ> dl_content) (dh_lines h))) (df_hunks f))"

definition file_bytes :: "scanned_file \<Rightarrow> nat" where
  "file_bytes f = sum_list (map (length \<circ> line_text \<circ> snd) (file_rows f))"

lemma document_rows_content: "map dl_content (document_rows rs old new) = map (line_text \<circ> snd) rs"
  by (induction rs arbitrary: old new) (auto simp: Let_def split: prod.splits if_splits)

lemma shown_document_file: "shown_bytes (document_file omitted f) = (if omitted then 0 else file_bytes f)"
proof -
  have "sum_list (map (length \<circ> dl_content) (document_rows rs old new)) = sum_list (map (length \<circ> line_text \<circ> snd) rs)" for rs old new
    using arg_cong [OF document_rows_content [of rs old new], of "sum_list \<circ> map length"] by (simp add: comp_assoc)
  then have "sum_list (map (\<lambda>h. sum_list (map (length \<circ> dl_content) (dh_lines (document_hunk h)))) hs)
      = sum_list (map (length \<circ> line_text \<circ> snd) (concat (map sh_rows hs)))" for hs
    by (induction hs) (simp_all add: document_hunk_def)
  then show ?thesis
    by (simp add: shown_bytes_def document_file_def file_bytes_def file_rows_def Let_def comp_def)
qed

lemma fold_sat_add:
  fixes n :: u64
  shows "\<forall>r\<in>set rs. g r < 2 ^ 64 \<Longrightarrow>
    unat (fold (\<lambda>r n. sat_add n (of_nat (g r))) rs n) = min (unat n + sum_list (map g rs)) (2 ^ 64 - 1)"
proof (induction rs arbitrary: n)
  case Nil
  then show ?case
    using unsigned_less [of n, where ?'a = nat] by simp
next
  case (Cons r rs)
  then show ?case
    by (auto simp: unat_sat_add unat_of_nat take_bit_nat_eq_self min_def)
qed

lemma unat_row_bytes:
  assumes "\<forall>r\<in>set (file_rows f). length (snd r) < 2 ^ 64"
  shows "unat (row_bytes f) = min (file_bytes f) (2 ^ 64 - 1)"
proof -
  have "\<forall>r\<in>set (file_rows f). length (line_text (snd r)) < 2 ^ 64"
    using assms line_text_length order_le_less_trans by blast
  from fold_sat_add [OF this, of 0] show ?thesis
    by (simp add: row_bytes_def file_bytes_def comp_def)
qed

lemma document_files_bound:
  assumes "\<forall>f\<in>set fs. \<forall>r\<in>set (file_rows f). length (snd r) < 2 ^ 64" "unat spent \<le> unat limit"
  shows "unat spent + sum_list (map shown_bytes (document_files limit fs spent)) \<le> unat limit"
  using assms
proof (induction fs arbitrary: spent)
  case (Cons f fs)
  note prem = Cons.prems
  define total where "total = sat_add spent (row_bytes f)"
  have limit: "unat (ucast limit :: u64) = unat limit" "unat limit < 2 ^ 32"
    using unsigned_less [of limit, where ?'a = nat] by (simp_all add: unsigned_ucast_eq take_bit_nat_eq_self)
  have sum: "unat total = min (unat spent + min (file_bytes f) (2 ^ 64 - 1)) (2 ^ 64 - 1)"
    using prem(1) unat_row_bytes [of f] by (simp add: total_def unat_sat_add)
  show ?case
  proof (cases "total > ucast limit")
    case True
    then show ?thesis
      using Cons.IH [of spent] prem by (simp add: Let_def total_def [symmetric] shown_document_file)
  next
    case False
    then have "unat total \<le> unat limit"
      using limit by (simp add: word_le_nat_alt not_less)
    moreover from this have "unat total = unat spent + file_bytes f"
      using sum limit(2) by (auto simp: min_def split: if_splits)
    ultimately show ?thesis
      using False Cons.IH [of total] prem(1) by (simp add: Let_def total_def [symmetric] shown_document_file add.assoc)
  qed
qed simp

lemma document_files_keep:
  "map df_path (document_files limit fs spent) = map (df_path \<circ> document_file False) fs"
  "map df_additions (document_files limit fs spent) = map (count_rows (CHR ''+'')) fs"
  "map df_deletions (document_files limit fs spent) = map (count_rows (CHR ''-'')) fs"
  by (induction limit fs spent rule: document_files.induct) (simp_all add: Let_def document_file_def)

text \<open>C35: The structured document of a diff never carries more bytes of rows than its limit. When the scan
  accepts the diff, the document names every file of it in order with its counts of added and removed
  lines, shown or not, and says that it is truncated exactly when a file stands without its rows. (A
  diff with a malformed section has an empty document, see malformed_section_hides_the_diff.)\<close>

theorem document_is_bounded:
  assumes "length diff < 2 ^ 64"
  shows "sum_list (map shown_bytes (dd_files (parse_diff_document diff limit))) \<le> unat limit
    \<and> (\<forall>files. scan_unified_diff diff = Inr files \<longrightarrow>
        map df_path (dd_files (parse_diff_document diff limit)) = map (df_path \<circ> document_file False) files
        \<and> map df_additions (dd_files (parse_diff_document diff limit)) = map (count_rows (CHR ''+'')) files
        \<and> map df_deletions (dd_files (parse_diff_document diff limit)) = map (count_rows (CHR ''-'')) files
        \<and> (dd_truncated (parse_diff_document diff limit) \<longleftrightarrow>
            (\<exists>f\<in>set (dd_files (parse_diff_document diff limit)). df_omitted f)))"
proof (cases "scan_unified_diff diff")
  case (Inr files)
  have "\<forall>f\<in>set files. \<forall>r\<in>set (file_rows f). length (snd r) < 2 ^ 64"
    using scanned_rows [OF Inr] assms
    by (fastforce simp: file_rows_def hunk_ok_def row_ok_def list_all_iff)
  from document_files_bound [OF this, of 0 limit] show ?thesis
    by (simp add: parse_diff_document_def Inr Let_def document_files_keep list_ex_iff)
qed (simp add: parse_diff_document_def)

lemma document_is_bounded_witness:
  "sum_list (map shown_bytes (dd_files (parse_diff_document one_hunk 2))) \<le> 2
    \<and> length (dd_files (parse_diff_document one_hunk 2)) = 1"
proof -
  have "length one_hunk < 2 ^ 64"
    by (simp add: one_hunk_def)
  note bounded = document_is_bounded [OF this, of 2]
  from bounded one_hunk_scanned show ?thesis
    by (auto dest!: arg_cong [where f = length])
qed

section \<open>A diff that does not scan\<close>

text \<open>The scan gives up all sections when one is malformed, and the document of such a diff is empty
  and does not say that it is truncated, whatever sections stand before the malformed one.\<close>

theorem malformed_section_hides_the_diff:
  assumes "scan_unified_diff diff = Inl e"
  shows "parse_diff_document diff limit = \<lparr>dd_files = [], dd_truncated = False, dd_byte_limit = limit\<rparr>"
  by (simp add: parse_diff_document_def assms)

lemma malformed_section_hides_the_diff_witness:
  "dd_files (parse_diff_document one_hunk 64) \<noteq> []
    \<and> dd_files (parse_diff_document (one_hunk @ ''diff --git a/g'' @ [LF]) 64) = []"
proof -
  have "\<not> is_ok (scan_unified_diff (one_hunk @ ''diff --git a/g'' @ [LF]))"
    by code_simp
  then obtain e where "scan_unified_diff (one_hunk @ ''diff --git a/g'' @ [LF]) = Inl e"
    by (cases "scan_unified_diff (one_hunk @ ''diff --git a/g'' @ [LF])") auto
  from malformed_section_hides_the_diff [OF this, of 64] show ?thesis
    by (simp add: parse_diff_document_def one_hunk_scanned Let_def)
qed

end
