(* ===== verification/Recovery_Store.thy ===== *)
theory Recovery_Store
  imports Trust_Session Work_Tree
begin

text \<open>
  Recovery snapshots (\<open>crates/workflows/src/recovery.rs\<close>): the bytes a patch is about to overwrite,
  kept by hash in a private directory under a manifest whose own hash is the reference. SHA-256 and
  the JSON codec are arguments. The directory holds no links here; a failing write is an input.
\<close>

section \<open>State\<close>

record snapshot_entry =
  se_path :: string
  se_preimage :: "string option"
  se_mode :: "u32 option"
  se_postimage_sha :: "string option"
  se_created :: "string list"

record manifest_entry =
  me_path :: string
  me_preimage_sha :: "string option"
  me_mode :: "u32 option"
  me_postimage_sha :: "string option"
  me_created :: "string list"

record recovery_manifest =
  rm_schema_version :: u32
  rm_snapshot_id :: string
  rm_entries :: "manifest_entry list"

record snapshot_dir =
  sd_manifest :: "string option"
  sd_blobs :: "(string \<times> string) list"

text \<open>\<open>rd_ready\<close>: the recovery directory and its lock file are there.\<close>

record recovery_disk =
  rd_root :: string
  rd_ready :: bool
  rd_snapshots :: "(string \<times> snapshot_dir) list"

text \<open>The fault of a write: before the snapshot gets its name, or after that, when the directory is synced.\<close>

datatype recovery_fault = BeforeRename string | AfterRename string

record recovery_env =
  rv_sha :: "string \<Rightarrow> string"
  rv_encode :: "recovery_manifest \<Rightarrow> string"
  rv_decode :: "string \<Rightarrow> string + recovery_manifest"
  rv_io :: "recovery_fault option"

section \<open>Checks\<close>

definition snapshot_id_char :: "char \<Rightarrow> bool" where
  "snapshot_id_char c \<longleftrightarrow> is_ascii_lowercase c \<or> is_ascii_uppercase c \<or> is_ascii_digit c \<or> c = CHR ''-'' \<or> c = CHR ''_''"

definition validate_snapshot_id :: "string \<Rightarrow> unit res" where
  "validate_snapshot_id v = ensure (v \<noteq> [] \<and> length v \<le> 120 \<and> list_all snapshot_id_char v)
     ''invalid recovery snapshot id''"

definition lower_hex :: "char \<Rightarrow> bool" where
  "lower_hex c \<longleftrightarrow> is_ascii_digit c \<or> c \<in> set ''abcdef''"

definition validate_sha256 :: "string \<Rightarrow> unit res" where
  "validate_sha256 v = ensure (length v = 64 \<and> list_all lower_hex v) ''invalid recovery sha256''"

definition validate_optional_sha :: "string option \<Rightarrow> unit res" where
  "validate_optional_sha h = (case h of None \<Rightarrow> Ok () | Some v \<Rightarrow> validate_sha256 v)"

text \<open>A segment is never empty, so that the last check of the code cannot fail but on no segment.\<close>

fun normal_parts :: "path \<Rightarrow> string list res" where
  "normal_parts [] = Ok []"
| "normal_parts (Normal g # cs) = try_then (normal_parts cs) (\<lambda>gs. Ok (g # gs))"
| "normal_parts (_ # cs) = Err ''recovery path cannot contain traversal components''"

definition normalize_relative_path :: "string \<Rightarrow> string res" where
  "normalize_relative_path p = guarded
     [ensure (p \<noteq> [] \<and> \<not> is_absolute p) ''recovery path must be non-empty and relative'']
     (try_then (normal_parts (components p)) (\<lambda>gs. guarded
        [ensure (gs \<noteq> [] \<and> list_all (\<lambda>g. g \<noteq> []) gs) ''recovery path must contain normal components'']
        (Ok (join ''/'' gs))))"

section \<open>Writing a snapshot\<close>

definition created_check :: "string \<Rightarrow> string \<Rightarrow> unit res" where
  "created_check p c = ensure (strict_prefix (components c) (components p))
     (''recovery created parent `'' @ c @ ''` is not an ancestor of `'' @ p @ ''`'')"

definition store_blob ::
  "(string \<Rightarrow> string) \<Rightarrow> string option \<Rightarrow> (string \<times> string) list \<Rightarrow> (string \<times> string) list res" where
  "store_blob sha preimage blobs = (case preimage of None \<Rightarrow> Ok blobs
     | Some bytes \<Rightarrow> (case map_of blobs (sha bytes) of
         None \<Rightarrow> Ok ((sha bytes, bytes) # blobs)
       | Some old \<Rightarrow> if old = bytes then Ok blobs else Err ''recovery content-addressed blob collision''))"

definition manifest_of :: "(string \<Rightarrow> string) \<Rightarrow> string \<Rightarrow> string list \<Rightarrow> snapshot_entry \<Rightarrow> manifest_entry" where
  "manifest_of sha p created e = \<lparr>me_path = p, me_preimage_sha = map_option sha (se_preimage e),
     me_mode = se_mode e, me_postimage_sha = se_postimage_sha e, me_created = created\<rparr>"

fun write_entries ::
  "(string \<Rightarrow> string) \<Rightarrow> snapshot_entry list \<Rightarrow> string list \<Rightarrow> (string \<times> string) list
   \<Rightarrow> (manifest_entry list \<times> (string \<times> string) list) res" where
  "write_entries sha [] seen blobs = Ok ([], blobs)"
| "write_entries sha (e # es) seen blobs =
     try_then (normalize_relative_path (se_path e)) (\<lambda>p. guarded
       [ensure (p \<notin> set seen) (''duplicate recovery path `'' @ p @ ''`'')]
       (try_then (all_ok (map normalize_relative_path (se_created e))) (\<lambda>created. guarded
         (map (created_check p) created @ [validate_optional_sha (se_postimage_sha e)])
         (try_then (store_blob sha (se_preimage e) blobs) (\<lambda>blobs.
           try_then (write_entries sha es (p # seen) blobs) (\<lambda>(ms, blobs).
             Ok (manifest_of sha p created e # ms, blobs)))))))"

text \<open>Paths are distinct, so that the derived order of the entries is the order of their paths.\<close>

definition new_manifest :: "string \<Rightarrow> manifest_entry list \<Rightarrow> recovery_manifest" where
  "new_manifest i ms = \<lparr>rm_schema_version = 1, rm_snapshot_id = i, rm_entries = sort_key me_path ms\<rparr>"

text \<open>The snapshot appears under its name by one rename, after everything in it was written.\<close>

definition write_recovery_snapshot ::
  "recovery_env \<Rightarrow> string \<Rightarrow> snapshot_entry list \<Rightarrow> recovery_disk \<Rightarrow> recovery_reference res \<times> recovery_disk" where
  "write_recovery_snapshot v i es d = op_check (validate_snapshot_id i) (\<lambda>_ d.
     let d = d\<lparr>rd_ready := True\<rparr> in
     op_check (ensure (map_of (rd_snapshots d) i = None) (''recovery snapshot `'' @ i @ ''` already exists'')) (\<lambda>_.
     op_check (write_entries (rv_sha v) es [] []) (\<lambda>(ms, blobs) d.
       let m = rv_encode v (new_manifest i ms);
           named = d\<lparr>rd_snapshots := (i, \<lparr>sd_manifest = Some m, sd_blobs = blobs\<rparr>) # rd_snapshots d\<rparr> in
       case rv_io v of
         Some (BeforeRename e) \<Rightarrow> (Err e, d)
       | Some (AfterRename e) \<Rightarrow> (Err e, named)
       | None \<Rightarrow> (Ok \<lparr>rs_snapshot_id = i, rs_manifest_sha256 = rv_sha v m\<rparr>, named))) d) d"

section \<open>Loading a snapshot\<close>

definition missing_file :: "string list \<Rightarrow> 'a res" where
  "missing_file parts = Err (join ''/'' parts @ '': '' @ no_such_file)"

definition load_blob :: "(string \<Rightarrow> string) \<Rightarrow> string list \<Rightarrow> snapshot_dir \<Rightarrow> string option \<Rightarrow> string option res" where
  "load_blob sha at dir h = (case h of None \<Rightarrow> Ok None
     | Some h \<Rightarrow> guarded [validate_sha256 h]
         (case map_of (sd_blobs dir) h of
            None \<Rightarrow> missing_file (at @ [''blobs'', take 2 h, h])
          | Some bytes \<Rightarrow> guarded [ensure (sha bytes = h) ''recovery blob hash mismatch''] (Ok (Some bytes))))"

fun load_entries ::
  "(string \<Rightarrow> string) \<Rightarrow> string list \<Rightarrow> snapshot_dir \<Rightarrow> manifest_entry list \<Rightarrow> string list \<Rightarrow> snapshot_entry list res" where
  "load_entries sha at dir [] seen = Ok []"
| "load_entries sha at dir (m # ms) seen =
     try_then (normalize_relative_path (me_path m)) (\<lambda>p. guarded
       [ensure (p \<notin> set seen) (''duplicate recovery path `'' @ p @ ''`''), validate_optional_sha (me_postimage_sha m)]
       (try_then (load_blob sha at dir (me_preimage_sha m)) (\<lambda>preimage.
        try_then (all_ok (map normalize_relative_path (me_created m))) (\<lambda>created.
        try_then (load_entries sha at dir ms (p # seen)) (\<lambda>es.
          Ok (\<lparr>se_path = p, se_preimage = preimage, se_mode = me_mode m,
               se_postimage_sha = me_postimage_sha m, se_created = created\<rparr> # es))))))"

text \<open>The loaded entries are sorted as paths, component by component.\<close>

definition path_key :: "string \<Rightarrow> string list" where
  "path_key p = split_on (CHR ''/'') p"

definition load_recovery_snapshot ::
  "recovery_env \<Rightarrow> recovery_reference \<Rightarrow> recovery_disk \<Rightarrow> snapshot_entry list res" where
  "load_recovery_snapshot v r d = (let i = rs_snapshot_id r; at = [rd_root d, i] in guarded
     [validate_snapshot_id i, validate_sha256 (rs_manifest_sha256 r), ensure (rd_ready d) no_such_file]
     (case map_of (rd_snapshots d) i of None \<Rightarrow> missing_file at
      | Some dir \<Rightarrow> (case sd_manifest dir of None \<Rightarrow> missing_file (at @ [''manifest.json''])
          | Some bytes \<Rightarrow> guarded [ensure (rv_sha v bytes = rs_manifest_sha256 r) ''recovery manifest hash mismatch'']
              (try_then (rv_decode v bytes) (\<lambda>m. guarded
                [ensure (rm_schema_version m = 1 \<and> rm_snapshot_id m = i) ''recovery manifest identity mismatch'']
                (try_then (load_entries (rv_sha v) at dir (rm_entries m) []) (\<lambda>es.
                  Ok (sort_key (path_key \<circ> se_path) es))))))))"

end
