(* ===== verification/Tree_Rollback.thy ===== *)
theory Tree_Rollback
  imports Trust_Session Patch_Files
begin

text \<open>
  The runtime's own compensation of file changes (\<open>crates/runtime/src/runtime_contract.rs\<close>): before a
  transaction touches files it stages what they hold, and it restores that when the transaction
  fails. A restored file takes the directories made for it along at once. Errors are texts here.
\<close>

section \<open>Errors of the patch backend\<close>

fun lane_error_text :: "lane_error \<Rightarrow> string" where
  "lane_error_text (UnsafePath p) = ''unsafe worktree path `'' @ p @ ''`''"
| "lane_error_text (IoError e) = e"
| "lane_error_text (GitError e) = e"
| "lane_error_text (PatchConflict p m) = (if p = [] then m else p @ '': '' @ m)"

definition lane_op :: "(work_tree \<Rightarrow> 'a lane_res \<times> work_tree) \<Rightarrow> ('a, work_tree) op" where
  "lane_op m d = (case m d of (r, t) \<Rightarrow> (map_err lane_error_text r, t))"

section \<open>Paths\<close>

definition transaction_root :: "work_tree \<Rightarrow> unit res" where
  "transaction_root d = (case wt_root_error d of
      Some e \<Rightarrow> Err (wt_root d @ '': '' @ e)
    | None \<Rightarrow> ensure (wt_root_is_dir d) (''transaction rollback root is no longer safe: `'' @ wt_root d @ ''`''))"

text \<open>The path walked so far, and the names that are left.\<close>

fun walk_down :: "work_tree \<Rightarrow> rel \<Rightarrow> rel \<Rightarrow> unit res" where
  "walk_down d at [] = Ok ()"
| "walk_down d at (g # gs) = (case symlink_metadata d (at @ [g]) of
     StatNode LinkNode \<Rightarrow> Err (''transaction rollback target crosses symlink `'' @ full_text d (at @ [g]) @ ''`'')
   | StatError e \<Rightarrow> Err (full_text d (at @ [g]) @ '': '' @ e)
   | _ \<Rightarrow> walk_down d (at @ [g]) gs)"

definition ensure_inside_root :: "work_tree \<Rightarrow> rel \<Rightarrow> unit res" where
  "ensure_inside_root d r = guarded
     [transaction_root d, ensure (r \<noteq> []) ''transaction rollback target cannot be the workspace root'']
     (walk_down d [] r)"

text \<open>The missing directories on the way, the highest one first.\<close>

fun missing_down :: "work_tree \<Rightarrow> rel \<Rightarrow> rel \<Rightarrow> rel list res" where
  "missing_down d at [] = Ok []"
| "missing_down d at (g # gs) = (case symlink_metadata d (at @ [g]) of
     StatNode DirNode \<Rightarrow> missing_down d (at @ [g]) gs
   | StatNode _ \<Rightarrow> Err (''unsafe transaction rollback parent `'' @ full_text d (at @ [g]) @ ''`'')
   | StatMissing \<Rightarrow> try_then (missing_down d (at @ [g]) gs) (\<lambda>ds. Ok ((at @ [g]) # ds))
   | StatError e \<Rightarrow> Err (full_text d (at @ [g]) @ '': '' @ e))"

section \<open>Reading\<close>

definition read_private_file :: "work_tree \<Rightarrow> rel \<Rightarrow> (string \<times> u32) res" where
  "read_private_file d r = guarded [ensure_inside_root d r] (case node_at d r of
     Some (FileNode b m) \<Rightarrow> Ok (b, m)
   | Some _ \<Rightarrow> Err (''unsafe transaction rollback target `'' @ full_text d r @ ''`'')
   | None \<Rightarrow> Err (full_text d r @ '': '' @ no_such_file))"

definition verify_expected_postimage ::
  "(string \<Rightarrow> string) \<Rightarrow> work_tree \<Rightarrow> rel \<Rightarrow> string option \<Rightarrow> unit res" where
  "verify_expected_postimage sha d r expected = (case expected of
     Some h \<Rightarrow> try_then (map_err (\<lambda>e. ''postimage `'' @ full_text d r @ ''` is unavailable: '' @ e)
         (read_private_file d r))
       (\<lambda>(b, _). ensure (sha b = h) (''postimage `'' @ full_text d r @ ''` changed after merge''))
   | None \<Rightarrow> (case symlink_metadata d r of
       StatMissing \<Rightarrow> Ok ()
     | StatNode _ \<Rightarrow> Err (''postimage `'' @ full_text d r @ ''` was expected to be absent'')
     | StatError e \<Rightarrow> Err (full_text d r @ '': '' @ e)))"

section \<open>Staging\<close>

definition capture_file :: "work_tree \<Rightarrow> rel \<Rightarrow> (string option \<times> u32 option) res" where
  "capture_file d r = (case symlink_metadata d r of
     StatNode (FileNode _ _) \<Rightarrow> try_then (read_private_file d r) (\<lambda>(b, m). Ok (Some b, Some m))
   | StatNode _ \<Rightarrow> Err (''unsafe transaction rollback target `'' @ full_text d r @ ''`'')
   | StatMissing \<Rightarrow> Ok (None, None)
   | StatError e \<Rightarrow> Err (full_text d r @ '': '' @ e))"

definition stage_path :: "work_tree \<Rightarrow> rel \<Rightarrow> file_rollback res" where
  "stage_path d r = guarded [ensure_inside_root d r]
     (try_then (missing_down d [] (butlast r)) (\<lambda>created.
      try_then (capture_file d r) (\<lambda>(b, m).
        Ok \<lparr>fr_path = r, fr_contents = b, fr_mode = m, fr_created = created\<rparr>)))"

text \<open>What was staged before a failure stays staged.\<close>

fun stage_each :: "work_tree \<Rightarrow> rel list \<Rightarrow> unit res \<times> file_rollback list" where
  "stage_each d [] = (Ok (), [])"
| "stage_each d (r # rs) = (case stage_path d r of
     Inl e \<Rightarrow> (Err e, [])
   | Inr f \<Rightarrow> (case stage_each d rs of (x, fs) \<Rightarrow> (x, f # fs)))"

definition canonical_cwd :: "work_tree \<Rightarrow> unit res" where
  "canonical_cwd d = (case wt_root_error d of None \<Rightarrow> Ok () | Some e \<Rightarrow> Err (wt_cwd d @ '': '' @ e))"

definition stage_rollback_paths :: "work_tree \<Rightarrow> rel list \<Rightarrow> unit res \<times> file_rollback list" where
  "stage_rollback_paths d rs = (case canonical_cwd d of Inl e \<Rightarrow> (Err e, []) | Inr _ \<Rightarrow> stage_each d rs)"

section \<open>Restoring\<close>

definition discard_dir :: "rel \<Rightarrow> (unit, work_tree) op" where
  "discard_dir r d = op_check (ensure_inside_root d r) (\<lambda>_ d. case remove_dir r d of
     (RemoveError e, t) \<Rightarrow> (Err (full_text d r @ '': '' @ e), t)
   | (_, t) \<Rightarrow> (Ok (), t)) d"

fun discard_dirs :: "rel list \<Rightarrow> (unit, work_tree) op" where
  "discard_dirs [] = (\<lambda>d. (Ok (), d))"
| "discard_dirs (r # rs) = op_bind (discard_dir r) (\<lambda>_. discard_dirs rs)"

definition restore_staged :: "io_fault \<Rightarrow> file_rollback \<Rightarrow> (unit, work_tree) op" where
  "restore_staged fault f d = op_check (ensure_inside_root d (fr_path f)) (\<lambda>_.
     op_bind (lane_op (restore_contents fault f)) (\<lambda>_. discard_dirs (rev (fr_created f)))) d"

fun restore_each :: "(nat \<Rightarrow> io_fault) \<Rightarrow> file_rollback list \<Rightarrow> (unit, work_tree) op" where
  "restore_each faults [] = (\<lambda>d. (Ok (), d))"
| "restore_each faults (f # fs) = op_bind (restore_staged (faults 0) f) (\<lambda>_. restore_each (faults \<circ> Suc) fs)"

text \<open>Last one first, and of each the deepest directory first; the fault of the \<open>k\<close>-th file is given.\<close>

definition restore_file_rollbacks :: "(nat \<Rightarrow> io_fault) \<Rightarrow> file_rollback list \<Rightarrow> (unit, work_tree) op" where
  "restore_file_rollbacks faults fs = restore_each faults (rev fs)"

end
