(* ===== verification/Applied_Changes.thy ===== *)
theory Applied_Changes
  imports Trust_Commands Recovery_Store Tree_Rollback
begin

text \<open>
  Merging an accepted patch and reverting it (\<open>crates/runtime/src/runtime_contract.rs\<close>,
  \<open>trust_loop.rs\<close>): the gate is checked again, the operator is asked with the patch shown, what the
  patch will overwrite is staged and snapshotted, the intent is made durable, the files are written
  and verified; a refusal returns to the lane as a conflict. A revert restores the snapshot.
\<close>

section \<open>State\<close>

text \<open>\<open>wk_undo\<close> is the transaction's staging, \<open>wk_applied\<close> the stagings kept by applied change.\<close>

record workshop =
  wk_session :: session
  wk_tree :: work_tree
  wk_undo :: "file_rollback list"
  wk_applied :: "(string \<times> file_rollback list) list"
  wk_recovery :: recovery_disk

text \<open>
  The faults are those of the backend, of restoring inside an operation and of rolling a transaction
  back; \<open>wv_revision\<close> is what Git says of \<open>HEAD\<close>, and \<open>wv_context\<close> what the operator is shown of a patch.
\<close>

record 'ctx workshop_env =
  wv_trust :: "'ctx trust_env"
  wv_recovery :: recovery_env
  wv_patch :: patch_env
  wv_restore_faults :: "nat \<Rightarrow> io_fault"
  wv_rollback_faults :: "nat \<Rightarrow> io_fault"
  wv_precommit_io :: "string option"
  wv_revision :: "string option"
  wv_context :: "string \<Rightarrow> 'ctx"

definition in_session :: "('a, session) op \<Rightarrow> ('a, workshop) op" where
  "in_session m w = (case m (wk_session w) of (r, s) \<Rightarrow> (r, w\<lparr>wk_session := s\<rparr>))"

definition in_tree :: "('a, work_tree) op \<Rightarrow> ('a, workshop) op" where
  "in_tree m w = (case m (wk_tree w) of (r, d) \<Rightarrow> (r, w\<lparr>wk_tree := d\<rparr>))"

definition in_recovery :: "('a, recovery_disk) op \<Rightarrow> ('a, workshop) op" where
  "in_recovery m w = (case m (wk_recovery w) of (r, d) \<Rightarrow> (r, w\<lparr>wk_recovery := d\<rparr>))"

section \<open>The patch of a gate\<close>

fun sha_category_text :: "sha_category \<Rightarrow> string" where
  "sha_category_text ShaEmpty = ''empty''"
| "sha_category_text ShaWrongLength = ''wrong_length''"
| "sha_category_text ShaNonAsciiHex = ''non_ascii_hex''"

fun invariant_text :: "metadata_invariant \<Rightarrow> string" where
  "invariant_text HandleItemIdMatchesItem = ''handle_item_id_matches_item''"
| "invariant_text HandleScopeMatchesItem = ''handle_scope_matches_item''"
| "invariant_text HandleHashMatchesItem = ''handle_hash_matches_item''"

fun context_error_text :: "context_error \<Rightarrow> string" where
  "context_error_text (InvalidContentSha256 n c) =
     ''invalid context content sha256: byte_len='' @ show_nat n @ '', category='' @ sha_category_text c"
| "context_error_text (MetadataInvariantViolation i) = ''context metadata invariant violation: '' @ invariant_text i"
| "context_error_text (InvalidMetadataUtf8 l) = ''context metadata line '' @ show_nat l @ '' is not valid UTF-8''"
| "context_error_text (MalformedMetadata l m) = ''context metadata line '' @ show_nat l @ '' is malformed: '' @ m"
| "context_error_text (DivergentDuplicateHandle h l) =
     ''context metadata line '' @ show_nat l @ '' diverges for duplicate handle: '' @ h"
| "context_error_text (MissingHandle h) = ''context handle not found: '' @ h"
| "context_error_text (MissingBlob h) = ''context blob not found for sha256: '' @ h"
| "context_error_text (BlobHashMismatch a b) = ''context blob hash mismatch: expected '' @ a @ '', got '' @ b"
| "context_error_text (ScopeDenied h) = ''context scope denied for handle: '' @ h"

definition patch_evidence_for_gate :: "session \<Rightarrow> merge_gate \<Rightarrow> evidence_view option" where
  "patch_evidence_for_gate s g =
     (case List.map_filter (\<lambda>i. find (\<lambda>e. ev_id e = i \<and> ev_kind e = ''patch'') (ss_evidence s)) (mg_evidence_ids g) of
        [] \<Rightarrow> None | e # _ \<Rightarrow> Some e)"

definition verified_patch_content :: "'ctx trust_env \<Rightarrow> session \<Rightarrow> evidence_view \<Rightarrow> string res" where
  "verified_patch_content env s e = try_then (ok_or (ev_canonical e) ''patch evidence is not canonical'') (\<lambda>c.
     try_then (map_err context_error_text (open_and_verify (session_gate_facts env s) c)) (\<lambda>v. guarded
       [ensure (valid_utf8 (vi_content v)) ''canonical patch evidence is not valid utf-8'']
       (Ok (vi_content v))))"

definition merge_review_check ::
  "session \<Rightarrow> merge_gate \<Rightarrow> gate_decision \<Rightarrow> evidence_binding list \<Rightarrow> unit res" where
  "merge_review_check s g d current = (case mg_validator g of None \<Rightarrow> Ok ()
     | Some v \<Rightarrow> guarded
         [ensure (gv_independent v \<and> gv_validated_at v \<noteq> None)
            ''patch merge requires completed independent validation'']
         (try_then (ok_or (find_review s (gv_review_request_id v))
                      ''merge gate validator review request does not exist'') (\<lambda>r.
            ensure (rr_status r = ReviewAccepted \<and> rr_evidence_bindings r = current
                    \<and> gd_review_request_id d = Some (rr_review_id r))
              ''patch merge requires the accepted exact-evidence review'')))"

text \<open>What \<open>preflight_merge_agent_patch\<close> asks of the gate after its decision was found.\<close>

definition merge_gate_checks ::
  "'ctx trust_env \<Rightarrow> session \<Rightarrow> merge_gate \<Rightarrow> gate_decision \<Rightarrow> evidence_binding list \<Rightarrow> unit res list" where
  "merge_gate_checks env s g d current =
     (let report = reduce_gate_status g (ss_evidence s) (session_gate_facts env s) in
      [ensure (btree (gd_reviewed_evidence d) = current)
         ''accepted merge decision no longer binds exact canonical evidence'',
       merge_review_check s g d current,
       ensure (\<not> conflict_pending g) ''patch merge cannot bypass an unresolved conflict bounce'',
       ensure (rp_status report = CanonVerified) (''patch canonical preflight failed: '' @ reason_text report)])"

definition preflight_merge_agent_patch ::
  "'ctx trust_env \<Rightarrow> string \<Rightarrow> runtime_owner \<Rightarrow> session \<Rightarrow> string res" where
  "preflight_merge_agent_patch env gate actor s =
     try_then (require_gate s gate) (\<lambda>i. let g = ss_gates s ! i in
     try_then (dag_id_for_task s (mg_task_id g)) (\<lambda>_. guarded
       [ensure (actor = mg_owner g) ''patch merge actor does not match gate owner'',
        ensure (mg_status g = GateAccepted) (''merge gate `'' @ gate @ ''` must be accepted before patch merge'')]
     (try_then (ok_or (mg_decision g) ''accepted merge gate is missing a typed decision'') (\<lambda>d. guarded
       [ensure (gd_outcome d = OutcomeAccepted) ''patch merge requires a typed Accepted decision'']
     (try_then (validated_bindings env s g (mg_evidence_ids g)) (\<lambda>current. guarded
       (merge_gate_checks env s g d current)
     (try_then (ok_or (patch_evidence_for_gate s g) ''accepted merge gate has no patch evidence'') (\<lambda>e.
        map_err (\<lambda>m. ''patch canonical preflight failed: '' @ m) (verified_patch_content env s e)))))))))"

section \<open>A refused merge\<close>

definition merge_conflict_baseline :: "string option \<Rightarrow> evidence_binding list \<Rightarrow> conflict_baseline" where
  "merge_conflict_baseline revision bindings = (if bindings \<noteq> [] then BaseEvidence bindings
     else case revision of Some sha \<Rightarrow> BaseRevision sha | None \<Rightarrow> BaseUnknown)"

definition origin_lane :: "merge_gate \<Rightarrow> string" where
  "origin_lane g = (case ow_lane_id (mg_owner g) of Some l \<Rightarrow> l | None \<Rightarrow> ''lane-'' @ mg_task_id g)"

definition mark_agent_patch_conflict ::
  "'ctx workshop_env \<Rightarrow> nat \<Rightarrow> string \<Rightarrow> string option \<Rightarrow> (trust_event list, workshop) op" where
  "mark_agent_patch_conflict v i reason rejected w =
     (let g = ss_gates (wk_session w) ! i; lane = origin_lane g;
          bindings = (case validate_conflict_bounce (wv_trust v) i lane (mg_owner g) (wk_session w) of
            Inl _ \<Rightarrow> [] | Inr b \<Rightarrow> b);
          content = Option.bind rejected (\<lambda>p.
            conflict_content_of (wk_tree w) p (merge_conflict_baseline (wv_revision v) bindings))
      in in_session (record_conflict_bounce (wv_trust v) i lane (mg_owner g) reason content) w)"

section \<open>Staging and the snapshot\<close>

definition stage_paths :: "rel list \<Rightarrow> (unit, workshop) op" where
  "stage_paths rs w = (case stage_rollback_paths (wk_tree w) rs of (x, fs) \<Rightarrow> (x, w\<lparr>wk_undo := fs\<rparr>))"

definition restore_transaction_files :: "(nat \<Rightarrow> io_fault) \<Rightarrow> (unit, workshop) op" where
  "restore_transaction_files faults w = in_tree (restore_file_rollbacks faults (wk_undo w)) w"

definition recovery_entry ::
  "(string \<Rightarrow> string) \<Rightarrow> work_tree \<Rightarrow> file_rollback list \<Rightarrow> patch_change \<Rightarrow> snapshot_entry res" where
  "recovery_entry sha d fs c = try_then (ok_or (find (\<lambda>f. fr_path f = change_path c) fs)
       (''missing staged rollback for `'' @ full_text d (change_path c) @ ''`''))
     (\<lambda>f. Ok \<lparr>se_path = rel_text (change_path c), se_preimage = fr_contents f, se_mode = fr_mode f,
        se_postimage_sha = map_option sha (postimage c), se_created = map rel_text (fr_created f)\<rparr>)"

definition recovery_entries_for_patch ::
  "(string \<Rightarrow> string) \<Rightarrow> work_tree \<Rightarrow> file_rollback list \<Rightarrow> patch_change list \<Rightarrow> snapshot_entry list res" where
  "recovery_entries_for_patch sha d fs cs = all_ok (map (recovery_entry sha d fs) cs)"

definition verify_patch_postimages :: "(string \<Rightarrow> string) \<Rightarrow> work_tree \<Rightarrow> patch_change list \<Rightarrow> unit res" where
  "verify_patch_postimages sha d cs = guarded (concat (map (\<lambda>c. [canonical_cwd d,
     verify_expected_postimage sha d (change_path c) (map_option sha (postimage c))]) cs)) (Ok ())"

text \<open>A durable fact before the files change: with readings of the clock and an outcome of its own.\<close>

definition precommit_env :: "'ctx workshop_env \<Rightarrow> 'ctx trust_env" where
  "precommit_env v = (wv_trust v)\<lparr>te_clock := (\<lambda>k. te_clock (wv_trust v) (k + 8)),
     te_persist_io := wv_precommit_io v\<rparr>"

definition persist_merge_gate_precommit :: "'ctx workshop_env \<Rightarrow> nat \<Rightarrow> string \<Rightarrow> (unit, session) op" where
  "persist_merge_gate_precommit v i label s =
     (let env = precommit_env v;
          t = update_gate i (\<lambda>g. g\<lparr>mg_audit_ids := mg_audit_ids g @ [te_fresh env label 0],
                mg_updated_at := Some (te_clock env 1)\<rparr>) s
      in persist_domain_events env [MergeGateUpdated (ss_gates t ! i)] t)"

section \<open>Merging\<close>

definition merged_gate :: "'ctx trust_env \<Rightarrow> string \<Rightarrow> string \<Rightarrow> merge_gate \<Rightarrow> merge_gate" where
  "merged_gate env decision change g = g\<lparr>mg_status := GateMerged,
     mg_decision := Some (decided_now (te_clock env 2) OutcomeMerged decision (mg_owner g) (mg_evidence_ids g)
       (te_fresh env ''audit'' 0)),
     mg_applied_change_id := Some change, mg_audit_ids := mg_audit_ids g @ [te_fresh env ''audit'' 0],
     mg_updated_at := Some (te_clock env 1)\<rparr>"

definition merged_task :: "'ctx trust_env \<Rightarrow> string \<Rightarrow> agent_task \<Rightarrow> agent_task" where
  "merged_task env decision t = t\<lparr>at_status := TaskApplied, at_activity := ''patch merged: '' @ decision,
     at_decision := Some decision, at_next_action := None,
     at_updated_at := Some (sat_mul (te_clock env 1) 1000)\<rparr>"

definition settle_merge ::
  "'ctx trust_env \<Rightarrow> nat \<Rightarrow> string \<Rightarrow> string \<Rightarrow> (trust_event list, session) op" where
  "settle_merge env i decision change s =
     (let (conflict, t) = mark_conflict_resolved i s;
          u = update_gate i (merged_gate env decision change) t; g = ss_gates u ! i
      in touch_task (te_clock env 3) (mg_task_id g) (merged_task env decision)
           (MergeGateUpdated g # (case conflict of None \<Rightarrow> [] | Some c \<Rightarrow> [MergeConflictBounced c])) u)"

definition finish_merge ::
  "'ctx workshop_env \<Rightarrow> nat \<Rightarrow> string \<Rightarrow> string \<Rightarrow> (trust_event list, workshop) op" where
  "finish_merge v i decision change w = in_session (settle_merge (wv_trust v) i decision change)
     (w\<lparr>wk_applied := AList.update change (wk_undo w) (wk_applied w)\<rparr>)"

definition undo_and_bounce :: "'ctx workshop_env \<Rightarrow> nat \<Rightarrow> string \<Rightarrow> (trust_event list, workshop) op" where
  "undo_and_bounce v i reason = op_bind (restore_transaction_files (wv_restore_faults v))
     (\<lambda>_. mark_agent_patch_conflict v i reason None)"

text \<open>The outcome of the backend is not looked at, only whether it failed.\<close>

definition write_merge ::
  "'ctx workshop_env \<Rightarrow> nat \<Rightarrow> string \<Rightarrow> string \<Rightarrow> patch_application \<Rightarrow> (trust_event list, workshop) op" where
  "write_merge v i decision change a w = (case write_application (wv_patch v) a (wk_tree w) of
     (Inl e, d) \<Rightarrow> undo_and_bounce v i (''patch conflict: '' @ lane_error_text e) (w\<lparr>wk_tree := d\<rparr>)
   | (Inr _, d) \<Rightarrow> (case verify_patch_postimages (te_sha (wv_trust v)) d (pa_changes a) of
       Inl e \<Rightarrow> undo_and_bounce v i (''patch postimage verification failed: '' @ e) (w\<lparr>wk_tree := d\<rparr>)
     | Inr _ \<Rightarrow> finish_merge v i decision change (w\<lparr>wk_tree := d\<rparr>)))"

definition apply_merge ::
  "'ctx workshop_env \<Rightarrow> nat \<Rightarrow> string \<Rightarrow> patch_application \<Rightarrow> (trust_event list, workshop) op" where
  "apply_merge v i decision a =
     (let change = te_fresh (wv_trust v) ''change'' 0 in
      op_bind (stage_paths (map change_path (pa_changes a))) (\<lambda>_ w.
      op_check (recovery_entries_for_patch (te_sha (wv_trust v)) (wk_tree w) (wk_undo w) (pa_changes a)) (\<lambda>entries.
      op_bind (in_recovery (write_recovery_snapshot (wv_recovery v) change entries)) (\<lambda>reference.
      op_bind (in_session (\<lambda>s. persist_merge_gate_precommit v i ''audit-merge-precommit''
         (update_gate i (\<lambda>g. g\<lparr>mg_applied_change_id := Some change, mg_recovery := Some reference\<rparr>) s))) (\<lambda>_.
      write_merge v i decision change a))) w))"

definition merge_preflight ::
  "'ctx trust_env \<Rightarrow> string \<Rightarrow> runtime_owner \<Rightarrow> string \<Rightarrow> session \<Rightarrow> (nat \<times> string) res" where
  "merge_preflight env gate actor decision s = guarded
     [ensure (str_trim decision \<noteq> []) ''patch merge decision cannot be empty'']
     (try_then (preflight_merge_agent_patch env gate actor s) (\<lambda>diff.
      try_then (require_gate s gate) (\<lambda>i.
      try_then (dag_id_for_task s (mg_task_id (ss_gates s ! i))) (\<lambda>_. Ok (i, diff)))))"

definition merge_agent_patch ::
  "'ctx workshop_env \<Rightarrow> string \<Rightarrow> runtime_owner \<Rightarrow> string \<Rightarrow> (trust_event list, workshop) op" where
  "merge_agent_patch v gate actor text w =
     (let env = wv_trust v; decision = sanitize_runtime_domain_text text 240 in
      op_check (merge_preflight env gate actor decision (wk_session w)) (\<lambda>(i, diff).
      op_bind (in_session (require_trust_permission env ''merge_agent_patch'' (''gate='' @ gate)
         (Some (wv_context v diff)))) (\<lambda>_ w. case prepare_patch (wk_tree w) diff of
           Inl e \<Rightarrow> mark_agent_patch_conflict v i (''patch conflict: '' @ lane_error_text e) (Some diff) w
         | Inr a \<Rightarrow> apply_merge v i decision a w)) w)"

section \<open>Reverting\<close>

definition loaded_rollback :: "(string \<Rightarrow> string) \<Rightarrow> work_tree \<Rightarrow> snapshot_entry \<Rightarrow> file_rollback res" where
  "loaded_rollback sha d e = (let r = path_key (se_path e) in guarded
     [ensure_inside_root d r, verify_expected_postimage sha d r (se_postimage_sha e)]
     (Ok \<lparr>fr_path = r, fr_contents = se_preimage e, fr_mode = se_mode e,
          fr_created = map path_key (se_created e)\<rparr>))"

definition load_recovery_rollbacks ::
  "'ctx workshop_env \<Rightarrow> workshop \<Rightarrow> recovery_reference \<Rightarrow> file_rollback list res" where
  "load_recovery_rollbacks v w r =
     try_then (load_recovery_snapshot (wv_recovery v) r (wk_recovery w)) (\<lambda>es. guarded [canonical_cwd (wk_tree w)]
       (all_ok (map (loaded_rollback (te_sha (wv_trust v)) (wk_tree w)) es)))"

text \<open>The durable snapshot, and without one what this process remembers.\<close>

definition revert_source ::
  "'ctx workshop_env \<Rightarrow> workshop \<Rightarrow> merge_gate \<Rightarrow> string \<Rightarrow> file_rollback list res" where
  "revert_source v w g change = (case mg_recovery g of
     Some r \<Rightarrow> load_recovery_rollbacks v w r
   | None \<Rightarrow> ok_or (map_of (wk_applied w) change) (''applied change `'' @ change @ ''` has no recovery snapshot''))"

definition revert_preflight ::
  "'ctx workshop_env \<Rightarrow> string \<Rightarrow> runtime_owner \<Rightarrow> string \<Rightarrow> workshop
   \<Rightarrow> (nat \<times> string \<times> file_rollback list \<times> string) res" where
  "revert_preflight v gate ow reason w = (let s = wk_session w in guarded [validate_trust_id ''gate_id'' gate]
     (try_then (require_gate s gate) (\<lambda>i. let g = ss_gates s ! i in guarded
       [validate_owner ow (ow_lane_id ow) (mg_task_id g),
        ensure (mg_status g = GateMerged) (''merge gate `'' @ gate @ ''` has no applied change to revert'')]
     (try_then (ok_or (mg_applied_change_id g) (''merge gate `'' @ gate @ ''` is missing applied change identity''))
       (\<lambda>change. try_then (revert_source v w g change) (\<lambda>original.
        try_then (validate_trust_text ''revert reason'' reason 500) (\<lambda>text.
          Ok (i, change, original, text))))))))"

text \<open>A path is recorded when the session's own directory is a prefix of it as it was canonicalised.\<close>

definition below_cwd :: "work_tree \<Rightarrow> rel \<Rightarrow> string option" where
  "below_cwd d r = (let p = components (full_text d r); c = components (wt_cwd d) in
     if prefix c p then Some (map (\<lambda>b. if b = CHR 0x5C then CHR ''/'' else b)
       (join ''/'' (List.map_filter (\<lambda>k. case k of Normal g \<Rightarrow> Some g | _ \<Rightarrow> None) (drop (length c) p))))
     else None)"

definition restored_paths :: "work_tree \<Rightarrow> file_rollback list \<Rightarrow> string list" where
  "restored_paths d fs = List.map_filter (\<lambda>f. below_cwd d (fr_path f)) fs"

definition revert_audit ::
  "'ctx trust_env \<Rightarrow> string \<Rightarrow> string \<Rightarrow> string \<Rightarrow> runtime_owner \<Rightarrow> string list \<Rightarrow> audit_record res" where
  "revert_audit env gate task change ow paths =
     trust_audit_record (te_fresh env ''audit'' 0) (te_clock env 1) ow ''change.reverted''
       [audit_object ''revert'' (te_fresh env ''revert'' 0), audit_object ''applied_change'' change,
        audit_object ''merge_gate'' gate, audit_object ''task'' task]
       [(''restored_path_count'', show_nat (length paths))]"

definition revert_of ::
  "'ctx trust_env \<Rightarrow> string \<Rightarrow> string \<Rightarrow> runtime_owner \<Rightarrow> string \<Rightarrow> string list \<Rightarrow> revert_record" where
  "revert_of env gate change ow reason paths = \<lparr>re_revert_id = te_fresh env ''revert'' 0, re_gate_id = gate,
     re_applied_change_id = change, re_owner = ow, re_reason = reason, re_restored_paths = paths,
     re_audit_id = te_fresh env ''audit'' 0, re_reverted_at = te_clock env 1\<rparr>"

definition reverted_gate :: "'ctx trust_env \<Rightarrow> runtime_owner \<Rightarrow> string \<Rightarrow> merge_gate \<Rightarrow> merge_gate" where
  "reverted_gate env ow reason g = g\<lparr>mg_status := GateReverted,
     mg_decision := Some (decided_now (te_clock env 2) OutcomeReverted reason ow (mg_evidence_ids g)
       (te_fresh env ''audit'' 0)),
     mg_audit_ids := mg_audit_ids g @ [te_fresh env ''audit'' 0], mg_updated_at := Some (te_clock env 1)\<rparr>"

definition reverted_task :: "'ctx trust_env \<Rightarrow> string \<Rightarrow> string \<Rightarrow> agent_task \<Rightarrow> agent_task" where
  "reverted_task env task reason t = t\<lparr>at_status := TaskNeedsInput,
     at_activity := ''applied change reverted: '' @ reason,
     at_next_action := Some \<lparr>na_label = ''revise reverted change'', na_command = Some (''/agent start '' @ task),
       na_reason = Some ''the applied change was reverted by an audited command''\<rparr>,
     at_updated_at := Some (sat_mul (te_clock env 1) 1000)\<rparr>"

definition settle_revert ::
  "'ctx trust_env \<Rightarrow> nat \<Rightarrow> revert_record \<Rightarrow> (trust_event list, session) op" where
  "settle_revert env i r s =
     (let t = update_gate i (reverted_gate env (re_owner r) (re_reason r)) (s\<lparr>ss_reverts := ss_reverts s @ [r]\<rparr>);
          g = ss_gates t ! i
      in touch_task (te_clock env 3) (mg_task_id g) (reverted_task env (mg_task_id g) (re_reason r))
           [RevertRecorded r, MergeGateUpdated g] t)"

text \<open>The audit record comes before the first file is touched.\<close>

definition revert_applied_change ::
  "'ctx workshop_env \<Rightarrow> string \<Rightarrow> runtime_owner \<Rightarrow> string \<Rightarrow> (trust_event list, workshop) op" where
  "revert_applied_change v gate ow reason w = (let env = wv_trust v in
     op_check (revert_preflight v gate ow reason w) (\<lambda>(i, change, original, text).
     op_bind (in_session (require_trust_permission env ''revert_applied_change''
        (''gate='' @ gate @ '' change='' @ change) None)) (\<lambda>_ w.
     let paths = restored_paths (wk_tree w) original; task = mg_task_id (ss_gates (wk_session w) ! i) in
     op_bind (in_session (append_trust_audit env (revert_audit env gate task change ow paths))) (\<lambda>_.
     op_bind (stage_paths (map fr_path original)) (\<lambda>_.
     op_bind (in_session (persist_merge_gate_precommit v i ''audit-revert-precommit'')) (\<lambda>_.
     op_bind (in_tree (restore_file_rollbacks (wv_restore_faults v) original)) (\<lambda>_ w.
       in_session (settle_revert env i (revert_of env gate change ow text paths))
         (w\<lparr>wk_applied := AList.delete change (wk_applied w)\<rparr>))))) w)) w)"

section \<open>The transaction\<close>

datatype patch_command =
    MergeAgentPatch string runtime_owner "string option"
  | RevertAppliedChange string runtime_owner string

definition describe_revert ::
  "'ctx workshop_env \<Rightarrow> string \<Rightarrow> runtime_owner \<Rightarrow> string \<Rightarrow> workshop \<Rightarrow> (string \<times> string) option res" where
  "describe_revert v gate ow reason w = (let s = wk_session w in
     try_then (require_gate s gate) (\<lambda>i. let g = ss_gates s ! i in guarded
       [validate_owner ow (ow_lane_id ow) (mg_task_id g),
        ensure (mg_status g = GateMerged) (''merge gate `'' @ gate @ ''` has no applied change to revert'')]
     (try_then (ok_or (mg_applied_change_id g) (''merge gate `'' @ gate @ ''` is missing applied change identity''))
       (\<lambda>change. try_then (revert_source v w g change) (\<lambda>_.
          described [text_check ''revert reason'' (Some reason) 500]
            ''revert_applied_change'' (''gate='' @ gate @ '' change='' @ change))))))"

fun validate_patch_command ::
  "'ctx workshop_env \<Rightarrow> workshop \<Rightarrow> patch_command \<Rightarrow> (string \<times> string) option res" where
  "validate_patch_command v w (MergeAgentPatch gate actor decision) = guarded
     [text_check ''patch merge decision'' decision 240]
     (try_then (preflight_merge_agent_patch (wv_trust v) gate actor (wk_session w)) (\<lambda>_.
        described [] ''merge_agent_patch'' (''gate='' @ gate)))"
| "validate_patch_command v w (RevertAppliedChange gate ow reason) = describe_revert v gate ow reason w"

fun run_patch_command :: "'ctx workshop_env \<Rightarrow> patch_command \<Rightarrow> (trust_event list, workshop) op" where
  "run_patch_command v (MergeAgentPatch gate actor decision) =
     merge_agent_patch v gate actor (default_text ''patch merged'' decision)"
| "run_patch_command v (RevertAppliedChange gate ow reason) = revert_applied_change v gate ow reason"

text \<open>The domain is what it was, and then the staged files are restored.\<close>

definition roll_back :: "'ctx workshop_env \<Rightarrow> workshop \<Rightarrow> (unit, workshop) op" where
  "roll_back v before w = op_bind (restore_transaction_files (wv_rollback_faults v)) (\<lambda>_ w.
       (Ok (), w\<lparr>wk_undo := []\<rparr>))
     (w\<lparr>wk_session := restore_domain (wk_session before) (wk_session w), wk_applied := wk_applied before\<rparr>)"

text \<open>An error is what the runtime returns when even the rollback failed.\<close>

definition handle_patch_command ::
  "'ctx workshop_env \<Rightarrow> patch_command \<Rightarrow> (command_outcome, workshop) op" where
  "handle_patch_command v c w = (case validate_patch_command v w c of
     Inl e \<Rightarrow> (Ok (CommandRejected e), w)
   | Inr _ \<Rightarrow> (case op_bind (run_patch_command v c) (\<lambda>events.
          op_bind (in_session (persist_domain_events (wv_trust v) events)) (\<lambda>_ t. (Ok events, t)))
          (w\<lparr>wk_undo := []\<rparr>) of
       (Inl e, t) \<Rightarrow> (case roll_back v w t of
           (Inl r, u) \<Rightarrow> (Err (e @ ''; rollback failed: '' @ r), u)
         | (Inr _, u) \<Rightarrow> (Ok (CommandRejected e), u))
     | (Inr events, t) \<Rightarrow> (Ok (CommandAccepted events), t\<lparr>wk_undo := []\<rparr>)))"

end
