(* ===== verification/Tree_Restores.thy ===== *)
theory Tree_Restores
  imports Tree_Rollback Patch_Outcome
begin

text \<open>
  Why the runtime's compensation works: from every tree that writing a patch can leave, restoring
  the staged files gives every node back, although a file takes its new directories along before
  the other files below them are restored.
\<close>

section \<open>Frames\<close>

text \<open>Nothing but nodes changes.\<close>

definition same_root :: "work_tree \<Rightarrow> work_tree \<Rightarrow> bool" where
  "same_root d e \<longleftrightarrow> e = d\<lparr>wt_nodes := wt_nodes e\<rparr>"

lemma same_root_refl [simp]: "same_root d d"
  by (simp add: same_root_def)

lemma same_root_trans: "same_root d e \<Longrightarrow> same_root e f \<Longrightarrow> same_root d f"
  by (cases d; cases e; cases f) (simp add: same_root_def)

lemma same_root_nodes [simp]: "same_root d (set_node r n d)" "same_root d (del_node r d)" "same_root d (ensure_dir r d)"
  by (simp_all add: same_root_def set_node_def del_node_def ensure_dir_def)

lemma same_root_dirs [simp]: "same_root d (fold ensure_dir rs d)"
  by (induction rs arbitrary: d) (simp, metis fold_simps(2) same_root_nodes(3) same_root_trans)

lemma same_root_calls [simp]:
  "same_root d (snd (create_dir_all r d))" "same_root d (snd (write_file r b d))" "same_root d (snd (remove_file r d))"
  "same_root d (snd (set_permissions r m d))" "same_root d (snd (remove_dir r d))"
proof -
  have "same_root d (ensure_dir r (fold ensure_dir rs d))" for rs
    using same_root_trans [OF same_root_dirs same_root_nodes(3)] .
  then show "same_root d (snd (create_dir_all r d))"
    by (simp add: create_dir_all_def Let_def)
qed (simp_all add: write_file_def remove_file_def set_permissions_def remove_dir_def split: option.splits node.splits)

lemma same_root_lift: "same_root d (snd r) \<Longrightarrow> same_root d (snd (lift_io p r))"
  by (simp add: lift_io_def)

lemma same_root_then:
  assumes "same_root d (snd r)" "\<And>e. same_root e (snd (f e))"
  shows "same_root d (snd (tree_then r f))"
  using assms same_root_trans by (cases r; cases "fst r") (auto simp: tree_then_def)

lemma same_root_make_parent: "same_root d (snd (make_parent fault r d))"
  by (auto simp: make_parent_def intro!: same_root_lift split: io_fault.splits)

lemma same_root_faulty: "same_root d (snd (faulty_write fault r b d))" "same_root d (snd (faulty_remove fault r d))"
  "same_root d (snd (faulty_mode fault r m d))"
  by (auto simp: faulty_write_def faulty_remove_def faulty_mode_def intro!: same_root_lift split: io_fault.splits)

lemma same_root_change: "same_root d (snd (write_change fault c d))"
  by (cases c) (auto intro!: same_root_then same_root_make_parent same_root_faulty)

lemma same_root_changes: "same_root d (snd (write_changes faults cs d))"
  by (induction cs arbitrary: faults d) (auto intro!: same_root_then same_root_change)

lemma same_root_contents: "same_root d (snd (restore_contents fault f d))"
  by (auto simp: restore_contents_def intro!: same_root_then same_root_make_parent same_root_faulty same_root_lift
      split: option.splits)

lemma same_root_restore: "same_root d (snd (restore_files faults fs d))"
  by (induction fs arbitrary: faults d) (auto simp: restore_file_def intro!: same_root_then same_root_contents)

lemma same_root_drop: "same_root d (snd (drop_dirs rs d))"
proof (induction rs arbitrary: d)
  case (Cons r rs)
  have "same_root e (snd (case remove_dir r e of (RemoveError m, d') \<Rightarrow> (Inl (IoError (full_text e r @ '': '' @ m)), d')
       | (_, d') \<Rightarrow> (Inr (), d')))" for e
    using same_root_calls(5) [of e r] by (cases "remove_dir r e"; cases "fst (remove_dir r e)") simp_all
  with Cons show ?case
    by (auto simp: drop_dir_def intro!: same_root_then)
qed simp

lemma same_root_write: "write_application env a d = (x, e) \<Longrightarrow> same_root d e"
proof -
  have "same_root d (snd (restore_rollback faults fs t))" if "same_root d t" for faults fs t
    using that same_root_trans unfolding restore_rollback_def
    by (meson same_root_then same_root_restore same_root_drop)
  moreover have "same_root d (snd (write_changes (px_write_faults env) (pa_changes a) d))"
    by (rule same_root_changes)
  moreover assume "write_application env a d = (x, e)"
  ultimately show ?thesis
    by (auto simp: write_application_def split: sum.splits prod.splits) (metis snd_conv)+
qed

section \<open>The checks of paths\<close>

lemma walk_resolve: "walk_down d at gs = Ok () \<longleftrightarrow> resolve_components d shown (map Normal gs) at = Inr (at @ gs)"
  by (induction gs arbitrary: at) (auto split: stat.splits node.splits)

lemma inside_iff:
  "tree_ok d \<Longrightarrow> ensure_inside_root d r = Ok () \<longleftrightarrow> transaction_root d = Ok () \<and> r \<noteq> [] \<and> clear_path d r"
  using resolve_names [of d "[]" "[]" r]
  by (auto simp: ensure_inside_root_def guarded_Inr is_ok_iff ensure_def walk_resolve [of d "[]" r "[]"])

lemma same_root_fields: "same_root d e \<Longrightarrow> wt_root e = wt_root d \<and> wt_cwd e = wt_cwd d
    \<and> wt_root_error e = wt_root_error d \<and> wt_root_is_dir e = wt_root_is_dir d \<and> wt_new_mode e = wt_new_mode d"
  by (cases d; cases e) (simp add: same_root_def)

lemma same_root_transaction: "same_root d e \<Longrightarrow> transaction_root e = transaction_root d"
  by (simp add: same_root_fields transaction_root_def split: option.splits)

lemma below_step: "strict_prefix at a \<and> prefix a (at @ g # gs)
    \<longleftrightarrow> a = at @ [g] \<or> strict_prefix (at @ [g]) a \<and> prefix a ((at @ [g]) @ gs)"
proof (cases "\<exists>zs. a = at @ zs")
  case True
  then obtain zs where "a = at @ zs" by blast
  then show ?thesis
    by (cases zs) (auto simp: strict_prefix_def)
qed (auto simp: strict_prefix_def prefix_def)

lemma missing_down_Ok:
  assumes "tree_ok d" "missing_down d at gs = Ok ds"
  shows "set ds = {a. strict_prefix at a \<and> prefix a (at @ gs) \<and> node_at d a = None} \<and> sorted_wrt strict_prefix ds"
  using assms(2)
proof (induction gs arbitrary: at ds)
  case (Cons g gs)
  have below: "{a. strict_prefix at a \<and> prefix a (at @ g # gs) \<and> node_at d a = None} =
      (if node_at d (at @ [g]) = None then {at @ [g]} else {})
      \<union> {a. strict_prefix (at @ [g]) a \<and> prefix a ((at @ [g]) @ gs) \<and> node_at d a = None}"
    unfolding conj_assoc [symmetric] below_step by auto
  from Cons.prems consider (dir) "symlink_metadata d (at @ [g]) = StatNode DirNode" "missing_down d (at @ [g]) gs = Ok ds"
    | (new) rest where "symlink_metadata d (at @ [g]) = StatMissing" "missing_down d (at @ [g]) gs = Ok rest" "ds = (at @ [g]) # rest"
    by (auto simp: res_simps split: stat.splits node.splits)
  then show ?case
  proof cases
    case dir
    then have "node_at d (at @ [g]) \<noteq> None"
      by (auto simp: symlink_metadata_def split: option.splits if_splits)
    with Cons.IH [OF dir(2)] show ?thesis
      unfolding below by (simp only: if_False) simp
  next
    case new
    then have "node_at d (at @ [g]) = None"
      by (auto simp: symlink_metadata_def split: option.splits if_splits)
    moreover have "\<forall>a\<in>set rest. strict_prefix (at @ [g]) a"
      using Cons.IH [OF new(2)] by simp
    ultimately show ?thesis
      using Cons.IH [OF new(2)] new(3) unfolding below by simp
  qed
qed (auto simp: strict_prefix_def)

section \<open>What is staged\<close>

definition remembers :: "work_tree \<Rightarrow> file_rollback \<Rightarrow> bool" where
  "remembers d f \<longleftrightarrow> (case fr_contents f of None \<Rightarrow> node_at d (fr_path f) = None
      | Some b \<Rightarrow> (\<exists>m. fr_mode f = Some m \<and> node_at d (fr_path f) = Some (FileNode b m)))
    \<and> set (fr_created f) = {a. a \<noteq> [] \<and> strict_prefix a (fr_path f) \<and> node_at d a = None}
    \<and> sorted_wrt strict_prefix (fr_created f)"

lemma stage_path_Ok:
  assumes "tree_ok d" "stage_path d r = Ok f"
  shows "fr_path f = r \<and> remembers d f"
proof -
  from assms(2) obtain b m created where f: "ensure_inside_root d r = Ok ()" "missing_down d [] (butlast r) = Ok created"
      "capture_file d r = Ok (b, m)" "f = \<lparr>fr_path = r, fr_contents = b, fr_mode = m, fr_created = created\<rparr>"
    unfolding stage_path_def guarded_Inr try_then_Inr is_ok_iff list.set ball_simps by (elim conjE exE) (auto split: prod.splits)
  have r: "r \<noteq> []"
    using inside_iff [OF assms(1)] f(1) by blast
  have "strict_prefix [] a \<and> prefix a ([] @ butlast r) \<longleftrightarrow> a \<noteq> [] \<and> strict_prefix a r" for a
    using strict_prefix_butlast [OF r, of a] by (auto simp: strict_prefix_def [of "[]"])
  then have created: "set created = {a. a \<noteq> [] \<and> strict_prefix a r \<and> node_at d a = None} \<and> sorted_wrt strict_prefix created"
    using missing_down_Ok [OF assms(1) f(2)] by (simp only: conj_assoc [symmetric])
  have "case b of None \<Rightarrow> node_at d r = None | Some b \<Rightarrow> (\<exists>n. m = Some n \<and> node_at d r = Some (FileNode b n))"
  proof (cases "node_at d r")
    case None
    with f(3) show ?thesis
      by (cases "blocked_by_file d r") (simp_all add: capture_file_def symlink_metadata_def)
  next
    case (Some n)
    with f(1,3) show ?thesis
      by (cases n) (auto simp: capture_file_def symlink_metadata_def read_private_file_def guarded.simps)
  qed
  with created show ?thesis
    by (cases b) (simp_all add: f(4) remembers_def)
qed

lemma stage_each_Ok:
  assumes "tree_ok d" "stage_each d rs = (x, fs)"
  shows "(\<forall>f\<in>set fs. fr_path f \<in> set rs \<and> remembers d f) \<and> (x = Ok () \<longrightarrow> map fr_path fs = rs)"
  using assms(2)
proof (induction rs arbitrary: x fs)
  case (Cons r rs)
  show ?case
  proof (cases "stage_path d r")
    case (Inr f)
    obtain y gs where rest: "stage_each d rs = (y, gs)" by fastforce
    with Inr Cons.prems have "fs = f # gs" "x = y" by simp_all
    with Cons.IH [OF rest] stage_path_Ok [OF assms(1) Inr] show ?thesis
      by auto
  qed (use Cons.prems in auto)
qed auto

lemma stage_rollback_paths_Ok:
  assumes "tree_ok d" "stage_rollback_paths d rs = (x, fs)"
  shows "(\<forall>f\<in>set fs. fr_path f \<in> set rs \<and> remembers d f) \<and> (x = Ok () \<longrightarrow> map fr_path fs = rs)"
  using stage_each_Ok [OF assms(1)] assms(2) by (auto simp: stage_rollback_paths_def split: sum.splits)


section \<open>Discarding the new directories of a file\<close>

text \<open>Directories that are new and above no file but the ones in \<open>U\<close>, or in the list.\<close>

definition pending :: "work_tree \<Rightarrow> rel set \<Rightarrow> rel set \<Rightarrow> work_tree \<Rightarrow> bool" where
  "pending d U D e \<longleftrightarrow> (\<forall>q. node_at d q = None \<and> node_at e q = Some DirNode \<longrightarrow> q \<in> D \<or> (\<exists>p\<in>U. strict_prefix q p))"

lemma midway_prune:
  assumes "midway d P e" "r \<notin> P" "r \<noteq> []" "node_at d r = None" "\<forall>q. strict_prefix r q \<longrightarrow> node_at e q = None"
  shows "midway d P (del_node r e)"
  using assms tree_ok_del by (auto simp: midway_def new_dir_def)

lemma discard_step:
  assumes "targets_ok d P" "midway d P e" "p \<in> P" "strict_prefix r p" "r \<noteq> []" "node_at d r = None"
    and "transaction_root e = Ok ()"
  obtains u where "discard_dir r e = (Ok (), u)" "midway d P u" "same_root e u"
    "\<forall>q. q \<noteq> r \<longrightarrow> node_at u q = node_at e q"
    "node_at u r = None \<or> node_at u r = node_at e r \<and> (\<exists>q. strict_prefix r q \<and> node_at e q \<noteq> None)"
proof -
  have e: "tree_ok e" using assms(2) by (simp add: midway_def)
  have outside: "r \<notin> P"
    using assms(1,3,4) by (auto simp: targets_ok_def antichain_def)
  have at: "node_at e r = None \<or> node_at e r = Some DirNode"
    using midway_above [OF assms(1-4)] .
  have clear: "clear_path e r"
    using midway_clear [OF assms(1-3)] assms(4) unfolding clear_path_def
    by (meson prefix_order.less_imp_le prefix_order.less_trans prefix_order.order_trans)
  then have inside: "ensure_inside_root e r = Ok ()"
    using inside_iff [OF e] assms(5,7) by simp
  have free: "\<not> blocked_by_file e r"
    using clear by (simp add: blocked_iff clear_path_def)
  show thesis
  proof (cases "node_at e r = Some DirNode \<and> \<not> has_entries e r")
    case True
    then have "\<forall>q. strict_prefix r q \<longrightarrow> node_at e q = None"
      using has_entries_iff [OF e] by auto
    then have "midway d P (del_node r e)"
      using midway_prune assms(2,5,6) outside by blast
    moreover have "discard_dir r e = (Ok (), del_node r e)"
      using True inside by (simp add: discard_dir_def op_check_def remove_dir_def)
    ultimately show thesis
      using assms(5) by (intro that [of "del_node r e"]) auto
  next
    case False
    have "discard_dir r e = (Ok (), e)"
      using False at inside free by (auto simp: discard_dir_def op_check_def remove_dir_def)
    then show thesis
      using False at has_entries_iff [OF e] assms(2) by (intro that [of e]) auto
  qed
qed

text \<open>
  A directory stays only when something new is below it; that is a file which is still to be
  restored, or a directory above one, the list being deepest first.
\<close>

lemma kept_dir_pending:
  assumes "tree_ok d" "midway d P e" "pending d U (insert r D) e" "\<forall>q\<in>D. strict_prefix q r"
    and "\<forall>q\<in>P - U. node_at e q = node_at d q" "node_at d r = None"
    and "strict_prefix r q" "node_at e q \<noteq> None"
  shows "\<exists>p\<in>U. strict_prefix r p"
proof -
  have new: "node_at d q = None"
    using tree_okD [OF assms(1) _ assms(7)] assms(6) by (cases "node_at d q") auto
  show ?thesis
  proof (cases "q \<in> P")
    case True
    have "q \<in> U"
    proof (rule ccontr)
      assume "q \<notin> U"
      with True assms(5) have "node_at e q = node_at d q" by blast
      with assms(8) new show False by simp
    qed
    with assms(7) show ?thesis by blast
  next
    case False
    with assms(2,8) new have "node_at e q = Some DirNode"
      unfolding midway_def new_dir_def by metis
    moreover have "q \<notin> insert r D"
      using assms(4,7) prefix_order.less_asym by blast
    ultimately obtain p where "p \<in> U" "strict_prefix q p"
      using assms(3) new unfolding pending_def by blast
    with assms(7) show ?thesis
      using prefix_order.less_trans by blast
  qed
qed

lemma discard_chain:
  assumes "targets_ok d P" "tree_ok d" "midway d P e" "p \<in> P" "transaction_root e = Ok ()"
    and "sorted_wrt (\<lambda>x y. strict_prefix y x) ds"
    and "\<forall>r\<in>set ds. r \<noteq> [] \<and> strict_prefix r p \<and> node_at d r = None"
    and "\<forall>q\<in>P - U. node_at e q = node_at d q" "pending d U (set ds) e"
  shows "\<exists>u. discard_dirs ds e = (Ok (), u) \<and> midway d P u \<and> same_root e u \<and> pending d U {} u
    \<and> (\<forall>q\<in>P. node_at u q = node_at e q)"
  using assms(3,5-9)
proof (induction ds arbitrary: e)
  case (Cons r ds)
  have r: "r \<noteq> []" "strict_prefix r p" "node_at d r = None" "\<forall>q\<in>set ds. strict_prefix q r" "r \<notin> P"
    using Cons.prems(3,4) assms(1,4) by (auto simp: targets_ok_def antichain_def)
  obtain u where u: "discard_dir r e = (Ok (), u)" "midway d P u" "same_root e u"
      "\<forall>q. q \<noteq> r \<longrightarrow> node_at u q = node_at e q"
      "node_at u r = None \<or> node_at u r = node_at e r \<and> (\<exists>q. strict_prefix r q \<and> node_at e q \<noteq> None)"
    by (rule discard_step [OF assms(1) Cons.prems(1) assms(4) r(2,1,3) Cons.prems(2)])
  have "pending d U (set ds) u"
    unfolding pending_def
  proof (intro allI impI)
    fix q assume q: "node_at d q = None \<and> node_at u q = Some DirNode"
    show "q \<in> set ds \<or> (\<exists>p\<in>U. strict_prefix q p)"
    proof (cases "q = r")
      case True
      with q u(5) obtain x where "strict_prefix r x" "node_at e x \<noteq> None" by auto
      with True kept_dir_pending [OF assms(2) Cons.prems(1) _ r(4) Cons.prems(5) r(3)] Cons.prems(6) show ?thesis
        by simp
    next
      case False
      with q u(4) Cons.prems(6) show ?thesis
        unfolding pending_def by auto
    qed
  qed
  moreover have "transaction_root u = Ok ()"
    using same_root_transaction [OF u(3)] Cons.prems(2) by simp
  moreover have "\<forall>q\<in>P - U. node_at u q = node_at d q" "sorted_wrt (\<lambda>x y. strict_prefix y x) ds"
      "\<forall>r\<in>set ds. r \<noteq> [] \<and> strict_prefix r p \<and> node_at d r = None"
    using Cons.prems(3-5) u(4) r(5) by auto
  ultimately obtain v where "discard_dirs ds u = (Ok (), v)" "midway d P v" "same_root u v" "pending d U {} v"
      "\<forall>q\<in>P. node_at v q = node_at u q"
    using Cons.IH [OF u(2)] by blast
  moreover from this(5) have "\<forall>q\<in>P. node_at v q = node_at e q"
    using u(4) r(5) by metis
  ultimately show ?case
    using u(1) same_root_trans [OF u(3)] by (intro exI [of _ v]) (simp add: op_bind_def)
qed simp

section \<open>Restoring\<close>

lemma restore_staged_back:
  assumes "targets_ok d P" "tree_ok d" "midway d P e" "fr_path f \<in> P" "remembers d f" "transaction_root e = Ok ()"
    and "\<forall>q\<in>P - U. node_at e q = node_at d q" "pending d U {} e"
  shows "\<exists>u. restore_staged NoFault f e = (Ok (), u) \<and> midway d P u \<and> same_root e u
    \<and> pending d (U - {fr_path f}) {} u \<and> (\<forall>q\<in>P - (U - {fr_path f}). node_at u q = node_at d q)"
proof -
  let ?p = "fr_path f"
  have e: "tree_ok e" "?p \<noteq> []"
    using assms(1,3,4) by (auto simp: midway_def targets_ok_def antichain_def)
  have inside: "ensure_inside_root e ?p = Ok ()"
    using inside_iff [OF e(1)] midway_clear [OF assms(1,3,4)] e(2) assms(6) by simp
  have "case fr_contents f of None \<Rightarrow> node_at d ?p = None
      | Some b \<Rightarrow> (\<exists>m. fr_mode f = Some m \<and> node_at d ?p = Some (FileNode b m))"
    using assms(5) by (simp add: remembers_def)
  from restore_contents_back [OF assms(1-4) this] obtain u where u: "restore_contents NoFault f e = (Inr (), u)"
      "midway d P u" "restored d ?p u" "\<forall>q. q \<noteq> ?p \<longrightarrow> node_at u q = node_at e q" .
  have root: "same_root e u"
    using same_root_contents [of e NoFault f] u(1) by simp
  have created: "set (fr_created f) = {a. a \<noteq> [] \<and> strict_prefix a ?p \<and> node_at d a = None}"
      "sorted_wrt (\<lambda>x y. strict_prefix y x) (rev (fr_created f))"
    using assms(5) by (simp_all add: remembers_def sorted_wrt_rev)
  have "pending d (U - {?p}) (set (rev (fr_created f))) u"
    unfolding pending_def
  proof (intro allI impI)
    fix q assume q: "node_at d q = None \<and> node_at u q = Some DirNode"
    then have "q \<noteq> ?p"
      using u(3) by (auto simp: restored_def)
    with q u(4) have "node_at e q = Some DirNode" "q \<noteq> []" by auto
    with q assms(8) obtain p where "p \<in> U" "strict_prefix q p"
      unfolding pending_def by auto
    then show "q \<in> set (rev (fr_created f)) \<or> (\<exists>p\<in>U - {?p}. strict_prefix q p)"
      using created(1) q \<open>q \<noteq> []\<close> by (cases "p = ?p") auto
  qed
  moreover have same: "\<forall>q\<in>P - (U - {?p}). node_at u q = node_at d q"
    using assms(7) u(3,4) unfolding restored_def by (metis Diff_iff insertI1 singletonD)
  moreover have "transaction_root u = Ok ()"
    using same_root_transaction [OF root] assms(6) by simp
  moreover have "\<forall>r\<in>set (rev (fr_created f)). r \<noteq> [] \<and> strict_prefix r ?p \<and> node_at d r = None"
    using created(1) by auto
  ultimately obtain v where v: "discard_dirs (rev (fr_created f)) u = (Ok (), v)" "midway d P v" "same_root u v"
      "pending d (U - {?p}) {} v" "\<forall>q\<in>P. node_at v q = node_at u q"
    using discard_chain [OF assms(1,2) u(2) assms(4) _ created(2), of "U - {?p}"] by blast
  have "restore_staged NoFault f e = (Ok (), v)"
    using u(1) v(1) inside by (simp add: restore_staged_def op_check_def op_bind_def lane_op_def map_err_def)
  with v root same show ?thesis
    using same_root_trans by (intro exI [of _ v]) auto
qed

lemma restore_each_back:
  assumes "targets_ok d P" "tree_ok d" "midway d P e" "\<forall>f\<in>set fs. fr_path f \<in> P \<and> remembers d f"
    and "transaction_root e = Ok ()" "\<forall>q\<in>P - U. node_at e q = node_at d q" "pending d U {} e"
  shows "\<exists>u. restore_each (\<lambda>_. NoFault) fs e = (Ok (), u) \<and> midway d P u \<and> same_root e u
    \<and> pending d (U - fr_path ` set fs) {} u \<and> (\<forall>q\<in>P - (U - fr_path ` set fs). node_at u q = node_at d q)"
  using assms(3-7)
proof (induction fs arbitrary: e U)
  case (Cons f fs)
  obtain u where u: "restore_staged NoFault f e = (Ok (), u)" "midway d P u" "same_root e u"
      "pending d (U - {fr_path f}) {} u" "\<forall>q\<in>P - (U - {fr_path f}). node_at u q = node_at d q"
    using restore_staged_back [OF assms(1,2) Cons.prems(1) _ _ Cons.prems(3-5), of f] Cons.prems(2) by auto
  have "transaction_root u = Ok ()" "\<forall>f\<in>set fs. fr_path f \<in> P \<and> remembers d f"
    using same_root_transaction [OF u(3)] Cons.prems(2,3) by simp_all
  from Cons.IH [OF u(2) this(2,1) u(5,4)] obtain v where v: "restore_each (\<lambda>_. NoFault) fs u = (Ok (), v)"
      "midway d P v" "same_root u v" "pending d (U - {fr_path f} - fr_path ` set fs) {} v"
      "\<forall>q\<in>P - (U - {fr_path f} - fr_path ` set fs). node_at v q = node_at d q"
    by blast
  have "U - {fr_path f} - fr_path ` set fs = U - fr_path ` set (f # fs)" by auto
  with u(1,3) v show ?case
    using same_root_trans by (intro exI [of _ v]) (auto simp: op_bind_def o_def)
qed simp

text \<open>All staged files together give back the tree they were staged in.\<close>

lemma restore_file_rollbacks_back:
  assumes "targets_ok d P" "tree_ok d" "midway d P e" "transaction_root d = Ok ()" "same_root d e"
    and "\<forall>f\<in>set fs. fr_path f \<in> P \<and> remembers d f" "P \<subseteq> fr_path ` set fs"
  shows "\<exists>u. restore_file_rollbacks (\<lambda>_. NoFault) fs e = (Ok (), u) \<and> same_root d u \<and> midway d P u
    \<and> (\<forall>q. node_at u q = node_at d q)"
proof -
  have "pending d P {} e"
    unfolding pending_def
  proof (intro allI impI)
    fix q assume "node_at d q = None \<and> node_at e q = Some DirNode"
    moreover from this have "q \<notin> P"
      using assms(3) by (auto simp: midway_def file_place_def)
    ultimately show "q \<in> {} \<or> (\<exists>p\<in>P. strict_prefix q p)"
      using assms(3) unfolding midway_def new_dir_def by (metis option.distinct(1))
  qed
  then obtain u where u: "restore_each (\<lambda>_. NoFault) (rev fs) e = (Ok (), u)" "midway d P u" "same_root e u"
      "pending d (P - fr_path ` set fs) {} u" "\<forall>q\<in>P - (P - fr_path ` set fs). node_at u q = node_at d q"
    using restore_each_back [OF assms(1-3), of "rev fs" P] assms(4-6) same_root_transaction [OF assms(5)] by auto
  have none: "P - fr_path ` set fs = {}" using assms(7) by auto
  have "node_at u q = node_at d q" for q
  proof (cases "q \<in> P \<or> node_at u q = node_at d q")
    case False
    then have "new_dir d P u q"
      using u(2) unfolding midway_def by blast
    then have "node_at d q = None" "node_at u q = Some DirNode"
      by (auto simp: new_dir_def)
    with u(4) none show ?thesis
      unfolding pending_def by blast
  qed (use u(5) none in auto)
  with u(1,2,3) assms(5) same_root_trans show ?thesis
    by (auto simp: restore_file_rollbacks_def)
qed

end
