(* ===== verification/Recovery_Integrity.thy ===== *)
theory Recovery_Integrity
  imports Recovery_Store "HOL-Library.Multiset"
begin

text \<open>
  A snapshot that was written loads, and loads to what was written, whatever else the directory
  holds; and nothing that was tampered with loads to anything else.
\<close>

section \<open>Normalised paths\<close>

lemma normal_parts_Ok: "normal_parts cs = Ok gs \<longleftrightarrow> cs = map Normal gs"
proof (induction cs arbitrary: gs)
  case (Cons c cs)
  then show ?case by (cases c) (auto simp: res_simps)
qed auto

lemma components_join:
  assumes "gs \<noteq> []" "list_all plain_segment gs"
  shows "components (join ''/'' gs) = map Normal gs" "join ''/'' gs \<noteq> []" "\<not> is_absolute (join ''/'' gs)"
proof -
  obtain g hs where gs: "gs = g # hs" "plain_segment g"
    using assms by (cases gs) auto
  then obtain c cs where c: "g = c # cs" "c \<noteq> CHR ''/''"
    by (cases g) (auto simp: plain_segment_def)
  then have "\<exists>rest. join ''/'' gs = c # rest"
    using gs by (cases hs) auto
  then show "join ''/'' gs \<noteq> []" and rel: "\<not> is_absolute (join ''/'' gs)"
    using c(2) by (auto simp: is_absolute_def)
  have "split_on (CHR ''/'') (join ''/'' gs) = gs"
    using assms by (intro split_on_join) (auto simp: list_all_iff plain_segment_def)
  moreover have "inner_components gs = map Normal gs"
    using assms(2) by (induction gs) (auto simp: inner_components_def plain_segment_def component_of_def)
  ultimately show "components (join ''/'' gs) = map Normal gs"
    using rel gs by (auto simp: components_def plain_segment_def)
qed

lemma components_parts: "components p = map Normal gs \<Longrightarrow> list_all plain_segment gs"
  using components_pushable [of p] by (auto simp: list_all_iff)

lemma normalize_Ok:
  "normalize_relative_path p = Ok q \<longleftrightarrow> p \<noteq> [] \<and> \<not> is_absolute p
     \<and> (\<exists>gs. gs \<noteq> [] \<and> components p = map Normal gs \<and> q = join ''/'' gs)"
proof -
  have "list_all (\<lambda>g. g \<noteq> []) gs" if "components p = map Normal gs" for gs
    using components_parts [OF that] by (auto simp: list_all_iff plain_segment_def)
  then show ?thesis
    by (auto simp: normalize_relative_path_def res_simps normal_parts_Ok)
qed

lemma normalize_twice: "normalize_relative_path p = Ok q \<Longrightarrow> normalize_relative_path q = Ok q"
proof -
  assume "normalize_relative_path p = Ok q"
  then obtain gs where gs: "gs \<noteq> []" "components p = map Normal gs" "q = join ''/'' gs"
    by (auto simp: normalize_Ok)
  with components_join [OF gs(1) components_parts [OF gs(2)]] show ?thesis
    by (auto simp: normalize_Ok)
qed

lemma path_key_inj: "path_key p = path_key q \<Longrightarrow> p = q"
  unfolding path_key_def by (metis join_split_on)

section \<open>What is written\<close>

text \<open>The entry as it will be loaded.\<close>

definition normalized_entry :: "snapshot_entry \<Rightarrow> snapshot_entry \<Rightarrow> bool" where
  "normalized_entry e l \<longleftrightarrow> normalize_relative_path (se_path e) = Ok (se_path l)
     \<and> all_ok (map normalize_relative_path (se_created e)) = Ok (se_created l)
     \<and> se_preimage l = se_preimage e \<and> se_mode l = se_mode e \<and> se_postimage_sha l = se_postimage_sha e
     \<and> validate_optional_sha (se_postimage_sha l) = Ok ()"

definition entry_manifest :: "(string \<Rightarrow> string) \<Rightarrow> snapshot_entry \<Rightarrow> manifest_entry" where
  "entry_manifest sha l = manifest_of sha (se_path l) (se_created l) l"

lemma entry_manifest_simps [simp]:
  "me_path (entry_manifest sha l) = se_path l" "me_created (entry_manifest sha l) = se_created l"
  "me_preimage_sha (entry_manifest sha l) = map_option sha (se_preimage l)"
  "me_mode (entry_manifest sha l) = se_mode l" "me_postimage_sha (entry_manifest sha l) = se_postimage_sha l"
  by (simp_all add: entry_manifest_def manifest_of_def)

lemma store_blob_Ok:
  "store_blob sha pre blobs = Ok blobs' \<Longrightarrow> (\<forall>b. pre = Some b \<longrightarrow> map_of blobs' (sha b) = Some b)
     \<and> (\<forall>h b. map_of blobs h = Some b \<longrightarrow> map_of blobs' h = Some b)"
  by (auto simp: store_blob_def split: option.splits if_splits)

lemma write_entries_Ok:
  "write_entries sha es seen blobs = Ok (ms, blobs') \<Longrightarrow>
   \<exists>ls. list_all2 normalized_entry es ls \<and> ms = map (entry_manifest sha) ls
     \<and> distinct (map se_path ls) \<and> set (map se_path ls) \<inter> set seen = {}
     \<and> (\<forall>l\<in>set ls. \<forall>b. se_preimage l = Some b \<longrightarrow> map_of blobs' (sha b) = Some b)
     \<and> (\<forall>h b. map_of blobs h = Some b \<longrightarrow> map_of blobs' h = Some b)"
proof (induction es arbitrary: seen blobs ms)
  case (Cons e es)
  then obtain p created blobs1 ms1 where e: "normalize_relative_path (se_path e) = Ok p" "p \<notin> set seen"
      "all_ok (map normalize_relative_path (se_created e)) = Ok created"
      "validate_optional_sha (se_postimage_sha e) = Ok ()"
      "store_blob sha (se_preimage e) blobs = Ok blobs1"
      "write_entries sha es (p # seen) blobs1 = Ok (ms1, blobs')" "ms = manifest_of sha p created e # ms1"
    by (auto simp: res_simps is_ok_iff)
  from Cons.IH [OF e(6)] obtain ls where ls: "list_all2 normalized_entry es ls" "ms1 = map (entry_manifest sha) ls"
      "distinct (map se_path ls)" "set (map se_path ls) \<inter> set (p # seen) = {}"
      "\<forall>l\<in>set ls. \<forall>b. se_preimage l = Some b \<longrightarrow> map_of blobs' (sha b) = Some b"
      "\<forall>h b. map_of blobs1 h = Some b \<longrightarrow> map_of blobs' h = Some b"
    by blast
  define l where "l = e\<lparr>se_path := p, se_created := created\<rparr>"
  have "normalized_entry e l" "entry_manifest sha l = manifest_of sha p created e"
    using e by (simp_all add: normalized_entry_def entry_manifest_def manifest_of_def l_def)
  moreover have "distinct (map se_path (l # ls))" "set (map se_path (l # ls)) \<inter> set seen = {}"
    using ls(3,4) e(2) by (auto simp: l_def)
  moreover have "\<forall>x\<in>set (l # ls). \<forall>b. se_preimage x = Some b \<longrightarrow> map_of blobs' (sha b) = Some b"
    using ls(5,6) store_blob_Ok [OF e(5)] by (auto simp: l_def)
  moreover have "\<forall>h b. map_of blobs h = Some b \<longrightarrow> map_of blobs' h = Some b"
    using ls(6) store_blob_Ok [OF e(5)] by blast
  ultimately show ?case
    using ls(1,2) e(7) by (intro exI [of _ "l # ls"]) simp
qed auto

section \<open>What is loaded\<close>

lemma all_ok_normal:
  "all_ok (map normalize_relative_path cs) = Ok ds \<Longrightarrow> all_ok (map normalize_relative_path ds) = Ok ds"
proof (induction cs arbitrary: ds)
  case (Cons c cs)
  then show ?case
    by (auto simp: res_simps dest: normalize_twice)
qed auto

text \<open>An entry of the manifest loads back when its blob is there, and loads to nothing else.\<close>

definition loadable :: "snapshot_entry \<Rightarrow> bool" where
  "loadable l \<longleftrightarrow> (\<exists>e. normalized_entry e l)"

lemma loadable_parts:
  assumes "loadable l"
  shows "normalize_relative_path (se_path l) = Ok (se_path l)"
    "all_ok (map normalize_relative_path (se_created l)) = Ok (se_created l)"
    "validate_optional_sha (se_postimage_sha l) = Ok ()"
proof -
  obtain e where e: "normalized_entry e l"
    using assms unfolding loadable_def by blast
  show "normalize_relative_path (se_path l) = Ok (se_path l)"
    using e normalize_twice unfolding normalized_entry_def by blast
  show "all_ok (map normalize_relative_path (se_created l)) = Ok (se_created l)"
    using e all_ok_normal unfolding normalized_entry_def by blast
  show "validate_optional_sha (se_postimage_sha l) = Ok ()"
    using e unfolding normalized_entry_def by blast
qed

lemma load_entries_Ok:
  assumes "\<forall>l\<in>set ls. loadable l" "distinct (map se_path ls)" "set (map se_path ls) \<inter> set seen = {}"
    and "\<forall>l\<in>set ls. load_blob sha at dir (map_option sha (se_preimage l)) = Ok (se_preimage l)"
  shows "load_entries sha at dir (map (entry_manifest sha) ls) seen = Ok ls"
  using assms
proof (induction ls arbitrary: seen)
  case (Cons l ls)
  then have "loadable l" by simp
  note l = loadable_parts [OF this]
  have "load_entries sha at dir (map (entry_manifest sha) ls) (se_path l # seen) = Ok ls"
    using Cons.prems by (intro Cons.IH) auto
  with l Cons.prems show ?case
    by (simp add: guarded.simps ensure_def)
qed simp

lemma entry_eta: "\<lparr>se_path = se_path l, se_preimage = pre, se_mode = se_mode l,
    se_postimage_sha = se_postimage_sha l, se_created = se_created l\<rparr> = l\<lparr>se_preimage := pre\<rparr>"
  by (cases l) simp

lemma load_entries_only:
  assumes "load_entries sha at dir (map (entry_manifest sha) ls) seen = Ok es" "\<forall>l\<in>set ls. loadable l"
    and "\<forall>l\<in>set ls. \<forall>b x. se_preimage l = Some b \<and> sha x = sha b \<longrightarrow> x = b"
  shows "es = ls"
  using assms
proof (induction ls arbitrary: seen es)
  case (Cons l ls)
  have "loadable l" using Cons.prems(2) by simp
  note l = loadable_parts [OF this]
  have "load_entries sha at dir (map (entry_manifest sha) (l # ls)) seen = guarded
      [ensure (se_path l \<notin> set seen) (''duplicate recovery path `'' @ se_path l @ ''`''),
       validate_optional_sha (se_postimage_sha l)]
      (try_then (load_blob sha at dir (map_option sha (se_preimage l))) (\<lambda>pre.
       try_then (load_entries sha at dir (map (entry_manifest sha) ls) (se_path l # seen)) (\<lambda>es.
         Ok (l\<lparr>se_preimage := pre\<rparr> # es))))"
    by (simp add: l(1,2) entry_eta)
  with Cons.prems(1) obtain pre es1 where
      pre: "load_blob sha at dir (map_option sha (se_preimage l)) = Ok pre"
      "load_entries sha at dir (map (entry_manifest sha) ls) (se_path l # seen) = Ok es1"
      "es = l\<lparr>se_preimage := pre\<rparr> # es1"
    by (auto simp only: guarded_Inr try_then_Inr sum.inject)
  have "es1 = ls"
  proof (rule Cons.IH [OF pre(2)])
    show "\<forall>l\<in>set ls. loadable l" using Cons.prems(2) by simp
    show "\<forall>l\<in>set ls. \<forall>b x. se_preimage l = Some b \<and> sha x = sha b \<longrightarrow> x = b"
      using Cons.prems(3) by (meson list.set_intros(2))
  qed
  moreover have "pre = se_preimage l"
  proof (cases "se_preimage l")
    case None
    with pre(1) show ?thesis by (simp add: load_blob_def)
  next
    case (Some b)
    obtain x where x: "map_of (sd_blobs dir) (sha b) = Some x"
      using pre(1) Some by (cases "map_of (sd_blobs dir) (sha b)") (simp_all add: load_blob_def missing_file_def guarded_Inr)
    then have "sha x = sha b" "pre = Some x"
      using pre(1) Some by (simp_all add: load_blob_def guarded_Inr)
    moreover from this(1) Some have "x = b"
      using Cons.prems(3) by (meson list.set_intros(1))
    ultimately show ?thesis
      using Some by simp
  qed
  ultimately show ?case
    using pre(3) by simp
qed simp

lemma sort_manifest:
  "distinct (map se_path ls) \<Longrightarrow>
   \<exists>ls'. sort_key me_path (map (entry_manifest sha) ls) = map (entry_manifest sha) ls'
     \<and> mset ls' = mset ls \<and> distinct (map se_path ls')"
proof (intro exI conjI)
  let ?ls' = "sort_key se_path ls"
  assume dist: "distinct (map se_path ls)"
  show "mset ?ls' = mset ls" by simp
  show "distinct (map se_path ?ls')"
    using dist by (simp add: distinct_map)
  show "sort_key me_path (map (entry_manifest sha) ls) = map (entry_manifest sha) ?ls'"
  proof (rule sort_key_inj_key_eq)
    show "mset (map (entry_manifest sha) ls) = mset (map (entry_manifest sha) ?ls')" by simp
    show "inj_on me_path (set (map (entry_manifest sha) ls))"
      using dist by (auto simp: distinct_map inj_on_def)
    show "sorted (map me_path (map (entry_manifest sha) ?ls'))"
      by (simp add: comp_def)
  qed
qed

lemma sort_paths:
  assumes "mset ls' = mset ls" "distinct (map se_path ls)"
  shows "sort_key (path_key \<circ> se_path) ls' = sort_key (path_key \<circ> se_path) ls"
proof (rule sort_key_inj_key_eq)
  have "set ls' = set ls"
    using assms(1) by (metis set_mset_mset)
  then show "inj_on (path_key \<circ> se_path) (set ls')"
    using assms(2) path_key_inj by (fastforce simp: distinct_map inj_on_def)
qed (use assms in simp_all)

section \<open>Round trip and tampering\<close>

lemma normalized_loadable: "list_all2 normalized_entry es ls \<Longrightarrow> l \<in> set ls \<Longrightarrow> loadable l"
  unfolding loadable_def by (metis in_set_conv_nth list_all2_conv_all_nth)

text \<open>The entries in the order of their paths.\<close>

definition by_path :: "snapshot_entry list \<Rightarrow> snapshot_entry list" where
  "by_path es = sort_key (path_key \<circ> se_path) es"

lemma load_snapshot_from:
  assumes "distinct (map se_path ls)" "\<forall>l\<in>set ls. loadable l"
    and "rv_decode v (rv_encode v m) = Ok m" "m = new_manifest i (map (entry_manifest (rv_sha v)) ls)"
    and "validate_snapshot_id i = Ok ()" "rd_ready d" "map_of (rd_snapshots d) i = Some \<lparr>sd_manifest = Some (rv_encode v m), sd_blobs = blobs\<rparr>"
    and "\<forall>x. validate_sha256 (rv_sha v x) = Ok ()"
    and "\<forall>l\<in>set ls. \<forall>b. se_preimage l = Some b \<longrightarrow> map_of blobs (rv_sha v b) = Some b"
  shows "load_recovery_snapshot v \<lparr>rs_snapshot_id = i, rs_manifest_sha256 = rv_sha v (rv_encode v m)\<rparr> d = Ok (by_path ls)"
proof -
  obtain ls' where ls': "sort_key me_path (map (entry_manifest (rv_sha v)) ls) = map (entry_manifest (rv_sha v)) ls'"
      "mset ls' = mset ls" "distinct (map se_path ls')"
    using sort_manifest [OF assms(1)] by blast
  have same: "set ls' = set ls"
    using ls'(2) by (metis set_mset_mset)
  let ?dir = "\<lparr>sd_manifest = Some (rv_encode v m), sd_blobs = blobs\<rparr>"
  have "load_blob (rv_sha v) at ?dir (map_option (rv_sha v) (se_preimage l)) = Ok (se_preimage l)" if "l \<in> set ls'" for l at
    using assms(8,9) that same by (cases "se_preimage l") (simp_all add: load_blob_def guarded.simps ensure_def)
  then have "load_entries (rv_sha v) at ?dir (map (entry_manifest (rv_sha v)) ls') [] = Ok ls'" for at
    using assms(2) same ls'(3) by (intro load_entries_Ok) auto
  moreover have "sort_key (path_key \<circ> se_path) ls' = by_path ls"
    using sort_paths [OF ls'(2) assms(1)] by (simp add: by_path_def)
  ultimately show ?thesis
    using assms(3-8) ls'(1)
    by (simp add: load_recovery_snapshot_def Let_def guarded.simps ensure_def new_manifest_def)
qed

lemma load_snapshot_only:
  assumes "distinct (map se_path ls)" "\<forall>l\<in>set ls. loadable l"
    and "rv_decode v (rv_encode v m) = Ok m" "m = new_manifest i (map (entry_manifest (rv_sha v)) ls)"
    and "\<forall>x. rv_sha v x = rv_sha v (rv_encode v m) \<longrightarrow> x = rv_encode v m"
    and "\<forall>l\<in>set ls. \<forall>b x. se_preimage l = Some b \<and> rv_sha v x = rv_sha v b \<longrightarrow> x = b"
    and "load_recovery_snapshot v \<lparr>rs_snapshot_id = i, rs_manifest_sha256 = rv_sha v (rv_encode v m)\<rparr> d = Ok es"
  shows "es = by_path ls"
proof -
  obtain ls' where ls': "sort_key me_path (map (entry_manifest (rv_sha v)) ls) = map (entry_manifest (rv_sha v)) ls'"
      "mset ls' = mset ls" "distinct (map se_path ls')"
    using sort_manifest [OF assms(1)] by blast
  have same: "set ls' = set ls"
    using ls'(2) by (metis set_mset_mset)
  obtain dir bytes m' es' where l: "rv_sha v bytes = rv_sha v (rv_encode v m)" "rv_decode v bytes = Ok m'"
      "load_entries (rv_sha v) [rd_root d, i] dir (rm_entries m') [] = Ok es'" "es = sort_key (path_key \<circ> se_path) es'"
    using assms(7) by (auto simp: load_recovery_snapshot_def Let_def res_simps missing_file_def split: option.splits)
  have "bytes = rv_encode v m"
    using assms(5) l(1) by blast
  then have "m' = m"
    using assms(3) l(2) by simp
  then have "rm_entries m' = map (entry_manifest (rv_sha v)) ls'"
    unfolding assms(4) by (simp add: new_manifest_def ls'(1))
  then have "es' = ls'"
    using load_entries_only l(3) assms(2,6) same by metis
  then show ?thesis
    using l(4) sort_paths [OF ls'(2) assms(1)] by (simp add: by_path_def)
qed

section \<open>Properties\<close>

text \<open>What the codec of the manifest and the hash are relied on for, at the snapshot that is written.\<close>

definition written_manifest :: "recovery_env \<Rightarrow> string \<Rightarrow> snapshot_entry list \<Rightarrow> recovery_manifest res" where
  "written_manifest v i es = try_then (write_entries (rv_sha v) es [] []) (\<lambda>(ms, _). Ok (new_manifest i ms))"

definition codec_ok :: "recovery_env \<Rightarrow> string \<Rightarrow> snapshot_entry list \<Rightarrow> bool" where
  "codec_ok v i es \<longleftrightarrow> (\<forall>m. written_manifest v i es = Ok m \<longrightarrow> rv_decode v (rv_encode v m) = Ok m)"

definition hex_hash :: "recovery_env \<Rightarrow> bool" where
  "hex_hash v \<longleftrightarrow> (\<forall>x. validate_sha256 (rv_sha v x) = Ok ())"

text \<open>No other bytes have the hash of the manifest or of a saved file.\<close>

definition no_second_preimage :: "recovery_env \<Rightarrow> string \<Rightarrow> snapshot_entry list \<Rightarrow> bool" where
  "no_second_preimage v i es \<longleftrightarrow>
     (\<forall>m x. written_manifest v i es = Ok m \<and> rv_sha v x = rv_sha v (rv_encode v m) \<longrightarrow> x = rv_encode v m) \<and>
     (\<forall>b x. Some b \<in> set (map se_preimage es) \<and> rv_sha v x = rv_sha v b \<longrightarrow> x = b)"

lemma normalized_preimages: "list_all2 normalized_entry es ls \<Longrightarrow> map se_preimage ls = map se_preimage es"
  by (induction rule: list_all2_induct) (auto simp: normalized_entry_def)

lemma recovery_io_cases:
  obtains "x = None" | e where "x = Some (BeforeRename e)" | e where "x = Some (AfterRename e)"
  by (metis recovery_fault.exhaust option.exhaust)

lemma write_snapshot_parts:
  assumes "write_recovery_snapshot v i es d = (Ok r, d')"
  obtains ls m blobs where "list_all2 normalized_entry es ls" "distinct (map se_path ls)" "\<forall>l\<in>set ls. loadable l"
    "m = new_manifest i (map (entry_manifest (rv_sha v)) ls)" "written_manifest v i es = Ok m"
    "r = \<lparr>rs_snapshot_id = i, rs_manifest_sha256 = rv_sha v (rv_encode v m)\<rparr>" "validate_snapshot_id i = Ok ()"
    "map_of (rd_snapshots d) i = None"
    "d' = d\<lparr>rd_ready := True, rd_snapshots := (i, \<lparr>sd_manifest = Some (rv_encode v m), sd_blobs = blobs\<rparr>) # rd_snapshots d\<rparr>"
    "\<forall>l\<in>set ls. \<forall>b. se_preimage l = Some b \<longrightarrow> map_of blobs (rv_sha v b) = Some b"
proof -
  from assms obtain ms blobs where w: "validate_snapshot_id i = Ok ()" "map_of (rd_snapshots d) i = None"
      "write_entries (rv_sha v) es [] [] = Ok (ms, blobs)"
      "r = \<lparr>rs_snapshot_id = i, rs_manifest_sha256 = rv_sha v (rv_encode v (new_manifest i ms))\<rparr>"
      "d' = d\<lparr>rd_ready := True, rd_snapshots := (i, \<lparr>sd_manifest = Some (rv_encode v (new_manifest i ms)), sd_blobs = blobs\<rparr>) # rd_snapshots d\<rparr>"
    by (cases "rv_io v" rule: recovery_io_cases)
      (auto simp: write_recovery_snapshot_def Let_def op_check_Inr ensure_def split: option.splits if_splits)
  from write_entries_Ok [OF w(3)] obtain ls where ls: "list_all2 normalized_entry es ls" "ms = map (entry_manifest (rv_sha v)) ls"
      "distinct (map se_path ls)" "\<forall>l\<in>set ls. \<forall>b. se_preimage l = Some b \<longrightarrow> map_of blobs (rv_sha v b) = Some b"
    by auto
  show thesis
  proof (rule that [OF ls(1,3)])
    show "\<forall>l\<in>set ls. loadable l"
      using ls(1) normalized_loadable by blast
    show "written_manifest v i es = Ok (new_manifest i ms)"
      using w(3) by (simp add: written_manifest_def)
  qed (use w ls in simp_all)
qed

section \<open>A concrete snapshot\<close>

text \<open>One file that is overwritten and one that is created with its directory.\<close>

definition recovery_sha :: "string \<Rightarrow> string" where
  "recovery_sha x = replicate 64 (if x = ''old'' then CHR ''a'' else if x = ''manifest'' then CHR ''b'' else CHR ''c'')"

definition demo_snapshot_entries :: "snapshot_entry list" where
  "demo_snapshot_entries =
     [\<lparr>se_path = ''src//a'', se_preimage = Some ''old'', se_mode = Some 420, se_postimage_sha = None, se_created = []\<rparr>,
      \<lparr>se_path = ''new/b'', se_preimage = None, se_mode = None, se_postimage_sha = Some (recovery_sha ''new''), se_created = [''new/'']\<rparr>]"

definition demo_manifest :: recovery_manifest where
  "demo_manifest = new_manifest ''change-1''
     [\<lparr>me_path = ''src/a'', me_preimage_sha = Some (recovery_sha ''old''), me_mode = Some 420, me_postimage_sha = None, me_created = []\<rparr>,
      \<lparr>me_path = ''new/b'', me_preimage_sha = None, me_mode = None, me_postimage_sha = Some (recovery_sha ''new''), me_created = [''new'']\<rparr>]"

definition demo_recovery :: recovery_env where
  "demo_recovery = \<lparr>rv_sha = recovery_sha, rv_encode = (\<lambda>m. if m = demo_manifest then ''manifest'' else ''other''),
     rv_decode = (\<lambda>b. if b = ''manifest'' then Ok demo_manifest else Err ''syntax''), rv_io = None\<rparr>"

definition demo_snapshot_dir :: snapshot_dir where
  "demo_snapshot_dir = \<lparr>sd_manifest = Some ''manifest'', sd_blobs = [(recovery_sha ''old'', ''old'')]\<rparr>"

definition demo_recovery_disk :: recovery_disk where
  "demo_recovery_disk = \<lparr>rd_root = ''recovery'', rd_ready = False, rd_snapshots = []\<rparr>"

definition demo_snapshot :: recovery_reference where
  "demo_snapshot = \<lparr>rs_snapshot_id = ''change-1'', rs_manifest_sha256 = recovery_sha ''manifest''\<rparr>"

definition demo_written_disk :: recovery_disk where
  "demo_written_disk = demo_recovery_disk\<lparr>rd_ready := True, rd_snapshots := [(''change-1'', demo_snapshot_dir)]\<rparr>"

text \<open>Another blob was put beside the saved one; and, second, the saved one was changed.\<close>

definition demo_touched_disk :: "string \<Rightarrow> recovery_disk" where
  "demo_touched_disk saved = demo_written_disk\<lparr>rd_snapshots :=
     [(''change-1'', demo_snapshot_dir\<lparr>sd_blobs := [(recovery_sha ''x'', ''x''), (recovery_sha ''old'', saved)]\<rparr>)]\<rparr>"

definition demo_loaded :: "snapshot_entry list" where
  "demo_loaded =
     [\<lparr>se_path = ''new/b'', se_preimage = None, se_mode = None, se_postimage_sha = Some (recovery_sha ''new''), se_created = [''new'']\<rparr>,
      \<lparr>se_path = ''src/a'', se_preimage = Some ''old'', se_mode = Some 420, se_postimage_sha = None, se_created = []\<rparr>]"

lemma demo_snapshot_write: "write_recovery_snapshot demo_recovery ''change-1'' demo_snapshot_entries demo_recovery_disk = (Ok demo_snapshot, demo_written_disk)"
  by code_simp

lemma demo_snapshot_load: "load_recovery_snapshot demo_recovery demo_snapshot (demo_touched_disk ''old'') = Ok demo_loaded"
  by code_simp

lemma recovery_written: "written_manifest demo_recovery ''change-1'' demo_snapshot_entries = Ok demo_manifest"
  by code_simp

lemma recovery_codec: "codec_ok demo_recovery ''change-1'' demo_snapshot_entries"
  by (simp add: codec_ok_def recovery_written) (simp add: demo_recovery_def)

lemma recovery_hex: "hex_hash demo_recovery"
  by (simp add: hex_hash_def demo_recovery_def recovery_sha_def validate_sha256_def lower_hex_def ensure_def is_ascii_digit_def list_all_iff)

lemma recovery_pinned: "no_second_preimage demo_recovery ''change-1'' demo_snapshot_entries"
proof -
  have "x = y" if "rv_sha demo_recovery x = rv_sha demo_recovery y" "y \<in> {''old'', ''manifest''}" for x y
    using that by (auto simp: demo_recovery_def recovery_sha_def split: if_splits)
  moreover have "rv_encode demo_recovery demo_manifest = ''manifest''"
    by (simp add: demo_recovery_def)
  ultimately show ?thesis
    by (auto simp: no_second_preimage_def recovery_written) (auto simp: demo_snapshot_entries_def)
qed

text \<open>C9: A recovery snapshot that was written loads back, from every later state of the directory in which
  it still stands, to exactly the entries that were handed in, with their paths normalised, in the order of
  their paths; and writing it replaced no snapshot that was there.\<close>

theorem snapshot_round_trip:
  assumes "hex_hash v" "codec_ok v i es" "write_recovery_snapshot v i es d = (Ok r, d')"
    and "rd_ready e" "map_of (rd_snapshots e) i = map_of (rd_snapshots d') i"
  shows "(\<exists>ls. list_all2 normalized_entry es ls \<and> load_recovery_snapshot v r e = Ok (by_path ls))
    \<and> map_of (rd_snapshots d) i = None \<and> (\<forall>j. j \<noteq> i \<longrightarrow> map_of (rd_snapshots d') j = map_of (rd_snapshots d) j)"
proof -
  from write_snapshot_parts [OF assms(3)] obtain ls m blobs where p: "list_all2 normalized_entry es ls"
      "distinct (map se_path ls)" "\<forall>l\<in>set ls. loadable l"
      "m = new_manifest i (map (entry_manifest (rv_sha v)) ls)" "written_manifest v i es = Ok m"
      "r = \<lparr>rs_snapshot_id = i, rs_manifest_sha256 = rv_sha v (rv_encode v m)\<rparr>" "validate_snapshot_id i = Ok ()"
      "map_of (rd_snapshots d) i = None"
      "d' = d\<lparr>rd_ready := True, rd_snapshots := (i, \<lparr>sd_manifest = Some (rv_encode v m), sd_blobs = blobs\<rparr>) # rd_snapshots d\<rparr>"
      "\<forall>l\<in>set ls. \<forall>b. se_preimage l = Some b \<longrightarrow> map_of blobs (rv_sha v b) = Some b" .
  have "load_recovery_snapshot v r e = Ok (by_path ls)"
    unfolding p(6)
  proof (rule load_snapshot_from [OF p(2,3) _ p(4,7) assms(4) _ _ p(10)])
    show "rv_decode v (rv_encode v m) = Ok m"
      using assms(2) p(5) by (simp add: codec_ok_def)
    show "map_of (rd_snapshots e) i = Some \<lparr>sd_manifest = Some (rv_encode v m), sd_blobs = blobs\<rparr>"
      using assms(5) p(9) by simp
    show "\<forall>x. validate_sha256 (rv_sha v x) = Ok ()"
      using assms(1) by (simp add: hex_hash_def)
  qed
  then show ?thesis
    using p(1,8,9) by auto
qed

text \<open>Loaded from the written state itself.\<close>

theorem snapshot_round_trip_witness:
  "map_of (rd_snapshots demo_recovery_disk) ''change-1'' = None
   \<and> list_ex (\<lambda>ls. load_recovery_snapshot demo_recovery demo_snapshot demo_written_disk = Ok ls) [demo_loaded]"
proof -
  have "map_of (rd_snapshots demo_recovery_disk) ''change-1'' = None"
    using snapshot_round_trip [OF recovery_hex recovery_codec demo_snapshot_write, of demo_written_disk]
    by (simp add: demo_written_disk_def)
  moreover have "load_recovery_snapshot demo_recovery demo_snapshot demo_written_disk = Ok demo_loaded"
    by code_simp
  ultimately show ?thesis
    by simp
qed

lemma loads_only_what_was_written:
  assumes "codec_ok v i es" "no_second_preimage v i es" "write_recovery_snapshot v i es d = (Ok r, d')"
    and "load_recovery_snapshot v r e = Ok loaded"
  shows "\<exists>ls. list_all2 normalized_entry es ls \<and> loaded = by_path ls"
proof -
  from write_snapshot_parts [OF assms(3)] obtain ls m where p: "list_all2 normalized_entry es ls"
      "distinct (map se_path ls)" "\<forall>l\<in>set ls. loadable l"
      "m = new_manifest i (map (entry_manifest (rv_sha v)) ls)" "written_manifest v i es = Ok m"
      "r = \<lparr>rs_snapshot_id = i, rs_manifest_sha256 = rv_sha v (rv_encode v m)\<rparr>" .
  have "loaded = by_path ls"
  proof (rule load_snapshot_only [OF p(2,3) _ p(4)])
    show "rv_decode v (rv_encode v m) = Ok m"
      using assms(1) p(5) by (simp add: codec_ok_def)
    show "\<forall>x. rv_sha v x = rv_sha v (rv_encode v m) \<longrightarrow> x = rv_encode v m"
      using assms(2) p(5) unfolding no_second_preimage_def by blast
    show "\<forall>l\<in>set ls. \<forall>b x. se_preimage l = Some b \<and> rv_sha v x = rv_sha v b \<longrightarrow> x = b"
    proof (intro ballI allI impI)
      fix l b x
      assume "l \<in> set ls" and eq: "se_preimage l = Some b \<and> rv_sha v x = rv_sha v b"
      then have "Some b \<in> set (map se_preimage es)"
        using normalized_preimages [OF p(1)] by (metis image_eqI list.set_map)
      with assms(2) eq show "x = b"
        unfolding no_second_preimage_def by blast
    qed
    show "load_recovery_snapshot v \<lparr>rs_snapshot_id = i, rs_manifest_sha256 = rv_sha v (rv_encode v m)\<rparr> e = Ok loaded"
      using assms(4) p(6) by simp
  qed
  with p(1) show ?thesis
    by blast
qed

text \<open>C10: Whatever becomes of the recovery directory, a reference loads only to the entries it was written
  for: a manifest or a saved file that was changed, exchanged, truncated or taken from another snapshot
  makes the load fail, as long as no one finds other bytes with the hash of the manifest or of a saved file.\<close>

theorem snapshot_tampering_shows:
  assumes "codec_ok v i es" "no_second_preimage v i es" "write_recovery_snapshot v i es d = (Ok r, d')"
    and "load_recovery_snapshot v r e = Ok loaded"
  shows "\<exists>ls. list_all2 normalized_entry es ls \<and> loaded = by_path ls"
  using loads_only_what_was_written [OF assms] .

text \<open>The touched directory loads to what was written, and with the saved file changed it does not load.\<close>

theorem snapshot_tampering_shows_witness:
  "(\<exists>ls. list_all2 normalized_entry demo_snapshot_entries ls \<and> demo_loaded = by_path ls)
   \<and> load_recovery_snapshot demo_recovery demo_snapshot (demo_touched_disk ''forged'') = Err ''recovery blob hash mismatch''"
  using snapshot_tampering_shows [OF recovery_codec recovery_pinned demo_snapshot_write demo_snapshot_load] by (rule conjI) code_simp

end
