(* ===== verification/Applied_Steps.thy ===== *)
theory Applied_Steps
  imports Applied_Changes Tree_Restores Recovery_Integrity Trust_Operations
begin

text \<open>
  The steps of a merge and of a revert, taken apart: what a merge that succeeds went through, which
  trees and stagings it can leave when it does not, and what a loaded snapshot remembers.
\<close>

section \<open>Sessions\<close>

lemma upsert_position: "position (\<lambda>g. key g = k) xs = Some i \<Longrightarrow> key x = k \<Longrightarrow> upsert_by key x xs = xs[i := x]"
  by (induction xs arbitrary: i) (auto split: if_splits)

lemma position_update:
  "position (\<lambda>g. key g = k) xs = Some i \<Longrightarrow> key x = k \<Longrightarrow> position (\<lambda>g. key g = k) (xs[i := x]) = Some i"
  by (induction xs arbitrary: i) (auto split: if_splits)

lemma require_gate_position: "require_gate s gate = Ok i \<Longrightarrow> position (\<lambda>g. mg_gate_id g = gate) (ss_gates s) = Some i"
  by (simp add: require_gate_def res_simps)

text \<open>The precommit changes the gate's audit trail and its time, and nothing else.\<close>

lemma precommit_Ok:
  assumes "persist_merge_gate_precommit v i label s = (Ok (), t)" "require_gate s gate = Ok i"
  shows "t = update_gate i (\<lambda>g. g\<lparr>mg_audit_ids := mg_audit_ids g @ [te_fresh (precommit_env v) label 0],
    mg_updated_at := Some (te_clock (precommit_env v) 1)\<rparr>) s"
proof -
  let ?f = "\<lambda>g. g\<lparr>mg_audit_ids := mg_audit_ids g @ [te_fresh (precommit_env v) label 0],
    mg_updated_at := Some (te_clock (precommit_env v) 1)\<rparr>"
  let ?u = "update_gate i ?f s"
  have pos: "position (\<lambda>g. mg_gate_id g = gate) (ss_gates s) = Some i"
    using require_gate_position [OF assms(2)] .
  note i = require_gate_Ok [OF assms(2)]
  have "t = ?u\<lparr>ss_gates := upsert_by mg_gate_id (ss_gates ?u ! i) (ss_gates ?u)\<rparr>"
    using assms(1) by (simp add: persist_merge_gate_precommit_def persist_domain_events_def op_check_Inr Let_def)
  moreover have "upsert_by mg_gate_id (ss_gates ?u ! i) (ss_gates ?u) = (ss_gates ?u)[i := ss_gates ?u ! i]"
  proof (rule upsert_position)
    show "position (\<lambda>g. mg_gate_id g = gate) (ss_gates ?u) = Some i"
      using position_update [OF pos, of "?f (ss_gates s ! i)"] i by (simp add: update_gate_def)
    show "mg_gate_id (ss_gates ?u ! i) = gate"
      using i by simp
  qed
  ultimately show ?thesis
    by simp
qed

lemma asked_gates: "asked_from s t \<Longrightarrow> ss_gates t = ss_gates s \<and> ss_audit t = ss_audit s
    \<and> ss_evidence t = ss_evidence s \<and> ss_reviews t = ss_reviews s \<and> ss_conflicts t = ss_conflicts s
    \<and> ss_disk t = ss_disk s \<and> ss_bundles t = ss_bundles s"
  by (auto simp: asked_from_def)

lemma require_gate_asked: "asked_from s t \<Longrightarrow> require_gate t gate = require_gate s gate"
  using asked_gates [of s t] by (simp add: require_gate_def)

text \<open>The permission engine allowed the action on a request that carried \<open>shown\<close>: an operator who is asked sees
  it; an allow rule or the bypass mode allows it without asking anyone.\<close>

definition granted_showing :: "'ctx trust_env \<Rightarrow> string \<Rightarrow> string \<Rightarrow> 'ctx option \<Rightarrow> session \<Rightarrow> bool" where
  "granted_showing env action preview shown s \<longleftrightarrow>
     (case fst (trust_answer env action preview shown s) of Allow _ \<Rightarrow> True | _ \<Rightarrow> False)"

lemma require_permission_granted:
  assumes "require_trust_permission env action preview shown s = (Ok u, t)"
  shows "granted_showing env action preview shown s \<and> asked_from s t"
proof -
  obtain d e n where ans: "trust_answer env action preview shown s = (d, e, n)"
    by (cases "trust_answer env action preview shown s")
  with assms have "\<exists>a. d = Allow a"
    by (cases d) (auto simp: require_trust_permission_def Let_def op_bind_Inr)
  then show ?thesis
    using require_permission_frame [of s env action preview shown] assms ans by (auto simp: granted_showing_def)
qed

lemma bounce_Ok:
  assumes "record_conflict_bounce env i lane ow reason content s = (Ok es, t)" "i < length (ss_gates s)"
  obtains b where "validate_conflict_bounce env i lane ow s = Ok b"
    "mg_status (ss_gates t ! i) = GateNeedsChanges"
    "new_bounce env (ss_gates s ! i) lane ow reason content b \<in> set (ss_conflicts t)"
  using assms(1)
proof (rule record_bounce_Inr)
  fix b r c
  assume b: "validate_conflict_bounce env i lane ow s = Inr b"
    and c: "c = new_bounce env (ss_gates s ! i) lane ow reason content b"
    and run: "touch_task (te_clock env 3) (bo_task_id c) (bounced_task c)
       [MergeConflictBounced c, MergeGateUpdated (ss_gates (update_gate i (bounced_gate env c)
          (s\<lparr>ss_audit := ss_audit s @ [r], ss_conflicts := ss_conflicts s @ [c]\<rparr>)) ! i)]
       (update_gate i (bounced_gate env c)
          (s\<lparr>ss_audit := ss_audit s @ [r], ss_conflicts := ss_conflicts s @ [c]\<rparr>)) = (Inr es, t)"
  obtain ts where "t = (update_gate i (bounced_gate env c)
          (s\<lparr>ss_audit := ss_audit s @ [r], ss_conflicts := ss_conflicts s @ [c]\<rparr>))\<lparr>ss_tasks := ts\<rparr>"
    using touch_task_Inr [OF run] by blast
  then show thesis
    using assms(2) by (intro that [OF b]) (simp_all add: bounced_gate_def c)
qed

text \<open>A conflict is not a merge, and leaves everything but the session as it was.\<close>

lemma conflict_Ok:
  assumes "mark_agent_patch_conflict v i reason rejected w = (Ok es, t)" "i < length (ss_gates (wk_session w))"
  shows "mg_status (ss_gates (wk_session t) ! i) = GateNeedsChanges"
  using assms by (auto simp: mark_agent_patch_conflict_def in_session_def Let_def split: prod.splits elim: bounce_Ok)

lemma conflict_frame:
  "mark_agent_patch_conflict v i reason rejected w = (r, t) \<Longrightarrow> \<exists>s. t = w\<lparr>wk_session := s\<rparr>"
  by (auto simp: mark_agent_patch_conflict_def in_session_def Let_def split: prod.splits)

lemma settle_merge_Ok:
  assumes "settle_merge env i decision change s = (r, t)" "i < length (ss_gates s)"
  shows "(\<exists>es. r = Ok es \<and> MergeGateUpdated (ss_gates t ! i) \<in> set es) \<and> ss_audit t = ss_audit s
    \<and> mg_gate_id (ss_gates t ! i) = mg_gate_id (ss_gates s ! i)
    \<and> mg_status (ss_gates t ! i) = GateMerged \<and> mg_applied_change_id (ss_gates t ! i) = Some change
    \<and> mg_recovery (ss_gates t ! i) = mg_recovery (ss_gates s ! i)
    \<and> mg_decision (ss_gates t ! i) = Some (decided_now (te_clock env 2) OutcomeMerged decision
         (mg_owner (ss_gates s ! i)) (mg_evidence_ids (ss_gates s ! i)) (te_fresh env ''audit'' 0))"
  using assms
  by (auto simp: settle_merge_def mark_conflict_resolved_def merged_gate_def touch_task_def Let_def
      split: option.splits)

section \<open>Staged workshops\<close>

text \<open>The staging covers what differs from \<open>d\<close>, and remembers \<open>d\<close>.\<close>

definition staged :: "work_tree \<Rightarrow> workshop \<Rightarrow> bool" where
  "staged d w \<longleftrightarrow> targets_ok d (fr_path ` set (wk_undo w)) \<and> midway d (fr_path ` set (wk_undo w)) (wk_tree w)
     \<and> same_root d (wk_tree w) \<and> (\<forall>f\<in>set (wk_undo w). remembers d f)
     \<and> (wk_undo w = [] \<or> transaction_root d = Ok ())"

abbreviation same_nodes :: "work_tree \<Rightarrow> work_tree \<Rightarrow> bool" where
  "same_nodes d e \<equiv> \<forall>q. node_at e q = node_at d q"

lemma staged_frame [simp]:
  "staged d (w\<lparr>wk_session := s\<rparr>) = staged d w" "staged d (w\<lparr>wk_recovery := rd\<rparr>) = staged d w"
  "staged d (w\<lparr>wk_applied := m\<rparr>) = staged d w"
  by (simp_all add: staged_def)

lemma targets_subset: "targets_ok d P \<Longrightarrow> Q \<subseteq> P \<Longrightarrow> targets_ok d Q"
  unfolding targets_ok_def antichain_def by blast

lemma staged_fresh: "tree_ok (wk_tree w) \<Longrightarrow> wk_undo w = [] \<Longrightarrow> staged (wk_tree w) w"
  by (simp add: staged_def targets_ok_def antichain_def midway_def)

lemma staged_undo:
  assumes "tree_ok d" "staged d w"
  shows "\<exists>u. restore_transaction_files (\<lambda>_. NoFault) w = (Ok (), w\<lparr>wk_tree := u\<rparr>) \<and> same_nodes d u
    \<and> staged d (w\<lparr>wk_tree := u\<rparr>)"
proof (cases "wk_undo w = []")
  case True
  with assms have "same_nodes d (wk_tree w)"
    by (auto simp: staged_def midway_def new_dir_def)
  with True assms(2) show ?thesis
    by (intro exI [of _ "wk_tree w"]) (simp add: restore_transaction_files_def in_tree_def restore_file_rollbacks_def)
next
  case False
  let ?P = "fr_path ` set (wk_undo w)"
  have "targets_ok d ?P" "midway d ?P (wk_tree w)" "transaction_root d = Ok ()" "same_root d (wk_tree w)"
      "\<forall>f\<in>set (wk_undo w). fr_path f \<in> ?P \<and> remembers d f"
    using False assms(2) by (auto simp: staged_def)
  from restore_file_rollbacks_back [OF this(1) assms(1) this(2-5)] obtain u where
      "restore_file_rollbacks (\<lambda>_. NoFault) (wk_undo w) (wk_tree w) = (Ok (), u)" "same_root d u" "midway d ?P u"
      "same_nodes d u"
    by blast
  with assms(2) show ?thesis
    by (intro exI [of _ u]) (simp add: restore_transaction_files_def in_tree_def staged_def)
qed

lemma stage_each_root: "stage_each d rs = (x, fs) \<Longrightarrow> fs \<noteq> [] \<Longrightarrow> transaction_root d = Ok ()"
  by (cases rs) (auto simp: stage_path_def ensure_inside_root_def guarded_Inr is_ok_iff guarded_ok split: sum.splits)

lemma stage_paths_staged:
  assumes "tree_ok (wk_tree w)" "targets_ok (wk_tree w) (set rs)" "stage_paths rs w = (x, t)"
  shows "staged (wk_tree w) t \<and> wk_tree t = wk_tree w \<and> t = w\<lparr>wk_undo := wk_undo t\<rparr>
    \<and> (x = Ok () \<longrightarrow> map fr_path (wk_undo t) = rs \<and> stage_rollback_paths (wk_tree w) rs = (Ok (), wk_undo t))"
proof -
  obtain fs where fs: "stage_rollback_paths (wk_tree w) rs = (x, fs)" "t = w\<lparr>wk_undo := fs\<rparr>"
    using assms(3) by (auto simp: stage_paths_def split: prod.splits)
  note held = stage_rollback_paths_Ok [OF assms(1) fs(1)]
  have "targets_ok (wk_tree w) (fr_path ` set fs)"
    using held by (intro targets_subset [OF assms(2)]) auto
  moreover from midway_refl [OF assms(1) this] have "midway (wk_tree w) (fr_path ` set fs) (wk_tree w)" .
  moreover have "fs = [] \<or> transaction_root (wk_tree w) = Ok ()"
    using fs(1) stage_each_root by (auto simp: stage_rollback_paths_def split: sum.splits)
  ultimately have "staged (wk_tree w) t"
    using held fs(2) by (simp add: staged_def)
  with held fs show ?thesis
    by simp
qed

lemma write_application_midway:
  assumes "tree_ok d" "targets_ok d (changed_paths a)"
  shows "midway d (changed_paths a) (snd (write_application env a d))"
proof -
  have "midway d (changed_paths a) (snd (write_changes (px_write_faults env) (pa_changes a) d))"
    using midway_write_changes [OF assms(2) midway_refl [OF assms]] by (simp add: changed_paths_def)
  moreover have "midway d (changed_paths a) (snd (restore_rollback faults fs t))"
    if "stage_rollback d (map change_path (pa_changes a)) = Inr fs" "midway d (changed_paths a) t" for faults fs t
    using midway_restore_rollback [OF assms(1) _ that(1)] assms(2) that(2) by (simp add: changed_paths_def)
  moreover have "midway d (changed_paths a) d"
    using midway_refl [OF assms] .
  ultimately show ?thesis
    by (auto simp: write_application_def split: sum.splits prod.splits) (metis snd_conv)+
qed

lemma write_staged:
  assumes "tree_ok d" "staged d w" "wk_tree w = d" "fr_path ` set (wk_undo w) = changed_paths a"
    and "write_application env a d = (x, e)"
  shows "staged d (w\<lparr>wk_tree := e\<rparr>)"
  using assms write_application_midway [of d a env] same_root_write [OF assms(5)] by (simp add: staged_def)

text \<open>Undoing and returning the patch leaves the nodes as they were, whether it succeeds or not.\<close>

lemma undo_and_bounce_staged:
  assumes "tree_ok d" "staged d w" "wv_restore_faults v = (\<lambda>_. NoFault)" "undo_and_bounce v i reason w = (r, t)"
  shows "staged d t \<and> same_nodes d (wk_tree t)"
proof -
  obtain u where u: "restore_transaction_files (\<lambda>_. NoFault) w = (Ok (), w\<lparr>wk_tree := u\<rparr>)" "same_nodes d u"
      "staged d (w\<lparr>wk_tree := u\<rparr>)"
    using staged_undo [OF assms(1,2)] by blast
  then have "mark_agent_patch_conflict v i reason None (w\<lparr>wk_tree := u\<rparr>) = (r, t)"
    using assms(3,4) by (simp add: undo_and_bounce_def op_bind_def)
  with conflict_frame u(2,3) show ?thesis
    by fastforce
qed

definition merge_published :: "trust_event list \<Rightarrow> string \<Rightarrow> bool" where
  "merge_published es gate \<longleftrightarrow> (\<exists>g. MergeGateUpdated g \<in> set es \<and> mg_status g = GateMerged \<and> mg_gate_id g = gate)"

lemma write_merge_staged:
  assumes "tree_ok d" "staged d w" "wk_tree w = d" "fr_path ` set (wk_undo w) = changed_paths a"
    and "wv_restore_faults v = (\<lambda>_. NoFault)" "write_merge v i decision change a w = (r, t)"
    and "i < length (ss_gates (wk_session w))" "mg_gate_id (ss_gates (wk_session w) ! i) = gate"
  shows "staged d t \<and> (same_nodes d (wk_tree t) \<or> (\<exists>es. r = Ok es \<and> merge_published es gate))"
proof -
  obtain x e where run: "write_application (wv_patch v) a d = (x, e)" by fastforce
  note staged = write_staged [OF assms(1-4) run]
  show ?thesis
  proof (cases x)
    case (Inl err)
    with assms(3,6) run have "undo_and_bounce v i (''patch conflict: '' @ lane_error_text err) (w\<lparr>wk_tree := e\<rparr>) = (r, t)"
      by (simp add: write_merge_def)
    from undo_and_bounce_staged [OF assms(1) staged assms(5) this] show ?thesis by blast
  next
    case (Inr out)
    show ?thesis
    proof (cases "verify_patch_postimages (te_sha (wv_trust v)) e (pa_changes a)")
      case (Inl err)
      with Inr assms(3,6) run have
          "undo_and_bounce v i (''patch postimage verification failed: '' @ err) (w\<lparr>wk_tree := e\<rparr>) = (r, t)"
        by (simp add: write_merge_def)
      from undo_and_bounce_staged [OF assms(1) staged assms(5) this] show ?thesis by blast
    next
      case (Inr u)
      with \<open>x = Inr out\<close> assms(3,6) run have "finish_merge v i decision change (w\<lparr>wk_tree := e\<rparr>) = (r, t)"
        by (simp add: write_merge_def)
      then obtain s where s: "settle_merge (wv_trust v) i decision change (wk_session w) = (r, s)"
          "t = (w\<lparr>wk_tree := e\<rparr>)\<lparr>wk_applied := AList.update change (wk_undo w) (wk_applied w), wk_session := s\<rparr>"
        by (auto simp: finish_merge_def in_session_def split: prod.splits)
      have "\<exists>es. r = Ok es \<and> merge_published es gate"
        using settle_merge_Ok [OF s(1) assms(7)] assms(8) by (auto simp: merge_published_def)
      moreover have "staged d t"
        using staged by (simp add: s(2))
      ultimately show ?thesis by blast
    qed
  qed
qed

section \<open>A merge\<close>

definition snapshot_gate :: "string \<Rightarrow> recovery_reference \<Rightarrow> merge_gate \<Rightarrow> merge_gate" where
  "snapshot_gate change reference g = g\<lparr>mg_applied_change_id := Some change, mg_recovery := Some reference\<rparr>"

abbreviation change_of :: "'ctx workshop_env \<Rightarrow> string" where
  "change_of v \<equiv> te_fresh (wv_trust v) ''change'' 0"

text \<open>A merge that is prepared stops before it writes, or it comes to write.\<close>

lemma apply_merge_split:
  assumes "apply_merge v i decision a w = (r, t)"
  obtains (stopped) x w1 e s rd where "stage_paths (map change_path (pa_changes a)) w = (x, w1)" "r = Err e"
      "t = w1\<lparr>wk_recovery := rd, wk_session := s\<rparr>"
  | (written) w1 entries reference rd s1 where "stage_paths (map change_path (pa_changes a)) w = (Ok (), w1)"
      "recovery_entries_for_patch (te_sha (wv_trust v)) (wk_tree w1) (wk_undo w1) (pa_changes a) = Ok entries"
      "write_recovery_snapshot (wv_recovery v) (change_of v) entries (wk_recovery w1) = (Ok reference, rd)"
      "persist_merge_gate_precommit v i ''audit-merge-precommit''
         (update_gate i (snapshot_gate (change_of v) reference) (wk_session w1)) = (Ok (), s1)"
      "write_merge v i decision (change_of v) a (w1\<lparr>wk_recovery := rd, wk_session := s1\<rparr>) = (r, t)"
proof -
  obtain x w1 where stage: "stage_paths (map change_path (pa_changes a)) w = (x, w1)" by fastforce
  have self: "w1 = w1\<lparr>wk_recovery := wk_recovery w1, wk_session := wk_session w1\<rparr>" by simp
  show thesis
  proof (cases x)
    case (Inl e)
    with assms stage have "r = Err e" "t = w1" by (simp_all add: apply_merge_def op_bind_def Let_def)
    with stopped [OF stage] self show thesis by blast
  next
    case x: (Inr u)
    show thesis
    proof (cases "recovery_entries_for_patch (te_sha (wv_trust v)) (wk_tree w1) (wk_undo w1) (pa_changes a)")
      case (Inl e)
      with x assms stage have "r = Err e" "t = w1" by (simp_all add: apply_merge_def op_bind_def op_check_def Let_def)
      with stopped [OF stage] self show thesis by blast
    next
      case entries: (Inr entries)
      obtain y rd where snap: "write_recovery_snapshot (wv_recovery v) (change_of v) entries (wk_recovery w1) = (y, rd)"
        by fastforce
      show thesis
      proof (cases y)
        case (Inl e)
        with x entries snap assms stage have "r = Err e" "t = w1\<lparr>wk_recovery := rd\<rparr>"
          by (auto simp: apply_merge_def op_bind_def op_check_def in_recovery_def Let_def)
        moreover from this(2) have "t = w1\<lparr>wk_recovery := rd, wk_session := wk_session w1\<rparr>" by simp
        ultimately show thesis
          using stopped [OF stage] by blast
      next
        case y: (Inr reference)
        obtain z s1 where pre: "persist_merge_gate_precommit v i ''audit-merge-precommit''
            (update_gate i (snapshot_gate (change_of v) reference) (wk_session w1)) = (z, s1)"
          by fastforce
        have run: "(r, t) = (case z of Inl e \<Rightarrow> (Inl e, w1\<lparr>wk_recovery := rd, wk_session := s1\<rparr>)
            | Inr _ \<Rightarrow> write_merge v i decision (change_of v) a (w1\<lparr>wk_recovery := rd, wk_session := s1\<rparr>))"
          using x y entries snap assms stage pre
          by (simp add: apply_merge_def op_bind_def op_check_def in_recovery_def in_session_def Let_def
              snapshot_gate_def [abs_def] split: sum.splits)
        show thesis
        proof (cases z)
          case (Inl e)
          with run stopped [OF stage] show thesis by simp
        next
          case (Inr u)
          with run written [OF _ entries _ _] x y snap stage pre show thesis by simp
        qed
      qed
    qed
  qed
qed

lemma position_keys: "position (\<lambda>g. key g = k) xs = position (\<lambda>x. x = k) (map key xs)"
  by (induction xs) auto

lemma require_gate_update:
  assumes "\<And>g. mg_gate_id (f g) = mg_gate_id g"
  shows "require_gate (update_gate j f s) gate = require_gate s gate"
proof -
  have "map mg_gate_id ((ss_gates s)[j := f (ss_gates s ! j)]) = map mg_gate_id (ss_gates s)"
    using assms list_update_id [of "map mg_gate_id (ss_gates s)" j]
    by (cases "j < length (ss_gates s)") (simp_all add: map_update list_update_beyond)
  then show ?thesis
    by (simp add: require_gate_def position_keys [of mg_gate_id] update_gate_def)
qed

lemma precommit_gate:
  assumes "persist_merge_gate_precommit v i label (update_gate i f s) = (Ok (), t)" "require_gate s gate = Ok i"
    and "\<And>g. mg_gate_id (f g) = mg_gate_id g"
  shows "require_gate t gate = Ok i \<and> ss_audit t = ss_audit s \<and> length (ss_gates t) = length (ss_gates s)
    \<and> ss_gates t ! i = (f (ss_gates s ! i))\<lparr>
        mg_audit_ids := mg_audit_ids (f (ss_gates s ! i)) @ [te_fresh (precommit_env v) label 0],
        mg_updated_at := Some (te_clock (precommit_env v) 1)\<rparr>"
proof -
  have gate: "require_gate (update_gate i f s) gate = Ok i"
    using require_gate_update [of f, OF assms(3)] assms(2) by simp
  have "i < length (ss_gates s)"
    using require_gate_Ok [OF assms(2)] by simp
  with precommit_Ok [OF assms(1) gate] gate show ?thesis
    by (simp add: require_gate_update)
qed

lemma apply_merge_staged:
  assumes "tree_ok d" "wk_tree w = d" "targets_ok d (changed_paths a)" "wv_restore_faults v = (\<lambda>_. NoFault)"
    and "apply_merge v i decision a w = (r, t)" "require_gate (wk_session w) gate = Ok i"
  shows "staged d t \<and> (same_nodes d (wk_tree t) \<or> (\<exists>es. r = Ok es \<and> merge_published es gate))"
  using assms(5)
proof (cases rule: apply_merge_split)
  case (stopped x w1 e s rd)
  have "staged d w1 \<and> wk_tree w1 = d"
    using stage_paths_staged [OF _ _ stopped(1)] assms(1-3) by (simp add: changed_paths_def)
  with stopped(3) show ?thesis by simp
next
  case (written w1 entries reference rd s1)
  have w1: "staged d w1" "wk_tree w1 = d" "wk_session w1 = wk_session w" "map fr_path (wk_undo w1) = map change_path (pa_changes a)"
    using stage_paths_staged [OF _ _ written(1)] assms(1-3)
    by (simp_all add: changed_paths_def) (metis workshop.select_convs(1) workshop.surjective workshop.update_convs(3))
  have gate: "require_gate s1 gate = Ok i"
    using precommit_gate [OF written(4)] w1(3) assms(6) by (simp add: snapshot_gate_def)
  show ?thesis
  proof (rule write_merge_staged [OF assms(1) _ _ _ assms(4) written(5)])
    show "fr_path ` set (wk_undo (w1\<lparr>wk_recovery := rd, wk_session := s1\<rparr>)) = changed_paths a"
      using w1(4) by (simp add: changed_paths_def) (metis list.set_map)
  qed (use w1 require_gate_Ok [OF gate] in simp_all)
qed

text \<open>No path of the gate's patch lies below another one.\<close>

definition flat_patch :: "'ctx trust_env \<Rightarrow> string \<Rightarrow> runtime_owner \<Rightarrow> workshop \<Rightarrow> bool" where
  "flat_patch env gate actor w \<longleftrightarrow> (\<forall>diff a. preflight_merge_agent_patch env gate actor (wk_session w) = Ok diff
     \<and> prepare_patch (wk_tree w) diff = Inr a \<longrightarrow> antichain (changed_paths a))"

lemma merge_preflight_Ok:
  "merge_preflight env gate actor decision s = Ok (i, diff) \<Longrightarrow>
   require_gate s gate = Ok i \<and> preflight_merge_agent_patch env gate actor s = Ok diff"
  by (auto simp: merge_preflight_def guarded_Inr try_then_Inr)

lemma merge_split:
  assumes "merge_agent_patch v gate actor label w = (r, t)"
  obtains (stopped) e s where "r = Err e" "t = w\<lparr>wk_session := s\<rparr>"
  | (asked) i diff s where "require_gate (wk_session w) gate = Ok i"
      "preflight_merge_agent_patch (wv_trust v) gate actor (wk_session w) = Ok diff"
      "granted_showing (wv_trust v) ''merge_agent_patch'' (''gate='' @ gate) (Some (wv_context v diff)) (wk_session w)"
      "asked_from (wk_session w) s" "require_gate s gate = Ok i"
      "(case prepare_patch (wk_tree w) diff of
          Inl e \<Rightarrow> mark_agent_patch_conflict v i (''patch conflict: '' @ lane_error_text e) (Some diff) (w\<lparr>wk_session := s\<rparr>)
        | Inr a \<Rightarrow> apply_merge v i (sanitize_runtime_domain_text label 240) a (w\<lparr>wk_session := s\<rparr>)) = (r, t)"
proof (cases "merge_preflight (wv_trust v) gate actor (sanitize_runtime_domain_text label 240) (wk_session w)")
  case (Inl e)
  with assms have "r = Err e" "t = w\<lparr>wk_session := wk_session w\<rparr>"
    by (simp_all add: merge_agent_patch_def op_check_def Let_def)
  then show thesis by (rule stopped)
next
  case (Inr x)
  obtain i diff where x: "x = (i, diff)" by fastforce
  note pre = merge_preflight_Ok [OF Inr [unfolded x]]
  obtain y s where ask: "require_trust_permission (wv_trust v) ''merge_agent_patch'' (''gate='' @ gate)
      (Some (wv_context v diff)) (wk_session w) = (y, s)" by fastforce
  show thesis
  proof (cases y)
    case (Inl e)
    with assms Inr x ask have "r = Err e" "t = w\<lparr>wk_session := s\<rparr>"
      by (simp_all add: merge_agent_patch_def op_check_def op_bind_def in_session_def Let_def)
    then show thesis by (rule stopped)
  next
    case (Inr u)
    note granted = require_permission_granted [OF ask [unfolded Inr]]
    show thesis
    proof (rule asked)
      show "(case prepare_patch (wk_tree w) diff of
          Inl e \<Rightarrow> mark_agent_patch_conflict v i (''patch conflict: '' @ lane_error_text e) (Some diff) (w\<lparr>wk_session := s\<rparr>)
        | Inr a \<Rightarrow> apply_merge v i (sanitize_runtime_domain_text label 240) a (w\<lparr>wk_session := s\<rparr>)) = (r, t)"
        using assms \<open>merge_preflight _ _ _ _ _ = Inr x\<close> x ask Inr
        by (simp add: merge_agent_patch_def op_check_def op_bind_def in_session_def Let_def)
    qed (use pre granted require_gate_asked in auto)
  qed
qed

lemma merge_staged:
  assumes "tree_ok (wk_tree w)" "wk_undo w = []" "flat_patch (wv_trust v) gate actor w"
    and "wv_restore_faults v = (\<lambda>_. NoFault)" "merge_agent_patch v gate actor label w = (r, t)"
  shows "staged (wk_tree w) t
    \<and> (same_nodes (wk_tree w) (wk_tree t) \<or> (\<exists>es. r = Ok es \<and> merge_published es gate))"
  using assms(5)
proof (cases rule: merge_split)
  case (stopped e s)
  with staged_fresh [OF assms(1,2)] show ?thesis by simp
next
  case (asked i diff s)
  let ?w = "w\<lparr>wk_session := s\<rparr>"
  show ?thesis
  proof (cases "prepare_patch (wk_tree w) diff")
    case (Inl e)
    with asked(6) have "mark_agent_patch_conflict v i (''patch conflict: '' @ lane_error_text e) (Some diff) ?w = (r, t)"
      by simp
    from conflict_frame [OF this] obtain s' where "t = ?w\<lparr>wk_session := s'\<rparr>" ..
    with staged_fresh [OF assms(1,2)] show ?thesis by simp
  next
    case (Inr a)
    with assms(3) asked(2) have "antichain (changed_paths a)"
      unfolding flat_patch_def by blast
    from prepared_targets [OF assms(1) Inr this] show ?thesis
      using apply_merge_staged [OF assms(1) _ _ assms(4) _ , of ?w a i _ r t gate] asked(5,6) Inr by simp
  qed
qed

section \<open>What a merge writes\<close>

text \<open>A write that succeeds met no fault.\<close>

lemma write_change_calm: "write_change fault c d = (Inr (), u) \<Longrightarrow> write_change NoFault c d = (Inr (), u)"
  by (cases c) (auto simp: tree_then_def make_parent_def faulty_write_def faulty_remove_def
      split: prod.splits sum.splits io_fault.splits)

lemma write_changes_calm: "write_changes faults cs d = (Inr (), u) \<Longrightarrow> write_changes (\<lambda>_. NoFault) cs d = (Inr (), u)"
proof (induction cs arbitrary: faults d)
  case (Cons c cs)
  then obtain e where e: "write_change (faults 0) c d = (Inr (), e)" "write_changes (faults \<circ> Suc) cs e = (Inr (), u)"
    by (auto simp: tree_then_def split: prod.splits sum.splits)
  with write_change_calm Cons.IH have "write_change NoFault c d = (Inr (), e)" "write_changes (\<lambda>_. NoFault) cs e = (Inr (), u)"
    by blast+
  then show ?case
    by (simp add: tree_then_def o_def)
qed simp

lemma write_application_calm:
  "write_application env a d = (Inr out, e) \<Longrightarrow> write_changes (\<lambda>_. NoFault) (pa_changes a) d = (Inr (), e)"
  using write_changes_calm by (auto simp: write_application_def split: sum.splits prod.splits)

lemma undo_and_bounce_Ok:
  assumes "undo_and_bounce v i reason w = (Ok es, t)" "i < length (ss_gates (wk_session w))"
  shows "mg_status (ss_gates (wk_session t) ! i) = GateNeedsChanges"
proof -
  from assms(1) obtain u where u: "restore_transaction_files (wv_restore_faults v) w = (Ok (), u)"
      "mark_agent_patch_conflict v i reason None u = (Ok es, t)"
    by (auto simp: undo_and_bounce_def op_bind_Inr)
  have "wk_session u = wk_session w"
    using u(1) by (auto simp: restore_transaction_files_def in_tree_def split: prod.splits)
  with conflict_Ok [OF u(2)] assms(2) show ?thesis by simp
qed

lemma write_merge_Ok:
  assumes "write_merge v i decision change a w = (Ok es, t)" "i < length (ss_gates (wk_session w))"
    and "mg_status (ss_gates (wk_session t) ! i) = GateMerged"
  obtains e s where "write_changes (\<lambda>_. NoFault) (pa_changes a) (wk_tree w) = (Inr (), e)"
    "verify_patch_postimages (te_sha (wv_trust v)) e (pa_changes a) = Ok ()"
    "settle_merge (wv_trust v) i decision change (wk_session w) = (Ok es, s)"
    "t = w\<lparr>wk_tree := e, wk_applied := AList.update change (wk_undo w) (wk_applied w), wk_session := s\<rparr>"
proof -
  obtain x e where run: "write_application (wv_patch v) a (wk_tree w) = (x, e)" by fastforce
  have no_bounce: "undo_and_bounce v i reason (w\<lparr>wk_tree := e\<rparr>) \<noteq> (Ok es, t)" for reason
    using undo_and_bounce_Ok [of v i reason "w\<lparr>wk_tree := e\<rparr>" es t] assms(2,3) by auto
  obtain out where out: "x = Inr out"
    using assms(1) run no_bounce by (cases x) (auto simp: write_merge_def)
  have ok: "verify_patch_postimages (te_sha (wv_trust v)) e (pa_changes a) = Ok ()"
    using assms(1) run out no_bounce
    by (cases "verify_patch_postimages (te_sha (wv_trust v)) e (pa_changes a)") (auto simp: write_merge_def)
  with assms(1) run out have "finish_merge v i decision change (w\<lparr>wk_tree := e\<rparr>) = (Ok es, t)"
    by (simp add: write_merge_def)
  then obtain s where "settle_merge (wv_trust v) i decision change (wk_session w) = (Ok es, s)"
      "t = w\<lparr>wk_tree := e, wk_applied := AList.update change (wk_undo w) (wk_applied w), wk_session := s\<rparr>"
    by (auto simp: finish_merge_def in_session_def split: prod.splits)
  with that [OF write_application_calm [OF run [unfolded out]] ok] show thesis by blast
qed

text \<open>Everything a merge went through that ended as merged.\<close>

lemma merged_trace:
  assumes "merge_agent_patch v gate actor label w = (Ok es, t)" "require_gate (wk_session w) gate = Ok i"
    and "mg_status (ss_gates (wk_session t) ! i) = GateMerged"
  obtains diff a s fs entries reference rd s1 where
    "preflight_merge_agent_patch (wv_trust v) gate actor (wk_session w) = Ok diff"
    "granted_showing (wv_trust v) ''merge_agent_patch'' (''gate='' @ gate) (Some (wv_context v diff)) (wk_session w)"
    "prepare_patch (wk_tree w) diff = Inr a"
    "stage_rollback_paths (wk_tree w) (map change_path (pa_changes a)) = (Ok (), fs)"
    "recovery_entries_for_patch (te_sha (wv_trust v)) (wk_tree w) fs (pa_changes a) = Ok entries"
    "write_recovery_snapshot (wv_recovery v) (change_of v) entries (wk_recovery w) = (Ok reference, rd)"
    "write_changes (\<lambda>_. NoFault) (pa_changes a) (wk_tree w) = (Inr (), wk_tree t)"
    "asked_from (wk_session w) s"
    "persist_merge_gate_precommit v i ''audit-merge-precommit''
       (update_gate i (snapshot_gate (change_of v) reference) s) = (Ok (), s1)"
    "settle_merge (wv_trust v) i (sanitize_runtime_domain_text label 240) (change_of v) s1 = (Ok es, wk_session t)"
    "wk_recovery t = rd" "map_of (wk_applied t) (change_of v) = Some fs"
  using assms(1)
proof (cases rule: merge_split)
  case (asked j diff s)
  have j: "j = i"
    using asked(1) assms(2) by simp
  have i: "i < length (ss_gates s)"
    using require_gate_Ok [OF asked(5)] j by simp
  let ?w = "w\<lparr>wk_session := s\<rparr>"
  obtain a where a: "prepare_patch (wk_tree w) diff = Inr a"
  proof (cases "prepare_patch (wk_tree w) diff")
    case (Inl e)
    with asked(6) j have "mark_agent_patch_conflict v i (''patch conflict: '' @ lane_error_text e) (Some diff) ?w = (Ok es, t)"
      by simp
    from conflict_Ok [OF this] i assms(3) show thesis by simp
  qed (rule that)
  with asked(6) j have "apply_merge v i (sanitize_runtime_domain_text label 240) a ?w = (Ok es, t)"
    by simp
  then show thesis
  proof (cases rule: apply_merge_split)
    case (written w1 entries reference rd s1)
    obtain fs where fs: "stage_rollback_paths (wk_tree w) (map change_path (pa_changes a)) = (Ok (), fs)" "w1 = ?w\<lparr>wk_undo := fs\<rparr>"
      using written(1) by (auto simp: stage_paths_def split: prod.splits)
    have gate: "require_gate s1 gate = Ok i"
      using precommit_gate [OF written(4)] asked(5) j fs(2) by (simp add: snapshot_gate_def)
    obtain e s2 where e: "write_changes (\<lambda>_. NoFault) (pa_changes a) (wk_tree w) = (Inr (), e)"
        "settle_merge (wv_trust v) i (sanitize_runtime_domain_text label 240) (change_of v) s1 = (Ok es, s2)"
        "t = (w1\<lparr>wk_recovery := rd, wk_session := s1\<rparr>)\<lparr>wk_tree := e,
           wk_applied := AList.update (change_of v) fs (wk_applied w), wk_session := s2\<rparr>"
    proof (rule write_merge_Ok [OF written(5) _ assms(3)])
      show "i < length (ss_gates (wk_session (w1\<lparr>wk_recovery := rd, wk_session := s1\<rparr>)))"
        using require_gate_Ok [OF gate] by simp
    qed (use fs(2) in \<open>auto intro: that\<close>)
    show thesis
      by (rule that [of diff a fs entries reference rd s s1]) (use asked j a fs written e in \<open>simp_all add: update_conv'\<close>)
  qed simp
qed simp

end
