(* ===== verification/Applied_Demo.thy ===== *)
theory Applied_Demo
  imports Applied_Steps Patch_Safety Demo_Session Recovery_Integrity
begin

text \<open>
  A session in which the patch of one gate was accepted, on the tree of \<open>Patch_Safety\<close>, for the witnesses
  of the theorems on merging and reverting.
\<close>

section \<open>Environment\<close>

definition merge_sha :: "string \<Rightarrow> string" where
  "merge_sha x = replicate 64 (if x = demo_diff then CHR ''a'' else if x = ''manifest'' then CHR ''b''
     else if x = unlines [''x'', ''y''] then CHR ''d'' else CHR ''c'')"

definition merge_put :: put_request where
  "merge_put = \<lparr>pq_scope = ScopeTask ''t1'', pq_kind = ContentText, pq_content = demo_diff, pq_evidence_id = None\<rparr>"

definition merge_record :: metadata_record where
  "merge_record = put_record merge_sha 7 ''ctxi_1'' ''ctxh_1'' merge_put"

definition merge_trust :: "string trust_env" where
  "merge_trust = \<lparr>te_clock = (\<lambda>_. 100), te_fresh = (\<lambda>k n. k @ ''-1''),
     te_transcript_io = None, te_audit_io = None, te_persist_io = None,
     te_flow = (\<lambda>_ _ _. \<lparr>resp_decision = ApproveDeny, resp_feedback = None\<rparr>),
     te_sha = merge_sha, te_decoder = (\<lambda>_. Inr merge_record)\<rparr>"

definition merge_manifest :: recovery_manifest where
  "merge_manifest = new_manifest ''change-1''
     [\<lparr>me_path = ''a'', me_preimage_sha = Some (merge_sha (unlines [''x'', ''y''])), me_mode = Some 420,
        me_postimage_sha = Some (merge_sha ''''), me_created = []\<rparr>,
      \<lparr>me_path = ''d/n'', me_preimage_sha = None, me_mode = None, me_postimage_sha = Some (merge_sha ''''),
        me_created = [''d'']\<rparr>]"

definition merge_recovery :: recovery_env where
  "merge_recovery = \<lparr>rv_sha = merge_sha, rv_encode = (\<lambda>m. if m = merge_manifest then ''manifest'' else ''other''),
     rv_decode = (\<lambda>b. if b = ''manifest'' then Ok merge_manifest else Err ''syntax''), rv_io = None\<rparr>"

definition merge_env :: "string workshop_env" where
  "merge_env = \<lparr>wv_trust = merge_trust, wv_recovery = merge_recovery, wv_patch = calm,
     wv_restore_faults = (\<lambda>_. NoFault), wv_rollback_faults = (\<lambda>_. NoFault), wv_precommit_io = None,
     wv_revision = None, wv_context = id\<rparr>"

section \<open>The accepted gate\<close>

definition merge_reference :: canonical_reference where
  "merge_reference = demo_reference\<lparr>cr_source_hash := merge_sha demo_diff\<rparr>"

definition merge_evidence :: evidence_view where
  "merge_evidence = demo_evidence\<lparr>ev_kind := ''patch'', ev_canonical := Some merge_reference\<rparr>"

definition merge_decision :: gate_decision where
  "merge_decision = (decided_now 90 OutcomeAccepted ''good'' demo_owner [''e1''] ''audit-0'')
     \<lparr>gd_reviewed_evidence := [Binding ''e1'' (merge_sha demo_diff)]\<rparr>"

definition accepted_gate :: merge_gate where
  "accepted_gate = demo_gate\<lparr>mg_required_evidence := [''patch''], mg_status := GateAccepted,
     mg_decision := Some merge_decision\<rparr>"

definition merge_session :: session where
  "merge_session = demo_session\<lparr>ss_gates := [accepted_gate], ss_evidence := [merge_evidence],
     ss_disk := \<lparr>cd_metadata = ''x'' @ [newline], cd_blobs = [(merge_sha demo_diff, demo_diff)]\<rparr>\<rparr>"

definition merge_shop :: workshop where
  "merge_shop = \<lparr>wk_session = merge_session, wk_tree = demo_tree, wk_undo = [], wk_applied = [],
     wk_recovery = demo_recovery_disk\<rparr>"

section \<open>Running it\<close>

definition merge_asked :: session where
  "merge_asked = merge_session\<lparr>ss_transcript := [\<lparr>pl_timestamp = 100, pl_tool_name = ''workflow_merge_agent_patch'',
     pl_decision = ''allow'', pl_reason = ''Some(BypassMode)'', pl_message = None\<rparr>]\<rparr>"

definition merged_tree :: work_tree where
  "merged_tree = demo_tree\<lparr>wt_nodes := [([''a''], FileNode (unlines [''x'', ''z'']) 420), ([''d''], DirNode),
     ([''d'', ''n''], FileNode (unlines [''w'']) 384)]\<rparr>"

definition merge_saved :: recovery_reference where
  "merge_saved = \<lparr>rs_snapshot_id = ''change-1'', rs_manifest_sha256 = merge_sha ''manifest''\<rparr>"

definition merged_disk :: recovery_disk where
  "merged_disk = demo_recovery_disk\<lparr>rd_ready := True, rd_snapshots := [(''change-1'',
     \<lparr>sd_manifest = Some ''manifest'', sd_blobs = [(merge_sha (unlines [''x'', ''y'']), unlines [''x'', ''y''])]\<rparr>)]\<rparr>"

lemma merge_ready:
  "merge_preflight merge_trust ''gate-t1'' demo_owner ''ship'' merge_session = Ok (0, demo_diff)"
  by code_simp

lemma merge_ask: "require_trust_permission merge_trust ''merge_agent_patch'' ''gate=gate-t1'' (Some demo_diff) merge_session
  = (Ok (), merge_asked)"
  by code_simp

lemma ship_text: "sanitize_runtime_domain_text ''ship'' 240 = ''ship''"
  by code_simp

text \<open>Another process: the gate is merged and refers to the snapshot, nothing is remembered.\<close>

definition merged_shop :: workshop where
  "merged_shop = merge_shop\<lparr>wk_session := merge_session\<lparr>ss_gates := [accepted_gate\<lparr>mg_status := GateMerged,
     mg_applied_change_id := Some ''change-1'', mg_recovery := Some merge_saved\<rparr>]\<rparr>,
     wk_tree := merged_tree, wk_recovery := merged_disk\<rparr>"

abbreviation revert_run :: "trust_event list res \<times> workshop" where
  "revert_run \<equiv> revert_applied_change merge_env ''gate-t1'' demo_owner ''no'' merged_shop"

definition merge_staged_files :: "file_rollback list" where
  "merge_staged_files = [\<lparr>fr_path = [''a''], fr_contents = Some (unlines [''x'', ''y'']), fr_mode = Some 420, fr_created = []\<rparr>,
     \<lparr>fr_path = [''d'', ''n''], fr_contents = None, fr_mode = None, fr_created = [[''d'']]\<rparr>]"

lemma revert_ready: "revert_preflight merge_env ''gate-t1'' demo_owner ''no'' merged_shop
  = Ok (0, ''change-1'', merge_staged_files, ''no'')"
  by code_simp

section \<open>The merge succeeds\<close>

lemma precommit_writes:
  assumes "wv_precommit_io v = None" shows "\<exists>t. persist_merge_gate_precommit v i label s = (Ok (), t)"
  using assms by (simp add: persist_merge_gate_precommit_def persist_domain_events_def persist_batch_def op_check_def
      precommit_env_def projection_event_cap_def guarded.simps ensure_def Let_def)

definition merge_entries :: "snapshot_entry list" where
  "merge_entries = [\<lparr>se_path = ''a'', se_preimage = Some (unlines [''x'', ''y'']), se_mode = Some 420,
       se_postimage_sha = Some (merge_sha []), se_created = []\<rparr>,
     \<lparr>se_path = ''d/n'', se_preimage = None, se_mode = None, se_postimage_sha = Some (merge_sha []), se_created = [''d'']\<rparr>]"

lemma merge_stages: "stage_rollback_paths demo_tree (map change_path (pa_changes demo_changes)) = (Ok (), merge_staged_files)"
  by code_simp

lemma merge_enters: "recovery_entries_for_patch merge_sha demo_tree merge_staged_files (pa_changes demo_changes) = Ok merge_entries"
  by code_simp

lemma merge_saves: "write_recovery_snapshot merge_recovery ''change-1'' merge_entries demo_recovery_disk = (Ok merge_saved, merged_disk)"
  by code_simp

lemma merge_writes: "write_application calm demo_changes demo_tree = (Inr (success_outcome demo_changes), merged_tree)"
  by code_simp

lemma merge_verifies: "verify_patch_postimages merge_sha merged_tree (pa_changes demo_changes) = Ok ()"
  by code_simp

lemma merge_env_simps:
  "wv_trust merge_env = merge_trust" "wv_recovery merge_env = merge_recovery" "wv_patch merge_env = calm"
  "wv_restore_faults merge_env = (\<lambda>_. NoFault)" "wv_rollback_faults merge_env = (\<lambda>_. NoFault)"
  "wv_precommit_io merge_env = None" "wv_context merge_env x = x"
  "te_sha merge_trust = merge_sha" "te_fresh merge_trust k n = k @ ''-1''"
  by (simp_all add: merge_env_def merge_trust_def)

lemma merge_shop_simps:
  "wk_session merge_shop = merge_session" "wk_tree merge_shop = demo_tree" "wk_recovery merge_shop = demo_recovery_disk"
  by (simp_all add: merge_shop_def)

lemma merge_gates: "require_gate merge_session ''gate-t1'' = Ok 0" "require_gate merge_asked ''gate-t1'' = Ok 0"
  by code_simp+

abbreviation merge_run :: "trust_event list res \<times> workshop" where
  "merge_run \<equiv> merge_agent_patch merge_env ''gate-t1'' demo_owner ''ship'' merge_shop"

lemma demo_merges:
  "\<exists>es t. merge_run = (Ok es, t) \<and> mg_status (ss_gates (wk_session t) ! 0) = GateMerged \<and> wk_tree t = merged_tree
     \<and> mg_recovery (ss_gates (wk_session t) ! 0) = Some merge_saved"
proof -
  let ?t = "update_gate 0 (snapshot_gate ''change-1'' merge_saved) merge_asked"
  obtain s1 where s1: "persist_merge_gate_precommit merge_env 0 ''audit-merge-precommit'' ?t = (Ok (), s1)"
    using precommit_writes [OF merge_env_simps(6)] by blast
  obtain r s2 where s2: "settle_merge merge_trust 0 ''ship'' ''change-1'' s1 = (r, s2)" by fastforce
  have gate: "mg_recovery (ss_gates s1 ! 0) = Some merge_saved" "0 < length (ss_gates s1)"
    using precommit_gate [OF s1 merge_gates(2)] require_gate_Ok [OF merge_gates(2)] by (simp_all add: snapshot_gate_def)
  note settled = settle_merge_Ok [OF s2 gate(2)]
  then obtain es where es: "r = Ok es" by blast
  have "fst merge_run = Ok es" "wk_session (snd merge_run) = s2" "wk_tree (snd merge_run) = merged_tree"
    using s1 s2 es
    by (simp_all add: merge_agent_patch_def apply_merge_def write_merge_def finish_merge_def op_check_def op_bind_def in_session_def
       in_recovery_def stage_paths_def merge_env_simps merge_shop_simps ship_text merge_ready merge_ask demo_prepared merge_stages
       merge_enters merge_saves merge_writes merge_verifies snapshot_gate_def [abs_def] Let_def)
  with settled gate(1) show ?thesis
    by (cases merge_run) auto
qed

section \<open>The revert succeeds\<close>

definition revert_asked :: session where
  "revert_asked = (wk_session merged_shop)\<lparr>ss_transcript := [\<lparr>pl_timestamp = 100,
     pl_tool_name = ''workflow_revert_applied_change'', pl_decision = ''allow'',
     pl_reason = ''Some(BypassMode)'', pl_message = None\<rparr>]\<rparr>"

lemma revert_ask: "require_trust_permission merge_trust ''revert_applied_change'' ''gate=gate-t1 change=change-1'' None
  (wk_session merged_shop) = (Ok (), revert_asked)"
  by code_simp

lemma revert_logs: "is_ok (fst (append_trust_audit merge_trust (revert_audit merge_trust ''gate-t1'' ''t1'' ''change-1''
  demo_owner (restored_paths merged_tree merge_staged_files)) revert_asked))"
  by code_simp

lemma revert_stages: "fst (stage_rollback_paths merged_tree (map fr_path merge_staged_files)) = Ok ()"
  by code_simp

lemma revert_writes: "restore_file_rollbacks (\<lambda>_. NoFault) merge_staged_files merged_tree = (Ok (), demo_tree)"
  by code_simp

lemma merged_shop_simps:
  "wk_tree merged_shop = merged_tree" "wk_recovery merged_shop = merged_disk"
  "mg_task_id (ss_gates revert_asked ! 0) = ''t1''" "mg_recovery (ss_gates (wk_session merged_shop) ! 0) = Some merge_saved"
  by (simp_all add: merged_shop_def revert_asked_def merge_session_def accepted_gate_def)

lemma merged_gates: "require_gate (wk_session merged_shop) ''gate-t1'' = Ok 0"
  by code_simp

lemma settle_revert_Ok: "\<exists>es t. settle_revert env i r s = (Ok es, t)"
  by (simp add: settle_revert_def touch_task_def Let_def split: option.splits)

lemma demo_reverts: "\<exists>es t. revert_run = (Ok es, t) \<and> wk_tree t = demo_tree"
proof -
  let ?paths = "restored_paths merged_tree merge_staged_files"
  obtain s1 where s1: "append_trust_audit merge_trust (revert_audit merge_trust ''gate-t1'' ''t1'' ''change-1'' demo_owner ?paths)
      revert_asked = (Ok (), s1)"
    using revert_logs
    by (cases "append_trust_audit merge_trust (revert_audit merge_trust ''gate-t1'' ''t1'' ''change-1'' demo_owner ?paths)
      revert_asked"; cases "fst (append_trust_audit merge_trust (revert_audit merge_trust ''gate-t1'' ''t1'' ''change-1'' demo_owner ?paths)
      revert_asked)") auto
  obtain fs where fs: "stage_rollback_paths merged_tree (map fr_path merge_staged_files) = (Ok (), fs)"
    using revert_stages by (cases "stage_rollback_paths merged_tree (map fr_path merge_staged_files)") simp
  obtain s2 where s2: "persist_merge_gate_precommit merge_env 0 ''audit-revert-precommit'' s1 = (Ok (), s2)"
    using precommit_writes [OF merge_env_simps(6)] by blast
  obtain es s3 where s3: "settle_revert merge_trust 0 (revert_of merge_trust ''gate-t1'' ''change-1'' demo_owner ''no'' ?paths) s2
      = (Ok es, s3)"
    using settle_revert_Ok by blast
  have "fst revert_run = Ok es" "wk_tree (snd revert_run) = demo_tree"
    using s1 fs s2 s3 revert_ask
    by (simp_all add: revert_applied_change_def op_check_def op_bind_def in_session_def in_tree_def stage_paths_def
       merge_env_simps merged_shop_simps revert_ready revert_writes Let_def)
  then show ?thesis
    by (cases revert_run) auto
qed

section \<open>A refused merge\<close>

text \<open>Someone has changed the line in the meantime.\<close>

definition clash_shop :: workshop where
  "clash_shop = merge_shop\<lparr>wk_tree := demo_tree\<lparr>wt_nodes := [([''a''], FileNode (unlines [''x'', ''q'']) 420)]\<rparr>\<rparr>"

definition clash :: lane_error where
  "clash = PatchConflict ''a'' ''patch conflict: expected hunk context was not found''"

lemma clash_refused: "prepare_patch (wk_tree clash_shop) demo_diff = Inl clash"
  by code_simp

lemma clash_bounces: "is_ok (fst (mark_agent_patch_conflict merge_env 0 (''patch conflict: '' @ lane_error_text clash) (Some demo_diff)
   (clash_shop\<lparr>wk_session := merge_asked\<rparr>)))"
  by code_simp

lemma demo_clashes:
  "\<exists>es t. merge_agent_patch merge_env ''gate-t1'' demo_owner ''ship'' clash_shop = (Ok es, t)"
proof -
  let ?run = "mark_agent_patch_conflict merge_env 0 (''patch conflict: '' @ lane_error_text clash) (Some demo_diff)
    (clash_shop\<lparr>wk_session := merge_asked\<rparr>)"
  obtain es t where t: "?run = (Ok es, t)"
    using clash_bounces by (cases ?run; cases "fst ?run") auto
  have "wk_session clash_shop = merge_session"
    by (simp add: clash_shop_def merge_shop_simps)
  then have "merge_agent_patch merge_env ''gate-t1'' demo_owner ''ship'' clash_shop = ?run"
    using clash_refused by (simp add: merge_agent_patch_def op_check_def op_bind_def in_session_def
       merge_env_simps ship_text merge_ready merge_ask Let_def)
  with t show ?thesis by simp
qed

section \<open>What the theorems assume\<close>

lemma merge_preflighted: "preflight_merge_agent_patch merge_trust ''gate-t1'' demo_owner merge_session = Ok demo_diff"
  using merge_preflight_Ok [OF merge_ready] by simp

lemma merge_flat: "wk_session w = merge_session \<Longrightarrow> wk_tree w = demo_tree \<Longrightarrow> flat_patch merge_trust ''gate-t1'' demo_owner w"
  using demo_antichain by (simp add: flat_patch_def merge_preflighted demo_prepared)

lemma merge_codec: "codec_ok merge_recovery ''change-1'' merge_entries" "no_second_preimage merge_recovery ''change-1'' merge_entries"
proof -
  have written: "written_manifest merge_recovery ''change-1'' merge_entries = Ok merge_manifest"
    by code_simp
  then show "codec_ok merge_recovery ''change-1'' merge_entries"
    by (simp add: codec_ok_def) (simp add: merge_recovery_def)
  have "x = y" if "merge_sha x = merge_sha y" "y \<in> {unlines [''x'', ''y''], ''manifest''}" for x y
  proof -
    have "unlines [''x'', ''y''] \<noteq> demo_diff \<and> ''manifest'' \<noteq> demo_diff \<and> unlines [''x'', ''y''] \<noteq> ''manifest''"
      by code_simp
    then show ?thesis
      using that by (auto simp: merge_sha_def split: if_splits)
  qed
  moreover have "rv_encode merge_recovery merge_manifest = ''manifest''" "rv_sha merge_recovery = merge_sha"
    by (simp_all add: merge_recovery_def)
  ultimately show "no_second_preimage merge_recovery ''change-1'' merge_entries"
    by (auto simp: no_second_preimage_def written) (auto simp: merge_entries_def)
qed

end
