(* ===== verification/Tree_Shape.thy ===== *)
theory Tree_Shape
  imports Tree_Rollback Patch_Targets
begin

text \<open>
  Writing a patch keeps a tree well-formed, whatever its paths and faults, and a file it has written
  stays. So a prepared patch that could be written has no path below another one of its paths.
\<close>

section \<open>Calls\<close>

lemma nothing_below: "tree_ok d \<Longrightarrow> node_at d r \<noteq> Some DirNode \<Longrightarrow> strict_prefix r q \<Longrightarrow> node_at d q = None"
  using tree_okD [of d q _ r] by (cases "node_at d q") auto

lemma set_file_ok:
  assumes "tree_ok d" "r \<noteq> []" "node_at d r \<noteq> Some DirNode" "node_at d r \<noteq> None \<or> node_at d (butlast r) = Some DirNode"
  shows "tree_ok (set_node r (FileNode b m) d)"
proof (rule tree_ok_set [OF assms(1,2)])
  show "\<forall>a. strict_prefix a r \<longrightarrow> node_at d a = Some DirNode"
  proof (intro allI impI)
    fix a assume a: "strict_prefix a r"
    show "node_at d a = Some DirNode"
    proof (cases "node_at d r")
      case None
      with assms(4) have dir: "node_at d (butlast r) = Some DirNode" by simp
      have "prefix a (butlast r)"
        using a strict_prefix_butlast [OF assms(2)] by simp
      then show ?thesis
        using dir tree_okD [OF assms(1) dir] by (cases "a = butlast r") (auto simp: strict_prefix_def)
    qed (use tree_okD [OF assms(1) _ a] in auto)
  qed
  show "FileNode b m = DirNode \<or> (\<forall>q. strict_prefix r q \<longrightarrow> node_at d q = None)"
    using nothing_below [OF assms(1,3)] by simp
qed

lemma write_file_ok: "tree_ok d \<Longrightarrow> tree_ok (snd (write_file r b d))"
  by (cases "r = []") (auto simp: write_file_def intro!: set_file_ok split: option.splits node.splits)

lemma remove_file_ok: "tree_ok d \<Longrightarrow> tree_ok (snd (remove_file r d))"
  using nothing_below [of d r]
  by (cases "r = []") (auto simp: remove_file_def intro!: tree_ok_del split: option.splits node.splits)

lemma create_dir_all_ok: "tree_ok d \<Longrightarrow> tree_ok (snd (create_dir_all r d))"
proof -
  assume d: "tree_ok d"
  let ?chain = "ancestors r @ (if r = [] then [] else [r])"
  have chain: "a \<in> set ?chain \<longleftrightarrow> a \<noteq> [] \<and> prefix a r" for a
    by (auto simp: set_ancestors prefix_order.le_less)
  have "tree_ok (fold ensure_dir ?chain d)"
    if "\<not> list_ex (\<lambda>a. node_at d a \<noteq> None \<and> node_at d a \<noteq> Some DirNode) ?chain"
  proof (rule ensure_dirs_ok [OF d])
    show "\<forall>a\<in>set ?chain. node_at d a = None \<or> node_at d a = Some DirNode"
      using that by (auto simp: list_ex_iff)
    show "\<forall>q\<in>set ?chain. \<forall>a. a \<noteq> [] \<and> strict_prefix a q \<longrightarrow> a \<in> set ?chain"
    proof (intro ballI allI impI)
      fix q a assume "q \<in> set ?chain" "a \<noteq> [] \<and> strict_prefix a q"
      then show "a \<in> set ?chain"
        unfolding chain by (meson prefix_order.less_imp_le prefix_order.order_trans)
    qed
    show "[] \<notin> set ?chain"
      unfolding chain by simp
  qed
  with d show ?thesis
    by (simp add: create_dir_all_def Let_def)
qed

section \<open>The patch backend\<close>

lemma tree_then_ok: "tree_ok (snd r) \<Longrightarrow> (\<And>e. tree_ok e \<Longrightarrow> tree_ok (snd (f e))) \<Longrightarrow> tree_ok (snd (tree_then r f))"
  by (cases r; cases "fst r") (auto simp: tree_then_def)

lemma lift_io_ok: "tree_ok (snd r) \<Longrightarrow> tree_ok (snd (lift_io p r))"
  by (simp add: lift_io_def)

lemma make_parent_ok: "tree_ok d \<Longrightarrow> tree_ok (snd (make_parent fault r d))"
  by (auto simp: make_parent_def intro!: lift_io_ok create_dir_all_ok split: io_fault.splits)

lemma faulty_ok:
  "tree_ok d \<Longrightarrow> tree_ok (snd (faulty_write fault r b d))" "tree_ok d \<Longrightarrow> tree_ok (snd (faulty_remove fault r d))"
  by (auto simp: faulty_write_def faulty_remove_def intro!: lift_io_ok write_file_ok remove_file_ok split: io_fault.splits)

lemma write_changes_ok: "tree_ok d \<Longrightarrow> tree_ok (snd (write_changes faults cs d))"
proof (induction cs arbitrary: faults d)
  case (Cons c cs)
  have "tree_ok e \<Longrightarrow> tree_ok (snd (write_change fault c e))" for fault e
    by (cases c) (auto intro!: tree_then_ok make_parent_ok faulty_ok)
  with Cons show ?case
    by (auto intro!: tree_then_ok)
qed simp

section \<open>A patch that could be written\<close>

text \<open>A file that was written stays until its own path is changed again.\<close>

lemma create_dir_all_file: "node_at d p \<noteq> None \<Longrightarrow> node_at (snd (create_dir_all r d)) p = node_at d p"
  by (auto simp: create_dir_all_def Let_def fold_ensure_dir set_ancestors)

lemma other_file_kept:
  assumes "node_at e p \<noteq> None" "change_path c \<noteq> p" "change_path c \<noteq> []"
  shows "node_at (snd (write_change fault c e)) p = node_at e p"
proof -
  have written: "node_at (snd (write_file r b u)) p = node_at u p" if "r \<noteq> p" "r \<noteq> []" for r b u
    using that by (auto simp: write_file_def split: option.splits node.splits)
  have parent: "node_at (snd (make_parent fault r e)) p = node_at e p" for r
    using assms(1) create_dir_all_file by (auto simp: make_parent_def lift_io_def split: io_fault.splits)
  show ?thesis
  proof (cases c)
    case (PatchWrite r b)
    have "node_at (snd (faulty_write fault r b u)) p = node_at u p" for u
      using written assms(2,3) PatchWrite by (auto simp: faulty_write_def lift_io_def split: io_fault.splits)
    with parent [of r] show ?thesis
      using PatchWrite by (auto simp: tree_then_def split: prod.splits sum.splits)
  next
    case (PatchDelete r)
    then have "node_at (snd (faulty_remove fault r e)) p = node_at e p"
      using assms(2,3) by (auto simp: faulty_remove_def lift_io_def remove_file_def split: io_fault.splits option.splits node.splits)
    with PatchDelete show ?thesis
      by (auto simp: tree_then_def split: sum.splits)
  qed
qed

lemma other_files_kept:
  "node_at e p \<noteq> None \<Longrightarrow> p \<notin> change_path ` set cs \<Longrightarrow> [] \<notin> change_path ` set cs \<Longrightarrow>
   node_at (snd (write_changes faults cs e)) p = node_at e p"
proof (induction cs arbitrary: faults e)
  case (Cons c cs)
  then have "node_at (snd (write_change (faults 0) c e)) p = node_at e p"
    by (intro other_file_kept) auto
  with Cons show ?case
    by (auto simp: tree_then_def split: prod.splits sum.splits)
qed simp

lemma write_leaves_file:
  assumes "write_change fault (PatchWrite r b) e = (Inr (), t)" "r \<noteq> []"
  shows "is_file_node (node_at t r)"
proof -
  obtain u where "faulty_write fault r b u = (Inr (), t)"
    using assms(1) by (auto simp: tree_then_def split: prod.splits sum.splits)
  then have "write_file r b u = (Inr (), t)"
    by (auto simp: faulty_write_def lift_io_def map_err_def prod_eq_iff split: io_fault.splits sum.splits)
  then show ?thesis
    using assms(2) by (auto simp: write_file_def split: option.splits node.splits if_splits)
qed

lemma writes_leave_files:
  assumes "write_changes faults cs e = (Inr (), t)" "distinct (map change_path cs)" "[] \<notin> change_path ` set cs"
    and "PatchWrite r b \<in> set cs"
  shows "is_file_node (node_at t r)"
  using assms
proof (induction cs arbitrary: faults e)
  case (Cons c cs)
  obtain u where u: "write_change (faults 0) c e = (Inr (), u)" "write_changes (faults \<circ> Suc) cs u = (Inr (), t)"
    using Cons.prems(1) by (auto simp: tree_then_def split: prod.splits sum.splits)
  show ?case
  proof (cases "c = PatchWrite r b")
    case True
    have "is_file_node (node_at u r)"
      using write_leaves_file [of "faults 0" r b] u(1) True Cons.prems(3) by force
    moreover have "node_at t r = node_at u r"
      using other_files_kept [of u r cs "faults \<circ> Suc"] u(2) True Cons.prems(2,3) calculation by force
    ultimately show ?thesis by simp
  next
    case False
    with Cons.IH [OF u(2)] Cons.prems show ?thesis by simp
  qed
qed simp

text \<open>So no path of a prepared patch that was written lies below another one.\<close>

lemma written_antichain:
  assumes "tree_ok d" "\<forall>c\<in>set cs. change_ok d c" "distinct (map change_path cs)" "write_changes faults cs d = (Inr (), t)"
  shows "antichain (change_path ` set cs)"
proof -
  have root: "[] \<notin> change_path ` set cs"
    using assms(2) by (auto simp: change_ok_def)
  have t: "tree_ok t"
    using write_changes_ok [OF assms(1), of faults cs] assms(4) by simp
  have "\<not> strict_prefix (change_path x) (change_path y)" if "x \<in> set cs" "y \<in> set cs" for x y
  proof
    assume below: "strict_prefix (change_path x) (change_path y)"
    have x: "\<not> is_file_node (node_at d (change_path x))" "file_place (node_at d (change_path x))"
      using assms(2) that below by (auto simp: change_ok_def clear_path_def)
    then have "node_at d (change_path x) = None"
      by (simp add: file_place_def)
    then have none: "node_at d (change_path y) = None"
      using below_file [OF assms(1) x(2) below] by simp
    have "postimage x \<noteq> None" "postimage y \<noteq> None"
      using assms(2) that x(1) none by (auto simp: change_ok_def)
    then obtain p b q b' where eq: "x = PatchWrite p b" "y = PatchWrite q b'"
      by (cases x; cases y) auto
    then have "is_file_node (node_at t p)" "is_file_node (node_at t q)"
      using writes_leave_files [OF assms(4,3) root] that by auto
    moreover from this(1) have "node_at t q = None"
      using below_file [OF t _ below] eq by (simp add: file_place_def)
    ultimately show False by simp
  qed
  with root show ?thesis
    by (auto simp: antichain_def)
qed

end
