(* ===== verification/Applied_Safety.thy ===== *)
theory Applied_Safety
  imports Applied_Demo Tree_Shape
begin

text \<open>
  What an operator can rely on when an accepted patch is merged and when it is reverted.
\<close>

section \<open>Snapshots of a merge\<close>

lemma rel_text_names:
  assumes "p \<noteq> []" "list_all plain_segment p"
  shows "normalize_relative_path (rel_text p) = Ok (rel_text p)" "path_key (rel_text p) = p"
proof -
  show "normalize_relative_path (rel_text p) = Ok (rel_text p)"
    using components_join [OF assms] assms(1) by (auto simp: normalize_Ok rel_text_def)
  show "path_key (rel_text p) = p"
    using assms unfolding path_key_def rel_text_def
    by (intro split_on_join) (auto simp: list_all_iff plain_segment_def)
qed

lemma names_above:
  assumes "list_all plain_segment p" "\<forall>a\<in>set ds. a \<noteq> [] \<and> strict_prefix a p"
  shows "all_ok (map normalize_relative_path (map rel_text ds)) = Ok (map rel_text ds)" "map path_key (map rel_text ds) = ds"
proof -
  have plain: "a \<noteq> [] \<and> list_all plain_segment a" if "a \<in> set ds" for a
  proof -
    have "set a \<subseteq> set p"
      using assms(2) that by (auto simp: strict_prefix_def dest: set_mono_prefix)
    with assms that show ?thesis by (auto simp: list_all_iff)
  qed
  then show "all_ok (map normalize_relative_path (map rel_text ds)) = Ok (map rel_text ds)"
    by (simp add: all_ok_iff rel_text_names)
  show "map path_key (map rel_text ds) = ds"
    using plain by (simp add: rel_text_names map_idI)
qed

lemma recovery_entry_Ok:
  "recovery_entry sha d fs c = Ok e \<Longrightarrow> \<exists>f\<in>set fs. fr_path f = change_path c
     \<and> e = \<lparr>se_path = rel_text (change_path c), se_preimage = fr_contents f, se_mode = fr_mode f,
        se_postimage_sha = map_option sha (postimage c), se_created = map rel_text (fr_created f)\<rparr>"
  by (auto simp: recovery_entry_def try_then_Inr ok_or_Inr find_Some_iff)

lemma list_all2_sides:
  assumes "list_all2 R xs ys"
  shows "\<forall>y\<in>set ys. \<exists>x\<in>set xs. R x y" "\<forall>x\<in>set xs. \<exists>y\<in>set ys. R x y"
  using assms by (induction rule: list_all2_induct) auto

lemma all_ok_pairs: "all_ok (map f xs) = Ok ys \<Longrightarrow> list_all2 (\<lambda>x y. f x = Ok y) xs ys"
  by (induction xs arbitrary: ys) (auto simp: try_then_Inr)

text \<open>What is loaded of an entry stages the same again.\<close>

definition reloaded :: "snapshot_entry \<Rightarrow> file_rollback" where
  "reloaded l = \<lparr>fr_path = path_key (se_path l), fr_contents = se_preimage l, fr_mode = se_mode l,
     fr_created = map path_key (se_created l)\<rparr>"

lemma reloaded_staged:
  assumes "normalized_entry e l" "fr_path f = change_path c" "change_ok d c" "remembers d f"
    and "e = \<lparr>se_path = rel_text (change_path c), se_preimage = fr_contents f, se_mode = fr_mode f,
        se_postimage_sha = map_option sha (postimage c), se_created = map rel_text (fr_created f)\<rparr>"
  shows "reloaded l = f"
proof -
  have p: "change_path c \<noteq> []" "list_all plain_segment (change_path c)"
    using assms(3) by (simp_all add: change_ok_def)
  have above: "\<forall>a\<in>set (fr_created f). a \<noteq> [] \<and> strict_prefix a (change_path c)"
    using assms(2,4) by (simp add: remembers_def)
  have l: "se_path l = rel_text (change_path c)" "se_created l = map rel_text (fr_created f)"
      "se_preimage l = fr_contents f" "se_mode l = fr_mode f"
  proof -
    have e: "se_path e = rel_text (change_path c)" "se_created e = map rel_text (fr_created f)"
        "se_preimage e = fr_contents f" "se_mode e = fr_mode f"
      unfolding assms(5) by simp_all
    have n: "normalize_relative_path (se_path e) = Ok (se_path l)" "se_preimage l = se_preimage e"
        "all_ok (map normalize_relative_path (se_created e)) = Ok (se_created l)" "se_mode l = se_mode e"
      using assms(1) unfolding normalized_entry_def by blast+
    show "se_path l = rel_text (change_path c)" "se_created l = map rel_text (fr_created f)"
      using n(1,3) unfolding e rel_text_names(1) [OF p] names_above(1) [OF p(2) above] by simp_all
    show "se_preimage l = fr_contents f" "se_mode l = fr_mode f"
      unfolding n e by (rule refl)+
  qed
  have "path_key (se_path l) = fr_path f" "map path_key (se_created l) = fr_created f"
    unfolding l(1,2) using rel_text_names(2) [OF p] names_above(2) [OF p(2) above] assms(2) by simp_all
  with l(3,4) show ?thesis
    by (simp add: reloaded_def)
qed

lemma loaded_rollback_Ok: "loaded_rollback sha d e = Ok f \<Longrightarrow> f = reloaded e"
  by (simp add: loaded_rollback_def Let_def guarded_Inr reloaded_def)

text \<open>What an entry saved is what stood at its path in \<open>d\<close>.\<close>

definition saved_from :: "work_tree \<Rightarrow> snapshot_entry \<Rightarrow> bool" where
  "saved_from d e \<longleftrightarrow> (case se_preimage e of
      None \<Rightarrow> node_at d (path_key (se_path e)) = None
    | Some b \<Rightarrow> \<exists>m. se_mode e = Some m \<and> node_at d (path_key (se_path e)) = Some (FileNode b m))"

lemma remembers_saved: "remembers d (reloaded l) \<Longrightarrow> saved_from d l"
  by (simp add: remembers_def reloaded_def saved_from_def split: option.splits)

text \<open>The entries of the snapshot of a merge, reloaded, are what was staged for it.\<close>

lemma recovered_entries:
  assumes "\<forall>c\<in>set cs. change_ok d c" "\<forall>f\<in>set fs. remembers d f"
    and "recovery_entries_for_patch sha d fs cs = Ok es" "list_all2 normalized_entry es ls"
  shows "list_all2 (\<lambda>c l. path_key (se_path l) = change_path c \<and> remembers d (reloaded l)) cs ls"
proof -
  have entry: "path_key (se_path l) = change_path c \<and> remembers d (reloaded l)"
    if "recovery_entry sha d fs c = Ok e" "normalized_entry e l" "c \<in> set cs" for c e l
  proof -
    have "\<exists>f\<in>set fs. fr_path f = change_path c \<and> reloaded l = f"
      using recovery_entry_Ok [OF that(1)] reloaded_staged [OF that(2)] assms(1,2) that(3) by metis
    with assms(2) show ?thesis
      by (auto simp: reloaded_def)
  qed
  have pairs: "list_all2 (\<lambda>c e. recovery_entry sha d fs c = Ok e) cs es"
    using assms(3) unfolding recovery_entries_for_patch_def by (rule all_ok_pairs)
  have "list_all2 (\<lambda>c l. \<exists>e. recovery_entry sha d fs c = Ok e \<and> normalized_entry e l) cs ls"
    by (rule list_all2_trans [OF _ pairs assms(4)]) blast
  then show ?thesis
    by (rule list.rel_mono_strong) (elim exE conjE, erule (1) entry)
qed

text \<open>The rollbacks a snapshot of a merge gives are the ones that were staged for it.\<close>

lemma recovered_rollbacks:
  assumes "\<forall>c\<in>set cs. change_ok d c" "\<forall>f\<in>set fs. remembers d f"
    and "recovery_entries_for_patch sha d fs cs = Ok es" "list_all2 normalized_entry es ls"
    and "all_ok (map (loaded_rollback sha' d') (by_path ls)) = Ok original"
  shows "(\<forall>f\<in>set original. fr_path f \<in> change_path ` set cs \<and> remembers d f)
    \<and> change_path ` set cs \<subseteq> fr_path ` set original"
proof -
  have original: "set original = reloaded ` set ls"
  proof -
    have "list_all2 (\<lambda>l f. f = reloaded l) (by_path ls) original"
      using all_ok_pairs [OF assms(5)] by (rule list.rel_mono_strong) (rule loaded_rollback_Ok)
    then have "original = map reloaded (by_path ls)"
      by (induction rule: list_all2_induct) auto
    then show ?thesis by (simp add: by_path_def)
  qed
  note sides = list_all2_sides [OF recovered_entries [OF assms(1-4)]]
  show ?thesis
  proof (intro conjI ballI subsetI)
    fix f assume "f \<in> set original"
    then obtain l where "l \<in> set ls" "f = reloaded l"
      unfolding original by blast
    with sides(1) obtain c where "c \<in> set cs" "path_key (se_path l) = change_path c" "remembers d f"
      by blast
    with \<open>f = reloaded l\<close> show "fr_path f \<in> change_path ` set cs" "remembers d f"
      by (auto simp: reloaded_def)
  next
    fix p assume "p \<in> change_path ` set cs"
    then obtain c where c: "c \<in> set cs" "p = change_path c" by blast
    with sides(2) obtain l where "l \<in> set ls" "path_key (se_path l) = change_path c"
      by blast
    with c(2) show "p \<in> fr_path ` set original"
      unfolding original by (auto simp: reloaded_def image_iff intro!: bexI [of _ l])
  qed
qed

section \<open>When a patch is merged\<close>

lemma preflight_merge_Ok:
  assumes "preflight_merge_agent_patch env gate actor s = Ok diff" "require_gate s gate = Ok i"
  obtains d e where "mg_status (ss_gates s ! i) = GateAccepted" "actor = mg_owner (ss_gates s ! i)"
    "mg_decision (ss_gates s ! i) = Some d" "gd_outcome d = OutcomeAccepted"
    "validated_bindings env s (ss_gates s ! i) (mg_evidence_ids (ss_gates s ! i)) = Ok (btree (gd_reviewed_evidence d))"
    "rp_status (reduce_gate_status (ss_gates s ! i) (ss_evidence s) (session_gate_facts env s)) = CanonVerified"
    "merge_review_check s (ss_gates s ! i) d (btree (gd_reviewed_evidence d)) = Ok ()"
    "\<not> conflict_pending (ss_gates s ! i)"
    "patch_evidence_for_gate s (ss_gates s ! i) = Some e" "verified_patch_content env s e = Ok diff"
  using assms
  by (auto simp: preflight_merge_agent_patch_def merge_gate_checks_def Let_def guarded_Inr try_then_Inr
      ensure_Inr ok_or_Inr map_err_Inr is_ok_iff)

lemma ship_merged: obtains es t where "merge_run = (Ok es, t)" "mg_status (ss_gates (wk_session t) ! 0) = GateMerged"
  "wk_tree t = merged_tree" "mg_recovery (ss_gates (wk_session t) ! 0) = Some merge_saved" "require_gate (wk_session merge_shop) ''gate-t1'' = Ok 0"
  using demo_merges merge_gates(1) merge_shop_simps(1) by metis

text \<open>C3: A patch is merged only when its gate was accepted by a typed decision that binds exactly the
  canonical evidence the gate has now, every required kind of it verified; the actor owns the gate, no
  conflict is pending, and an assigned independent validator's review of exactly that evidence was
  accepted; the permission engine granted the merge on a request that carried this very patch, which an
  operator who is asked is shown and which an allow rule or the bypass mode grants unasked; and the patch
  is the verified canonical content of the gate's patch evidence.\<close>

theorem merge_needs_accepted_evidence:
  assumes "merge_agent_patch v gate actor label w = (Ok es, t)" "require_gate (wk_session w) gate = Ok i"
    and "mg_status (ss_gates (wk_session t) ! i) = GateMerged"
  shows "\<exists>d e diff a. mg_status (ss_gates (wk_session w) ! i) = GateAccepted
    \<and> mg_decision (ss_gates (wk_session w) ! i) = Some d \<and> gd_outcome d = OutcomeAccepted
    \<and> validated_bindings (wv_trust v) (wk_session w) (ss_gates (wk_session w) ! i)
        (mg_evidence_ids (ss_gates (wk_session w) ! i)) = Ok (btree (gd_reviewed_evidence d))
    \<and> rp_status (reduce_gate_status (ss_gates (wk_session w) ! i) (ss_evidence (wk_session w))
        (session_gate_facts (wv_trust v) (wk_session w))) = CanonVerified
    \<and> actor = mg_owner (ss_gates (wk_session w) ! i) \<and> \<not> conflict_pending (ss_gates (wk_session w) ! i)
    \<and> (\<forall>k. mg_validator (ss_gates (wk_session w) ! i) = Some k \<longrightarrow> gv_independent k
        \<and> (\<exists>r. find_review (wk_session w) (gv_review_request_id k) = Some r \<and> rr_status r = ReviewAccepted
             \<and> rr_evidence_bindings r = btree (gd_reviewed_evidence d)))
    \<and> granted_showing (wv_trust v) ''merge_agent_patch'' (''gate='' @ gate) (Some (wv_context v diff)) (wk_session w)
    \<and> patch_evidence_for_gate (wk_session w) (ss_gates (wk_session w) ! i) = Some e
    \<and> verified_patch_content (wv_trust v) (wk_session w) e = Ok diff \<and> prepare_patch (wk_tree w) diff = Inr a"
proof -
  let ?s = "wk_session w"
  from merged_trace [OF assms] obtain diff a where run:
      "preflight_merge_agent_patch (wv_trust v) gate actor ?s = Ok diff"
      "granted_showing (wv_trust v) ''merge_agent_patch'' (''gate='' @ gate) (Some (wv_context v diff)) ?s"
      "prepare_patch (wk_tree w) diff = Inr a"
    by blast
  from preflight_merge_Ok [OF run(1) assms(2)] obtain d e where g: "mg_status (ss_gates ?s ! i) = GateAccepted"
      "actor = mg_owner (ss_gates ?s ! i)" "mg_decision (ss_gates ?s ! i) = Some d" "gd_outcome d = OutcomeAccepted"
      "validated_bindings (wv_trust v) ?s (ss_gates ?s ! i) (mg_evidence_ids (ss_gates ?s ! i)) = Ok (btree (gd_reviewed_evidence d))"
      "rp_status (reduce_gate_status (ss_gates ?s ! i) (ss_evidence ?s) (session_gate_facts (wv_trust v) ?s)) = CanonVerified"
      "merge_review_check ?s (ss_gates ?s ! i) d (btree (gd_reviewed_evidence d)) = Ok ()"
      "\<not> conflict_pending (ss_gates ?s ! i)"
      "patch_evidence_for_gate ?s (ss_gates ?s ! i) = Some e" "verified_patch_content (wv_trust v) ?s e = Ok diff" .
  have "gv_independent k \<and> (\<exists>r. find_review ?s (gv_review_request_id k) = Some r \<and> rr_status r = ReviewAccepted
      \<and> rr_evidence_bindings r = btree (gd_reviewed_evidence d))" if "mg_validator (ss_gates ?s ! i) = Some k" for k
    using g(7) that by (auto simp: merge_review_check_def guarded_Inr try_then_Inr ok_or_Inr ensure_Inr is_ok_iff)
  with run g show ?thesis by blast
qed

theorem merge_needs_accepted_evidence_witness:
  "mg_status accepted_gate = GateAccepted
   \<and> (\<exists>diff. granted_showing merge_trust ''merge_agent_patch'' ''gate=gate-t1'' (Some diff) merge_session)"
proof -
  obtain es t where run: "merge_run = (Ok es, t)" "mg_status (ss_gates (wk_session t) ! 0) = GateMerged"
      "require_gate (wk_session merge_shop) ''gate-t1'' = Ok 0"
    by (rule ship_merged)
  have "ss_gates merge_session ! 0 = accepted_gate"
    by (simp add: merge_session_def)
  with merge_needs_accepted_evidence [OF run(1,3,2)] show ?thesis
    by (auto simp: merge_env_simps merge_shop_simps)
qed

section \<open>What a merge does to the tree\<close>

lemma snapshot_distinct:
  assumes "recovery_entries_for_patch sha d fs cs = Ok es" "write_recovery_snapshot v i es disk = (Ok r, disk')"
  shows "distinct (map change_path cs)"
proof -
  have "list_all2 (\<lambda>c e. recovery_entry sha d fs c = Ok e) cs es"
    using assms(1) unfolding recovery_entries_for_patch_def by (rule all_ok_pairs)
  then have paths: "map se_path es = map (rel_text \<circ> change_path) cs"
    by (induction rule: list_all2_induct) (auto dest!: recovery_entry_Ok)
  obtain ls where ls: "list_all2 normalized_entry es ls" "distinct (map se_path ls)"
    using write_snapshot_parts [OF assms(2)] by metis
  have "map (normalize_relative_path \<circ> se_path) es = map (Ok \<circ> se_path) ls"
    using ls(1) by (induction rule: list_all2_induct) (auto simp: normalized_entry_def)
  moreover have "distinct (map (Ok \<circ> se_path) ls)"
    using ls(2) by (simp add: distinct_map inj_on_def)
  ultimately have "distinct (map se_path es)"
    by (metis distinct_map map_map)
  then show ?thesis
    unfolding paths by (metis distinct_map map_map)
qed

text \<open>The snapshot of a merge loads at once, to what its patch overwrote.\<close>

lemma merge_snapshot_loads:
  assumes "hex_hash v" "codec_ok v i es" "write_recovery_snapshot v i es disk = (Ok r, disk')"
    and "\<forall>c\<in>set cs. change_ok d c" "\<forall>f\<in>set fs. remembers d f" "recovery_entries_for_patch sha d fs cs = Ok es"
  obtains saved where "load_recovery_snapshot v r disk' = Ok saved"
    "(path_key \<circ> se_path) ` set saved = change_path ` set cs" "\<forall>e\<in>set saved. saved_from d e"
proof -
  from write_snapshot_parts [OF assms(3)] obtain ls m blobs where p: "list_all2 normalized_entry es ls"
      "distinct (map se_path ls)" "\<forall>l\<in>set ls. loadable l"
      "m = new_manifest i (map (entry_manifest (rv_sha v)) ls)" "written_manifest v i es = Ok m"
      "r = \<lparr>rs_snapshot_id = i, rs_manifest_sha256 = rv_sha v (rv_encode v m)\<rparr>" "validate_snapshot_id i = Ok ()"
      "disk' = disk\<lparr>rd_ready := True, rd_snapshots := (i, \<lparr>sd_manifest = Some (rv_encode v m), sd_blobs = blobs\<rparr>) # rd_snapshots disk\<rparr>"
      "\<forall>l\<in>set ls. \<forall>b. se_preimage l = Some b \<longrightarrow> map_of blobs (rv_sha v b) = Some b" .
  have "load_recovery_snapshot v r disk' = Ok (by_path ls)"
    unfolding p(6)
    using assms(1,2) p(5,8) by (intro load_snapshot_from [OF p(2,3) _ p(4,7) _ _ _ p(9)]) (simp_all add: codec_ok_def hex_hash_def)
  moreover note sides = list_all2_sides [OF recovered_entries [OF assms(4-6) p(1)]]
  moreover have "(path_key \<circ> se_path) ` set ls = change_path ` set cs"
  proof (intro equalityI subsetI)
    fix q assume "q \<in> (path_key \<circ> se_path) ` set ls"
    with sides(1) show "q \<in> change_path ` set cs" by (auto simp: image_iff)
  next
    fix q assume "q \<in> change_path ` set cs"
    with sides(2) show "q \<in> (path_key \<circ> se_path) ` set ls" by (auto simp: image_iff) metis
  qed
  moreover have "\<forall>e\<in>set ls. saved_from d e"
    using sides(1) remembers_saved by blast
  ultimately show thesis
    by (intro that [of "by_path ls"]) (simp_all add: by_path_def)
qed

text \<open>What the snapshot of a merge relies on: its manifest survives the codec, and no one finds other bytes
  with one of its hashes.\<close>

definition snapshot_trusted :: "'ctx workshop_env \<Rightarrow> string \<Rightarrow> runtime_owner \<Rightarrow> workshop \<Rightarrow> bool" where
  "snapshot_trusted v gate actor w \<longleftrightarrow> (\<forall>diff a fs es.
     preflight_merge_agent_patch (wv_trust v) gate actor (wk_session w) = Ok diff \<and> prepare_patch (wk_tree w) diff = Inr a
     \<and> stage_rollback_paths (wk_tree w) (map change_path (pa_changes a)) = (Ok (), fs)
     \<and> recovery_entries_for_patch (te_sha (wv_trust v)) (wk_tree w) fs (pa_changes a) = Ok es
     \<longrightarrow> codec_ok (wv_recovery v) (change_of v) es \<and> no_second_preimage (wv_recovery v) (change_of v) es)"

text \<open>C6: A merge has published the text sections of the patch the gate's evidence holds, each prepared on the
  tree as it was, and nothing else: every path of them has its new contents, keeping the mode of a file it
  replaces, or is gone; every other node is as it was, but for directories made above a path of the patch.
  Binary sections are refused and left out. The recovery snapshot the gate refers to loads, and holds for
  exactly the changed paths what stood there before: bytes and mode of a file, or that there was none. For
  the snapshot the codec of its manifest and the form of its hashes are relied on.\<close>

theorem merge_publishes_the_patch:
  assumes "tree_ok (wk_tree w)" "snapshot_trusted v gate actor w" "hex_hash (wv_recovery v)"
    and "merge_agent_patch v gate actor label w = (Ok es, t)" "require_gate (wk_session w) gate = Ok i"
    and "mg_status (ss_gates (wk_session t) ! i) = GateMerged"
  shows "\<exists>diff a files reference saved. preflight_merge_agent_patch (wv_trust v) gate actor (wk_session w) = Ok diff
    \<and> prepare_patch (wk_tree w) diff = Inr a \<and> parse_unified_diff diff = Inr files
    \<and> map (prepare_patch_file (wk_tree w)) (filter (\<lambda>p. \<not> pf_binary p) files) = map Inr (pa_changes a)
    \<and> (\<forall>c\<in>set (pa_changes a). node_at (wk_tree t) (change_path c) = published (wk_tree w) c)
    \<and> (\<forall>q. q \<notin> changed_paths a \<longrightarrow> node_at (wk_tree t) q = node_at (wk_tree w) q
         \<or> new_dir (wk_tree w) (changed_paths a) (wk_tree t) q)
    \<and> mg_recovery (ss_gates (wk_session t) ! i) = Some reference
    \<and> load_recovery_snapshot (wv_recovery v) reference (wk_recovery t) = Ok saved
    \<and> (path_key \<circ> se_path) ` set saved = changed_paths a \<and> (\<forall>e\<in>set saved. saved_from (wk_tree w) e)"
proof -
  from merged_trace [OF assms(4-6)] obtain diff a s fs entries reference rd s1 where diff:
      "preflight_merge_agent_patch (wv_trust v) gate actor (wk_session w) = Ok diff"
    and "granted_showing (wv_trust v) ''merge_agent_patch'' (''gate='' @ gate) (Some (wv_context v diff)) (wk_session w)"
    and a: "prepare_patch (wk_tree w) diff = Inr a"
    and fs: "stage_rollback_paths (wk_tree w) (map change_path (pa_changes a)) = (Ok (), fs)"
    and snapshot: "recovery_entries_for_patch (te_sha (wv_trust v)) (wk_tree w) fs (pa_changes a) = Ok entries"
      "write_recovery_snapshot (wv_recovery v) (change_of v) entries (wk_recovery w) = (Ok reference, rd)"
    and wrote: "write_changes (\<lambda>_. NoFault) (pa_changes a) (wk_tree w) = (Inr (), wk_tree t)"
    and s: "asked_from (wk_session w) s"
    and s1: "persist_merge_gate_precommit v i ''audit-merge-precommit''
         (update_gate i (snapshot_gate (change_of v) reference) s) = (Ok (), s1)"
    and settled: "settle_merge (wv_trust v) i (sanitize_runtime_domain_text label 240) (change_of v) s1 = (Ok es, wk_session t)"
    and rd: "wk_recovery t = rd" and "map_of (wk_applied t) (change_of v) = Some fs" .
  have ok: "\<forall>c\<in>set (pa_changes a). change_ok (wk_tree w) c"
    using prepare_patch_ok [OF assms(1) a] by blast
  have paths: "change_path ` set (pa_changes a) = changed_paths a"
    by (simp add: changed_paths_def)
  have anti: "antichain (changed_paths a)"
    using written_antichain [OF assms(1) ok snapshot_distinct [OF snapshot] wrote] unfolding paths .
  note targets = prepared_targets [OF assms(1) a anti]
  have "\<forall>c\<in>set (pa_changes a). postimage c = None \<longrightarrow> is_file_node (node_at (wk_tree w) (change_path c))"
    using ok by (simp add: change_ok_def)
  then obtain u where u: "write_changes (\<lambda>_. NoFault) (pa_changes a) (wk_tree w) = (Inr (), u)"
      "midway (wk_tree w) (changed_paths a) u"
      "\<forall>c\<in>set (pa_changes a). node_at u (change_path c) = published (wk_tree w) c"
    using write_changes_published [OF targets midway_refl [OF assms(1) targets] _ snapshot_distinct [OF snapshot]] paths
    by blast
  have "u = wk_tree t"
    using u(1) wrote by simp
  note tree = u(2,3) [unfolded this]
  have "\<forall>q. q \<notin> changed_paths a \<longrightarrow> node_at (wk_tree t) q = node_at (wk_tree w) q
         \<or> new_dir (wk_tree w) (changed_paths a) (wk_tree t) q"
    using tree(1) by (simp add: midway_def)
  moreover have "require_gate s gate = Ok i"
    using require_gate_asked [OF s] assms(5) by simp
  from precommit_gate [OF s1 this] have "mg_recovery (ss_gates s1 ! i) = Some reference" "i < length (ss_gates s1)"
    using require_gate_Ok [of s gate i] \<open>require_gate s gate = Ok i\<close> by (simp_all add: snapshot_gate_def)
  then have "mg_recovery (ss_gates (wk_session t) ! i) = Some reference"
    using settle_merge_Ok [OF settled] by simp
  moreover obtain files where "parse_unified_diff diff = Inr files"
      "map (prepare_patch_file (wk_tree w)) (filter (\<lambda>p. \<not> pf_binary p) files) = map Inr (pa_changes a)"
    using prepared_sections [OF a] .
  moreover obtain saved where "load_recovery_snapshot (wv_recovery v) reference rd = Ok saved"
      "(path_key \<circ> se_path) ` set saved = changed_paths a" "\<forall>e\<in>set saved. saved_from (wk_tree w) e"
  proof (rule merge_snapshot_loads [OF assms(3) _ snapshot(2) ok _ snapshot(1), unfolded paths])
    show "codec_ok (wv_recovery v) (change_of v) entries"
      using assms(2) diff a fs snapshot(1) unfolding snapshot_trusted_def by blast
    show "\<forall>f\<in>set fs. remembers (wk_tree w) f"
      using stage_rollback_paths_Ok [OF assms(1) fs] by blast
  qed
  ultimately show ?thesis
    using diff a rd tree(2)
    by (intro exI [of _ diff] exI [of _ a] exI [of _ files] exI [of _ reference] exI [of _ saved]) simp
qed

lemma merge_trusted:
  assumes "wk_session w = merge_session" "wk_tree w = demo_tree"
  shows "snapshot_trusted merge_env ''gate-t1'' demo_owner w"
  using merge_codec assms by (auto simp: snapshot_trusted_def merge_env_simps merge_preflighted demo_prepared
      merge_stages merge_enters)

lemma merge_hex: "hex_hash merge_recovery"
  by (simp add: hex_hash_def merge_recovery_def merge_sha_def validate_sha256_def lower_hex_def ensure_def is_ascii_digit_def list_all_iff)

theorem merge_publishes_the_patch_witness:
  "\<exists>es t saved. merge_run = (Ok es, t) \<and> node_at (wk_tree t) [''a''] = Some (FileNode (unlines [''x'', ''z'']) 420)
     \<and> load_recovery_snapshot merge_recovery merge_saved (wk_recovery t) = Ok saved \<and> (\<forall>e\<in>set saved. saved_from demo_tree e)"
proof -
  obtain es t where run: "merge_run = (Ok es, t)" "mg_status (ss_gates (wk_session t) ! 0) = GateMerged"
      "mg_recovery (ss_gates (wk_session t) ! 0) = Some merge_saved" "require_gate (wk_session merge_shop) ''gate-t1'' = Ok 0"
    by (rule ship_merged)
  have "tree_ok (wk_tree merge_shop)" "snapshot_trusted merge_env ''gate-t1'' demo_owner merge_shop" "hex_hash (wv_recovery merge_env)"
    using demo_tree_ok merge_trusted merge_hex by (simp_all add: merge_env_simps merge_shop_simps)
  from merge_publishes_the_patch [OF this run(1,4,2)] run(3) obtain saved where
      "\<forall>c\<in>set (pa_changes demo_changes). node_at (wk_tree t) (change_path c) = published demo_tree c"
      "load_recovery_snapshot merge_recovery merge_saved (wk_recovery t) = Ok saved" "\<forall>e\<in>set saved. saved_from demo_tree e"
    by (auto simp: merge_env_simps merge_shop_simps merge_preflighted demo_prepared)
  moreover have "PatchWrite [''a''] (unlines [''x'', ''z'']) \<in> set (pa_changes demo_changes)" "mode_for demo_tree [''a''] = 420"
    by (simp_all add: demo_changes_def mode_for_def node_at_def demo_tree_def)
  ultimately have "node_at (wk_tree t) [''a''] = Some (FileNode (unlines [''x'', ''z'']) 420)"
      "load_recovery_snapshot merge_recovery merge_saved (wk_recovery t) = Ok saved" "\<forall>e\<in>set saved. saved_from demo_tree e"
    by (auto simp: published_def dest!: bspec)
  with run(1) show ?thesis by blast
qed

section \<open>All or nothing\<close>

lemma roll_back_staged:
  assumes "tree_ok d" "staged d w" "wv_rollback_faults v = (\<lambda>_. NoFault)"
  shows "\<exists>u. roll_back v before w = (Ok (), u) \<and> same_nodes d (wk_tree u) \<and> wk_applied u = wk_applied before
    \<and> wk_session u = restore_domain (wk_session before) (wk_session w)"
proof -
  let ?w = "w\<lparr>wk_session := restore_domain (wk_session before) (wk_session w), wk_applied := wk_applied before\<rparr>"
  have "staged d ?w"
    using assms(2) by simp
  from staged_undo [OF assms(1) this] assms(3) show ?thesis
    by (auto simp: roll_back_def op_bind_def)
qed

lemma restore_domain_twice [simp]:
  "restore_domain s s = s" "restore_domain s (restore_domain s u) = restore_domain s u"
  by (simp_all add: restore_domain_def)

text \<open>C4: When no path of the patch lies below another one and the runtime's own restoring meets no fault, a
  merge command that does not end as an accepted merge leaves every node of the tree as it was, whatever
  else went wrong and wherever: a refused patch, a failed snapshot, precommit, write, rollback of the
  backend, verification or final append; and when it is rejected the domain facts and the remembered
  changes are the ones from before. Without the first condition it is not so (lemma
  nested_merge_leaves_a_file of Applied_Limits).\<close>

theorem unmerged_patch_leaves_the_tree:
  assumes "tree_ok (wk_tree w)" "flat_patch (wv_trust v) gate actor w"
    and "wv_restore_faults v = (\<lambda>_. NoFault)" "wv_rollback_faults v = (\<lambda>_. NoFault)"
    and "handle_patch_command v (MergeAgentPatch gate actor decision) w = (r, t)"
  shows "\<exists>outcome. r = Ok outcome
    \<and> (same_nodes (wk_tree w) (wk_tree t) \<or> (\<exists>es. outcome = CommandAccepted es \<and> merge_published es gate))
    \<and> (\<forall>e. outcome = CommandRejected e \<longrightarrow> same_nodes (wk_tree w) (wk_tree t)
         \<and> wk_session t = restore_domain (wk_session w) (wk_session t) \<and> wk_applied t = wk_applied w)"
proof (cases "validate_patch_command v w (MergeAgentPatch gate actor decision)")
  case (Inl e)
  with assms(5) show ?thesis
    by (auto simp: handle_patch_command_def)
next
  case valid: (Inr u)
  let ?w = "w\<lparr>wk_undo := []\<rparr>"
  obtain x t1 where run: "merge_agent_patch v gate actor (default_text ''patch merged'' decision) ?w = (x, t1)" by fastforce
  have t1: "staged (wk_tree w) t1"
      "same_nodes (wk_tree w) (wk_tree t1) \<or> (\<exists>es. x = Ok es \<and> merge_published es gate)"
    using merge_staged [OF _ _ _ assms(3) run] assms(1,2) by (simp_all add: flat_patch_def)
  have rejected: ?thesis if "staged (wk_tree w) t2" "(r, t) = (case roll_back v w t2 of
      (Inl m, u) \<Rightarrow> (Err (e @ ''; rollback failed: '' @ m), u) | (Inr _, u) \<Rightarrow> (Ok (CommandRejected e), u))" for t2 e
    using roll_back_staged [OF assms(1) that(1) assms(4), of w] that(2) by auto
  show ?thesis
  proof (cases x)
    case (Inl e)
    with run valid assms(5) have "(r, t) = (case roll_back v w t1 of
      (Inl m, u) \<Rightarrow> (Err (e @ ''; rollback failed: '' @ m), u) | (Inr _, u) \<Rightarrow> (Ok (CommandRejected e), u))"
      by (simp add: handle_patch_command_def op_bind_def)
    with t1(1) show ?thesis by (rule rejected)
  next
    case x: (Inr es)
    obtain y s where y: "persist_domain_events (wv_trust v) es (wk_session t1) = (y, s)" by fastforce
    show ?thesis
    proof (cases y)
      case (Inl e)
      have "(r, t) = (case roll_back v w (t1\<lparr>wk_session := s\<rparr>) of
        (Inl m, u) \<Rightarrow> (Err (e @ ''; rollback failed: '' @ m), u) | (Inr _, u) \<Rightarrow> (Ok (CommandRejected e), u))"
        using run valid assms(5) x y Inl by (simp add: handle_patch_command_def op_bind_def in_session_def)
      moreover have "staged (wk_tree w) (t1\<lparr>wk_session := s\<rparr>)"
        using t1(1) by simp
      ultimately show ?thesis by (intro rejected)
    next
      case (Inr z)
      with run valid assms(5) x y have "r = Ok (CommandAccepted es)" "wk_tree t = wk_tree t1"
        by (auto simp: handle_patch_command_def op_bind_def in_session_def)
      with t1(2) x show ?thesis by auto
    qed
  qed
qed

text \<open>The disk is full at the second file.\<close>

theorem unmerged_patch_leaves_the_tree_witness:
  "\<exists>r t. handle_patch_command (merge_env\<lparr>wv_patch := disk_full\<rparr>) (MergeAgentPatch ''gate-t1'' demo_owner None) merge_shop = (r, t)
     \<and> (same_nodes demo_tree (wk_tree t) \<or> (\<exists>es. r = Ok (CommandAccepted es)))"
proof -
  let ?v = "merge_env\<lparr>wv_patch := disk_full\<rparr>"
  obtain r t where run: "handle_patch_command ?v (MergeAgentPatch ''gate-t1'' demo_owner None) merge_shop = (r, t)" by fastforce
  have "tree_ok (wk_tree merge_shop)" "flat_patch (wv_trust ?v) ''gate-t1'' demo_owner merge_shop"
      "wv_restore_faults ?v = (\<lambda>_. NoFault)" "wv_rollback_faults ?v = (\<lambda>_. NoFault)"
    using demo_tree_ok merge_flat by (simp_all add: merge_env_simps merge_shop_simps)
  from unmerged_patch_leaves_the_tree [OF this run] run show ?thesis
    by (auto simp: merge_shop_simps)
qed

section \<open>Reverting\<close>

lemma stage_paths_tree: "stage_paths rs w = (x, t) \<Longrightarrow> wk_tree t = wk_tree w"
  by (auto simp: stage_paths_def split: prod.splits)

lemma in_session_frame: "in_session m w = (x, t) \<Longrightarrow> \<exists>s. m (wk_session w) = (x, s) \<and> t = w\<lparr>wk_session := s\<rparr>"
  by (auto simp: in_session_def split: prod.splits)

lemma revert_trace:
  assumes "revert_applied_change v gate ow reason w = (Ok es, t)"
  obtains k change original label where "revert_preflight v gate ow reason w = Ok (k, change, original, label)"
    "restore_file_rollbacks (wv_restore_faults v) original (wk_tree w) = (Ok (), wk_tree t)"
proof -
  obtain k change original label where pre: "revert_preflight v gate ow reason w = Ok (k, change, original, label)"
    using assms by (auto simp: revert_applied_change_def Let_def op_check_Inr)
  with assms obtain w1 w2 w3 w4 w5 where steps:
      "in_session (require_trust_permission (wv_trust v) ''revert_applied_change''
         (''gate='' @ gate @ '' change='' @ change) None) w = (Ok (), w1)"
      "in_session (append_trust_audit (wv_trust v) (revert_audit (wv_trust v) gate
         (mg_task_id (ss_gates (wk_session w1) ! k)) change ow (restored_paths (wk_tree w1) original))) w1 = (Ok (), w2)"
      "stage_paths (map fr_path original) w2 = (Ok (), w3)"
      "in_session (persist_merge_gate_precommit v k ''audit-revert-precommit'') w3 = (Ok (), w4)"
      "in_tree (restore_file_rollbacks (wv_restore_faults v) original) w4 = (Ok (), w5)"
      "in_session (settle_revert (wv_trust v) k (revert_of (wv_trust v) gate change ow label (restored_paths (wk_tree w1) original)))
         (w5\<lparr>wk_applied := AList.delete change (wk_applied w5)\<rparr>) = (Ok es, t)"
    by (auto simp: revert_applied_change_def Let_def op_check_Inr op_bind_Inr)
  have "wk_tree w4 = wk_tree w"
    using in_session_frame [OF steps(1)] in_session_frame [OF steps(2)] stage_paths_tree [OF steps(3)]
      in_session_frame [OF steps(4)] by auto
  moreover have "wk_tree t = wk_tree w5"
    using in_session_frame [OF steps(6)] by auto
  ultimately have "restore_file_rollbacks (wv_restore_faults v) original (wk_tree w) = (Ok (), wk_tree t)"
    using steps(5) by (auto simp: in_tree_def split: prod.splits)
  with pre show thesis by (rule that)
qed

lemma revert_preflight_Ok:
  "revert_preflight v gate ow reason w = Ok (k, change, original, label) \<Longrightarrow>
   require_gate (wk_session w) gate = Ok k \<and> revert_source v w (ss_gates (wk_session w) ! k) change = Ok original"
  by (auto simp: revert_preflight_def Let_def guarded_Inr try_then_Inr)

text \<open>C5: A merge followed by its revert gives the tree back: a revert that succeeds on the tree the merge
  left, however much later, in whichever process and whatever became of the recovery directory in
  between, restores every node the tree had before the merge, contents, modes and directories alike.
  It needs the gate to refer to the merge's snapshot still, restoring to meet no fault, and that no one
  finds other bytes with the hashes of the snapshot.\<close>

theorem revert_restores_the_tree:
  assumes "tree_ok (wk_tree w)" "snapshot_trusted v gate actor w"
    and "merge_agent_patch v gate actor label w = (Ok es, t)" "require_gate (wk_session w) gate = Ok i"
    and "mg_status (ss_gates (wk_session t) ! i) = GateMerged"
    and "revert_applied_change v' gate' ow reason u = (Ok es', u')" "require_gate (wk_session u) gate' = Ok k"
    and "wk_tree u = wk_tree t" "mg_recovery (ss_gates (wk_session u) ! k) = mg_recovery (ss_gates (wk_session t) ! i)"
    and "wv_recovery v' = wv_recovery v" "wv_restore_faults v' = (\<lambda>_. NoFault)"
  shows "same_nodes (wk_tree w) (wk_tree u')"
proof -
  let ?d = "wk_tree w"
  from merged_trace [OF assms(3-5)] obtain diff a s fs entries reference rd s1 where diff:
      "preflight_merge_agent_patch (wv_trust v) gate actor (wk_session w) = Ok diff"
    and "granted_showing (wv_trust v) ''merge_agent_patch'' (''gate='' @ gate) (Some (wv_context v diff)) (wk_session w)"
    and a: "prepare_patch ?d diff = Inr a"
    and fs: "stage_rollback_paths ?d (map change_path (pa_changes a)) = (Ok (), fs)"
    and snapshot: "recovery_entries_for_patch (te_sha (wv_trust v)) ?d fs (pa_changes a) = Ok entries"
      "write_recovery_snapshot (wv_recovery v) (change_of v) entries (wk_recovery w) = (Ok reference, rd)"
    and wrote: "write_changes (\<lambda>_. NoFault) (pa_changes a) ?d = (Inr (), wk_tree t)"
    and s: "asked_from (wk_session w) s"
    and s1: "persist_merge_gate_precommit v i ''audit-merge-precommit''
         (update_gate i (snapshot_gate (change_of v) reference) s) = (Ok (), s1)"
    and settled: "settle_merge (wv_trust v) i (sanitize_runtime_domain_text label 240) (change_of v) s1 = (Ok es, wk_session t)"
    and "wk_recovery t = rd" and "map_of (wk_applied t) (change_of v) = Some fs" .
  have ok: "\<forall>c\<in>set (pa_changes a). change_ok ?d c"
    using prepare_patch_ok [OF assms(1) a] by blast
  have anti: "antichain (changed_paths a)"
    using written_antichain [OF assms(1) ok snapshot_distinct [OF snapshot] wrote] by (simp add: changed_paths_def)
  note targets = prepared_targets [OF assms(1) a anti]
  have staged: "\<forall>f\<in>set fs. remembers ?d f"
    using stage_rollback_paths_Ok [OF assms(1) fs] by blast
  have trusted: "codec_ok (wv_recovery v) (change_of v) entries" "no_second_preimage (wv_recovery v) (change_of v) entries"
    using assms(2) diff a fs snapshot(1) unfolding snapshot_trusted_def by blast+
  have gate: "require_gate s gate = Ok i"
    using require_gate_asked [OF s] assms(4) by simp
  have reference: "mg_recovery (ss_gates (wk_session t) ! i) = Some reference"
    using precommit_gate [OF s1 gate] settle_merge_Ok [OF settled] require_gate_Ok [OF gate]
    by (simp add: snapshot_gate_def)
  from revert_trace [OF assms(6)] obtain k' change original reason' where
      pre: "revert_preflight v' gate' ow reason u = Ok (k', change, original, reason')"
    and restored: "restore_file_rollbacks (wv_restore_faults v') original (wk_tree u) = (Ok (), wk_tree u')" .
  have "revert_source v' u (ss_gates (wk_session u) ! k) change = Ok original"
    using revert_preflight_Ok [OF pre] assms(7) by simp
  then obtain loaded where loaded: "load_recovery_snapshot (wv_recovery v) reference (wk_recovery u) = Ok loaded"
      "all_ok (map (loaded_rollback (te_sha (wv_trust v')) (wk_tree u)) loaded) = Ok original"
    using assms(9,10) reference by (auto simp: revert_source_def load_recovery_rollbacks_def try_then_Inr guarded_Inr)
  obtain ls where ls: "list_all2 normalized_entry entries ls" "loaded = by_path ls"
    using loads_only_what_was_written [OF trusted snapshot(2) loaded(1)] by blast
  note held = recovered_rollbacks [OF ok staged snapshot(1) ls(1) loaded(2) [unfolded ls(2)]]
  have "midway ?d (changed_paths a) (wk_tree t)"
    using midway_write_changes [OF targets midway_refl [OF assms(1) targets], of "pa_changes a" "\<lambda>_. NoFault"] wrote
    by (simp add: changed_paths_def)
  moreover have "same_root ?d (wk_tree t)"
    using same_root_changes [of ?d "\<lambda>_. NoFault" "pa_changes a"] wrote by simp
  moreover have "(\<forall>f\<in>set original. fr_path f \<in> changed_paths a \<and> remembers ?d f) \<and> changed_paths a \<subseteq> fr_path ` set original"
    using held by (simp add: changed_paths_def)
  moreover have "transaction_root ?d = Ok ()" if "pa_changes a \<noteq> []"
  proof -
    have "stage_each ?d (map change_path (pa_changes a)) = (Ok (), fs)"
      using fs by (simp add: stage_rollback_paths_def split: sum.splits)
    moreover have "fs \<noteq> []"
      using that stage_rollback_paths_Ok [OF assms(1) fs] by auto
    ultimately show ?thesis by (rule stage_each_root)
  qed
  moreover have "wk_tree u' = wk_tree t \<and> wk_tree t = ?d" if "pa_changes a = []"
    using that wrote restored held assms(8) by (auto simp: restore_file_rollbacks_def)
  ultimately show ?thesis
    using restore_file_rollbacks_back [OF targets assms(1)] restored assms(8,11) by (cases "pa_changes a = []") fastforce+
qed

theorem revert_restores_the_tree_witness:
  "\<exists>es u. revert_run = (Ok es, u) \<and> same_nodes demo_tree (wk_tree u)"
proof -
  obtain es t where run: "merge_run = (Ok es, t)" "mg_status (ss_gates (wk_session t) ! 0) = GateMerged"
      "wk_tree t = merged_tree" "mg_recovery (ss_gates (wk_session t) ! 0) = Some merge_saved"
      "require_gate (wk_session merge_shop) ''gate-t1'' = Ok 0"
    by (rule ship_merged)
  obtain es' u where undone: "revert_run = (Ok es', u)"
    using demo_reverts by blast
  have "tree_ok (wk_tree merge_shop)" "snapshot_trusted merge_env ''gate-t1'' demo_owner merge_shop"
    using demo_tree_ok merge_trusted by (simp_all add: merge_shop_simps)
  then have "same_nodes (wk_tree merge_shop) (wk_tree u)"
    using run undone merged_shop_simps merged_gates merge_env_simps(4)
    by (intro revert_restores_the_tree [OF _ _ run(1,5,2) undone merged_gates _ _ refl]) simp_all
  with undone show ?thesis
    by (simp add: merge_shop_simps)
qed

text \<open>C7: A revert never overwrites work done after the merge: when one path of the snapshot no longer holds
  the bytes the merge published there, or a path that was to be gone is there again, the revert is
  refused, by the command boundary and by the operation, and nothing at all has changed.\<close>

theorem revert_refuses_changed_files:
  assumes "require_gate (wk_session w) gate = Ok i" "mg_recovery (ss_gates (wk_session w) ! i) = Some reference"
    and "load_recovery_snapshot (wv_recovery v) reference (wk_recovery w) = Ok entries" "e \<in> set entries"
    and "verify_expected_postimage (te_sha (wv_trust v)) (wk_tree w) (path_key (se_path e)) (se_postimage_sha e) = Err m"
  shows "\<exists>m1 m2. revert_applied_change v gate ow reason w = (Err m1, w)
    \<and> handle_patch_command v (RevertAppliedChange gate ow reason) w = (Ok (CommandRejected m2), w)"
proof -
  have "loaded_rollback (te_sha (wv_trust v)) (wk_tree w) e \<noteq> Ok f" for f
    using assms(5) by (simp add: loaded_rollback_def Let_def guarded_Inr is_ok_iff)
  then have "all_ok (map (loaded_rollback (te_sha (wv_trust v)) (wk_tree w)) entries) \<noteq> Ok fs" for fs
    using assms(4) list_all2_sides(2) [OF all_ok_pairs] by metis
  then have source: "revert_source v w (ss_gates (wk_session w) ! i) change \<noteq> Ok fs" for change fs
    using assms(2,3) by (simp add: revert_source_def load_recovery_rollbacks_def guarded_Inr)
  have "revert_preflight v gate ow reason w \<noteq> Ok x" for x
    using revert_preflight_Ok [of v gate ow reason w] assms(1) source by (cases x) auto
  then obtain m1 where "revert_preflight v gate ow reason w = Err m1"
    by (cases "revert_preflight v gate ow reason w") auto
  moreover have "describe_revert v gate ow reason w \<noteq> Ok x" for x
    using assms(1) source by (auto simp: describe_revert_def Let_def guarded_Inr try_then_Inr)
  then obtain m2 where "describe_revert v gate ow reason w = Err m2"
    by (cases "describe_revert v gate ow reason w") auto
  ultimately show ?thesis
    by (simp add: revert_applied_change_def handle_patch_command_def op_check_def Let_def)
qed

text \<open>The file was put back to what it was before the merge.\<close>

theorem revert_refuses_changed_files_witness:
  "\<exists>m. revert_applied_change merge_env ''gate-t1'' demo_owner ''no'' (merged_shop\<lparr>wk_tree := demo_tree\<rparr>)
     = (Err m, merged_shop\<lparr>wk_tree := demo_tree\<rparr>)"
proof -
  let ?w = "merged_shop\<lparr>wk_tree := demo_tree\<rparr>"
  have load: "load_recovery_snapshot merge_recovery merge_saved merged_disk = Ok merge_entries"
    by code_simp
  have changed: "verify_expected_postimage merge_sha demo_tree (path_key (se_path (hd merge_entries))) (se_postimage_sha (hd merge_entries))
     = Err ''postimage `/w/a` changed after merge''"
    by code_simp
  have "hd merge_entries \<in> set merge_entries"
    by (simp add: merge_entries_def)
  with revert_refuses_changed_files [of ?w "''gate-t1''" 0 merge_saved merge_env merge_entries "hd merge_entries"
      "''postimage `/w/a` changed after merge''" demo_owner "''no''"] load changed merged_gates
  show ?thesis
    by (auto simp: merge_env_simps merged_shop_simps)
qed

text \<open>C8: A revert is audited before it touches a file: whenever it has changed the tree, even when it then
  failed, the audit log ends with a record of it that names the gate, under the id that the gate's
  decision and the revert record carry.\<close>

theorem revert_is_audited_first:
  assumes "revert_applied_change v gate ow reason w = (r, t)" "wk_tree t \<noteq> wk_tree w"
  shows "\<exists>rec. ss_audit (wk_session t) = ss_audit (wk_session w) @ [rec] \<and> au_action rec = ''change.reverted''
    \<and> au_audit_id rec = te_fresh (wv_trust v) ''audit'' 0 \<and> audit_object ''merge_gate'' gate \<in> set (au_objects rec)"
proof (cases "revert_preflight v gate ow reason w")
  case (Inl e)
  with assms show ?thesis by (simp add: revert_applied_change_def op_check_def Let_def)
next
  case (Inr x)
  obtain k change original label where x: "x = (k, change, original, label)" by (cases x) auto
  let ?env = "wv_trust v"
  obtain y s1 where ask: "require_trust_permission ?env ''revert_applied_change''
      (''gate='' @ gate @ '' change='' @ change) None (wk_session w) = (y, s1)" by fastforce
  let ?audit = "revert_audit ?env gate (mg_task_id (ss_gates s1 ! k)) change ow (restored_paths (wk_tree w) original)"
  obtain z s2 where log: "append_trust_audit ?env ?audit s1 = (z, s2)" by fastforce
  have yz: "y = Ok () \<and> z = Ok ()"
  proof (rule ccontr)
    assume "\<not> (y = Ok () \<and> z = Ok ())"
    then have "wk_tree t = wk_tree w"
      using assms(1) Inr x ask log
      by (cases y; cases z) (auto simp: revert_applied_change_def op_check_def op_bind_def in_session_def Let_def)
    with assms(2) show False ..
  qed
  from append_trust_audit_Inr [of ?env ?audit s1 "()" s2] log yz obtain rec where rec: "?audit = Inr rec"
      "s2 = s1\<lparr>ss_audit := ss_audit s1 @ [rec]\<rparr>" by auto
  have same: "ss_audit s1 = ss_audit (wk_session w)"
  proof -
    have "asked_from (wk_session w) s1"
      using require_permission_frame [of "wk_session w" ?env "''revert_applied_change''" "''gate='' @ gate @ '' change='' @ change" None]
      unfolding ask by simp
    then show ?thesis
      by (rule asked_gates [THEN conjunct2, THEN conjunct1])
  qed
  have "ss_audit (wk_session t) = ss_audit s2"
  proof -
    obtain q w3 where q: "stage_paths (map fr_path original) (w\<lparr>wk_session := s2\<rparr>) = (q, w3)" by fastforce
    then have w3: "wk_session w3 = s2"
      by (auto simp: stage_paths_def split: prod.splits)
    obtain q2 s3 where q2: "persist_merge_gate_precommit v k ''audit-revert-precommit'' s2 = (q2, s3)" by fastforce
    have s3: "ss_audit s3 = ss_audit s2"
      using q2 by (auto simp: persist_merge_gate_precommit_def persist_domain_events_def op_check_def Let_def split: sum.splits)
    obtain q3 d where q3: "restore_file_rollbacks (wv_restore_faults v) original (wk_tree w3) = (q3, d)" by fastforce
    have settle: "ss_audit (snd (settle_revert ?env k rec' s3)) = ss_audit s3" for rec'
      by (simp add: settle_revert_def touch_task_def Let_def split: option.splits)
    show ?thesis
    proof (cases q)
      case (Inl e)
      with assms(1) Inr x ask log yz q have "t = w3"
        by (simp add: revert_applied_change_def op_check_def op_bind_def in_session_def Let_def)
      with w3 show ?thesis by simp
    next
      case q_ok: (Inr u)
      show ?thesis
      proof (cases "\<exists>e. q2 = Inl e \<or> q2 = Ok () \<and> q3 = Inl e")
        case True
        with assms(1) Inr x ask log yz q q2 q3 w3 q_ok have "wk_session t = s3"
          by (auto simp: revert_applied_change_def op_check_def op_bind_def in_session_def in_tree_def Let_def)
        with s3 show ?thesis by simp
      next
        case False
        then have ok: "q2 = Ok () \<and> q3 = Ok ()"
          by (cases q2; cases q3) auto
        let ?rec = "revert_of ?env gate change ow label (restored_paths (wk_tree w) original)"
        obtain q4 s4 where q4: "settle_revert ?env k ?rec s3 = (q4, s4)" by fastforce
        with assms(1) Inr x ask log yz q q2 q3 w3 q_ok ok have "wk_session t = s4"
          by (auto simp: revert_applied_change_def op_check_def op_bind_def in_session_def in_tree_def Let_def)
        with settle [of ?rec] q4 s3 show ?thesis by simp
      qed
    qed
  qed
  with same rec trust_audit_Inr [OF rec(1) [unfolded revert_audit_def]] show ?thesis
    by auto
qed

theorem revert_is_audited_first_witness:
  "\<exists>es t rec. revert_run = (Ok es, t) \<and> ss_audit (wk_session t) = [rec] \<and> au_audit_id rec = ''audit-1''"
proof -
  obtain es t where run: "revert_run = (Ok es, t)" "wk_tree t = demo_tree"
    using demo_reverts by blast
  have "wt_nodes demo_tree \<noteq> wt_nodes merged_tree"
    by (simp add: demo_tree_def merged_tree_def)
  then have "wk_tree t \<noteq> wk_tree merged_shop"
    using run(2) merged_shop_simps(1) by auto
  from revert_is_audited_first [OF run(1) this] run(1) show ?thesis
    by (auto simp: merge_env_simps) (simp add: merged_shop_def merge_session_def demo_session_def)
qed

end
