(* ===== verification/Applied_Limits.thy ===== *)
theory Applied_Limits
  imports Applied_Safety
begin

text \<open>
  Where merging a patch does less than its documents and comments say: refused files, the audit
  timeline, a file with two sections, and what is told of a patch that the tree refuses.
\<close>

section \<open>What a merge leaves out\<close>

text \<open>A merge does not look at what the backend refused: it ends the same whichever files of the patch
  were refused. So the binary files of a merged patch are left out without a trace, and a patch of
  nothing but binary files is marked as merged with nothing written.\<close>

theorem merge_ignores_refusals:
  "apply_merge v i decision (a\<lparr>pa_refusals := refusals\<rparr>) w = apply_merge v i decision a w"
proof -
  have "write_merge v i decision change (a\<lparr>pa_refusals := refusals\<rparr>) u = write_merge v i decision change a u" for change u
  proof -
    let ?a = "a\<lparr>pa_refusals := refusals\<rparr>"
    obtain x d where x: "write_application (wv_patch v) a (wk_tree u) = (x, d)" by fastforce
    have "write_application (wv_patch v) ?a (wk_tree u)
        = (case x of Inl e \<Rightarrow> Inl e | Inr out \<Rightarrow> Inr (success_outcome ?a), d)"
      using x by (auto simp: write_application_def split: sum.splits prod.splits)
    with x show ?thesis
      by (cases x) (simp_all add: write_merge_def)
  qed
  then have "write_merge v i decision change (a\<lparr>pa_refusals := refusals\<rparr>) = write_merge v i decision change a" for change
    by (rule ext)
  then show ?thesis
    by (simp add: apply_merge_def)
qed

text \<open>A merge writes no audit record: when it is done the audit log is what it was, although the gate's
  new decision carries a fresh audit id.\<close>

theorem merge_leaves_no_audit_record:
  assumes "merge_agent_patch v gate actor label w = (Ok es, t)" "require_gate (wk_session w) gate = Ok i"
    and "mg_status (ss_gates (wk_session t) ! i) = GateMerged"
  shows "ss_audit (wk_session t) = ss_audit (wk_session w)
    \<and> map_option gd_audit_id (mg_decision (ss_gates (wk_session t) ! i)) = Some (te_fresh (wv_trust v) ''audit'' 0)"
proof -
  from merged_trace [OF assms] obtain reference s s1 where s: "asked_from (wk_session w) s"
      "persist_merge_gate_precommit v i ''audit-merge-precommit''
         (update_gate i (snapshot_gate (change_of v) reference) s) = (Ok (), s1)"
      "settle_merge (wv_trust v) i (sanitize_runtime_domain_text label 240) (change_of v) s1 = (Ok es, wk_session t)"
    by metis
  have gate: "require_gate s gate = Ok i"
    using require_gate_asked [OF s(1)] assms(2) by simp
  have "ss_audit s1 = ss_audit (wk_session w)" "i < length (ss_gates s1)"
    using precommit_gate [OF s(2) gate] asked_gates [OF s(1)] require_gate_Ok [OF gate] by (simp_all add: snapshot_gate_def)
  with settle_merge_Ok [OF s(3)] show ?thesis
    by (simp add: decided_now_def)
qed

theorem merge_leaves_no_audit_record_witness:
  "\<exists>es t. merge_run = (Ok es, t) \<and> ss_audit (wk_session t) = []"
proof -
  obtain es t where run: "merge_run = (Ok es, t)" "mg_status (ss_gates (wk_session t) ! 0) = GateMerged"
      "require_gate (wk_session merge_shop) ''gate-t1'' = Ok 0"
    by (rule ship_merged)
  from merge_leaves_no_audit_record [OF run(1,3,2)] run(1) show ?thesis
    by (simp add: merge_shop_simps merge_session_def demo_session_def)
qed

text \<open>A patch with two sections for one file, which the backend applies, cannot be merged: the recovery
  snapshot refuses the second section, and the merge fails.\<close>

theorem two_sections_cannot_be_merged:
  assumes "\<not> distinct (map change_path (pa_changes a))"
  shows "\<exists>e. fst (apply_merge v i decision a w) = Err e"
proof (cases "apply_merge v i decision a w")
  case (Pair r t)
  then show ?thesis
  proof (cases rule: apply_merge_split)
    case (written w1 entries reference rd s1)
    from snapshot_distinct [OF written(2,3)] assms show ?thesis by simp
  qed (use Pair in simp)
qed

theorem two_sections_cannot_be_merged_witness:
  "\<exists>e. fst (apply_merge merge_env 0 ''ship'' \<lparr>pa_changes = [PatchWrite [''a''] [], PatchDelete [''a'']], pa_refusals = []\<rparr> merge_shop) = Err e"
  using two_sections_cannot_be_merged [of "\<lparr>pa_changes = [PatchWrite [''a''] [], PatchDelete [''a'']], pa_refusals = []\<rparr>"]
  by simp

section \<open>A patch below itself\<close>

text \<open>The changes of a patch that creates \<open>p\<close> and \<open>p/q\<close>, what is staged for them, and the tree the backend
  leaves when it has failed on the second write and could not roll back.\<close>

definition nested_changes :: patch_application where
  "nested_changes = \<lparr>pa_changes = [PatchWrite [''p''] (unlines [''w'']), PatchWrite [''p'', ''q''] (unlines [''v''])], pa_refusals = []\<rparr>"

definition nested_staged :: "file_rollback list" where
  "nested_staged = [\<lparr>fr_path = [''p''], fr_contents = None, fr_mode = None, fr_created = []\<rparr>,
     \<lparr>fr_path = [''p'', ''q''], fr_contents = None, fr_mode = None, fr_created = [[''p'']]\<rparr>]"

definition nested_tree :: work_tree where
  "nested_tree = demo_tree\<lparr>wt_nodes := wt_nodes demo_tree @ [([''p''], FileNode (unlines [''w'']) 384)]\<rparr>"

lemma nested_prepares: "prepare_patch demo_tree nested_diff = Inr nested_changes"
  by code_simp

lemma nested_stages: "stage_rollback_paths demo_tree (map change_path (pa_changes nested_changes)) = (Ok (), nested_staged)"
  by code_simp

lemma nested_writes: "write_application calm nested_changes demo_tree = (Inl (IoError (''p/q: '' @ not_a_directory)), nested_tree)"
  by code_simp

lemma nested_restores:
  "\<exists>e. restore_file_rollbacks (\<lambda>_. NoFault) nested_staged nested_tree = (Err e, nested_tree)"
proof -
  have "\<not> is_ok (fst (restore_file_rollbacks (\<lambda>_. NoFault) nested_staged nested_tree))"
    by code_simp
  moreover have "snd (restore_file_rollbacks (\<lambda>_. NoFault) nested_staged nested_tree) = nested_tree"
    by code_simp
  ultimately show ?thesis
    by (cases "restore_file_rollbacks (\<lambda>_. NoFault) nested_staged nested_tree";
        cases "fst (restore_file_rollbacks (\<lambda>_. NoFault) nested_staged nested_tree)") auto
qed

text \<open>The runtime does not undo it either: writing the patch fails, the restoring that follows stops at the
  path it cannot check, the rollback of the command stops there too, and the new file stays in the tree
  although nothing was merged and no call of the file system met a fault.\<close>

theorem nested_merge_leaves_a_file:
  "\<exists>e t e' u. write_merge merge_env 0 ''ship'' ''change-1'' nested_changes (merge_shop\<lparr>wk_undo := nested_staged\<rparr>) = (Err e, t)
    \<and> roll_back merge_env merge_shop t = (Err e', u)
    \<and> node_at (wk_tree merge_shop) [''p''] = None \<and> node_at (wk_tree u) [''p''] = Some (FileNode (unlines [''w'']) 384)"
proof -
  obtain e where e: "restore_file_rollbacks (\<lambda>_. NoFault) nested_staged nested_tree = (Err e, nested_tree)"
    using nested_restores by blast
  have "write_merge merge_env 0 ''ship'' ''change-1'' nested_changes (merge_shop\<lparr>wk_undo := nested_staged\<rparr>)
      = (Err e, merge_shop\<lparr>wk_undo := nested_staged, wk_tree := nested_tree\<rparr>)"
    using e nested_writes by (simp add: write_merge_def undo_and_bounce_def op_bind_def restore_transaction_files_def
      in_tree_def merge_env_simps merge_shop_simps)
  moreover have "roll_back merge_env merge_shop (merge_shop\<lparr>wk_undo := nested_staged, wk_tree := nested_tree\<rparr>)
      = (Err e, merge_shop\<lparr>wk_session := restore_domain merge_session merge_session, wk_undo := nested_staged, wk_tree := nested_tree\<rparr>)"
    using e by (simp add: roll_back_def op_bind_def restore_transaction_files_def in_tree_def merge_env_simps merge_shop_def)
  moreover have "node_at nested_tree [''p''] = Some (FileNode (unlines [''w'']) 384)" "node_at demo_tree [''p''] = None"
    by (simp_all add: nested_tree_def demo_tree_def node_at_def)
  ultimately show ?thesis
    by (simp add: merge_shop_simps)
qed

section \<open>What becomes of a refused patch\<close>




text \<open>The patch of a gate whose owner has no lane, as every gate has that starting a DAG creates, is never
  bounced when the tree refuses it: the lane made up for it is not the owner's, so that the merge fails
  with an error about lanes and the refusal is lost.\<close>

theorem laneless_refusal_is_lost:
  assumes "ow_lane_id (mg_owner (ss_gates (wk_session w) ! i)) = None"
  shows "mark_agent_patch_conflict v i reason rejected w
    = (Err ''merge conflict bounce must target the gate owner origin lane'', w)"
  using assms
  by (simp add: mark_agent_patch_conflict_def validate_conflict_bounce_def record_conflict_bounce_def in_session_def
      op_check_def Let_def ensure_def guarded.simps)

text \<open>The gate that starting a DAG makes of the specification.\<close>

theorem laneless_refusal_is_lost_witness:
  "mark_agent_patch_conflict merge_env 0 ''no'' None
      (merge_shop\<lparr>wk_session := merge_session\<lparr>ss_gates := [gate_from_spec (demo_spec ''t1'' []) 100]\<rparr>\<rparr>)
    = (Err ''merge conflict bounce must target the gate owner origin lane'',
       merge_shop\<lparr>wk_session := merge_session\<lparr>ss_gates := [gate_from_spec (demo_spec ''t1'' []) 100]\<rparr>\<rparr>)"
  by (rule laneless_refusal_is_lost) (simp add: gate_from_spec_def default_owner_def)

end
