(* ===== verification/Plan_Documents.thy ===== *)
theory Plan_Documents
  imports Trust_Commands Paged_Reads
begin

text \<open>
  Plan documents (\<open>crates/types/src/plan.rs\<close>, \<open>crates/runtime/src/plan_documents.rs\<close>): a planner or the
  operator proposes a plan, the operator decides the revision that was read, and an accepted plan is
  handed off as an agent DAG. The hash is an argument, as in the context store.
\<close>

section \<open>Plans\<close>

datatype plan_status = PlanDrafting | PlanProposed | PlanAccepted | PlanRejected | PlanHandedOff | PlanSuperseded

fun plan_is_open :: "plan_status \<Rightarrow> bool" where
  "plan_is_open st \<longleftrightarrow> st = PlanDrafting \<or> st = PlanProposed \<or> st = PlanAccepted"

fun plan_status_text :: "plan_status \<Rightarrow> string" where
  "plan_status_text PlanDrafting = ''drafting''"
| "plan_status_text PlanProposed = ''proposed''"
| "plan_status_text PlanAccepted = ''accepted''"
| "plan_status_text PlanRejected = ''rejected''"
| "plan_status_text PlanHandedOff = ''handed_off''"
| "plan_status_text PlanSuperseded = ''superseded''"

datatype step_status = StepPending | StepInProgress | StepCompleted

fun step_status_text :: "step_status \<Rightarrow> string" where
  "step_status_text StepPending = ''pending''"
| "step_status_text StepInProgress = ''in_progress''"
| "step_status_text StepCompleted = ''completed''"

record plan_step =
  pt_id :: string
  pt_title :: string
  pt_status :: step_status
  pt_role :: "agent_role option"
  pt_file_scope :: "string list"
  pt_dependencies :: "string list"

record step_draft =
  sr_title :: string
  sr_status :: step_status
  sr_role :: "agent_role option"
  sr_file_scope :: "string list"
  sr_dependencies :: "string list"

datatype section_kind = Requirements | Assumptions | Constraints | ArchitectureDecisions | Risks
  | TestStrategy | AcceptanceCriteria

fun section_kind_text :: "section_kind \<Rightarrow> string" where
  "section_kind_text Requirements = ''requirements''"
| "section_kind_text Assumptions = ''assumptions''"
| "section_kind_text Constraints = ''constraints''"
| "section_kind_text ArchitectureDecisions = ''architecture_decisions''"
| "section_kind_text Risks = ''risks''"
| "section_kind_text TestStrategy = ''test_strategy''"
| "section_kind_text AcceptanceCriteria = ''acceptance_criteria''"

record plan_section =
  pk_kind :: section_kind
  pk_body :: string

datatype plan_author = ByAssistant string string | ByOperator

record plan_handoff =
  hf_dag_id :: string
  hf_handed_off_at :: u64
  hf_audit_id :: string

record plan_document =
  pd_plan_id :: string
  pd_owner :: runtime_owner
  pd_title :: string
  pd_goal :: string
  pd_status :: plan_status
  pd_revision :: u32
  pd_content_sha :: string
  pd_sections :: "plan_section list"
  pd_steps :: "plan_step list"
  pd_proposed_by :: plan_author
  pd_created_at :: u64
  pd_updated_at :: u64
  pd_decided_at :: "u64 option"
  pd_decision_audit :: "string option"
  pd_handoff :: "plan_handoff option"

record plan_draft =
  dr_owner :: runtime_owner
  dr_title :: string
  dr_goal :: string
  dr_sections :: "plan_section list"
  dr_steps :: "step_draft list"

section \<open>Drafts\<close>

definition max_plan_steps :: nat where "max_plan_steps = 64"
definition max_plan_title_bytes :: nat where "max_plan_title_bytes = 256"
definition max_plan_goal_bytes :: nat where "max_plan_goal_bytes = 4 * 1024"
definition max_plan_section_body_bytes :: nat where "max_plan_section_body_bytes = 16 * 1024"
definition max_plan_step_file_scope :: nat where "max_plan_step_file_scope = 64"
definition max_plan_file_scope_entry_bytes :: nat where "max_plan_file_scope_entry_bytes = 512"
definition max_plan_reject_reason_bytes :: nat where "max_plan_reject_reason_bytes = 2 * 1024"

definition id_for_position :: "nat \<Rightarrow> string" where
  "id_for_position p = ''step_'' @ show_nat (p + 1)"

fun section_checks :: "section_kind list \<Rightarrow> plan_section list \<Rightarrow> unit res list" where
  "section_checks seen [] = []"
| "section_checks seen (s # ss) =
     [ensure (pk_kind s \<notin> set seen) (''plan section `'' @ section_kind_text (pk_kind s)
        @ ''` appears more than once; a plan carries at most one section per kind''),
      ensure (length (pk_body s) \<le> max_plan_section_body_bytes) (''plan section `'' @ section_kind_text (pk_kind s)
        @ ''` exceeds the '' @ show_nat max_plan_section_body_bytes @ '' byte bound'')]
     @ section_checks (pk_kind s # seen) ss"

definition scope_path_checks :: "string \<Rightarrow> string \<Rightarrow> unit res list" where
  "scope_path_checks i p =
     [ensure (length p \<le> max_plan_file_scope_entry_bytes) (''plan step `'' @ i @ ''` scopes a path over the ''
        @ show_nat max_plan_file_scope_entry_bytes @ '' byte bound''),
      ensure (\<not> starts_with ''/'' p \<and> ''..'' \<notin> set (split_on (CHR ''/'') p))
        (''plan step `'' @ i @ ''` scopes `'' @ p @ ''`, which is not workspace-relative'')]"

definition dependency_checks :: "string list \<Rightarrow> string \<Rightarrow> string \<Rightarrow> unit res list" where
  "dependency_checks ids i d =
     [ensure (d \<noteq> i) (''plan step `'' @ i @ ''` depends on itself''),
      ensure (d \<in> set ids) (''plan step `'' @ i @ ''` depends on `'' @ d @ ''`, which is not a step of this plan'')]"

definition step_checks :: "string list \<Rightarrow> string \<times> step_draft \<Rightarrow> unit res list" where
  "step_checks ids = (\<lambda>(i, s).
     [ensure (str_trim (sr_title s) \<noteq> []) (''plan step `'' @ i @ ''` requires a title''),
      ensure (length (sr_title s) \<le> max_plan_title_bytes) (''plan step `'' @ i @ ''` title exceeds the ''
        @ show_nat max_plan_title_bytes @ '' byte bound''),
      ensure (length (sr_file_scope s) \<le> max_plan_step_file_scope) (''plan step `'' @ i @ ''` scopes ''
        @ show_nat (length (sr_file_scope s)) @ '' paths, over the '' @ show_nat max_plan_step_file_scope @ '' entry bound'')]
     @ concat (map (scope_path_checks i) (sr_file_scope s))
     @ concat (map (dependency_checks ids i) (sr_dependencies s)))"

definition step_ids :: "nat \<Rightarrow> string list" where
  "step_ids n = map id_for_position [0..<n]"

definition validate_draft :: "plan_draft \<Rightarrow> unit res" where
  "validate_draft d = (let ids = step_ids (length (dr_steps d)) in guarded
     ([ensure (dr_owner d \<noteq> default_owner)
         ''a plan document requires a real owner; `RuntimeOwner::default()` names nobody'',
       ensure (str_trim (dr_title d) \<noteq> []) ''a plan document requires a title'',
       ensure (length (dr_title d) \<le> max_plan_title_bytes)
         (''plan title exceeds the '' @ show_nat max_plan_title_bytes @ '' byte bound''),
       ensure (length (dr_goal d) \<le> max_plan_goal_bytes)
         (''plan goal exceeds the '' @ show_nat max_plan_goal_bytes @ '' byte bound'')]
      @ section_checks [] (dr_sections d)
      @ [ensure (length (dr_steps d) \<le> max_plan_steps) (''plan carries '' @ show_nat (length (dr_steps d))
           @ '' steps, over the '' @ show_nat max_plan_steps @ '' step bound'')]
      @ concat (map (step_checks ids) (zip ids (dr_steps d)))) (Ok ()))"

definition step_of_draft :: "string \<Rightarrow> step_draft \<Rightarrow> plan_step" where
  "step_of_draft i s = \<lparr>pt_id = i, pt_title = sr_title s, pt_status = sr_status s, pt_role = sr_role s,
     pt_file_scope = sr_file_scope s, pt_dependencies = sr_dependencies s\<rparr>"

definition into_steps :: "plan_draft \<Rightarrow> plan_step list" where
  "into_steps d = map (\<lambda>(i, s). step_of_draft i s) (zip (step_ids (length (dr_steps d))) (dr_steps d))"

section \<open>The digest\<close>

abbreviation tab :: char where "tab \<equiv> CHR 0x09"

definition section_source :: "plan_section \<Rightarrow> string" where
  "section_source s = section_kind_text (pk_kind s) @ '':'' @ show_nat (length (pk_body s)) @ [newline]
     @ pk_body s @ [newline]"

definition step_source :: "plan_step \<Rightarrow> string" where
  "step_source s = join [tab] [pt_id s, step_status_text (pt_status s),
     (case pt_role s of None \<Rightarrow> [] | Some r \<Rightarrow> role_as_str r), join '','' (pt_dependencies s),
     join '','' (pt_file_scope s), pt_title s] @ [newline]"

definition plan_content_digest_source ::
  "string \<Rightarrow> string \<Rightarrow> plan_section list \<Rightarrow> plan_step list \<Rightarrow> string" where
  "plan_content_digest_source title goal sections steps = ''plan/v1'' @ [newline]
     @ ''title:'' @ show_nat (length title) @ [newline] @ title @ [newline]
     @ ''goal:'' @ show_nat (length goal) @ [newline] @ goal @ [newline]
     @ ''sections:'' @ show_nat (length sections) @ [newline] @ concat (map section_source sections)
     @ ''steps:'' @ show_nat (length steps) @ [newline] @ concat (map step_source steps)"

definition plan_content_sha ::
  "(string \<Rightarrow> string) \<Rightarrow> string \<Rightarrow> string \<Rightarrow> plan_section list \<Rightarrow> plan_step list \<Rightarrow> string" where
  "plan_content_sha sha title goal sections steps = sha (plan_content_digest_source title goal sections steps)"

section \<open>State and events\<close>

text \<open>\<open>dk_mode\<close> is the mode the runtime shows, the engine of the session has its own.\<close>

record plan_desk =
  dk_session :: session
  dk_plans :: "plan_document list"
  dk_mode :: permission_mode

datatype plan_event =
    PlanUpdated plan_document
  | PlanDecided string u32 plan_status string runtime_owner
  | PlanBecameWork string u32 string string runtime_owner
  | PlanWork trust_event

definition at_session :: "('a, session) op \<Rightarrow> ('a, plan_desk) op" where
  "at_session m k = (case m (dk_session k) of (r, s) \<Rightarrow> (r, k\<lparr>dk_session := s\<rparr>))"

definition upsert_plan_document :: "plan_document \<Rightarrow> plan_desk \<Rightarrow> plan_desk" where
  "upsert_plan_document p k = k\<lparr>dk_plans := upsert_by pd_plan_id p (dk_plans k)\<rparr>"

definition plans_share_owner :: "runtime_owner \<Rightarrow> runtime_owner \<Rightarrow> bool" where
  "plans_share_owner a b \<longleftrightarrow> ow_workspace_id a = ow_workspace_id b \<and> ow_project_id a = ow_project_id b
     \<and> ow_lane_id a = ow_lane_id b \<and> (ow_lane_id a \<noteq> None \<or> ow_session_id a = ow_session_id b)"

section \<open>Proposing\<close>

definition open_plan :: "plan_desk \<Rightarrow> runtime_owner \<Rightarrow> plan_document option" where
  "open_plan k ow = find (\<lambda>p. plan_is_open (pd_status p) \<and> plans_share_owner (pd_owner p) ow) (dk_plans k)"

definition proposed_plan ::
  "'ctx trust_env \<Rightarrow> plan_draft \<Rightarrow> plan_author \<Rightarrow> plan_document option \<Rightarrow> plan_document" where
  "proposed_plan env d author previous =
     (let now = te_clock env 1; steps = into_steps d;
          (i, revision, created) = (case previous of
             Some p \<Rightarrow> (pd_plan_id p, sat_add (pd_revision p) 1, pd_created_at p)
           | None \<Rightarrow> (te_fresh env ''plan'' 0, 1, now))
      in \<lparr>pd_plan_id = i, pd_owner = dr_owner d, pd_title = dr_title d, pd_goal = dr_goal d,
          pd_status = PlanProposed, pd_revision = revision,
          pd_content_sha = plan_content_sha (te_sha env) (dr_title d) (dr_goal d) (dr_sections d) steps,
          pd_sections = dr_sections d, pd_steps = steps, pd_proposed_by = author, pd_created_at = created,
          pd_updated_at = now, pd_decided_at = None, pd_decision_audit = None, pd_handoff = None\<rparr>)"

definition superseded :: "u64 \<Rightarrow> plan_document \<Rightarrow> plan_document" where
  "superseded now p = p\<lparr>pd_status := PlanSuperseded, pd_updated_at := now\<rparr>"

text \<open>The voided revision is published before the new one.\<close>

definition propose_plan_document ::
  "'ctx trust_env \<Rightarrow> plan_draft \<Rightarrow> plan_author \<Rightarrow> (plan_event list, plan_desk) op" where
  "propose_plan_document env d author k = op_check (validate_draft d) (\<lambda>_ k.
     let previous = open_plan k (dr_owner d); p = proposed_plan env d author previous;
         voided = (case previous of None \<Rightarrow> [] | Some q \<Rightarrow> [PlanUpdated (superseded (te_clock env 1) q)])
     in (Ok (voided @ [PlanUpdated p]), upsert_plan_document p k)) k"

section \<open>Deciding\<close>

definition pinned_plan :: "plan_desk \<Rightarrow> string \<Rightarrow> u32 \<Rightarrow> string \<Rightarrow> plan_document res" where
  "pinned_plan k i revision sha =
     try_then (ok_or (find (\<lambda>p. pd_plan_id p = i) (dk_plans k)) (''plan `'' @ i @ ''` does not exist'')) (\<lambda>p. guarded
       [ensure (pd_revision p = revision \<and> pd_content_sha p = sha)
          (''plan_revision_stale: plan `'' @ i @ ''` is at revision '' @ show_nat (unat (pd_revision p))
           @ '' and the decision named revision '' @ show_nat (unat revision) @ [newline]
           @ ''hint: re-read the plan from `plan_documents` and decide the revision it now carries'')] (Ok p))"

datatype plan_decision = PlanAccept | PlanReject

fun decision_status :: "plan_decision \<Rightarrow> plan_status" where
  "decision_status PlanAccept = PlanAccepted"
| "decision_status PlanReject = PlanRejected"

fun decision_action :: "plan_decision \<Rightarrow> string" where
  "decision_action PlanAccept = ''plan.accepted''"
| "decision_action PlanReject = ''plan.rejected''"

definition bounded_plan_reason :: "string \<Rightarrow> string" where
  "bounded_plan_reason r = take (boundary_at_most r (min (length r) max_plan_reject_reason_bytes)) r"

definition plan_audit ::
  "'ctx trust_env \<Rightarrow> plan_document \<Rightarrow> string \<Rightarrow> (string \<times> string) list \<Rightarrow> audit_record res" where
  "plan_audit env p action args =
     sanitized_audit_record (te_fresh env ''audit'' 0) (te_clock env 1) (pd_owner p) ActorOperator action
       [\<lparr>ao_kind = ''plan'', ao_id = pd_plan_id p\<rparr>] AuditSuccess (fold input_insert args [])"

definition pin_args :: "plan_document \<Rightarrow> (string \<times> string) list" where
  "pin_args p = [(''revision'', show_nat (unat (pd_revision p))), (''content_sha256'', pd_content_sha p)]"

definition decision_audit_of ::
  "'ctx trust_env \<Rightarrow> plan_document \<Rightarrow> plan_decision \<Rightarrow> string option \<Rightarrow> audit_record res" where
  "decision_audit_of env p d reason = plan_audit env p (decision_action d)
     (pin_args p @ [(''steps'', show_nat (length (pd_steps p)))]
      @ (case reason of None \<Rightarrow> []
           | Some r \<Rightarrow> [(''reason'', concat (take 96 (utf8_chars (bounded_plan_reason r))))]))"

definition decided_plan :: "'ctx trust_env \<Rightarrow> plan_decision \<Rightarrow> plan_document \<Rightarrow> plan_document" where
  "decided_plan env d p = p\<lparr>pd_status := decision_status d, pd_updated_at := te_clock env 1,
     pd_decided_at := Some (te_clock env 1), pd_decision_audit := Some (te_fresh env ''audit'' 0)\<rparr>"

definition decide_preflight :: "plan_desk \<Rightarrow> string \<Rightarrow> u32 \<Rightarrow> string \<Rightarrow> plan_document res" where
  "decide_preflight k i revision sha = try_then (pinned_plan k i revision sha) (\<lambda>p. guarded
     [ensure (pd_status p = PlanDrafting \<or> pd_status p = PlanProposed)
        (''plan `'' @ i @ ''` is `'' @ plan_status_text (pd_status p) @ ''` and has already been decided'' @ [newline]
         @ ''hint: propose a new revision to replace a decided plan'')] (Ok p))"

definition decide_plan_document ::
  "'ctx trust_env \<Rightarrow> string \<Rightarrow> u32 \<Rightarrow> string \<Rightarrow> plan_decision \<Rightarrow> string option \<Rightarrow> (plan_event list, plan_desk) op" where
  "decide_plan_document env i revision sha d reason k = op_check (decide_preflight k i revision sha) (\<lambda>p.
     op_bind (at_session (append_trust_audit env (decision_audit_of env p d reason))) (\<lambda>_ k.
     let q = decided_plan env d p in
     (Ok [PlanUpdated q, PlanDecided (pd_plan_id q) (pd_revision q) (pd_status q) (te_fresh env ''audit'' 0) (pd_owner q)],
      upsert_plan_document q k))) k"

section \<open>Handing off\<close>

fun mode_cli_name :: "permission_mode \<Rightarrow> string" where
  "mode_cli_name ModeDefault = ''default''"
| "mode_cli_name AcceptEdits = ''acceptEdits''"
| "mode_cli_name BypassPermissions = ''bypassPermissions''"
| "mode_cli_name DontAsk = ''dontAsk''"
| "mode_cli_name ModePlan = ''plan''"

definition plan_task_id :: "string \<Rightarrow> plan_step \<Rightarrow> string" where
  "plan_task_id i s = i @ ''-'' @ pt_id s"

definition plan_task_spec :: "plan_document \<Rightarrow> permission_mode \<Rightarrow> plan_step \<Rightarrow> agent_dag_task_spec" where
  "plan_task_spec p mode s = \<lparr>sp_task_id = plan_task_id (pd_plan_id p) s,
     sp_role = (case pt_role s of None \<Rightarrow> Coder | Some r \<Rightarrow> r), sp_title = pt_title s, sp_objective = pt_title s,
     sp_dependencies = List.map_filter (\<lambda>d. map_option (plan_task_id (pd_plan_id p))
        (find (\<lambda>x. pt_id x = d) (pd_steps p))) (pt_dependencies s),
     sp_workspace = None, sp_file_scope = pt_file_scope s, sp_context_bundle_id = None,
     sp_required_evidence = [], sp_permission_policy = mode_cli_name mode\<rparr>"

definition plan_task_specs :: "plan_document \<Rightarrow> permission_mode \<Rightarrow> agent_dag_task_spec list" where
  "plan_task_specs p mode = map (plan_task_spec p mode) (pd_steps p)"

definition plan_handoff_preflight :: "plan_desk \<Rightarrow> string \<Rightarrow> u32 \<Rightarrow> string \<Rightarrow> plan_document res" where
  "plan_handoff_preflight k i revision sha = guarded
     [ensure (engine_mode (se_engine (ss_permissions (dk_session k))) \<noteq> ModePlan)
        (''plan_mode: handing a plan off starts agent work and is blocked while plan mode is active'' @ [newline]
         @ ''hint: accept the plan in Plan, then switch to Build and hand it off'')]
     (try_then (pinned_plan k i revision sha) (\<lambda>p. guarded
       [ensure (pd_status p = PlanAccepted)
          (''plan `'' @ i @ ''` is `'' @ plan_status_text (pd_status p) @ ''`; only an accepted plan can be handed off''),
        ensure (pd_steps p \<noteq> []) (''plan `'' @ i @ ''` has no steps to hand off'' @ [newline]
          @ ''hint: propose a revision with at least one step'')] (Ok p)))"

fun first_dag :: "trust_event list \<Rightarrow> string option" where
  "first_dag [] = None"
| "first_dag (AgentDagUpdated d # es) = Some (dag_id d)"
| "first_dag (_ # es) = first_dag es"

definition handed_off_plan :: "'ctx trust_env \<Rightarrow> string \<Rightarrow> plan_document \<Rightarrow> plan_document" where
  "handed_off_plan env dag p = p\<lparr>pd_status := PlanHandedOff, pd_updated_at := te_clock env 1,
     pd_handoff := Some \<lparr>hf_dag_id = dag, hf_handed_off_at = te_clock env 1, hf_audit_id = te_fresh env ''audit'' 0\<rparr>\<rparr>"

text \<open>The DAG draws its clock and its id after the audit record; \<open>handoff_env\<close> gives it its own readings.\<close>

definition handoff_env :: "'ctx trust_env \<Rightarrow> 'ctx trust_env" where
  "handoff_env env = env\<lparr>te_clock := (\<lambda>n. te_clock env (n + 8))\<rparr>"

definition settle_handoff ::
  "'ctx trust_env \<Rightarrow> plan_document \<Rightarrow> trust_event list \<Rightarrow> (plan_event list, plan_desk) op" where
  "settle_handoff env p work k = op_check (ok_or (first_dag work) ''the agent DAG path published no DAG to hand off to'')
     (\<lambda>dag k. let q = handed_off_plan env dag p in
       (Ok (map PlanWork work @ [PlanUpdated q,
          PlanBecameWork (pd_plan_id q) (pd_revision q) dag (te_fresh env ''audit'' 0) (pd_owner q)]),
        upsert_plan_document q k)) k"

definition hand_off_plan_document ::
  "'ctx trust_env \<Rightarrow> string \<Rightarrow> u32 \<Rightarrow> string \<Rightarrow> (plan_event list, plan_desk) op" where
  "hand_off_plan_document env i revision sha k = op_check (plan_handoff_preflight k i revision sha) (\<lambda>p.
     op_bind (at_session (append_trust_audit env (plan_audit env p ''plan.handed_off''
        (pin_args p @ [(''tasks'', show_nat (length (pd_steps p)))])))) (\<lambda>_ k.
     op_bind (at_session (start_agent_dag (handoff_env env) (pd_title p) (plan_task_specs p (dk_mode k)))) (\<lambda>work.
       settle_handoff env p work) k)) k"

section \<open>The transaction\<close>

text \<open>The two facts that announce a settlement are not durable.\<close>

fun plan_event_durable :: "plan_event \<Rightarrow> bool" where
  "plan_event_durable (PlanUpdated _) = True"
| "plan_event_durable (PlanWork _) = True"
| "plan_event_durable _ = False"

fun remember_plan_event :: "u64 \<Rightarrow> plan_event \<Rightarrow> plan_desk \<Rightarrow> plan_desk" where
  "remember_plan_event clock (PlanUpdated p) k = upsert_plan_document p k"
| "remember_plan_event clock (PlanWork e) k = k\<lparr>dk_session := remember_event clock e (dk_session k)\<rparr>"
| "remember_plan_event clock _ k = k"

definition persist_plan_events :: "'ctx trust_env \<Rightarrow> plan_event list \<Rightarrow> (unit, plan_desk) op" where
  "persist_plan_events env events = (let durable = filter plan_event_durable events in
     op_check (persist_batch env durable) (\<lambda>_ k. (Ok (), fold (remember_plan_event (te_clock env 4)) durable k)))"

datatype plan_command =
    ProposePlanDocument plan_draft
  | AcceptPlanDocument string u32 string
  | RejectPlanDocument string u32 string string
  | HandOffPlanDocument string u32 string

fun run_plan_command :: "'ctx trust_env \<Rightarrow> plan_command \<Rightarrow> (plan_event list, plan_desk) op" where
  "run_plan_command env (ProposePlanDocument d) = propose_plan_document env d ByOperator"
| "run_plan_command env (AcceptPlanDocument i r h) = decide_plan_document env i r h PlanAccept None"
| "run_plan_command env (RejectPlanDocument i r h reason) = decide_plan_document env i r h PlanReject (Some reason)"
| "run_plan_command env (HandOffPlanDocument i r h) = hand_off_plan_document env i r h"

text \<open>A rejection restores the plans and the domain; no file was staged, so nothing else can fail.\<close>

definition handle_plan_command ::
  "'ctx trust_env \<Rightarrow> plan_command \<Rightarrow> (plan_event list, plan_desk) op" where
  "handle_plan_command env c k =
     (case op_bind (run_plan_command env c) (\<lambda>events. op_bind (persist_plan_events env events) (\<lambda>_ t. (Ok events, t))) k of
        (Inl e, t) \<Rightarrow> (Err e, t\<lparr>dk_session := restore_domain (dk_session k) (dk_session t), dk_plans := dk_plans k\<rparr>)
      | (Inr events, t) \<Rightarrow> (Ok events, t))"

end
