(* ===== verification/Plan_Digest.thy ===== *)
theory Plan_Digest
  imports Plan_Documents
begin

text \<open>
  What the digest of a plan says about its content: the title, the goal and the sections are written
  with their lengths, the fields of a step are only separated.
\<close>

section \<open>Separated fields\<close>

lemma sep_unique: "c \<notin> set a \<Longrightarrow> c \<notin> set b \<Longrightarrow> a @ c # x = b @ c # y \<longleftrightarrow> a = b \<and> x = y"
  by (induction a arbitrary: b) (case_tac b; auto)+

lemma counted_unique: "show_nat m @ newline # x = show_nat n @ newline # y \<longleftrightarrow> m = n \<and> x = y"
proof -
  have "newline \<notin> set (show_nat k)" for k
    by (rule show_nat_not_in) (simp add: is_ascii_digit_def)
  then show ?thesis
    using digits_value_show by (metis sep_unique)
qed

lemma prefixed_unique: "show_nat (length a) @ newline # a @ x = show_nat (length b) @ newline # b @ y \<longleftrightarrow> a = b \<and> x = y"
  by (auto simp: counted_unique)

lemma section_kind_text_inj: "section_kind_text a = section_kind_text b \<longleftrightarrow> a = b"
  by (cases a; cases b) simp_all

lemma section_unique: "section_source a @ x = section_source b @ y \<longleftrightarrow> a = b \<and> x = y"
proof -
  have "CHR '':'' \<notin> set (section_kind_text k)" for k
    by (cases k) simp_all
  from sep_unique [OF this this] have "section_source a @ x = section_source b @ y
      \<longleftrightarrow> pk_kind a = pk_kind b \<and> pk_body a = pk_body b \<and> x = y"
    by (simp add: section_source_def section_kind_text_inj prefixed_unique)
  then show ?thesis
    by (cases a; cases b) auto
qed

lemma sources_unique:
  assumes "\<And>a b x y. a \<in> A \<Longrightarrow> b \<in> A \<Longrightarrow> f a @ x = f b @ y \<longleftrightarrow> a = b \<and> x = y"
    and "length as = length bs" "set as \<subseteq> A" "set bs \<subseteq> A"
  shows "concat (map f as) @ x = concat (map f bs) @ y \<longleftrightarrow> as = bs \<and> x = y"
  using assms(2-4)
proof (induction as bs rule: list_induct2)
  case (Cons a as b bs)
  then show ?case
    using assms(1) [of a b "concat (map f as) @ x" "concat (map f bs) @ y"] by auto
qed simp

section \<open>Steps\<close>

text \<open>Entries that hold no separator, in a list that is not one empty entry; a title may hold a tab.\<close>

definition clean_entry :: "string \<Rightarrow> bool" where
  "clean_entry e \<longleftrightarrow> CHR '','' \<notin> set e \<and> tab \<notin> set e \<and> newline \<notin> set e"

definition clean_list :: "string list \<Rightarrow> bool" where
  "clean_list es \<longleftrightarrow> list_all clean_entry es \<and> es \<noteq> [[]]"

definition clean_step :: "plan_step \<Rightarrow> bool" where
  "clean_step s \<longleftrightarrow> clean_entry (pt_id s) \<and> clean_list (pt_dependencies s)
     \<and> clean_list (pt_file_scope s) \<and> newline \<notin> set (pt_title s)"

lemma join_clean: "list_all clean_entry es \<Longrightarrow> tab \<notin> set (join '','' es)"
  by (induction "'',''" es rule: join.induct) (auto simp: clean_entry_def)

lemma join_clean_inj:
  assumes "clean_list es" "clean_list fs" "join '','' es = join '','' fs"
  shows "es = fs"
proof -
  have empty: "join '','' gs = [] \<longleftrightarrow> gs = []" if "clean_list gs" for gs
    using that by (cases "('','', gs)" rule: join.cases) (auto simp: clean_list_def)
  have split: "split_on (CHR '','') (join '','' gs) = gs" if "clean_list gs" "gs \<noteq> []" for gs
    using that by (intro split_on_join) (auto simp: list_all_iff clean_entry_def clean_list_def)
  show ?thesis
    using empty split assms by metis
qed

definition role_text :: "agent_role option \<Rightarrow> string" where
  "role_text r = (case r of None \<Rightarrow> [] | Some x \<Rightarrow> role_as_str x)"

lemma role_text_inj: "role_text a = role_text b \<longleftrightarrow> a = b"
proof -
  have "role_as_str x \<noteq> [] \<and> [] \<noteq> role_as_str x \<and> (role_as_str x = role_as_str y \<longleftrightarrow> x = y)" for x y
    by (cases x; cases y) simp_all
  then show ?thesis
    by (auto simp: role_text_def split: option.splits)
qed

lemma step_unique:
  assumes "clean_step a" "clean_step b"
  shows "step_source a @ x = step_source b @ y \<longleftrightarrow> a = b \<and> x = y"
proof -
  have source: "step_source s @ z = pt_id s @ tab # step_status_text (pt_status s) @ tab # role_text (pt_role s)
      @ tab # join '','' (pt_dependencies s) @ tab # join '','' (pt_file_scope s) @ tab # pt_title s @ newline # z" for s z
    by (simp add: step_source_def role_text_def)
  have status: "tab \<notin> set (step_status_text st) \<and> (step_status_text st = step_status_text su \<longleftrightarrow> st = su)" for st su
    by (cases st; cases su) simp_all
  have role: "tab \<notin> set (role_text r)" for r
    by (cases r; cases "the r") (simp_all add: role_text_def)
  have ids: "tab \<notin> set (pt_id a)" "tab \<notin> set (pt_id b)" "newline \<notin> set (pt_title a)" "newline \<notin> set (pt_title b)"
    using assms by (simp_all add: clean_step_def clean_entry_def)
  have lists: "tab \<notin> set (join '','' (pt_dependencies a))" "tab \<notin> set (join '','' (pt_dependencies b))"
      "tab \<notin> set (join '','' (pt_file_scope a))" "tab \<notin> set (join '','' (pt_file_scope b))"
    using assms join_clean by (simp_all add: clean_step_def clean_list_def)
  have joins: "join '','' (pt_dependencies a) = join '','' (pt_dependencies b) \<longleftrightarrow> pt_dependencies a = pt_dependencies b"
      "join '','' (pt_file_scope a) = join '','' (pt_file_scope b) \<longleftrightarrow> pt_file_scope a = pt_file_scope b"
    using assms join_clean_inj by (auto simp: clean_step_def)
  have "step_source a @ x = step_source b @ y \<longleftrightarrow> pt_id a = pt_id b \<and> pt_status a = pt_status b \<and> pt_role a = pt_role b
      \<and> pt_dependencies a = pt_dependencies b \<and> pt_file_scope a = pt_file_scope b \<and> pt_title a = pt_title b \<and> x = y"
    unfolding source using status role ids lists joins
    by (simp add: sep_unique role_text_inj)
  then show ?thesis
    by (cases a; cases b) auto
qed

text \<open>The source starts with what has a length, and the steps follow one after another.\<close>

lemma digest_source_parts:
  assumes "plan_content_digest_source t g ss ps = plan_content_digest_source t' g' ss' ps'"
  shows "t = t' \<and> g = g' \<and> ss = ss' \<and> length ps = length ps' \<and> concat (map step_source ps) = concat (map step_source ps')"
proof -
  have "t = t' \<and> g = g' \<and> length ss = length ss'
      \<and> concat (map section_source ss) @ ''steps:'' @ show_nat (length ps) @ newline # concat (map step_source ps)
        = concat (map section_source ss') @ ''steps:'' @ show_nat (length ps') @ newline # concat (map step_source ps')"
    using assms by (auto simp: plan_content_digest_source_def counted_unique)
  moreover from this have "ss = ss' \<and> ''steps:'' @ show_nat (length ps) @ newline # concat (map step_source ps)
        = ''steps:'' @ show_nat (length ps') @ newline # concat (map step_source ps')"
    by (intro iffD1 [OF sources_unique [of UNIV section_source]]) (simp_all add: section_unique)
  ultimately show ?thesis
    by (simp add: counted_unique)
qed

text \<open>C40: Two plans with one digest source have the same title, goal, sections and number of steps, whatever
  bytes these hold. When no id, dependency or path of their steps holds a comma, a tab or a line feed, no
  list of dependencies or paths is one empty entry, and no step title holds a line feed, the sources are
  equal exactly when the plans agree in title, goal, sections and steps.\<close>

theorem digest_pins_content:
  "(plan_content_digest_source t g ss ps = plan_content_digest_source t' g' ss' ps'
      \<longrightarrow> t = t' \<and> g = g' \<and> ss = ss' \<and> length ps = length ps')
    \<and> (list_all clean_step ps \<and> list_all clean_step ps' \<longrightarrow>
        (plan_content_digest_source t g ss ps = plan_content_digest_source t' g' ss' ps'
          \<longleftrightarrow> t = t' \<and> g = g' \<and> ss = ss' \<and> ps = ps'))"
proof -
  have "ps = ps'" if "list_all clean_step ps \<and> list_all clean_step ps'" "length ps = length ps'"
      "concat (map step_source ps) = concat (map step_source ps')"
    using iffD1 [OF sources_unique [of "Collect clean_step" step_source ps ps' "[]" "[]"]] that
    by (auto simp: step_unique list_all_iff)
  then show ?thesis
    using digest_source_parts by metis
qed

text \<open>A path with a comma in it has the digest of two paths, and one empty path that of none; validation
  accepts them all.\<close>

definition comma_step :: "string list \<Rightarrow> plan_step" where
  "comma_step scope = \<lparr>pt_id = ''step_1'', pt_title = ''build'', pt_status = StepPending, pt_role = None,
     pt_file_scope = scope, pt_dependencies = []\<rparr>"

lemma comma_hides_scope:
  "plan_content_digest_source ''t'' ''g'' [] [comma_step [''a,b'']] = plan_content_digest_source ''t'' ''g'' [] [comma_step [''a'', ''b'']]"
  by code_simp

lemma empty_path_hides:
  "plan_content_digest_source ''t'' ''g'' [] [comma_step [[]]] = plan_content_digest_source ''t'' ''g'' [] [comma_step []]"
  by code_simp

theorem digest_pins_content_witness:
  "plan_content_digest_source ''t'' ''g'' [] [comma_step [''a'', ''b'']] \<noteq> plan_content_digest_source ''t'' ''g'' [] [comma_step [''a'']]"
proof -
  have "comma_step [''a'', ''b''] \<noteq> comma_step [''a'']" "clean_step (comma_step [''a'', ''b''])" "clean_step (comma_step [''a''])"
    by code_simp+
  with digest_pins_content [of "''t''" "''g''" "[]" "[comma_step [''a'', ''b'']]" "''t''" "''g''" "[]" "[comma_step [''a'']]"]
  show ?thesis by simp
qed

end
