(* ===== verification/Plan_Steps.thy ===== *)
theory Plan_Steps
  imports Plan_Documents Command_Safety
begin

text \<open>
  What each plan operation does to the plans and to the audit log, and the invariant of the plans: one
  open plan for an owner, unique ids, steps and digest as Core assigned them, every settlement audited.
\<close>

section \<open>Plans as a keyed store\<close>

abbreviation plan_by_id :: "string \<Rightarrow> plan_desk \<Rightarrow> plan_document option" where
  "plan_by_id i k \<equiv> find (\<lambda>p. pd_plan_id p = i) (dk_plans k)"

abbreviation unique_plans :: "plan_desk \<Rightarrow> bool" where
  "unique_plans k \<equiv> distinct (map pd_plan_id (dk_plans k))"

lemma upsert_plan_simps [simp]:
  "dk_session (upsert_plan_document p k) = dk_session k"
  "dk_plans (upsert_plan_document p k) = upsert_by pd_plan_id p (dk_plans k)"
  by (simp_all add: upsert_plan_document_def)

interpretation plans: keyed_store pd_plan_id plan_by_id upsert_plan_document unique_plans
proof
  fix k :: plan_desk and v i assume "unique_plans k"
  show "plan_by_id i (upsert_plan_document v k) = (if pd_plan_id v = i then Some v else plan_by_id i k)"
    using find_by_upsert_by [of pd_plan_id i v "dk_plans k"] by (simp add: find_by_def)
  show "unique_plans (upsert_plan_document v k)"
    using \<open>unique_plans k\<close> by (simp add: distinct_upsert_by)
qed

lemma upsert_again: "key u = key v \<Longrightarrow> upsert_by key v (upsert_by key u xs) = upsert_by key v xs"
  by (induction xs) auto

lemma map_of_input_insert: "map_of (input_insert (x, y) m) = (map_of m)(x \<mapsto> y)"
  by (induction "(x, y)" m rule: input_insert.induct) auto

section \<open>Owners\<close>

lemma share_refl [simp]: "plans_share_owner a a"
  by (simp add: plans_share_owner_def)

lemma share_sym: "plans_share_owner a b \<Longrightarrow> plans_share_owner b a"
  unfolding plans_share_owner_def by metis

lemma share_trans: "plans_share_owner a b \<Longrightarrow> plans_share_owner b c \<Longrightarrow> plans_share_owner a c"
  unfolding plans_share_owner_def by metis

section \<open>Audit\<close>

text \<open>A record of the log that names a plan, its revision and its digest.\<close>

definition plan_recorded :: "audit_record list \<Rightarrow> string \<Rightarrow> string option \<Rightarrow> plan_document \<Rightarrow> bool" where
  "plan_recorded log action audit p \<longleftrightarrow> (\<exists>r\<in>set log. Some (au_audit_id r) = audit \<and> au_action r = action
     \<and> au_outcome r = AuditSuccess \<and> au_objects r = [\<lparr>ao_kind = ''plan'', ao_id = pd_plan_id p\<rparr>]
     \<and> map_of (au_args r) ''revision'' = Some (show_nat (unat (pd_revision p)))
     \<and> map_of (au_args r) ''content_sha256'' = Some (pd_content_sha p))"

lemma plan_recorded_more: "plan_recorded log action audit p \<Longrightarrow> plan_recorded (log @ rest) action audit p"
  by (auto simp: plan_recorded_def)

lemma map_of_pins:
  assumes "\<forall>(x, y)\<in>set rest. x \<noteq> ''revision'' \<and> x \<noteq> ''content_sha256''"
  shows "map_of (fold input_insert (pin_args p @ rest) []) ''revision'' = Some (show_nat (unat (pd_revision p)))
    \<and> map_of (fold input_insert (pin_args p @ rest) []) ''content_sha256'' = Some (pd_content_sha p)"
proof -
  have keep: "map_of (fold input_insert rest m) x = map_of m x" if "x = ''revision'' \<or> x = ''content_sha256''" for m x
    using assms that by (induction rest arbitrary: m) (auto simp: map_of_input_insert)
  show ?thesis
    by (simp add: keep pin_args_def map_of_input_insert)
qed

lemma plan_audit_recorded:
  assumes "append_trust_audit env (plan_audit env p action (pin_args p @ rest)) s = (Ok (), t)"
    and "\<forall>(x, y)\<in>set rest. x \<noteq> ''revision'' \<and> x \<noteq> ''content_sha256''"
  obtains r where "t = s\<lparr>ss_audit := ss_audit s @ [r]\<rparr>" "au_action r = action" "au_outcome r = AuditSuccess"
    "plan_recorded [r] action (Some (te_fresh env ''audit'' 0)) p"
proof -
  from append_trust_audit_Inr [OF assms(1)] obtain r where r: "plan_audit env p action (pin_args p @ rest) = Inr r"
      "t = s\<lparr>ss_audit := ss_audit s @ [r]\<rparr>" by blast
  note fields = sanitized_Ok [OF r(1) [unfolded plan_audit_def]]
  show thesis
    using map_of_pins [OF assms(2), of p] fields by (intro that [OF r(2)]) (simp_all add: plan_recorded_def)
qed

lemma append_audit_Inl: "append_trust_audit env a s = (Inl e, t) \<Longrightarrow> t = s"
  by (auto simp: append_trust_audit_def op_check_def split: sum.splits)

lemma start_dag_audit: "start_agent_dag env goal specs s = (x, t) \<Longrightarrow> ss_audit t = ss_audit s"
proof -
  have "ss_audit (snd (fold (dag_step env) specs (es, s))) = ss_audit s" for specs es s
    by (induction specs arbitrary: es s) (auto simp: dag_step_def Let_def)
  then show "start_agent_dag env goal specs s = (x, t) \<Longrightarrow> ss_audit t = ss_audit s"
    by (auto simp: start_agent_dag_def op_check_def Let_def split: sum.splits prod.splits) (metis snd_conv)+
qed

section \<open>The operations\<close>

lemma pinned_plan_Ok:
  "pinned_plan k i revision sha = Ok p \<longleftrightarrow> plan_by_id i k = Some p \<and> pd_revision p = revision \<and> pd_content_sha p = sha"
  by (auto simp: pinned_plan_def try_then_Inr ok_or_Inr guarded_Inr ensure_Inr is_ok_iff)

lemma decide_preflight_Ok:
  "decide_preflight k i revision sha = Ok p \<longleftrightarrow> plan_by_id i k = Some p \<and> pd_revision p = revision
     \<and> pd_content_sha p = sha \<and> (pd_status p = PlanDrafting \<or> pd_status p = PlanProposed)"
  by (auto simp: decide_preflight_def pinned_plan_Ok try_then_Inr guarded_Inr ensure_Inr is_ok_iff)

lemma plan_handoff_preflight_Ok:
  "plan_handoff_preflight k i revision sha = Ok p \<longleftrightarrow> engine_mode (se_engine (ss_permissions (dk_session k))) \<noteq> ModePlan
     \<and> plan_by_id i k = Some p \<and> pd_revision p = revision \<and> pd_content_sha p = sha
     \<and> pd_status p = PlanAccepted \<and> pd_steps p \<noteq> []"
  by (auto simp: plan_handoff_preflight_def pinned_plan_Ok try_then_Inr guarded_Inr ensure_Inr is_ok_iff)

lemma plan_by_id_Some: "plan_by_id i k = Some p \<Longrightarrow> p \<in> set (dk_plans k) \<and> pd_plan_id p = i"
  by (auto simp: find_Some_iff)

lemma propose_split:
  assumes "propose_plan_document env d author k = (r, t)"
  obtains (refused) e where "r = Err e" "t = k"
  | (proposed) q events where "validate_draft d = Ok ()" "q = proposed_plan env d author (open_plan k (dr_owner d))"
      "t = upsert_plan_document q k" "r = Ok (events @ [PlanUpdated q])"
      "events = (case open_plan k (dr_owner d) of None \<Rightarrow> [] | Some p \<Rightarrow> [PlanUpdated (superseded (te_clock env 1) p)])"
  using assms by (cases "validate_draft d") (auto simp: propose_plan_document_def op_check_def Let_def)

lemma at_session_frame: "at_session m k = (x, t) \<Longrightarrow> \<exists>s. m (dk_session k) = (x, s) \<and> t = k\<lparr>dk_session := s\<rparr>"
  by (auto simp: at_session_def split: prod.splits)

definition decision_args :: "plan_document \<Rightarrow> string option \<Rightarrow> (string \<times> string) list" where
  "decision_args p reason = (''steps'', show_nat (length (pd_steps p))) # (case reason of None \<Rightarrow> []
     | Some r \<Rightarrow> [(''reason'', concat (take 96 (utf8_chars (bounded_plan_reason r))))])"

lemma decision_audit_eq: "decision_audit_of env p d reason = plan_audit env p (decision_action d) (pin_args p @ decision_args p reason)"
  by (simp add: decision_audit_of_def decision_args_def)

lemma decide_split:
  assumes "decide_plan_document env i revision sha d reason k = (r, t)"
  obtains (refused) e where "r = Err e" "t = k"
  | (decided) p rec where "decide_preflight k i revision sha = Ok p" "plan_recorded [rec] (decision_action d) (Some (te_fresh env ''audit'' 0)) p"
      "t = upsert_plan_document (decided_plan env d p) (k\<lparr>dk_session := dk_session k\<lparr>ss_audit := ss_audit (dk_session k) @ [rec]\<rparr>\<rparr>)"
      "r = Ok [PlanUpdated (decided_plan env d p), PlanDecided (pd_plan_id p) (pd_revision p) (decision_status d)
         (te_fresh env ''audit'' 0) (pd_owner p)]"
proof (cases "decide_preflight k i revision sha")
  case (Inl e)
  with assms refused show thesis by (auto simp: decide_plan_document_def op_check_def)
next
  case (Inr p)
  obtain x s where x: "append_trust_audit env (decision_audit_of env p d reason) (dk_session k) = (x, s)" by fastforce
  have run: "(r, t) = (case x of Inl e \<Rightarrow> (Err e, k\<lparr>dk_session := s\<rparr>) | Inr _ \<Rightarrow>
     (Ok [PlanUpdated (decided_plan env d p), PlanDecided (pd_plan_id p) (pd_revision p) (decision_status d)
         (te_fresh env ''audit'' 0) (pd_owner p)], upsert_plan_document (decided_plan env d p) (k\<lparr>dk_session := s\<rparr>)))"
    using assms Inr x by (simp add: decide_plan_document_def op_check_def op_bind_def at_session_def Let_def decided_plan_def split: sum.splits)
  show thesis
  proof (cases x)
    case (Inl e)
    with append_audit_Inl [of env _ _ e s] x run refused show thesis by auto
  next
    case (Inr u)
    with x have "append_trust_audit env (plan_audit env p (decision_action d) (pin_args p @ decision_args p reason)) (dk_session k) = (Ok (), s)"
      by (simp add: decision_audit_eq)
    then obtain rec where "s = (dk_session k)\<lparr>ss_audit := ss_audit (dk_session k) @ [rec]\<rparr>"
        "plan_recorded [rec] (decision_action d) (Some (te_fresh env ''audit'' 0)) p"
      by (rule plan_audit_recorded) (auto simp: decision_args_def split: option.splits)
    with decided [OF \<open>decide_preflight k i revision sha = Inr p\<close>] run Inr show thesis by simp
  qed
qed

text \<open>The DAG of a handoff is published first, so that it is always found.\<close>

lemma dag_fold_events: "\<exists>es. fst (fold (dag_step env) specs (events, s)) = events @ es"
  by (induction specs arbitrary: events s) (auto simp: dag_step_def Let_def, metis append.assoc)

lemma start_dag_first: "start_agent_dag env goal specs s = (Ok work, t) \<Longrightarrow> first_dag work = Some (te_fresh env ''dag'' 0)"
  using dag_fold_events [of env "map sanitize_task_spec specs" "[AgentDagUpdated (new_dag env goal (map sanitize_task_spec specs))]" s]
  by (auto simp: start_agent_dag_def op_check_Inr dag_preflight_def guarded_Inr Let_def new_dag_def split: prod.splits)

abbreviation handoff_args :: "plan_document \<Rightarrow> (string \<times> string) list" where
  "handoff_args p \<equiv> [(''tasks'', show_nat (length (pd_steps p)))]"

lemma handoff_split:
  assumes "hand_off_plan_document env i revision sha k = (r, t)"
  obtains (refused) e where "r = Err e" "t = k"
  | (stuck) p rec e s where "plan_handoff_preflight k i revision sha = Ok p" "r = Err e" "t = k\<lparr>dk_session := s\<rparr>"
      "plan_recorded [rec] ''plan.handed_off'' (Some (te_fresh env ''audit'' 0)) p"
      "start_agent_dag (handoff_env env) (pd_title p) (plan_task_specs p (dk_mode k))
         ((dk_session k)\<lparr>ss_audit := ss_audit (dk_session k) @ [rec]\<rparr>) = (Err e, s)"
  | (handed) p rec work s where "plan_handoff_preflight k i revision sha = Ok p"
      "plan_recorded [rec] ''plan.handed_off'' (Some (te_fresh env ''audit'' 0)) p"
      "start_agent_dag (handoff_env env) (pd_title p) (plan_task_specs p (dk_mode k))
         ((dk_session k)\<lparr>ss_audit := ss_audit (dk_session k) @ [rec]\<rparr>) = (Ok work, s)"
      "t = upsert_plan_document (handed_off_plan env (te_fresh env ''dag'' 0) p) (k\<lparr>dk_session := s\<rparr>)"
      "r = Ok (map PlanWork work @ [PlanUpdated (handed_off_plan env (te_fresh env ''dag'' 0) p),
         PlanBecameWork (pd_plan_id p) (pd_revision p) (te_fresh env ''dag'' 0) (te_fresh env ''audit'' 0) (pd_owner p)])"
proof (cases "plan_handoff_preflight k i revision sha")
  case (Inl e)
  with assms refused show thesis by (auto simp: hand_off_plan_document_def op_check_def)
next
  case p: (Inr p)
  obtain x s where x: "append_trust_audit env (plan_audit env p ''plan.handed_off'' (pin_args p @ handoff_args p)) (dk_session k) = (x, s)"
    by fastforce
  show thesis
  proof (cases x)
    case (Inl e)
    with assms p x have "r = Err e" "t = k\<lparr>dk_session := s\<rparr>"
      by (simp_all add: hand_off_plan_document_def op_check_def op_bind_def at_session_def)
    with append_audit_Inl [of env _ _ e s] x Inl refused show thesis by auto
  next
    case x_ok: (Inr u)
    with x have "append_trust_audit env (plan_audit env p ''plan.handed_off'' (pin_args p @ handoff_args p)) (dk_session k) = (Ok (), s)"
      by simp
    then obtain rec where rec: "s = (dk_session k)\<lparr>ss_audit := ss_audit (dk_session k) @ [rec]\<rparr>"
        "plan_recorded [rec] ''plan.handed_off'' (Some (te_fresh env ''audit'' 0)) p"
      by (rule plan_audit_recorded) auto
    obtain y u where y: "start_agent_dag (handoff_env env) (pd_title p) (plan_task_specs p (dk_mode k)) s = (y, u)" by fastforce
    show thesis
    proof (cases y)
      case (Inl e)
      with assms p x x_ok y have "r = Err e" "t = k\<lparr>dk_session := u\<rparr>"
        by (simp_all add: hand_off_plan_document_def op_check_def op_bind_def at_session_def)
      with stuck p rec y Inl show thesis by metis
    next
      case (Inr work)
      have dag: "first_dag work = Some (te_fresh env ''dag'' 0)"
        using start_dag_first [OF y [unfolded Inr]] by (simp add: handoff_env_def)
      have "t = upsert_plan_document (handed_off_plan env (te_fresh env ''dag'' 0) p) (k\<lparr>dk_session := u\<rparr>)"
        "r = Ok (map PlanWork work @ [PlanUpdated (handed_off_plan env (te_fresh env ''dag'' 0) p),
         PlanBecameWork (pd_plan_id p) (pd_revision p) (te_fresh env ''dag'' 0) (te_fresh env ''audit'' 0) (pd_owner p)])"
        using assms p x x_ok y Inr dag
        by (simp_all add: hand_off_plan_document_def op_check_def op_bind_def at_session_def settle_handoff_def ok_or_def Let_def handed_off_plan_def)
      with handed p rec y Inr show thesis by metis
    qed
  qed
qed

section \<open>Commands\<close>

lemma handle_plan_Ok:
  assumes "handle_plan_command env c k = (Ok events, t)"
  obtains k1 where "run_plan_command env c k = (Ok events, k1)"
    "t = fold (remember_plan_event (te_clock env 4)) (filter plan_event_durable events) k1"
  using assms by (auto simp: handle_plan_command_def persist_plan_events_def op_bind_Inr op_check_Inr Let_def
      split: prod.splits sum.splits)

lemma handle_plan_Err:
  assumes "handle_plan_command env c k = (Err e, t)"
  shows "dk_plans t = dk_plans k \<and> dk_session t = restore_domain (dk_session k) (dk_session (snd (run_plan_command env c k)))"
proof -
  obtain x k1 where run: "run_plan_command env c k = (x, k1)" by fastforce
  show ?thesis
  proof (cases x)
    case (Inl m)
    with assms run show ?thesis by (auto simp: handle_plan_command_def op_bind_def)
  next
    case (Inr events)
    obtain y u where y: "persist_plan_events env events k1 = (y, u)" by fastforce
    with assms run Inr obtain m where "y = Inl m"
      by (cases y) (auto simp: handle_plan_command_def op_bind_def)
    with y have "u = k1"
      by (auto simp: persist_plan_events_def op_check_def Let_def split: sum.splits)
    with assms run Inr y \<open>y = Inl m\<close> show ?thesis
      by (auto simp: handle_plan_command_def op_bind_def)
  qed
qed

text \<open>Remembering the events of an operation changes the plans no further.\<close>

lemma remember_work: "fold (remember_plan_event clock) (map PlanWork es) k = k\<lparr>dk_session := fold (remember_event clock) es (dk_session k)\<rparr>"
  by (induction es arbitrary: k) simp_all

lemma remember_audit: "ss_audit (fold (remember_event clock) es s) = ss_audit s"
proof (induction es arbitrary: s)
  case (Cons e es)
  then show ?case by (cases e) simp_all
qed simp

lemma durable_work: "filter plan_event_durable (map PlanWork es @ fs) = map PlanWork es @ filter plan_event_durable fs"
  by (induction es) simp_all

text \<open>What a plan command or the planner does to the plans: a revision, a decision, a handoff, or nothing.\<close>

datatype plan_change = NoChange | NewRevision plan_draft plan_author | Decided plan_decision plan_document | Handed plan_document

fun plan_changed :: "'ctx trust_env \<Rightarrow> plan_desk \<Rightarrow> plan_change \<Rightarrow> plan_desk \<Rightarrow> bool" where
  "plan_changed env k NoChange t \<longleftrightarrow> dk_plans t = dk_plans k \<and> (\<exists>rest. ss_audit (dk_session t) = ss_audit (dk_session k) @ rest)"
| "plan_changed env k (NewRevision d author) t \<longleftrightarrow> validate_draft d = Ok () \<and> dk_session t = dk_session k
     \<and> dk_plans t = upsert_by pd_plan_id (proposed_plan env d author (open_plan k (dr_owner d))) (dk_plans k)"
| "plan_changed env k (Decided d p) t \<longleftrightarrow> plan_by_id (pd_plan_id p) k = Some p \<and> (pd_status p = PlanDrafting \<or> pd_status p = PlanProposed)
     \<and> dk_plans t = upsert_by pd_plan_id (decided_plan env d p) (dk_plans k)
     \<and> (\<exists>r. ss_audit (dk_session t) = ss_audit (dk_session k) @ [r]
          \<and> plan_recorded [r] (decision_action d) (Some (te_fresh env ''audit'' 0)) p)"
| "plan_changed env k (Handed p) t \<longleftrightarrow> plan_by_id (pd_plan_id p) k = Some p \<and> pd_status p = PlanAccepted
     \<and> dk_plans t = upsert_by pd_plan_id (handed_off_plan env (te_fresh env ''dag'' 0) p) (dk_plans k)
     \<and> (\<exists>r. ss_audit (dk_session t) = ss_audit (dk_session k) @ [r]
          \<and> plan_recorded [r] ''plan.handed_off'' (Some (te_fresh env ''audit'' 0)) p)"

lemma proposed_key: "pd_plan_id (proposed_plan env d author (Some p)) = pd_plan_id p"
  by (simp add: proposed_plan_def Let_def)

lemma propose_changed:
  assumes "propose_plan_document env d author k = (Ok events, k1)"
  shows "plan_changed env k (NewRevision d author) (fold (remember_plan_event clock) (filter plan_event_durable events) k1)
    \<and> plan_changed env k (NewRevision d author) k1"
  using assms
proof (cases rule: propose_split)
  case (proposed q events')
  then show ?thesis
    by (cases "open_plan k (dr_owner d)") (auto simp: upsert_again superseded_def proposed_key upsert_plan_document_def)
qed simp

lemma decide_changed:
  assumes "decide_plan_document env i r h d reason k = (Ok events, k1)"
  obtains p where "pd_plan_id p = i" "pd_revision p = r" "pd_content_sha p = h"
    "plan_changed env k (Decided d p) (fold (remember_plan_event clock) (filter plan_event_durable events) k1)"
  using assms
proof (cases rule: decide_split)
  case (decided p rec)
  note pre = decided(1) [unfolded decide_preflight_Ok]
  with plan_by_id_Some have "pd_plan_id p = i" by blast
  with pre decided(2-4) show thesis
    by (intro that [of p]) (auto simp: upsert_again)
qed simp

lemma handoff_changed:
  assumes "hand_off_plan_document env i r h k = (Ok events, k1)"
  obtains p where "pd_plan_id p = i" "pd_revision p = r" "pd_content_sha p = h"
    "plan_changed env k (Handed p) (fold (remember_plan_event clock) (filter plan_event_durable events) k1)"
  using assms
proof (cases rule: handoff_split)
  case (handed p rec work s)
  note pre = handed(1) [unfolded plan_handoff_preflight_Ok]
  with plan_by_id_Some have "pd_plan_id p = i" by blast
  with pre handed(2-5) start_dag_audit [OF handed(3)] show thesis
    by (intro that [of p]) (auto simp: durable_work remember_work remember_audit upsert_again upsert_plan_document_def)
qed simp_all

lemma restore_audit [simp]: "ss_audit (restore_domain s u) = ss_audit u"
  by (simp add: restore_domain_def)

lemma plan_run_audit: "\<exists>rest. ss_audit (dk_session (snd (run_plan_command env c k))) = ss_audit (dk_session k) @ rest"
proof -
  have decide: "\<exists>rest. ss_audit (dk_session t) = ss_audit (dk_session k) @ rest"
    if "decide_plan_document env i r h d reason k = (x, t)" for i r h d reason x t
    using that by (cases rule: decide_split) simp_all
  have hand: "\<exists>rest. ss_audit (dk_session t) = ss_audit (dk_session k) @ rest"
    if "hand_off_plan_document env i r h k = (x, t)" for i r h x t
    using that by (cases rule: handoff_split) (simp_all add: start_dag_audit)
  have propose: "dk_session t = dk_session k" if "propose_plan_document env d author k = (x, t)" for d author x t
    using that by (cases rule: propose_split) simp_all
  show ?thesis
    by (cases c) (metis decide hand propose append_Nil2 prod.collapse run_plan_command.simps)+
qed

end
