(* ===== verification/Plan_Invariant.thy ===== *)
theory Plan_Invariant
  imports Plan_Steps
begin

text \<open>
  The invariant of plan documents: one open plan for an owner, unique ids, steps and digest as Core made
  them, every settlement audited; every command, the planner and all other work of the session keep it.
\<close>

section \<open>The invariant\<close>

definition one_open :: "plan_document list \<Rightarrow> bool" where
  "one_open ps \<longleftrightarrow> (\<forall>p\<in>set ps. \<forall>q\<in>set ps. plan_is_open (pd_status p) \<and> plan_is_open (pd_status q)
     \<and> plans_share_owner (pd_owner p) (pd_owner q) \<longrightarrow> p = q)"

text \<open>Core numbered the steps, every dependency is another step, and the digest is that of the content.\<close>

definition content_ok :: "(string \<Rightarrow> string) \<Rightarrow> plan_document \<Rightarrow> bool" where
  "content_ok sha p \<longleftrightarrow> map pt_id (pd_steps p) = step_ids (length (pd_steps p)) \<and> length (pd_steps p) \<le> 64
     \<and> (\<forall>s\<in>set (pd_steps p). \<forall>d\<in>set (pt_dependencies s). d \<noteq> pt_id s \<and> d \<in> pt_id ` set (pd_steps p))
     \<and> pd_content_sha p = plan_content_sha sha (pd_title p) (pd_goal p) (pd_sections p) (pd_steps p)"

fun settled_ok :: "audit_record list \<Rightarrow> plan_document \<Rightarrow> plan_status \<Rightarrow> bool" where
  "settled_ok log p PlanAccepted \<longleftrightarrow> plan_recorded log ''plan.accepted'' (pd_decision_audit p) p"
| "settled_ok log p PlanRejected \<longleftrightarrow> plan_recorded log ''plan.rejected'' (pd_decision_audit p) p"
| "settled_ok log p PlanHandedOff \<longleftrightarrow> plan_recorded log ''plan.accepted'' (pd_decision_audit p) p
     \<and> plan_recorded log ''plan.handed_off'' (map_option hf_audit_id (pd_handoff p)) p"
| "settled_ok log p _ \<longleftrightarrow> pd_decision_audit p = None \<and> pd_decided_at p = None \<and> pd_handoff p = None"

definition desk_ok :: "(string \<Rightarrow> string) \<Rightarrow> plan_desk \<Rightarrow> bool" where
  "desk_ok sha k \<longleftrightarrow> unique_plans k \<and> one_open (dk_plans k)
     \<and> (\<forall>p\<in>set (dk_plans k). content_ok sha p \<and> settled_ok (ss_audit (dk_session k)) p (pd_status p))"

lemma settled_more: "settled_ok log p st \<Longrightarrow> settled_ok (log @ rest) p st"
  by (cases st) (auto simp: plan_recorded_more)

lemma desk_ok_upsert:
  assumes "desk_ok sha k" "dk_plans t = upsert_by pd_plan_id q (dk_plans k)"
    and "ss_audit (dk_session t) = ss_audit (dk_session k) @ rest"
    and "content_ok sha q" "settled_ok (ss_audit (dk_session t)) q (pd_status q)"
    and "\<And>p. p \<in> set (dk_plans k) \<Longrightarrow> pd_plan_id p \<noteq> pd_plan_id q \<Longrightarrow> plan_is_open (pd_status p)
      \<Longrightarrow> plan_is_open (pd_status q) \<Longrightarrow> \<not> plans_share_owner (pd_owner p) (pd_owner q)"
  shows "desk_ok sha t"
proof -
  have unique: "distinct (map pd_plan_id (dk_plans k))"
    using assms(1) by (simp add: desk_ok_def)
  have set: "set (dk_plans t) = insert q {p \<in> set (dk_plans k). pd_plan_id p \<noteq> pd_plan_id q}"
    unfolding assms(2) by (rule set_upsert_by_distinct [OF unique])
  have "one_open (dk_plans t)"
    using assms(1,6) share_sym unfolding one_open_def desk_ok_def set by blast
  moreover have "unique_plans t"
    unfolding assms(2) using unique by (rule distinct_upsert_by)
  moreover have "content_ok sha p \<and> settled_ok (ss_audit (dk_session t)) p (pd_status p)" if "p \<in> set (dk_plans t)" for p
    using that assms(1,4,5) settled_more [of "ss_audit (dk_session k)" p] unfolding assms(3) set desk_ok_def by auto
  ultimately show ?thesis
    by (simp add: desk_ok_def)
qed

lemma zip_step_ids: "length (step_ids n) = n"
  by (simp add: step_ids_def)

lemma into_steps_ids: "map pt_id (into_steps d) = step_ids (length (dr_steps d))" "length (into_steps d) = length (dr_steps d)"
proof -
  have "map pt_id (into_steps d) = map fst (zip (step_ids (length (dr_steps d))) (dr_steps d))"
    by (simp add: into_steps_def step_of_draft_def split_def o_def)
  then show "map pt_id (into_steps d) = step_ids (length (dr_steps d))"
    by (simp add: zip_step_ids)
  show "length (into_steps d) = length (dr_steps d)"
    by (simp add: into_steps_def zip_step_ids)
qed

lemma into_steps_ids_set: "pt_id ` set (into_steps d) = set (step_ids (length (dr_steps d)))"
  using into_steps_ids(1) [of d] by (metis list.set_map)

lemma valid_draft_steps:
  assumes "validate_draft d = Ok ()"
  shows "length (dr_steps d) \<le> 64"
    "\<And>s x. s \<in> set (into_steps d) \<Longrightarrow> x \<in> set (pt_dependencies s) \<Longrightarrow> x \<noteq> pt_id s \<and> x \<in> pt_id ` set (into_steps d)"
proof -
  show "length (dr_steps d) \<le> 64"
    using assms by (simp add: validate_draft_def Let_def guarded_Inr is_ok_iff ensure_Inr max_plan_steps_def)
  fix s x assume s: "s \<in> set (into_steps d)" and x: "x \<in> set (pt_dependencies s)"
  obtain i u where u: "(i, u) \<in> set (zip (step_ids (length (dr_steps d))) (dr_steps d))" "s = step_of_draft i u"
    using s by (auto simp: into_steps_def)
  let ?ids = "step_ids (length (dr_steps d))"
  have "\<forall>c\<in>set (concat (map (step_checks ?ids) (zip ?ids (dr_steps d)))). is_ok c"
    using assms by (simp add: validate_draft_def Let_def guarded_Inr ball_Un)
  with u(1) have "\<forall>c\<in>set (step_checks ?ids (i, u)). is_ok c"
    by (simp only: set_concat set_map) blast
  moreover have "set (dependency_checks ?ids i x) \<subseteq> set (step_checks ?ids (i, u))"
    using x u(2) by (auto simp: step_checks_def step_of_draft_def)
  ultimately have "\<forall>c\<in>set (dependency_checks ?ids i x). is_ok c"
    by blast
  then show "x \<noteq> pt_id s \<and> x \<in> pt_id ` set (into_steps d)"
    using u(2) by (simp add: into_steps_ids_set dependency_checks_def is_ok_iff ensure_Inr step_of_draft_def)
qed

lemma proposed_content: "validate_draft d = Ok () \<Longrightarrow> content_ok (te_sha env) (proposed_plan env d author previous)"
  using valid_draft_steps [of d] into_steps_ids [of d]
  by (auto simp: content_ok_def proposed_plan_def Let_def split: option.splits)

lemma open_planD: "open_plan k ow = Some p \<Longrightarrow> p \<in> set (dk_plans k) \<and> plan_is_open (pd_status p) \<and> plans_share_owner (pd_owner p) ow"
  by (auto simp: open_plan_def find_Some_iff)

lemma no_open_plan: "open_plan k ow = None \<Longrightarrow> p \<in> set (dk_plans k) \<Longrightarrow> plan_is_open (pd_status p) \<Longrightarrow> \<not> plans_share_owner (pd_owner p) ow"
  by (auto simp: open_plan_def find_None_iff)

lemma plan_changed_ok:
  assumes "desk_ok sha k" "te_sha env = sha" "plan_changed env k c t"
  shows "desk_ok sha t"
  using assms(3)
proof (cases c)
  case NoChange
  with assms(1,3) settled_more show ?thesis
    by (auto simp: desk_ok_def)
next
  case (NewRevision d author)
  let ?q = "proposed_plan env d author (open_plan k (dr_owner d))"
  have q: "validate_draft d = Ok ()" "dk_session t = dk_session k" "dk_plans t = upsert_by pd_plan_id ?q (dk_plans k)"
    using assms(3) NewRevision by simp_all
  have owner: "pd_owner ?q = dr_owner d" "pd_status ?q = PlanProposed"
    by (simp_all add: proposed_plan_def Let_def split: option.splits)
  show ?thesis
  proof (rule desk_ok_upsert [OF assms(1) q(3), of "[]"])
    show "content_ok sha ?q"
      using proposed_content [OF q(1), of env] assms(2) by simp
    show "settled_ok (ss_audit (dk_session t)) ?q (pd_status ?q)"
      unfolding owner(2) by (simp add: proposed_plan_def Let_def split: option.splits)
    fix p assume p: "p \<in> set (dk_plans k)" "pd_plan_id p \<noteq> pd_plan_id ?q" "plan_is_open (pd_status p)"
    show "\<not> plans_share_owner (pd_owner p) (pd_owner ?q)"
    proof (cases "open_plan k (dr_owner d)")
      case None
      show ?thesis
        unfolding owner by (rule no_open_plan [OF None p(1,3)])
    next
      case (Some u)
      note u = open_planD [OF this]
      have "u \<noteq> p"
        using p(2) Some by (auto simp: proposed_key)
      with assms(1) p u share_trans share_sym show ?thesis
        unfolding owner one_open_def desk_ok_def by blast
    qed
  qed (simp add: q(2))
next
  case (Decided d p)
  then obtain r where p: "plan_by_id (pd_plan_id p) k = Some p" "pd_status p = PlanDrafting \<or> pd_status p = PlanProposed"
      "dk_plans t = upsert_by pd_plan_id (decided_plan env d p) (dk_plans k)"
      "ss_audit (dk_session t) = ss_audit (dk_session k) @ [r]"
      "plan_recorded [r] (decision_action d) (Some (te_fresh env ''audit'' 0)) p"
    using assms(3) by auto
  have in_k: "p \<in> set (dk_plans k)"
    using plan_by_id_Some [OF p(1)] by simp
  let ?q = "decided_plan env d p"
  have same: "pd_plan_id ?q = pd_plan_id p" "pd_owner ?q = pd_owner p" "pd_status ?q = decision_status d"
    by (simp_all add: decided_plan_def)
  show ?thesis
  proof (rule desk_ok_upsert [OF assms(1) p(3,4)])
    have "content_ok sha p"
      using assms(1) in_k by (simp add: desk_ok_def)
    then show "content_ok sha ?q"
      by (simp add: content_ok_def decided_plan_def)
    have "plan_recorded (ss_audit (dk_session k) @ [r]) (decision_action d) (pd_decision_audit ?q) ?q"
      using p(5) by (simp add: plan_recorded_def decided_plan_def)
    then show "settled_ok (ss_audit (dk_session t)) ?q (pd_status ?q)"
      unfolding same p(4) by (cases d) simp_all
    fix u assume u: "u \<in> set (dk_plans k)" "pd_plan_id u \<noteq> pd_plan_id ?q" "plan_is_open (pd_status u)"
    with assms(1) in_k p(2) show "\<not> plans_share_owner (pd_owner u) (pd_owner ?q)"
      unfolding same one_open_def desk_ok_def by (metis plan_is_open.simps)
  qed
next
  case (Handed p)
  then obtain r where p: "plan_by_id (pd_plan_id p) k = Some p" "pd_status p = PlanAccepted"
      "dk_plans t = upsert_by pd_plan_id (handed_off_plan env (te_fresh env ''dag'' 0) p) (dk_plans k)"
      "ss_audit (dk_session t) = ss_audit (dk_session k) @ [r]"
      "plan_recorded [r] ''plan.handed_off'' (Some (te_fresh env ''audit'' 0)) p"
    using assms(3) by auto
  have in_k: "p \<in> set (dk_plans k)"
    using plan_by_id_Some [OF p(1)] by simp
  let ?q = "handed_off_plan env (te_fresh env ''dag'' 0) p"
  have old: "content_ok sha p" "plan_recorded (ss_audit (dk_session k)) ''plan.accepted'' (pd_decision_audit p) p"
    using assms(1) in_k p(2) by (auto simp: desk_ok_def)
  show ?thesis
  proof (rule desk_ok_upsert [OF assms(1) p(3,4)])
    show "content_ok sha ?q"
      using old(1) by (simp add: content_ok_def handed_off_plan_def)
    show "settled_ok (ss_audit (dk_session t)) ?q (pd_status ?q)"
      using p(5) plan_recorded_more [OF old(2), of "[r]"] unfolding p(4) by (auto simp: plan_recorded_def handed_off_plan_def)
  qed (simp add: handed_off_plan_def)
qed

section \<open>Reachable plans\<close>

text \<open>
  Commands and the planner's own proposals, the latter with or without a durable batch; the session is
  whatever its other commands make of it, as long as they only append to the audit log. The hash is one.
\<close>

inductive plan_reachable :: "(string \<Rightarrow> string) \<Rightarrow> 'ctx trust_env set \<Rightarrow> plan_desk \<Rightarrow> bool" for sha envs where
  no_plans: "dk_plans k = [] \<Longrightarrow> plan_reachable sha envs k"
| plan_command: "plan_reachable sha envs k \<Longrightarrow> env \<in> envs \<Longrightarrow> te_sha env = sha
    \<Longrightarrow> plan_reachable sha envs (snd (handle_plan_command env c k))"
| planner: "plan_reachable sha envs k \<Longrightarrow> env \<in> envs \<Longrightarrow> te_sha env = sha
    \<Longrightarrow> plan_reachable sha envs (snd (op_bind (propose_plan_document env d (ByAssistant s turn)) (persist_plan_events env) k))"
| other_work: "plan_reachable sha envs k \<Longrightarrow> ss_audit s = ss_audit (dk_session k) @ rest
    \<Longrightarrow> plan_reachable sha envs (k\<lparr>dk_session := s, dk_mode := m\<rparr>)"

lemma handle_plan_changed: "\<exists>c'. plan_changed env k c' (snd (handle_plan_command env c k))"
proof (cases "handle_plan_command env c k")
  case (Pair r t)
  show ?thesis
  proof (cases r)
    case (Inl e)
    from handle_plan_Err [OF Pair [unfolded Inl]] plan_run_audit [of env c k]
    have "plan_changed env k NoChange t" by simp
    with Pair show ?thesis by (metis snd_conv)
  next
    case (Inr events)
    from handle_plan_Ok [OF Pair [unfolded Inr]] obtain k1 where k1: "run_plan_command env c k = (Ok events, k1)"
        "t = fold (remember_plan_event (te_clock env 4)) (filter plan_event_durable events) k1" .
    have "\<exists>c'. plan_changed env k c' t"
    proof (cases c)
      case (ProposePlanDocument d)
      with k1 propose_changed show ?thesis by fastforce
    next
      case (AcceptPlanDocument i r h)
      with k1 show ?thesis by (auto elim: decide_changed)
    next
      case (RejectPlanDocument i r h m)
      with k1 show ?thesis by (auto elim: decide_changed)
    next
      case (HandOffPlanDocument i r h)
      with k1 show ?thesis by (auto elim: handoff_changed)
    qed
    with Pair show ?thesis by simp
  qed
qed

lemma planner_changed:
  "\<exists>c'. plan_changed env k c' (snd (op_bind (propose_plan_document env d author) (persist_plan_events env) k))"
proof (cases "propose_plan_document env d author k")
  case (Pair r t)
  show ?thesis
  proof (cases r)
    case (Inl e)
    with Pair have "t = k" by (auto elim: propose_split)
    with Pair Inl have "plan_changed env k NoChange (snd (op_bind (propose_plan_document env d author) (persist_plan_events env) k))"
      by (simp add: op_bind_def)
    then show ?thesis by blast
  next
    case (Inr events)
    note change = propose_changed [OF Pair [unfolded Inr]]
    have "snd (persist_plan_events env events t) \<in> {t, fold (remember_plan_event (te_clock env 4)) (filter plan_event_durable events) t}"
      by (auto simp: persist_plan_events_def op_check_def Let_def split: sum.splits)
    with change have "plan_changed env k (NewRevision d author) (snd (persist_plan_events env events t))"
      by (elim insertE emptyE ssubst) simp_all
    moreover have "snd (op_bind (propose_plan_document env d author) (persist_plan_events env) k) = snd (persist_plan_events env events t)"
      using Pair Inr by (simp add: op_bind_def)
    ultimately show ?thesis by metis
  qed
qed

lemma reachable_desk_ok: "plan_reachable sha envs k \<Longrightarrow> desk_ok sha k"
proof (induction rule: plan_reachable.induct)
  case (plan_command k env c)
  with handle_plan_changed plan_changed_ok show ?case by blast
next
  case (planner k env d s turn)
  with planner_changed plan_changed_ok show ?case by blast
next
  case (other_work k s rest m)
  with settled_more show ?case
    by (auto simp: desk_ok_def)
qed (simp add: desk_ok_def one_open_def)

end
