(* ===== verification/Plan_Demo.thy ===== *)
theory Plan_Demo
  imports Plan_Invariant Demo_Session "HOL-Library.Code_Target_Nat"
begin

text \<open>
  A plan that is proposed, accepted and handed off in the session of \<open>Demo_Session\<close>, and one whose steps
  wait for each other, for the witnesses of the theorems on plan documents.
\<close>

section \<open>A small plan\<close>

text \<open>Two steps, the second after the first; and two steps that wait for each other.\<close>

definition demo_step :: "string \<Rightarrow> string list \<Rightarrow> step_draft" where
  "demo_step label ds = \<lparr>sr_title = label, sr_status = StepPending, sr_role = None, sr_file_scope = [], sr_dependencies = ds\<rparr>"

definition demo_plan_draft :: "string list \<Rightarrow> plan_draft" where
  "demo_plan_draft ds = \<lparr>dr_owner = demo_owner, dr_title = ''Plan'', dr_goal = [], dr_sections = [],
     dr_steps = [demo_step ''a'' ds, demo_step ''b'' [''step_1'']]\<rparr>"

definition demo_desk :: plan_desk where
  "demo_desk = \<lparr>dk_session = demo_session, dk_plans = [], dk_mode = ModeDefault\<rparr>"

definition demo_proposed :: "string list \<Rightarrow> plan_desk" where
  "demo_proposed ds = snd (handle_plan_command demo_trust_env (ProposePlanDocument (demo_plan_draft ds)) demo_desk)"

abbreviation demo_digest :: string where "demo_digest \<equiv> replicate 64 (CHR ''b'')"

definition demo_accepted :: "string list \<Rightarrow> plan_desk" where
  "demo_accepted ds = snd (handle_plan_command demo_trust_env (AcceptPlanDocument ''plan-1'' 1 demo_digest) (demo_proposed ds))"

lemma demo_plans_reachable:
  "plan_reachable demo_sha {demo_trust_env} demo_desk" "plan_reachable demo_sha {demo_trust_env} (demo_proposed ds)"
  "plan_reachable demo_sha {demo_trust_env} (demo_accepted ds)"
proof -
  show desk: "plan_reachable demo_sha {demo_trust_env} demo_desk"
    by (rule no_plans) (simp add: demo_desk_def)
  show proposed: "plan_reachable demo_sha {demo_trust_env} (demo_proposed ds)"
    unfolding demo_proposed_def by (rule plan_command [OF desk]) simp_all
  show "plan_reachable demo_sha {demo_trust_env} (demo_accepted ds)"
    unfolding demo_accepted_def by (rule plan_command [OF proposed]) simp_all
qed

text \<open>What the code computes on them.\<close>

definition demo_document :: "string list \<Rightarrow> plan_document" where
  "demo_document ds = proposed_plan demo_trust_env (demo_plan_draft ds) ByOperator None"

lemma demo_proposes:
  "dk_plans (demo_proposed []) = [demo_document []]" "dk_plans (demo_proposed [''step_2'']) = [demo_document [''step_2'']]"
  by code_simp+

lemma demo_accepts:
  "dk_plans (demo_accepted []) = [decided_plan demo_trust_env PlanAccept (demo_document [])]"
  "dk_plans (demo_accepted [''step_2'']) = [decided_plan demo_trust_env PlanAccept (demo_document [''step_2''])]"
  by code_simp+

lemma demo_accepts_ok: "is_ok (fst (handle_plan_command demo_trust_env (AcceptPlanDocument ''plan-1'' 1 demo_digest) (demo_proposed [])))"
  by code_simp

lemma demo_hands_off: "is_ok (fst (handle_plan_command demo_trust_env (HandOffPlanDocument ''plan-1'' 1 demo_digest) (demo_accepted [])))"
  by code_simp

end
