(* ===== verification/Plan_Safety.thy ===== *)
theory Plan_Safety
  imports Plan_Demo
begin

text \<open>
  What an operator can rely on with plan documents: one open plan for an owner, decisions pinned to the
  revision that was read, every settlement audited, and a handoff that mirrors the plan; and the plans
  that can be accepted but never become work.
\<close>

section \<open>The plans of a session\<close>

text \<open>C13: In every reachable state no two open plans belong to one owner and no two plans have one id; the
  steps of every plan are numbered by Core, at most 64, and depend only on other steps of the plan; and
  its digest is that of its own title, goal, sections and steps.\<close>

theorem reachable_plans_unique:
  assumes "plan_reachable sha envs k"
  shows "distinct (map pd_plan_id (dk_plans k)) \<and> one_open (dk_plans k) \<and> (\<forall>p\<in>set (dk_plans k). content_ok sha p)"
  using reachable_desk_ok [OF assms] by (simp add: desk_ok_def)

theorem reachable_plans_unique_witness: "one_open [decided_plan demo_trust_env PlanAccept (demo_document [])]"
  using reachable_plans_unique [OF demo_plans_reachable(3) [of "[]"]] by (simp add: demo_accepts)

text \<open>C14: In every reachable state the audit log holds a successful record of every acceptance, rejection and
  handoff that a plan carries, under the audit id the plan names, for that plan, its revision and its
  digest; and a plan that is open for a decision carries none.\<close>

theorem reachable_settlements_audited:
  assumes "plan_reachable sha envs k" "p \<in> set (dk_plans k)"
  shows "settled_ok (ss_audit (dk_session k)) p (pd_status p)"
  using reachable_desk_ok [OF assms(1)] assms(2) by (simp add: desk_ok_def)

theorem reachable_settlements_audited_witness:
  "settled_ok (ss_audit (dk_session (demo_accepted []))) (decided_plan demo_trust_env PlanAccept (demo_document [])) PlanAccepted"
  using reachable_settlements_audited [OF demo_plans_reachable(3) [of "[]"], of "decided_plan demo_trust_env PlanAccept (demo_document [])"]
  by (simp add: demo_accepts) (simp add: decided_plan_def)

section \<open>Decisions\<close>

text \<open>C12: A decision that takes effect names the revision and the digest the plan has, and the plan was not
  decided before. It settles that plan with its content unchanged and no other plan, it appends one
  successful record of the decision to the audit log, and it changes nothing else.\<close>

theorem plan_decision_is_pinned:
  assumes "handle_plan_command env c k = (Ok events, t)" "distinct (map pd_plan_id (dk_plans k))"
    and "c = AcceptPlanDocument i r h \<and> d = PlanAccept \<or> c = RejectPlanDocument i r h m \<and> d = PlanReject"
  shows "\<exists>p rec. plan_by_id i k = Some p \<and> pd_revision p = r \<and> pd_content_sha p = h
    \<and> (pd_status p = PlanDrafting \<or> pd_status p = PlanProposed)
    \<and> plan_by_id i t = Some (decided_plan env d p) \<and> (\<forall>j. j \<noteq> i \<longrightarrow> plan_by_id j t = plan_by_id j k)
    \<and> dk_session t = (dk_session k)\<lparr>ss_audit := ss_audit (dk_session k) @ [rec]\<rparr>
    \<and> plan_recorded [rec] (decision_action d) (Some (te_fresh env ''audit'' 0)) p"
proof -
  obtain k1 reason where k1: "decide_plan_document env i r h d reason k = (Ok events, k1)"
      "t = fold (remember_plan_event (te_clock env 4)) (filter plan_event_durable events) k1"
    using handle_plan_Ok [OF assms(1)] assms(3) by (metis run_plan_command.simps(2,3))
  from k1(1) show ?thesis
  proof (cases rule: decide_split)
    case (decided p rec)
    note p = decided(1) [unfolded decide_preflight_Ok]
    have key: "pd_plan_id (decided_plan env d p) = i"
      using plan_by_id_Some [of i k p] p by (simp add: decided_plan_def)
    have "t = upsert_plan_document (decided_plan env d p) k1"
      using k1(2) decided(4) by simp
    then have t: "dk_plans t = dk_plans (upsert_plan_document (decided_plan env d p) k)" "dk_session t = dk_session k1"
      using decided(3) by (simp_all add: upsert_again)
    have "plan_by_id j t = (if j = i then Some (decided_plan env d p) else plan_by_id j k)" for j
      unfolding t(1) plans.find_put [OF assms(2)] key by simp
    then show ?thesis
      using p t(2) decided(2,3) by auto
  qed simp
qed

theorem plan_decision_is_pinned_witness:
  "pd_status (the (plan_by_id ''plan-1'' (demo_accepted []))) = PlanAccepted \<and> pd_revision (demo_document []) = 1"
proof -
  let ?run = "handle_plan_command demo_trust_env (AcceptPlanDocument ''plan-1'' 1 demo_digest) (demo_proposed [])"
  obtain es where run: "?run = (Ok es, demo_accepted [])"
    using demo_accepts_ok unfolding demo_accepted_def by (cases ?run; cases "fst ?run") simp_all
  have "distinct (map pd_plan_id (dk_plans (demo_proposed [])))"
    by (simp add: demo_proposes)
  from plan_decision_is_pinned [OF run this, of "''plan-1''" 1 demo_digest PlanAccept] show ?thesis
    by (auto simp: demo_proposes decided_plan_def split: if_splits)
qed

text \<open>A rejection whose reason cannot stand in an audit record is refused: three dots are enough.\<close>

lemma dotted_reason_cannot_reject:
  "fst (handle_plan_command demo_trust_env (RejectPlanDocument ''plan-1'' 1 demo_digest ''Too vague...'') (demo_proposed []))
   = Err ''audit argument `reason` contains a path traversal sequence''"
  by code_simp

section \<open>Handoffs\<close>

lemma remember_gates:
  "ss_gates (fold (remember_event c) es s) = fold (upsert_by mg_gate_id) (List.map_filter (\<lambda>e. case e of MergeGateUpdated g \<Rightarrow> Some g | _ \<Rightarrow> None) es) (ss_gates s)"
proof (induction es arbitrary: s)
  case (Cons e es)
  then show ?case by (cases e) (simp_all add: List.map_filter_simps)
qed (simp add: List.map_filter_simps)

lemma remember_dags:
  "ss_dags (fold (remember_event c) es s) = fold (upsert_by dag_id) (List.map_filter (\<lambda>e. case e of AgentDagUpdated d \<Rightarrow> Some d | _ \<Rightarrow> None) es) (ss_dags s)"
proof (induction es arbitrary: s)
  case (Cons e es)
  then show ?case by (cases e) (simp_all add: List.map_filter_simps)
qed (simp add: List.map_filter_simps)

lemma fold_upsert_in: "distinct (map key vs) \<Longrightarrow> v \<in> set vs \<Longrightarrow> v \<in> set (fold (upsert_by key) vs xs)"
proof (induction vs arbitrary: xs)
  case (Cons u vs)
  have keep: "v \<in> set ys \<Longrightarrow> key v \<notin> key ` set vs \<Longrightarrow> v \<in> set (fold (upsert_by key) vs ys)" for ys
    by (induction vs arbitrary: ys) (auto simp: upsert_by_other)
  show ?case
  proof (cases "v = u")
    case True
    with Cons.prems(1) keep [of "upsert_by key v xs"] show ?thesis
      by (simp add: in_upsert_by)
  qed (use Cons in simp)
qed simp

text \<open>What starting a DAG publishes: the DAG, and a task and a gate for each of its specifications.\<close>

lemma dag_step_events:
  "fst (fold (dag_step env) specs (es, s)) = es @ fst (fold (dag_step env) specs ([], s))
   \<and> List.map_filter (\<lambda>e. case e of MergeGateUpdated g \<Rightarrow> Some g | _ \<Rightarrow> None) (fst (fold (dag_step env) specs ([], s)))
     = map (\<lambda>x. gate_from_spec x (te_clock env 1)) specs
   \<and> List.map_filter (\<lambda>e. case e of AgentDagUpdated d \<Rightarrow> Some d | _ \<Rightarrow> None) (fst (fold (dag_step env) specs ([], s))) = []"
proof (induction specs arbitrary: es s)
  case (Cons x specs)
  obtain a b u where step: "dag_step env x ([], s) = ([TaskUpdated a, MergeGateUpdated b], u)"
      "\<And>fs. dag_step env x (fs, s) = (fs @ [TaskUpdated a, MergeGateUpdated b], u)" "b = gate_from_spec x (te_clock env 1)"
    by (simp add: dag_step_def Let_def)
  note IH = Cons.IH [of "es @ [TaskUpdated a, MergeGateUpdated b]" u] Cons.IH [of "[TaskUpdated a, MergeGateUpdated b]" u]
  show ?case
    using IH step by (simp add: List.map_filter_simps)
qed (simp add: List.map_filter_simps)

lemma start_dag_published:
  assumes "start_agent_dag env goal specs s = (Ok work, t)"
  obtains "validate_agent_dag_tasks (map sanitize_task_spec specs) = Ok ()"
    "List.map_filter (\<lambda>e. case e of AgentDagUpdated d \<Rightarrow> Some d | _ \<Rightarrow> None) work = [new_dag env goal (map sanitize_task_spec specs)]"
    "List.map_filter (\<lambda>e. case e of MergeGateUpdated g \<Rightarrow> Some g | _ \<Rightarrow> None) work
      = map (\<lambda>x. gate_from_spec (sanitize_task_spec x) (te_clock env 1)) specs"
proof -
  let ?tasks = "map sanitize_task_spec specs"
  have ok: "validate_agent_dag_tasks ?tasks = Ok ()" "dag_preflight specs = Ok ?tasks"
    using assms by (auto simp: start_agent_dag_def op_check_Inr dag_preflight_def guarded_Inr is_ok_iff)
  then have "work = fst (fold (dag_step env) ?tasks ([AgentDagUpdated (new_dag env goal ?tasks)], s))"
    using assms by (auto simp: start_agent_dag_def op_check_Inr Let_def split: prod.splits)
  then have "work = AgentDagUpdated (new_dag env goal ?tasks) # fst (fold (dag_step env) ?tasks ([], s))"
    using dag_step_events [of env ?tasks "[AgentDagUpdated (new_dag env goal ?tasks)]" s] by simp
  with dag_step_events [of env ?tasks "[]" s] ok(1) show thesis
    by (intro that) (simp_all add: List.map_filter_simps o_def)
qed

text \<open>A task of the DAG carries its step: its id, its role and its dependencies.\<close>

definition carries_step :: "plan_document \<Rightarrow> plan_step \<Rightarrow> agent_dag_task_spec \<Rightarrow> bool" where
  "carries_step p s x \<longleftrightarrow> sp_task_id x = pd_plan_id p @ ''-'' @ pt_id s
     \<and> sp_role x = (case pt_role s of None \<Rightarrow> Coder | Some r \<Rightarrow> r)
     \<and> sp_dependencies x = map (\<lambda>d. pd_plan_id p @ ''-'' @ d) (pt_dependencies s)"

lemma specs_carry:
  assumes "content_ok sha p" "s \<in> set (pd_steps p)"
  shows "carries_step p s (plan_task_spec p mode s)"
proof -
  have found: "find (\<lambda>x. pt_id x = d) (pd_steps p) \<noteq> None" if "d \<in> set (pt_dependencies s)" for d
  proof -
    have "d \<in> pt_id ` set (pd_steps p)"
      using assms that unfolding content_ok_def by blast
    then show ?thesis
      by (auto simp: find_None_iff)
  qed
  have named: "map_option (plan_task_id (pd_plan_id p)) (find (\<lambda>x. pt_id x = d) (pd_steps p)) = Some (pd_plan_id p @ ''-'' @ d)"
    if "d \<in> set (pt_dependencies s)" for d
    using found [OF that] by (auto simp: plan_task_id_def find_Some_iff)
  have "List.map_filter (\<lambda>d. map_option (plan_task_id (pd_plan_id p)) (find (\<lambda>x. pt_id x = d) (pd_steps p))) ds
      = map (\<lambda>d. pd_plan_id p @ ''-'' @ d) ds" if "set ds \<subseteq> set (pt_dependencies s)" for ds
    using that
  proof (induction ds)
    case (Cons a ds)
    from Cons.prems named [of a] obtain z where "find (\<lambda>x. pt_id x = a) (pd_steps p) = Some z" "plan_task_id (pd_plan_id p) z = pd_plan_id p @ ''-'' @ a"
      by auto
    with Cons show ?case
      by (simp add: List.map_filter_simps)
  qed (simp add: List.map_filter_simps)
  then show ?thesis
    by (simp add: carries_step_def plan_task_spec_def plan_task_id_def)
qed

text \<open>C15: A handoff that succeeds was not in plan mode and names the revision and digest of an accepted plan
  with steps; it leaves a DAG with one task for each step in order, with the role of the step (coder
  when it has none) and the tasks of its dependencies as dependencies, and a proposed gate for every
  task; the plan is handed off to that DAG, and the audit log has one more record.\<close>

theorem handoff_mirrors_the_plan:
  assumes "plan_reachable sha envs k" "handle_plan_command env (HandOffPlanDocument i r h) k = (Ok events, t)"
  shows "\<exists>p dag rec. engine_mode (se_engine (ss_permissions (dk_session k))) \<noteq> ModePlan
    \<and> plan_by_id i k = Some p \<and> pd_revision p = r \<and> pd_content_sha p = h \<and> pd_status p = PlanAccepted
    \<and> dag \<in> set (ss_dags (dk_session t)) \<and> list_all2 (carries_step p) (pd_steps p) (dag_tasks dag)
    \<and> (\<forall>s\<in>set (pd_steps p). \<exists>g\<in>set (ss_gates (dk_session t)). mg_task_id g = i @ ''-'' @ pt_id s \<and> mg_status g = GateProposed)
    \<and> plan_by_id i t = Some (handed_off_plan env (dag_id dag) p)
    \<and> ss_audit (dk_session t) = ss_audit (dk_session k) @ [rec]"
proof -
  obtain k1 where k1: "hand_off_plan_document env i r h k = (Ok events, k1)"
      "t = fold (remember_plan_event (te_clock env 4)) (filter plan_event_durable events) k1"
    using handle_plan_Ok [OF assms(2)] by (metis run_plan_command.simps(4))
  from k1(1) show ?thesis
  proof (cases rule: handoff_split)
    case (handed p rec work s)
    let ?env = "handoff_env env" and ?specs = "plan_task_specs p (dk_mode k)"
    let ?q = "handed_off_plan env (te_fresh env ''dag'' 0) p"
    let ?dag = "new_dag ?env (pd_title p) (map sanitize_task_spec ?specs)"
    note p = handed(1) [unfolded plan_handoff_preflight_Ok]
    have in_k: "p \<in> set (dk_plans k)" "pd_plan_id p = i"
      using plan_by_id_Some p by blast+
    have ok: "desk_ok sha k"
      by (rule reachable_desk_ok [OF assms(1)])
    then have content: "content_ok sha p"
      using in_k by (simp add: desk_ok_def)
    from handed(3) obtain valid: "validate_agent_dag_tasks (map sanitize_task_spec ?specs) = Ok ()"
      and dags: "List.map_filter (\<lambda>e. case e of AgentDagUpdated d \<Rightarrow> Some d | _ \<Rightarrow> None) work = [?dag]"
      and gates: "List.map_filter (\<lambda>e. case e of MergeGateUpdated g \<Rightarrow> Some g | _ \<Rightarrow> None) work
        = map (\<lambda>x. gate_from_spec (sanitize_task_spec x) (te_clock ?env 1)) ?specs"
      by (rule start_dag_published)
    have t: "dk_session t = fold (remember_event (te_clock env 4)) work s"
        "dk_plans t = upsert_by pd_plan_id ?q (dk_plans k)"
      using k1(2) handed(4,5) by (simp_all add: durable_work remember_work upsert_again upsert_plan_document_def)
    have "?dag \<in> set (ss_dags (dk_session t))"
      unfolding t(1) remember_dags dags by (simp add: in_upsert_by)
    moreover have "list_all2 (carries_step p) (pd_steps p) (dag_tasks ?dag)"
    proof -
      have "list_all2 (carries_step p) ss (map sanitize_task_spec (map (plan_task_spec p (dk_mode k)) ss))"
        if "set ss \<subseteq> set (pd_steps p)" for ss
        using that specs_carry [OF content] by (induction ss) (auto simp: carries_step_def sanitize_task_spec_def)
      then show ?thesis
        by (simp add: new_dag_def plan_task_specs_def)
    qed
    moreover have "\<exists>g\<in>set (ss_gates (dk_session t)). mg_task_id g = i @ ''-'' @ pt_id x \<and> mg_status g = GateProposed"
      if x: "x \<in> set (pd_steps p)" for x
    proof -
      let ?g = "gate_from_spec (sanitize_task_spec (plan_task_spec p (dk_mode k) x)) (te_clock ?env 1)"
      let ?gs = "map (\<lambda>x. gate_from_spec (sanitize_task_spec x) (te_clock ?env 1)) ?specs"
      have "map mg_gate_id ?gs = map (\<lambda>y. ''gate-'' @ y) (map sp_task_id (map sanitize_task_spec ?specs))"
        by (simp add: gate_from_spec_def)
      moreover have "distinct (map sp_task_id (map sanitize_task_spec ?specs))"
        using valid validate_dag_iff by blast
      ultimately have "distinct (map mg_gate_id ?gs)"
        by (simp only: distinct_map [of "\<lambda>y. ''gate-'' @ y"]) (simp add: inj_on_def)
      moreover have "?g \<in> set ?gs"
        using x by (auto simp: plan_task_specs_def)
      ultimately have "?g \<in> set (ss_gates (dk_session t))"
        unfolding t(1) remember_gates gates by (rule fold_upsert_in)
      moreover have "mg_task_id ?g = i @ ''-'' @ pt_id x" "mg_status ?g = GateProposed"
        using in_k(2) by (simp_all add: gate_from_spec_def plan_task_spec_def plan_task_id_def)
      ultimately show ?thesis by blast
    qed
    moreover have "plan_by_id i t = Some (handed_off_plan env (dag_id ?dag) p)"
    proof -
      have "plan_by_id i t = plan_by_id i (upsert_plan_document ?q k)"
        by (simp add: t(2))
      also have "\<dots> = Some ?q"
        using ok in_k(2) by (subst plans.find_put) (simp_all add: desk_ok_def handed_off_plan_def)
      finally show ?thesis
        by (simp add: new_dag_def handoff_env_def)
    qed
    moreover have "ss_audit (dk_session t) = ss_audit (dk_session k) @ [rec]"
      unfolding t(1) remember_audit using start_dag_audit [OF handed(3)] by simp
    ultimately show ?thesis
      using p by blast
  qed simp_all
qed

theorem handoff_mirrors_the_plan_witness:
  "\<exists>es t dag. handle_plan_command demo_trust_env (HandOffPlanDocument ''plan-1'' 1 demo_digest) (demo_accepted []) = (Ok es, t)
     \<and> dag \<in> set (ss_dags (dk_session t)) \<and> length (dag_tasks dag) = 2"
proof -
  let ?run = "handle_plan_command demo_trust_env (HandOffPlanDocument ''plan-1'' 1 demo_digest) (demo_accepted [])"
  obtain es t where run: "?run = (Ok es, t)"
    using demo_hands_off by (cases ?run; cases "fst ?run") simp_all
  have two: "length (pd_steps (demo_document [])) = 2"
    by code_simp
  from handoff_mirrors_the_plan [OF demo_plans_reachable(3) run] obtain p dag where
      p: "plan_by_id ''plan-1'' (demo_accepted []) = Some p" "dag \<in> set (ss_dags (dk_session t))"
         "list_all2 (carries_step p) (pd_steps p) (dag_tasks dag)"
    by metis
  have "length (pd_steps p) = 2"
    using p(1) two by (auto simp: demo_accepts decided_plan_def split: if_splits)
  with p(2,3) run show ?thesis
    using list_all2_lengthD by metis
qed

section \<open>Plans with a cycle\<close>

text \<open>Which step of a plan waits for which.\<close>

definition step_edges :: "plan_document \<Rightarrow> (string \<times> string) set" where
  "step_edges p = {(pt_id s, d) | s d. s \<in> set (pd_steps p) \<and> d \<in> set (pt_dependencies s)}"

lemma step_edges_simps [simp]:
  "step_edges (handed_off_plan env dag p) = step_edges p" "step_edges (decided_plan env d p) = step_edges p"
  by (simp_all add: step_edges_def handed_off_plan_def decided_plan_def)

text \<open>A cycle of the steps is a cycle of their tasks, so that starting the DAG refuses it.\<close>

lemma dag_refuses_cycle:
  assumes "content_ok sha p" "validate_agent_dag_tasks (map sanitize_task_spec (plan_task_specs p mode)) = Ok ()"
  shows "acyclic (step_edges p)"
proof -
  let ?tasks = "map sanitize_task_spec (plan_task_specs p mode)"
  let ?f = "\<lambda>x. pd_plan_id p @ ''-'' @ x"
  have valid: "distinct (map sp_task_id ?tasks)" "acyclic (depends (spec_edges ?tasks))"
    using assms(2) validate_dag_iff by blast+
  have edge: "(?f x, ?f d) \<in> depends (spec_edges ?tasks)" if xd: "(x, d) \<in> step_edges p" for x d
  proof -
    obtain st where st: "st \<in> set (pd_steps p)" "x = pt_id st" "d \<in> set (pt_dependencies st)"
      using xd by (auto simp: step_edges_def)
    note carry = specs_carry [OF assms(1) st(1), of mode]
    have "sanitize_task_spec (plan_task_spec p mode st) \<in> set ?tasks"
      using st(1) by (simp add: plan_task_specs_def)
    moreover have "sp_task_id (sanitize_task_spec (plan_task_spec p mode st)) = ?f x"
        "?f d \<in> set (sp_dependencies (sanitize_task_spec (plan_task_spec p mode st)))"
      using carry st by (simp_all add: carries_step_def)
    ultimately show ?thesis
      unfolding depends_spec [OF valid(1)]
      by (intro CollectI exI [of _ "sanitize_task_spec (plan_task_spec p mode st)"] exI [of _ "?f d"]) simp
  qed
  have "(?f x, ?f y) \<in> (depends (spec_edges ?tasks))\<^sup>+" if "(x, y) \<in> (step_edges p)\<^sup>+" for x y
    using that by (induction rule: trancl_induct) (use edge in \<open>blast intro: trancl_into_trancl\<close>)+
  with valid(2) show ?thesis
    unfolding acyclic_def by blast
qed

lemma handoff_acyclic:
  assumes "desk_ok sha k" "hand_off_plan_document env i r h k = (Ok events, k1)"
  obtains p where "plan_by_id i k = Some p" "acyclic (step_edges p)"
    "dk_plans (fold (remember_plan_event clock) (filter plan_event_durable events) k1)
       = upsert_by pd_plan_id (handed_off_plan env (te_fresh env ''dag'' 0) p) (dk_plans k)"
  using assms(2)
proof (cases rule: handoff_split)
  case (handed p rec work s)
  note p = handed(1) [unfolded plan_handoff_preflight_Ok]
  have "p \<in> set (dk_plans k)"
    using p plan_by_id_Some by blast
  with assms(1) have "content_ok sha p"
    by (simp add: desk_ok_def)
  moreover have "validate_agent_dag_tasks (map sanitize_task_spec (plan_task_specs p (dk_mode k))) = Ok ()"
    using handed(3) by (rule start_dag_published)
  ultimately have "acyclic (step_edges p)"
    by (rule dag_refuses_cycle)
  with p handed(4,5) show thesis
    by (intro that [of p]) (auto simp: durable_work remember_work upsert_again)
qed simp_all

text \<open>A plan is handed off by nothing but the handoff.\<close>

lemma other_change_hands_off_nothing:
  assumes "plan_changed env k c t" "\<And>p. c \<noteq> Handed p" "q \<in> set (dk_plans t)" "pd_status q = PlanHandedOff"
  shows "q \<in> set (dk_plans k)"
proof (cases c)
  case (NewRevision d author)
  have "pd_status (proposed_plan env d author (open_plan k (dr_owner d))) = PlanProposed"
    by (simp add: proposed_plan_def Let_def split: option.splits)
  with assms NewRevision show ?thesis
    by (auto dest!: set_upsert_by [THEN subsetD])
next
  case (Decided d p)
  have "pd_status (decided_plan env d p) \<noteq> PlanHandedOff"
    by (cases d) (simp_all add: decided_plan_def)
  with assms Decided show ?thesis
    by (auto dest!: set_upsert_by [THEN subsetD])
qed (use assms in simp_all)

lemma command_hands_off_acyclic:
  assumes "desk_ok sha k" "q \<in> set (dk_plans (snd (handle_plan_command env c k)))" "pd_status q = PlanHandedOff"
  shows "q \<in> set (dk_plans k) \<or> acyclic (step_edges q)"
proof (cases "handle_plan_command env c k")
  case (Pair x t)
  show ?thesis
  proof (cases x)
    case (Inl e)
    with Pair assms(2) handle_plan_Err [of env c k e t] show ?thesis by simp
  next
    case (Inr events)
    from handle_plan_Ok [OF Pair [unfolded Inr]] obtain k1 where k1: "run_plan_command env c k = (Ok events, k1)"
      "t = fold (remember_plan_event (te_clock env 4)) (filter plan_event_durable events) k1" .
    show ?thesis
    proof (cases c)
      case (ProposePlanDocument d)
      with k1 have "plan_changed env k (NewRevision d ByOperator) t"
        using propose_changed by fastforce
      from other_change_hands_off_nothing [OF this _ _ assms(3)] assms(2) Pair show ?thesis by simp
    next
      case (AcceptPlanDocument i r h)
      with k1(1) have run: "decide_plan_document env i r h PlanAccept None k = (Ok events, k1)" by simp
      obtain p where "plan_changed env k (Decided PlanAccept p) t"
        using decide_changed [OF run, of "te_clock env 4"] k1(2) by metis
      from other_change_hands_off_nothing [OF this _ _ assms(3)] assms(2) Pair show ?thesis by simp
    next
      case (RejectPlanDocument i r h m)
      with k1(1) have run: "decide_plan_document env i r h PlanReject (Some m) k = (Ok events, k1)" by simp
      obtain p where "plan_changed env k (Decided PlanReject p) t"
        using decide_changed [OF run, of "te_clock env 4"] k1(2) by metis
      from other_change_hands_off_nothing [OF this _ _ assms(3)] assms(2) Pair show ?thesis by simp
    next
      case (HandOffPlanDocument i r h)
      with k1 have "hand_off_plan_document env i r h k = (Ok events, k1)" by simp
      from handoff_acyclic [OF assms(1) this] k1(2) obtain p where "acyclic (step_edges p)"
          "dk_plans t = upsert_by pd_plan_id (handed_off_plan env (te_fresh env ''dag'' 0) p) (dk_plans k)"
        by metis
      with assms(2) Pair show ?thesis
        by (auto dest!: set_upsert_by [THEN subsetD])
    qed
  qed
qed

lemma planner_hands_off_nothing:
  assumes "q \<in> set (dk_plans (snd (op_bind (propose_plan_document env d author) (persist_plan_events env) k)))"
    and "pd_status q = PlanHandedOff"
  shows "q \<in> set (dk_plans k)"
proof (cases "propose_plan_document env d author k")
  case (Pair r t)
  show ?thesis
  proof (cases r)
    case (Inl e)
    with Pair have "t = k" by (auto elim: propose_split)
    with Pair Inl assms(1) show ?thesis by (simp add: op_bind_def)
  next
    case (Inr events)
    note change = propose_changed [OF Pair [unfolded Inr], of "te_clock env 4"]
    have "snd (op_bind (propose_plan_document env d author) (persist_plan_events env) k)
        \<in> {t, fold (remember_plan_event (te_clock env 4)) (filter plan_event_durable events) t}"
      using Pair Inr by (auto simp: op_bind_def persist_plan_events_def op_check_def Let_def split: sum.splits)
    with change have "plan_changed env k (NewRevision d author) (snd (op_bind (propose_plan_document env d author) (persist_plan_events env) k))"
      by auto
    from other_change_hands_off_nothing [OF this _ assms] show ?thesis by simp
  qed
qed

lemma reachable_handoffs_acyclic:
  "plan_reachable sha envs k \<Longrightarrow> \<forall>p\<in>set (dk_plans k). pd_status p = PlanHandedOff \<longrightarrow> acyclic (step_edges p)"
proof (induction rule: plan_reachable.induct)
  case (plan_command k env c)
  with command_hands_off_acyclic [OF reachable_desk_ok [OF plan_command(1)]] show ?case by blast
next
  case (planner k env d s turn)
  with planner_hands_off_nothing show ?case by blast
qed simp_all

text \<open>C39: Only a plan whose dependencies are free of cycles ever becomes work. In every reachable state each
  plan that was handed off has no cycle; and a command to hand off a plan that has one is rejected,
  whatever revision and digest it names and whatever else may be in its way, with the plans and every
  domain fact of the session as they were.\<close>

theorem handed_off_plans_are_acyclic:
  assumes "plan_reachable sha envs k"
  shows "(\<forall>p\<in>set (dk_plans k). pd_status p = PlanHandedOff \<longrightarrow> acyclic (step_edges p))
    \<and> (\<forall>env i r h p. plan_by_id i k = Some p \<and> \<not> acyclic (step_edges p) \<longrightarrow>
        (\<exists>e t. handle_plan_command env (HandOffPlanDocument i r h) k = (Err e, t)
          \<and> dk_plans t = dk_plans k \<and> dk_session t = restore_domain (dk_session k) (dk_session t)))"
proof (intro conjI allI impI)
  show "\<forall>p\<in>set (dk_plans k). pd_status p = PlanHandedOff \<longrightarrow> acyclic (step_edges p)"
    by (rule reachable_handoffs_acyclic [OF assms])
next
  fix env i r h p
  let ?c = "HandOffPlanDocument i r h"
  assume cyclic: "plan_by_id i k = Some p \<and> \<not> acyclic (step_edges p)"
  obtain x t where t: "handle_plan_command env ?c k = (x, t)" by fastforce
  have "x \<noteq> Ok events" for events
  proof
    assume "x = Ok events"
    with t handle_plan_Ok obtain k1 where "run_plan_command env ?c k = (Ok events, k1)" by metis
    then have "hand_off_plan_document env i r h k = (Ok events, k1)" by simp
    from handoff_acyclic [OF reachable_desk_ok [OF assms] this] cyclic show False by auto
  qed
  then obtain e where "x = Err e" by (cases x) auto
  with t handle_plan_Err [of env ?c k e t] show "\<exists>e t. handle_plan_command env ?c k = (Err e, t)
      \<and> dk_plans t = dk_plans k \<and> dk_session t = restore_domain (dk_session k) (dk_session t)"
    by (auto simp: restore_domain_def)
qed

lemma demo_cycle:
  "\<not> acyclic (step_edges (decided_plan demo_trust_env PlanAccept (demo_document [''step_2''])))"
proof -
  let ?p = "decided_plan demo_trust_env PlanAccept (demo_document [''step_2''])"
  have steps: "map (\<lambda>s. (pt_id s, pt_dependencies s)) (pd_steps ?p) = [(''step_1'', [''step_2'']), (''step_2'', [''step_1''])]"
    by code_simp
  have "(x, d) \<in> step_edges ?p" if "(x, ds) \<in> set (map (\<lambda>s. (pt_id s, pt_dependencies s)) (pd_steps ?p))" "d \<in> set ds" for x d ds
    using that by (auto simp: step_edges_def)
  then have "(''step_1'', ''step_2'') \<in> step_edges ?p" "(''step_2'', ''step_1'') \<in> step_edges ?p"
    unfolding steps by auto
  then show ?thesis
    unfolding acyclic_def by (meson trancl.intros)
qed

theorem handed_off_plans_are_acyclic_witness:
  "\<exists>e t. handle_plan_command demo_trust_env (HandOffPlanDocument ''plan-1'' 1 demo_digest) (demo_accepted [''step_2'']) = (Err e, t)
     \<and> dk_plans t = dk_plans (demo_accepted [''step_2''])"
proof -
  have "plan_by_id ''plan-1'' (demo_accepted [''step_2'']) = Some (decided_plan demo_trust_env PlanAccept (demo_document [''step_2'']))"
    by (simp add: demo_accepts) code_simp
  with handed_off_plans_are_acyclic [OF demo_plans_reachable(3) [of "[''step_2'']"]] demo_cycle show ?thesis
    by blast
qed

text \<open>But an accepted plan with a cycle that passes the checks of a handoff leaves the record of a successful
  handoff in the audit log before the DAG is refused, although no handoff takes place.\<close>

lemma refused_handoff_is_recorded:
  assumes "plan_reachable sha envs k" "plan_by_id i k = Some p" "\<not> acyclic (step_edges p)"
    and "plan_handoff_preflight k i (pd_revision p) (pd_content_sha p) = Ok p"
    and "append_trust_audit env (plan_audit env p ''plan.handed_off'' (pin_args p @ handoff_args p)) (dk_session k) = (Ok (), s)"
  shows "\<exists>e t rec. handle_plan_command env (HandOffPlanDocument i (pd_revision p) (pd_content_sha p)) k = (Err e, t)
    \<and> dk_plans t = dk_plans k \<and> dk_session t = (dk_session k)\<lparr>ss_audit := ss_audit (dk_session k) @ [rec]\<rparr>
    \<and> au_action rec = ''plan.handed_off'' \<and> au_outcome rec = AuditSuccess"
proof -
  let ?c = "HandOffPlanDocument i (pd_revision p) (pd_content_sha p)"
  let ?specs = "plan_task_specs p (dk_mode k)"
  have "content_ok sha p"
    using reachable_desk_ok [OF assms(1)] plan_by_id_Some [OF assms(2)] by (simp add: desk_ok_def)
  then have "validate_agent_dag_tasks (map sanitize_task_spec ?specs) \<noteq> Ok ()"
    using dag_refuses_cycle assms(3) by blast
  then obtain m where m: "dag_preflight ?specs = Err m"
    by (cases "dag_preflight ?specs") (auto simp: dag_preflight_def guarded_Inr is_ok_iff)
  from plan_audit_recorded [OF assms(5)] obtain rec where rec: "s = (dk_session k)\<lparr>ss_audit := ss_audit (dk_session k) @ [rec]\<rparr>"
      "au_action rec = ''plan.handed_off''" "au_outcome rec = AuditSuccess"
    by auto
  have run: "run_plan_command env ?c k = (Err m, k\<lparr>dk_session := s\<rparr>)"
    using assms(4,5) m by (simp add: hand_off_plan_document_def op_check_def op_bind_def at_session_def start_agent_dag_def)
  then obtain t where t: "handle_plan_command env ?c k = (Err m, t)"
    by (simp add: handle_plan_command_def op_bind_def)
  from handle_plan_Err [OF t] run rec show ?thesis
    using t by (auto simp: restore_domain_def)
qed

lemma refused_handoff_is_recorded_witness:
  "\<exists>e t rec. handle_plan_command demo_trust_env (HandOffPlanDocument ''plan-1'' 1 demo_digest) (demo_accepted [''step_2'']) = (Err e, t)
     \<and> ss_audit (dk_session t) = ss_audit (dk_session (demo_accepted [''step_2''])) @ [rec] \<and> au_outcome rec = AuditSuccess"
proof -
  let ?k = "demo_accepted [''step_2'']" and ?p = "decided_plan demo_trust_env PlanAccept (demo_document [''step_2''])"
  let ?audit = "append_trust_audit demo_trust_env (plan_audit demo_trust_env ?p ''plan.handed_off'' (pin_args ?p @ handoff_args ?p)) (dk_session ?k)"
  have pins: "pd_plan_id ?p = ''plan-1''" "pd_revision ?p = 1" "pd_content_sha ?p = demo_digest"
    by code_simp+
  have "is_ok (fst ?audit)" "is_ok (plan_handoff_preflight ?k ''plan-1'' 1 demo_digest)"
    by code_simp+
  then obtain s q where s: "?audit = (Ok (), s)" "plan_handoff_preflight ?k ''plan-1'' 1 demo_digest = Ok q"
    by (cases ?audit; cases "fst ?audit"; cases "plan_handoff_preflight ?k ''plan-1'' 1 demo_digest") auto
  have found: "plan_by_id ''plan-1'' ?k = Some ?p"
    using pins(1) by (simp add: demo_accepts)
  with s(2) have "q = ?p"
    by (simp add: plan_handoff_preflight_Ok)
  from refused_handoff_is_recorded [OF demo_plans_reachable(3) found demo_cycle _ s(1)] s(2) \<open>q = ?p\<close> pins show ?thesis
    by fastforce
qed

end
