(* ===== verification/Spec2Isabelle.thy ===== *)
theory Spec2Isabelle
  imports Gate_Safety Read_Safety Trust_Safety Conflict_Safety Patch_Conflict Diff_Safety
    Applied_Limits Plan_Digest Plan_Safety
begin

text \<open>
  Verification library of the viden runtime: the decisions that stand between an agent and the
  working tree. The program is a set of Rust crates; an agent asks to run tools, a permission engine
  decides, an operator may be asked, and supervised work is only accepted on evidence that the store
  still holds, with an audit record behind every trust fact.

  Parts of the program and the theories that model them.

  \<^item> \<open>Path_Scope\<close>, \<open>Tool_Input\<close>, \<open>Permission_Engine\<close>: \<open>crates/permissions/src/lib.rs\<close>, with the
    types of \<open>crates/types\<close>. The state is \<open>permission_engine\<close> (the field \<open>context\<close> and the working
    directory); \<open>decide\<close> is the cascade of the code, \<open>apply_approval\<close> its answer to the operator.
    Paths are normalised on strings, as \<open>normalize_path\<close> does; nothing reads the file system.
  \<^item> \<open>Permission_Gate\<close>: \<open>resolve_permission\<close>, the loop of decide, ask and apply, with its bound of
    eight questions. The operator is a function of the round, the question and the prompt. The locale
    \<open>permission_decider\<close> states what the loop relies on; it is interpreted on the plain engine and on
    the shared one.
  \<^item> \<open>Execution_Backstop\<close>: \<open>crates/runtime/src/permission_gate.rs\<close>, the engine under its lock with
    the one-shot clearances (at most 32 are held) and the check made again before execution.
  \<^item> \<open>Core_Types\<close>, \<open>Text_Redaction\<close>: the records of supervised work, and what may be written into
    durable text.
  \<^item> \<open>Audit_Timeline\<close>, \<open>Keyset_Paging\<close>, \<open>Paged_Reads\<close>: the append of audit records with their
    bounds, and the three paged reads (pages of at most 500, 200 and 200 rows). The locale of keyset
    paging proves once that a client that follows the cursors reads each row once; it is interpreted
    on the three readers.
  \<^item> \<open>Context_Store\<close>, \<open>Context_Integrity\<close>: \<open>crates/context/src/store.rs\<close>, blobs by hash and a log of
    metadata lines. SHA-256 and the JSON codec are arguments with their documented laws as hypotheses.
  \<^item> \<open>Task_Graph\<close>, \<open>Evidence_Gate\<close>: the search for dependency cycles, and the reduction of a gate
    over its canonical evidence (\<open>crates/runtime/src/runtime_contract.rs\<close>).
  \<^item> \<open>Trust_Session\<close>, \<open>Review_Loop\<close>, \<open>Dependency_Conflict\<close>, \<open>Gate_Decisions\<close>,
    \<open>Evidence_Recording\<close>: the operations of \<open>crates/runtime/src/trust_loop.rs\<close> and of the merge
    gates. The state is \<open>session\<close>, the fields of \<open>SessionRuntime\<close> these operations touch. An
    operation validates, asks for permission, appends its audit record and only then changes the
    session; \<open>trust_operation\<close> is that shape. Clocks, fresh identifiers, the provider of answers and
    the outcome of the audit append are fields of \<open>trust_env\<close>.
  \<^item> \<open>Trust_Commands\<close>: validation of a command, its operation, the persistence of its events and the
    rollback of a rejected command (\<open>handle_runtime_command\<close>).

  \<^item> \<open>Unified_Diff\<close>, \<open>Patch_Apply\<close>, \<open>Work_Tree\<close>, \<open>Patch_Files\<close>: the local patch backend
    (\<open>crates/tools/src/patch.rs\<close>). One scan of the diff text feeds the strict apply and the structured
    document. \<open>work_tree\<close> is the file system below the root as \<open>std::fs\<close> shows it; the calls that
    change it take their fault as an argument, and \<open>patch_env\<close> holds the faults of a run and the
    outcome of its commit. Paths are prepared, written and rolled back as the code does it.
  \<^item> \<open>Recovery_Store\<close>: \<open>crates/workflows/src/recovery.rs\<close>, what a patch overwrites, kept by hash
    under a manifest whose hash is the reference. \<open>recovery_disk\<close> is the private directory, with the
    handles, modes and locks left out; the hash and the codec of the manifest are arguments.
  \<^item> \<open>Tree_Rollback\<close>, \<open>Applied_Changes\<close>: the merge of an accepted patch and its revert
    (\<open>merge_agent_patch\<close> in \<open>runtime_contract.rs\<close>, \<open>revert_applied_change\<close> in \<open>trust_loop.rs\<close>) with the
    runtime's own staging and restoring of files. The state is \<open>workshop\<close>: the session, the tree, the
    recovery directory, the staging of the transaction and the stagings kept by applied change.
    \<open>handle_patch_command\<close> is the transaction around the two commands; the session of a trust command
    and the tree of the patch backend are the parts it is made of.

  \<^item> \<open>Plan_Documents\<close>: \<open>crates/types/src/plan.rs\<close> and \<open>crates/runtime/src/plan_documents.rs\<close>, the
    plans that are drafted, proposed, decided and handed off as an agent DAG. The state is
    \<open>plan_desk\<close>: the session, the plans and the mode the runtime shows; \<open>handle_plan_command\<close> is the
    transaction around the four commands. The hash is the argument the context store takes too.

  What is proved. \<open>Permission_Safety\<close> and \<open>Gate_Safety\<close>: calls that are allowed stay in scope, deny
  rules win, in plan mode the gate denies every mutating call that no allow rule matches, whatever the
  operator answers, approvals stick and are revocable, the gate ends, and what runs is what was seen. \<open>Context_Integrity\<close>: round trips of the store and its log.
  \<open>Decision_Safety\<close>, \<open>Conflict_Safety\<close>: what an operator's acceptance of a gate, a decided review and a
  revalidated conflict have behind them, and what a decided review leaves as it was. \<open>Trust_Invariants\<close>, \<open>Trust_Operations\<close>, \<open>Command_Safety\<close>,
  \<open>Trust_Safety\<close>: the invariant of the session, preserved by every trust operation, lifted to every
  session that the trust commands can reach; the commands that merge or revert a patch are not steps of
  these sessions. \<open>Read_Safety\<close>: completeness of the paged reads, redaction,
  and the cycle search. \<open>Demo_Session\<close> is a concrete session on which the theorems with hypotheses
  are applied. \<open>Patch_Midway\<close>, \<open>Patch_Rollback\<close>, \<open>Patch_Targets\<close>, \<open>Patch_Outcome\<close>: the shape of a
  tree in the middle of a patch, and why the rollback gives every node back; \<open>Patch_Safety\<close> draws
  from them that a patch stays on its paths and, when none of its paths lies below another, is undone
  when it fails and published when nothing does; a patch that creates a file and a file below it is the
  case that is left half done. \<open>Patch_Conflict\<close>, \<open>Diff_Safety\<close>: the strict apply against the placement of hunks, the document
  and the published conflict against the patch, with their bounds. \<open>Recovery_Integrity\<close>: a snapshot
  loads back to what was written, or not at all. \<open>Tree_Restores\<close>, \<open>Tree_Shape\<close>, \<open>Applied_Steps\<close>: the
  runtime's restoring gives a half-written tree back, a patch that could be written has no path below
  another, and the steps of a merge. \<open>Applied_Safety\<close> draws from them that a merge needs evidence and a
  permission on a request with the patch, publishes the text sections of the patch and a snapshot of
  what they overwrote, is all or nothing when no path lies below another, and is given back by its
  revert, which is audited first and refuses later work; \<open>Applied_Limits\<close> what becomes of a refused
  patch, and where a merge does less than its documents say.
  \<open>Applied_Demo\<close> is the concrete merge and revert behind their witnesses. \<open>Plan_Steps\<close>: what each
  operation on plans does, with the list of plans as a keyed store. \<open>Plan_Invariant\<close>: one open plan
  for an owner, numbered steps, digests that match and an audit record for every settlement, in every
  state the commands reach. \<open>Plan_Safety\<close>: a decision takes effect on the revision it names alone, the
  work of a handoff mirrors the plan, and no plan with a cycle is ever handed off. \<open>Plan_Digest\<close>: what
  the digest fixes of a plan, and the commas and empty paths that it does not see. \<open>Plan_Demo\<close> holds the plans of their witnesses.

  Bounds. The permission gate recurses on the constant eight of the code. The cycle search is a total
  function on a lexicographic measure (unvisited nodes, then the worklist). A client of the paged
  reads is given as many rounds as there are rows left, which the theorems show to be enough.
  Numbers that the code keeps in 64 bits are words of that width where the code computes on them.

  Faults of the file system are inputs: directories that are made down to some depth only, a file that
  cannot be opened, a write that leaves some of its bytes, permissions that cannot be set, a snapshot
  that fails before or after it has its name. Reading a file and removing an empty directory do not
  fail for permissions. The restoring of files is proved to give the tree back when it meets no fault.

  Not modelled: turns of the language model and the provider crates; processes and git worktrees, so
  what Git says of \<open>HEAD\<close> is an argument; the context reducer; the frontends and their projections;
  the JSON parser of the planner's tool, so that a draft starts parsed; configuration files and
  plugins; locks, which are taken to make each operation atomic; file handles that are
  opened without following links, because here nothing changes the tree between a check and the call
  after it; wire formats of serde.
\<close>

end
